(* ===== verification/Prelude.thy ===== *)
theory Prelude
  imports
    Main
    "HOL-Library.Word"
    "HOL-Library.Finite_Map"
    "HOL-Library.Char_ord"
    "HOL-Library.List_Lexorder"
begin

text \<open>
  Shared vocabulary of the development.

  Rust strings are sequences of UTF-8 bytes.  They are modelled by \<open>string\<close>, whose
  characters are bytes, so that \<open>length\<close> is \<open>str::len\<close> and the list order is the byte order
  of \<open>str\<close>.  The functions below are the parts of the Rust standard library on \<open>str\<close>,
  \<open>Vec\<close>, \<open>IndexMap\<close> and \<open>HashMap\<close> that the planner uses:
    \<^item> \<open>strip_prefix\<close>, \<open>split_once\<close>, \<open>rsplit_once\<close>, \<open>split_on\<close>, \<open>join\<close>, \<open>trim\<close> on strings;
    \<^item> an \<open>IndexMap\<close> (\<open>OrderedMap\<close>, and the object of a JSON value) is an association list in
      insertion order, with \<open>omap_get\<close>, \<open>omap_insert\<close> and \<open>omap_keys\<close>;
    \<^item> a \<open>HashMap\<close> is a finite map \<open>fmap\<close>, a \<open>HashSet\<close> is a \<open>set\<close>;
    \<^item> \<open>Result\<close> is a sum with the error on the left.
  The file also holds the collections of rewrite rules that the component proofs share.
\<close>

named_theorems str_simps \<open>rules on string operations\<close>
named_theorems omap_simps \<open>rules on ordered maps\<close>

section \<open>Results\<close>

fun is_err :: "'e + 'a \<Rightarrow> bool" where
  "is_err (Inl _) = True"
| "is_err (Inr _) = False"

definition ok_or :: "'a option \<Rightarrow> 'e \<Rightarrow> 'e + 'a" where
  "ok_or x e = (case x of None \<Rightarrow> Inl e | Some a \<Rightarrow> Inr a)"

lemma ok_or_simps [simp]: "ok_or None e = Inl e" "ok_or (Some a) e = Inr a"
  by (simp_all add: ok_or_def)

lemma ok_or_eq_Inr [simp]: "ok_or x e = Inr a \<longleftrightarrow> x = Some a"
  by (cases x) simp_all

text \<open>\<open>Option::is_some_and\<close> and \<open>Option::is_none_or\<close>.\<close>

definition is_some_and :: "'a option \<Rightarrow> ('a \<Rightarrow> bool) \<Rightarrow> bool" where
  "is_some_and x P = (case x of None \<Rightarrow> False | Some a \<Rightarrow> P a)"

definition is_none_or :: "'a option \<Rightarrow> ('a \<Rightarrow> bool) \<Rightarrow> bool" where
  "is_none_or x P = (case x of None \<Rightarrow> True | Some a \<Rightarrow> P a)"

lemma is_some_and_simps [simp]: "is_some_and None P = False" "is_some_and (Some a) P = P a"
  by (simp_all add: is_some_and_def)

lemma is_none_or_simps [simp]: "is_none_or None P = True" "is_none_or (Some a) P = P a"
  by (simp_all add: is_none_or_def)

lemma is_some_and_iff: "is_some_and x P \<longleftrightarrow> (\<exists>a. x = Some a \<and> P a)"
  by (cases x) simp_all

lemma is_none_or_iff: "is_none_or x P \<longleftrightarrow> (\<forall>a. x = Some a \<longrightarrow> P a)"
  by (cases x) simp_all

text \<open>\<open>Option::filter\<close>, \<open>Option::or\<close> and \<open>unwrap_or\<close>.\<close>

definition opt_filter :: "('a \<Rightarrow> bool) \<Rightarrow> 'a option \<Rightarrow> 'a option" where
  "opt_filter P x = (case x of None \<Rightarrow> None | Some a \<Rightarrow> if P a then Some a else None)"

definition or_else :: "'a option \<Rightarrow> 'a option \<Rightarrow> 'a option" where
  "or_else x y = (case x of None \<Rightarrow> y | Some a \<Rightarrow> Some a)"

definition unwrap_or :: "'a option \<Rightarrow> 'a \<Rightarrow> 'a" where
  "unwrap_or x d = (case x of None \<Rightarrow> d | Some a \<Rightarrow> a)"

lemma opt_filter_simps [simp]:
  "opt_filter P None = None" "opt_filter P (Some a) = (if P a then Some a else None)"
  by (simp_all add: opt_filter_def)

lemma opt_filter_eq_Some [simp]: "opt_filter P x = Some a \<longleftrightarrow> x = Some a \<and> P a"
  by (cases x) auto

lemma or_else_simps [simp]: "or_else None y = y" "or_else (Some a) y = Some a"
  by (simp_all add: or_else_def)

lemma unwrap_or_simps [simp]: "unwrap_or None d = d" "unwrap_or (Some a) d = a"
  by (simp_all add: unwrap_or_def)

text \<open>The first error of a list of checks (\<open>Iterator::find_map\<close>, or \<open>?\<close> in a loop).\<close>

definition first_some :: "'a option list \<Rightarrow> 'a option" where
  "first_some xs = (case filter (\<lambda>x. x \<noteq> None) xs of [] \<Rightarrow> None | x # _ \<Rightarrow> x)"

lemma first_some_None: "first_some xs = None \<longleftrightarrow> (\<forall>x \<in> set xs. x = None)"
  by (induction xs) (auto simp: first_some_def)

lemma first_some_SomeD: "first_some xs = Some e \<Longrightarrow> Some e \<in> set xs"
  by (induction xs) (auto simp: first_some_def split: if_splits)

lemma first_some_map_None: "first_some (map f xs) = None \<longleftrightarrow> (\<forall>x \<in> set xs. f x = None)"
  by (auto simp: first_some_None)

section \<open>Strings\<close>

fun strip_prefix :: "'a list \<Rightarrow> 'a list \<Rightarrow> 'a list option" where
  "strip_prefix [] s = Some s"
| "strip_prefix (p # ps) [] = None"
| "strip_prefix (p # ps) (c # cs) = (if p = c then strip_prefix ps cs else None)"

lemma strip_prefix_eq_Some [str_simps]: "strip_prefix p s = Some r \<longleftrightarrow> s = p @ r"
  by (induction p s rule: strip_prefix.induct) auto

lemma strip_prefix_append [simp]: "strip_prefix p (p @ r) = Some r"
  by (simp add: strip_prefix_eq_Some)

lemma strip_prefix_self [simp]: "strip_prefix p p = Some []"
  by (simp add: strip_prefix_eq_Some)

lemma strip_prefix_None: "strip_prefix p s = None \<longleftrightarrow> (\<forall>r. s \<noteq> p @ r)"
  by (metis not_Some_eq strip_prefix_eq_Some)

definition starts_with :: "string \<Rightarrow> string \<Rightarrow> bool" where
  "starts_with s p = (strip_prefix p s \<noteq> None)"

definition ends_with :: "string \<Rightarrow> string \<Rightarrow> bool" where
  "ends_with s p = (strip_prefix (rev p) (rev s) \<noteq> None)"

lemma starts_with_iff [str_simps]: "starts_with s p \<longleftrightarrow> (\<exists>r. s = p @ r)"
  by (auto simp: starts_with_def strip_prefix_eq_Some)

lemma ends_with_iff [str_simps]: "ends_with s p \<longleftrightarrow> (\<exists>r. s = r @ p)"
proof -
  have "ends_with s p \<longleftrightarrow> (\<exists>r. rev s = rev p @ r)"
    by (auto simp: ends_with_def strip_prefix_eq_Some)
  also have "\<dots> \<longleftrightarrow> (\<exists>r. s = r @ p)"
    by (metis rev_append rev_rev_ident)
  finally show ?thesis .
qed

text \<open>\<open>str::split_once\<close> splits at the first, \<open>str::rsplit_once\<close> at the last occurrence.\<close>

fun split_once :: "'a list \<Rightarrow> 'a list \<Rightarrow> ('a list \<times> 'a list) option" where
  "split_once sep [] = (if sep = [] then Some ([], []) else None)"
| "split_once sep (c # cs) =
     (case strip_prefix sep (c # cs) of
        Some r \<Rightarrow> Some ([], r)
      | None \<Rightarrow> map_option (\<lambda>(a, b). (c # a, b)) (split_once sep cs))"

definition rsplit_once :: "'a list \<Rightarrow> 'a list \<Rightarrow> ('a list \<times> 'a list) option" where
  "rsplit_once sep s = map_option (\<lambda>(a, b). (rev b, rev a)) (split_once (rev sep) (rev s))"

lemma split_once_Some_append: "split_once sep s = Some (a, b) \<Longrightarrow> s = a @ sep @ b"
proof (induction sep s arbitrary: a b rule: split_once.induct)
  case (1 sep)
  then show ?case by (auto split: if_splits)
next
  case (2 sep c cs)
  then show ?case by (auto simp: strip_prefix_eq_Some split: option.splits)
qed

lemma split_once_again:
  assumes "split_once sep s = Some (a, b)"
  shows "split_once sep (a @ sep @ b) = Some (a, b)" and "a @ sep @ b = s"
  using split_once_Some_append [OF assms] assms by simp_all

lemma rsplit_once_Some_append:
  assumes "rsplit_once sep s = Some (a, b)"
  shows "s = a @ sep @ b"
proof -
  from assms have "split_once (rev sep) (rev s) = Some (rev b, rev a)"
    by (auto simp: rsplit_once_def)
  then have "rev s = rev b @ rev sep @ rev a" by (rule split_once_Some_append)
  then show ?thesis by (simp flip: rev_append)
qed

lemma split_once_char_Cons:
  "split_once [c] (d # ds) =
     (if d = c then Some ([], ds) else map_option (\<lambda>(a, b). (d # a, b)) (split_once [c] ds))"
  by simp

lemma split_once_char_Some:
  "split_once [c] s = Some (a, b) \<longleftrightarrow> s = a @ c # b \<and> c \<notin> set a"
proof (induction s arbitrary: a)
  case Nil
  then show ?case by simp
next
  case (Cons d ds)
  show ?case
  proof (cases "d = c")
    case True
    then show ?thesis by (cases a) auto
  next
    case False
    then have "split_once [c] (d # ds) = Some (a, b) \<longleftrightarrow>
        (\<exists>a'. a = d # a' \<and> split_once [c] ds = Some (a', b))"
      by (auto simp: split_once_char_Cons simp del: split_once.simps)
    with False Cons.IH show ?thesis by (cases a) auto
  qed
qed

lemma split_once_char_None: "split_once [c] s = None \<longleftrightarrow> c \<notin> set s"
  by (induction s) auto

lemma split_once_char_at: "c \<notin> set a \<Longrightarrow> split_once [c] (a @ c # b) = Some (a, b)"
  by (simp add: split_once_char_Some)

lemma rsplit_once_char_Some:
  "rsplit_once [c] s = Some (a, b) \<longleftrightarrow> s = a @ c # b \<and> c \<notin> set b"
proof -
  have "rsplit_once [c] s = Some (a, b) \<longleftrightarrow> split_once [c] (rev s) = Some (rev b, rev a)"
    by (auto simp: rsplit_once_def)
  also have "\<dots> \<longleftrightarrow> rev s = rev b @ c # rev a \<and> c \<notin> set b"
    by (simp add: split_once_char_Some)
  also have "rev s = rev b @ c # rev a \<longleftrightarrow> s = a @ c # b"
    by (metis append.assoc append_Cons append_Nil rev.simps(2) rev_append rev_rev_ident)
  finally show ?thesis .
qed

lemma rsplit_once_char_None: "rsplit_once [c] s = None \<longleftrightarrow> c \<notin> set s"
  by (simp add: rsplit_once_def split_once_char_None)

text \<open>\<open>str::split\<close> at every character that satisfies the pattern.\<close>

fun split_on :: "('a \<Rightarrow> bool) \<Rightarrow> 'a list \<Rightarrow> 'a list list" where
  "split_on P [] = [[]]"
| "split_on P (c # cs) =
     (if P c then [] # split_on P cs
      else (case split_on P cs of [] \<Rightarrow> [[c]] | w # ws \<Rightarrow> (c # w) # ws))"

lemma split_on_nonempty [simp]: "split_on P s \<noteq> []"
  by (cases s) (auto split: list.splits)

lemma split_on_no_sep: "w \<in> set (split_on P s) \<Longrightarrow> c \<in> set w \<Longrightarrow> \<not> P c"
  by (induction P s arbitrary: w rule: split_on.induct)
     (fastforce split: if_splits list.splits)+

lemma split_on_none: "\<forall>c \<in> set s. \<not> P c \<Longrightarrow> split_on P s = [s]"
  by (induction s) auto

lemma split_on_append: "P c \<Longrightarrow> split_on P (a @ c # b) = split_on P a @ split_on P b"
proof (induction a)
  case Nil
  then show ?case by simp
next
  case (Cons d ds)
  then show ?case by (cases "split_on P ds") (auto split: list.splits)
qed

text \<open>\<open>[str]::join\<close>.\<close>

fun join :: "'a list \<Rightarrow> 'a list list \<Rightarrow> 'a list" where
  "join sep [] = []"
| "join sep [w] = w"
| "join sep (w # v # ws) = w @ sep @ join sep (v # ws)"

lemma join_split_on: "join [c] (split_on (\<lambda>x. x = c) s) = s"
proof (induction s)
  case Nil
  then show ?case by simp
next
  case (Cons d ds)
  then show ?case
    by (cases "split_on (\<lambda>x. x = c) ds"; cases "tl (split_on (\<lambda>x. x = c) ds)") auto
qed

fun contains_str :: "'a list \<Rightarrow> 'a list \<Rightarrow> bool" where
  "contains_str [] p = (p = [])"
| "contains_str (c # cs) p = (strip_prefix p (c # cs) \<noteq> None \<or> contains_str cs p)"

lemma contains_str_iff [str_simps]: "contains_str s p \<longleftrightarrow> (\<exists>a b. s = a @ p @ b)"
proof (induction s)
  case Nil
  then show ?case by auto
next
  case (Cons c cs)
  have "(\<exists>a b. c # cs = a @ p @ b) \<longleftrightarrow> (\<exists>b. c # cs = p @ b) \<or> (\<exists>a b. cs = a @ p @ b)"
    by (metis (no_types, opaque_lifting) append.simps(1) append_eq_Cons_conv)
  with Cons show ?case by (auto simp: strip_prefix_eq_Some)
qed


subsection \<open>Characters of UTF-8 text\<close>

text \<open>
  The encodings of the 25 characters with the Unicode property White_Space, which is what
  \<open>str::trim\<close> removes and \<open>str::split_whitespace\<close> splits at.  None is a prefix of another.
\<close>

definition white_space_encodings :: "string list" where
  "white_space_encodings =
     map (map char_of)
       ([[9], [10], [11], [12], [13], [32], [194, 133], [194, 160], [225, 154, 128],
         [226, 128, 128], [226, 128, 129], [226, 128, 130], [226, 128, 131], [226, 128, 132],
         [226, 128, 133], [226, 128, 134], [226, 128, 135], [226, 128, 136], [226, 128, 137],
         [226, 128, 138], [226, 128, 168], [226, 128, 169], [226, 128, 175], [226, 129, 159],
         [227, 128, 128]] :: nat list list)"

text \<open>The rest of a string after one leading white-space character, if it has one.\<close>

definition strip_first :: "string list \<Rightarrow> string \<Rightarrow> string option" where
  "strip_first ws s = fold (\<lambda>w acc. or_else acc (strip_prefix w s)) ws None"

lemma fold_or_else_strip:
  "fold (\<lambda>w acc. or_else acc (strip_prefix w s)) ws acc = Some r \<Longrightarrow>
     acc = Some r \<or> (\<exists>w \<in> set ws. s = w @ r)"
proof (induction ws arbitrary: acc)
  case Nil
  then show ?case by simp
next
  case (Cons w ws)
  then have "or_else acc (strip_prefix w s) = Some r \<or> (\<exists>w \<in> set ws. s = w @ r)"
    by simp
  then show ?case
    by (cases acc) (auto simp: strip_prefix_eq_Some)
qed

lemma strip_first_Some: "strip_first ws s = Some r \<Longrightarrow> \<exists>w \<in> set ws. s = w @ r"
  using fold_or_else_strip [of s ws None r] by (simp add: strip_first_def)

lemma white_space_encodings_nonempty: "w \<in> set white_space_encodings \<Longrightarrow> w \<noteq> []"
  by (auto simp: white_space_encodings_def)

lemma strip_first_shorter:
  assumes "\<forall>w \<in> set ws. w \<noteq> []" and "strip_first ws s = Some r"
  shows "length r < length s"
  using strip_first_Some [OF assms(2)] assms(1) by auto

lemma strip_white_space_shorter:
  "strip_first white_space_encodings s = Some r \<Longrightarrow> length r < length s"
  by (rule strip_first_shorter) (auto dest: white_space_encodings_nonempty)

function trim_leading :: "string list \<Rightarrow> string \<Rightarrow> string" where
  "trim_leading ws s =
     (if \<forall>w \<in> set ws. w \<noteq> [] then
        (case strip_first ws s of None \<Rightarrow> s | Some r \<Rightarrow> trim_leading ws r)
      else s)"
  by pat_completeness auto
termination
  by (relation "measure (\<lambda>(ws, s). length s)") (auto dest: strip_first_shorter)

declare trim_leading.simps [simp del]

definition trim_start :: "string \<Rightarrow> string" where
  "trim_start s = trim_leading white_space_encodings s"

definition trim_end :: "string \<Rightarrow> string" where
  "trim_end s = rev (trim_leading (map rev white_space_encodings) (rev s))"

text \<open>\<open>str::trim\<close>.\<close>

definition trim :: "string \<Rightarrow> string" where
  "trim s = trim_end (trim_start s)"

definition is_blank :: "string \<Rightarrow> bool" where
  "is_blank s = (trim s = [])"

lemma trim_Nil [simp]: "trim [] = []"
proof -
  have "trim_leading ws [] = []" for ws
  proof (cases "\<forall>w \<in> set ws. w \<noteq> []")
    case True
    then have "strip_first ws [] = None"
      using strip_first_Some [of ws "[]"] by (cases "strip_first ws []") auto
    with True show ?thesis by (simp add: trim_leading.simps)
  next
    case False
    then show ?thesis by (subst trim_leading.simps) auto
  qed
  then show ?thesis by (simp add: trim_def trim_start_def trim_end_def)
qed

lemma trim_nonempty: "\<not> is_blank s \<Longrightarrow> s \<noteq> []"
  by (auto simp: is_blank_def)

text \<open>A blank string consists of bytes of white-space characters.\<close>

lemma trim_leading_chars:
  "\<forall>w \<in> set ws. w \<noteq> [] \<Longrightarrow> set s \<subseteq> set (concat ws) \<union> set (trim_leading ws s)"
proof (induction ws s rule: trim_leading.induct)
  case (1 ws s)
  show ?case
  proof (cases "strip_first ws s")
    case None
    with 1(2) show ?thesis by (simp add: trim_leading.simps [of ws s])
  next
    case (Some r)
    then obtain w where w: "w \<in> set ws" "s = w @ r" using strip_first_Some by blast
    moreover have "trim_leading ws s = trim_leading ws r"
      using 1(2) Some by (simp add: trim_leading.simps [of ws s])
    moreover have "set r \<subseteq> set (concat ws) \<union> set (trim_leading ws r)"
      using 1(1) [OF 1(2) Some 1(2)] .
    ultimately show ?thesis by auto
  qed
qed

lemma is_blank_chars:
  assumes "is_blank s" shows "set s \<subseteq> set (concat white_space_encodings)"
proof -
  have ws: "\<forall>w \<in> set white_space_encodings. w \<noteq> []" "\<forall>w \<in> set (map rev white_space_encodings). w \<noteq> []"
    using white_space_encodings_nonempty by auto
  have "set s \<subseteq> set (concat white_space_encodings) \<union> set (trim_start s)"
    using trim_leading_chars [OF ws(1)] by (simp add: trim_start_def)
  moreover have "set (trim_start s) \<subseteq> set (concat (map rev white_space_encodings)) \<union> set (trim_end (trim_start s))"
    using trim_leading_chars [OF ws(2), of "rev (trim_start s)"] by (simp add: trim_end_def)
  moreover have "trim_end (trim_start s) = []" using assms by (simp add: is_blank_def trim_def)
  ultimately show ?thesis by auto
qed

text \<open>
  \<open>char::is_control\<close> is the general category Cc: U+0000 to U+001F and U+007F to U+009F.  The
  second range is encoded as the byte 0x7F and as 0xC2 followed by 0x80 to 0x9F, and 0xC2
  occurs in UTF-8 text only as a leading byte.
\<close>

fun has_control :: "string \<Rightarrow> bool" where
  "has_control [] = False"
| "has_control (c # cs) =
     (of_char c < (32 :: nat) \<or> of_char c = (127 :: nat)
      \<or> (of_char c = (194 :: nat)
         \<and> (case cs of [] \<Rightarrow> False | d # _ \<Rightarrow> (128 :: nat) \<le> of_char d \<and> of_char d < (160 :: nat)))
      \<or> has_control cs)"

text \<open>\<open>str::chars().count()\<close>: the bytes that are not continuation bytes.\<close>

definition char_count :: "string \<Rightarrow> nat" where
  "char_count s = length (filter (\<lambda>c. \<not> ((128 :: nat) \<le> of_char c \<and> of_char c < (192 :: nat))) s)"

lemma char_count_le: "char_count s \<le> length s"
  by (simp add: char_count_def)

definition is_lower :: "char \<Rightarrow> bool" where
  "is_lower c = ((97 :: nat) \<le> of_char c \<and> of_char c \<le> (122 :: nat))"

definition is_upper :: "char \<Rightarrow> bool" where
  "is_upper c = ((65 :: nat) \<le> of_char c \<and> of_char c \<le> (90 :: nat))"

definition is_digit :: "char \<Rightarrow> bool" where
  "is_digit c = ((48 :: nat) \<le> of_char c \<and> of_char c \<le> (57 :: nat))"

definition ascii_upper :: "char \<Rightarrow> char" where
  "ascii_upper c = (if is_lower c then char_of ((of_char c :: nat) - 32) else c)"

definition ascii_lower :: "char \<Rightarrow> char" where
  "ascii_lower c = (if is_upper c then char_of ((of_char c :: nat) + 32) else c)"

text \<open>\<open>str::eq_ignore_ascii_case\<close>.\<close>

definition eq_ignore_ascii_case :: "string \<Rightarrow> string \<Rightarrow> bool" where
  "eq_ignore_ascii_case s t = (map ascii_lower s = map ascii_lower t)"

text \<open>A text between single quotes, as the messages print names.\<close>

definition quoted :: "string \<Rightarrow> string" where
  "quoted s = CHR 0x27 # s @ [CHR 0x27]"

subsection \<open>Decimal text\<close>

fun show_nat :: "nat \<Rightarrow> string" where
  "show_nat n =
     (if n < 10 then [char_of (48 + n)] else show_nat (n div 10) @ [char_of (48 + n mod 10)])"

declare show_nat.simps [simp del]

definition show_int :: "int \<Rightarrow> string" where
  "show_int i = (if i < 0 then CHR ''-'' # show_nat (nat (- i)) else show_nat (nat i))"

section \<open>Lists\<close>

text \<open>First occurrences, in order: the \<open>seen.insert(x)\<close> loop over a vector.\<close>

fun unique_from :: "'a set \<Rightarrow> 'a list \<Rightarrow> 'a list" where
  "unique_from seen [] = []"
| "unique_from seen (x # xs) =
     (if x \<in> seen then unique_from seen xs else x # unique_from (insert x seen) xs)"

lemma set_unique_from [simp]: "set (unique_from seen xs) = set xs - seen"
  by (induction xs arbitrary: seen) auto

lemma distinct_unique_from [simp]: "distinct (unique_from seen xs)"
  by (induction xs arbitrary: seen) auto

lemma unique_from_distinct:
  "distinct xs \<Longrightarrow> set xs \<inter> seen = {} \<Longrightarrow> unique_from seen xs = xs"
proof (induction xs arbitrary: seen)
  case Nil
  then show ?case by simp
next
  case (Cons x xs)
  then have "set xs \<inter> insert x seen = {}" by auto
  with Cons show ?case by simp
qed

text \<open>Push unless already present.\<close>

definition push_new :: "'a list \<Rightarrow> 'a \<Rightarrow> 'a list" where
  "push_new xs x = (if x \<in> set xs then xs else xs @ [x])"

lemma set_push_new [simp]: "set (push_new xs x) = insert x (set xs)"
  by (auto simp: push_new_def)

lemma distinct_push_new [simp]: "distinct (push_new xs x) = distinct xs"
  by (auto simp: push_new_def)

text \<open>Lists in which every element comes after the elements it depends on.\<close>

fun deps_first :: "('a \<Rightarrow> 'a set) \<Rightarrow> 'a set \<Rightarrow> 'a list \<Rightarrow> bool" where
  "deps_first deps done [] = True"
| "deps_first deps done (x # xs) = (deps x \<subseteq> done \<and> deps_first deps (insert x done) xs)"

lemma deps_first_append:
  "deps_first deps done (xs @ ys) \<longleftrightarrow>
     deps_first deps done xs \<and> deps_first deps (done \<union> set xs) ys"
  by (induction xs arbitrary: "done") auto

lemma deps_first_mono: "deps_first deps d xs \<Longrightarrow> d \<subseteq> d' \<Longrightarrow> deps_first deps d' xs"
  by (induction xs arbitrary: d d') (auto, blast)

lemma deps_first_nth:
  "deps_first deps {} xs \<longleftrightarrow> (\<forall>i < length xs. deps (xs ! i) \<subseteq> set (take i xs))"
proof -
  have "deps_first deps d xs \<longleftrightarrow> (\<forall>i < length xs. deps (xs ! i) \<subseteq> d \<union> set (take i xs))" for d
  proof (induction xs arbitrary: d)
    case Nil
    then show ?case by simp
  next
    case (Cons x xs)
    have "(\<forall>i < length (x # xs). deps ((x # xs) ! i) \<subseteq> d \<union> set (take i (x # xs))) \<longleftrightarrow>
        deps x \<subseteq> d \<and> (\<forall>i < length xs. deps (xs ! i) \<subseteq> insert x d \<union> set (take i xs))"
      by (simp add: All_less_Suc2)
    with Cons.IH show ?case by simp
  qed
  from this [of "{}"] show ?thesis by simp
qed

section \<open>Maps\<close>

type_synonym 'v omap = "(string \<times> 'v) list"

abbreviation omap_get :: "('k \<times> 'v) list \<Rightarrow> 'k \<Rightarrow> 'v option" where
  "omap_get m k \<equiv> map_of m k"

abbreviation omap_keys :: "('k \<times> 'v) list \<Rightarrow> 'k list" where
  "omap_keys m \<equiv> map fst m"

abbreviation omap_values :: "('k \<times> 'v) list \<Rightarrow> 'v list" where
  "omap_values m \<equiv> map snd m"

definition omap_contains :: "('k \<times> 'v) list \<Rightarrow> 'k \<Rightarrow> bool" where
  "omap_contains m k = (map_of m k \<noteq> None)"

text \<open>\<open>IndexMap::insert\<close> replaces the value in place or appends a new entry.\<close>

fun omap_insert :: "'k \<Rightarrow> 'v \<Rightarrow> ('k \<times> 'v) list \<Rightarrow> ('k \<times> 'v) list" where
  "omap_insert k v [] = [(k, v)]"
| "omap_insert k v ((k', v') # m) =
     (if k' = k then (k, v) # m else (k', v') # omap_insert k v m)"

definition omap_collect :: "('k \<times> 'v) list \<Rightarrow> ('k \<times> 'v) list" where
  "omap_collect ps = fold (\<lambda>(k, v) m. omap_insert k v m) ps []"

text \<open>\<open>entry(k).or_insert(v)\<close>.\<close>

definition omap_or_insert :: "'k \<Rightarrow> 'v \<Rightarrow> ('k \<times> 'v) list \<Rightarrow> ('k \<times> 'v) list" where
  "omap_or_insert k v m = (if omap_contains m k then m else m @ [(k, v)])"

lemma omap_get_insert [omap_simps, simp]:
  "omap_get (omap_insert k v m) k' = (if k' = k then Some v else omap_get m k')"
  by (induction k v m rule: omap_insert.induct) auto

lemma set_keys_omap_insert [omap_simps, simp]:
  "fst ` set (omap_insert k v m) = insert k (fst ` set m)"
  by (induction k v m rule: omap_insert.induct) auto

lemma distinct_omap_insert [omap_simps, simp]:
  "distinct (omap_keys (omap_insert k v m)) = distinct (omap_keys m)"
  by (induction k v m rule: omap_insert.induct) (auto simp: image_iff)

lemma omap_contains_iff [omap_simps]: "omap_contains m k \<longleftrightarrow> k \<in> fst ` set m"
  by (auto simp: omap_contains_def map_of_eq_None_iff)

lemma omap_get_or_insert [omap_simps]:
  "omap_get (omap_or_insert k v m) k' =
     (if k' = k \<and> omap_get m k = None then Some v else omap_get m k')"
  by (auto simp: omap_or_insert_def omap_contains_def map_add_def split: option.splits)

text \<open>Collecting pairs into a \<open>HashMap\<close>: the last value of a key wins.\<close>

definition hash_collect :: "('k \<times> 'v) list \<Rightarrow> ('k, 'v) fmap" where
  "hash_collect ps = fmap_of_list (rev ps)"

lemma fmlookup_hash_collect: "fmlookup (hash_collect ps) k = map_of (rev ps) k"
  by (simp add: hash_collect_def fmlookup_of_list)

lemma fmlookup_hash_collect_distinct:
  "distinct (map fst ps) \<Longrightarrow> fmlookup (hash_collect ps) k = map_of ps k"
proof -
  assume d: "distinct (map fst ps)"
  then have "distinct (map fst (rev ps))" by (simp flip: rev_map)
  with d have "map_of (rev ps) k = Some v \<longleftrightarrow> map_of ps k = Some v" for v
    by (simp add: map_of_eq_Some_iff)
  then have "map_of (rev ps) k = map_of ps k"
    by (metis not_Some_eq)
  then show ?thesis by (simp add: fmlookup_hash_collect)
qed

lemma hash_collect_Some: "fmlookup (hash_collect ps) k = Some v \<Longrightarrow> (k, v) \<in> set ps"
  by (auto simp: fmlookup_hash_collect dest: map_of_SomeD)

lemma hash_collect_None: "fmlookup (hash_collect ps) k = None \<longleftrightarrow> k \<notin> fst ` set ps"
  by (simp add: fmlookup_hash_collect map_of_eq_None_iff image_image)

end
