(* ===== verification/Json.thy ===== *)
theory Json
  imports Prelude
begin

text \<open>
  Values of \<open>serde_json::Value\<close>, as the planner reads and writes them.

  The crate is built with \<open>preserve_order\<close>, so an object is an \<open>IndexMap\<close>: an association
  list in insertion order whose equality ignores the order.  A number keeps the three
  representations of \<open>serde_json::Number\<close>, each at its 64-bit width: an unsigned integer, a
  negative integer in two's complement, and the bits of an IEEE 754 double.
\<close>

type_synonym u64 = "64 word"

datatype json_number =
    PosInt u64
  | NegInt u64
  | Float u64

datatype json =
    JNull
  | JBool bool
  | JNumber json_number
  | JString string
  | JArray "json list"
  | JObject "(string \<times> json) list"

section \<open>Accessors\<close>

definition i64_max :: int where
  "i64_max = 9223372036854775807"

fun number_as_i64 :: "json_number \<Rightarrow> int option" where
  "number_as_i64 (PosInt n) = (if uint n \<le> i64_max then Some (uint n) else None)"
| "number_as_i64 (NegInt n) = Some (sint n)"
| "number_as_i64 (Float _) = None"

fun number_as_u64 :: "json_number \<Rightarrow> nat option" where
  "number_as_u64 (PosInt n) = Some (unat n)"
| "number_as_u64 (NegInt _) = None"
| "number_as_u64 (Float _) = None"

fun is_f64 :: "json_number \<Rightarrow> bool" where
  "is_f64 (Float _) = True"
| "is_f64 _ = False"

fun as_number :: "json \<Rightarrow> json_number option" where
  "as_number (JNumber n) = Some n"
| "as_number _ = None"

definition as_i64 :: "json \<Rightarrow> int option" where
  "as_i64 v = Option.bind (as_number v) number_as_i64"

definition as_u64 :: "json \<Rightarrow> nat option" where
  "as_u64 v = Option.bind (as_number v) number_as_u64"

fun as_str :: "json \<Rightarrow> string option" where
  "as_str (JString s) = Some s"
| "as_str _ = None"

fun as_array :: "json \<Rightarrow> json list option" where
  "as_array (JArray vs) = Some vs"
| "as_array _ = None"

fun as_object :: "json \<Rightarrow> (string \<times> json) list option" where
  "as_object (JObject m) = Some m"
| "as_object _ = None"

definition is_null :: "json \<Rightarrow> bool" where
  "is_null v = (v = JNull)"

definition is_string :: "json \<Rightarrow> bool" where
  "is_string v = (as_str v \<noteq> None)"

definition is_array :: "json \<Rightarrow> bool" where
  "is_array v = (as_array v \<noteq> None)"

definition is_object :: "json \<Rightarrow> bool" where
  "is_object v = (as_object v \<noteq> None)"

fun is_boolean :: "json \<Rightarrow> bool" where
  "is_boolean (JBool _) = True"
| "is_boolean _ = False"

definition is_number :: "json \<Rightarrow> bool" where
  "is_number v = (as_number v \<noteq> None)"

section \<open>Construction\<close>

definition jint :: "int \<Rightarrow> json" where
  "jint i = JNumber (if 0 \<le> i then PosInt (word_of_int i) else NegInt (word_of_int i))"

definition jnat :: "nat \<Rightarrow> json" where
  "jnat n = JNumber (PosInt (of_nat n))"

definition jopt :: "('a \<Rightarrow> json) \<Rightarrow> 'a option \<Rightarrow> json" where
  "jopt f x = (case x of None \<Rightarrow> JNull | Some a \<Rightarrow> f a)"

definition jstrs :: "string list \<Rightarrow> json" where
  "jstrs ss = JArray (map JString ss)"

section \<open>Equality\<close>

text \<open>
  \<open>Value::eq\<close>: objects are equal when they have the same number of entries and each key of
  one has an equal value in the other.  Doubles compare as numbers: the two zeros are equal,
  and no JSON number is a NaN.
\<close>

definition f64_eq :: "u64 \<Rightarrow> u64 \<Rightarrow> bool" where
  "f64_eq a b = (a = b \<or> (push_bit 1 a = 0 \<and> push_bit 1 b = 0))"

fun number_eq :: "json_number \<Rightarrow> json_number \<Rightarrow> bool" where
  "number_eq (PosInt a) (PosInt b) = (a = b)"
| "number_eq (NegInt a) (NegInt b) = (a = b)"
| "number_eq (Float a) (Float b) = f64_eq a b"
| "number_eq _ _ = False"

fun json_eq :: "json \<Rightarrow> json \<Rightarrow> bool" and
  json_list_eq :: "json list \<Rightarrow> json list \<Rightarrow> bool" and
  json_entries_in :: "(string \<times> json) list \<Rightarrow> (string \<times> json) list \<Rightarrow> bool" where
  "json_eq JNull JNull = True"
| "json_eq (JBool a) (JBool b) = (a = b)"
| "json_eq (JNumber a) (JNumber b) = number_eq a b"
| "json_eq (JString a) (JString b) = (a = b)"
| "json_eq (JArray a) (JArray b) = json_list_eq a b"
| "json_eq (JObject a) (JObject b) = (length a = length b \<and> json_entries_in a b)"
| "json_eq _ _ = False"
| "json_list_eq [] [] = True"
| "json_list_eq (a # as) (b # bs) = (json_eq a b \<and> json_list_eq as bs)"
| "json_list_eq _ _ = False"
| "json_entries_in [] b = True"
| "json_entries_in ((k, v) # a) b =
     ((case map_of b k of None \<Rightarrow> False | Some w \<Rightarrow> json_eq v w) \<and> json_entries_in a b)"

lemma f64_eq_refl [simp]: "f64_eq a a"
  by (simp add: f64_eq_def)

lemma number_eq_refl [simp]: "number_eq n n"
  by (cases n) simp_all

section \<open>Facts\<close>

lemma as_str_eq_Some [simp]: "as_str v = Some s \<longleftrightarrow> v = JString s"
  by (cases v) auto

lemma as_array_eq_Some [simp]: "as_array v = Some vs \<longleftrightarrow> v = JArray vs"
  by (cases v) auto

lemma as_object_eq_Some [simp]: "as_object v = Some m \<longleftrightarrow> v = JObject m"
  by (cases v) auto

lemma as_number_eq_Some [simp]: "as_number v = Some n \<longleftrightarrow> v = JNumber n"
  by (cases v) auto

lemma is_null_JNull [simp]: "is_null JNull"
  by (simp add: is_null_def)

lemma is_string_iff: "is_string v \<longleftrightarrow> (\<exists>s. v = JString s)"
  by (cases v) (auto simp: is_string_def)

lemma is_array_iff: "is_array v \<longleftrightarrow> (\<exists>vs. v = JArray vs)"
  by (cases v) (auto simp: is_array_def)

end
