(* ===== verification/Recipe_Model.thy ===== *)
theory Recipe_Model
  imports Json
begin

text \<open>
  The authored recipe model of \<open>model.rs\<close>: recipes, their input declarations, artifacts and
  steps.  Every struct is a record with the source's fields, prefixed by the struct's short
  name because Isabelle keeps one selector per field name; every enum is a datatype.
  \<open>i64\<close> fields are only compared and printed, and are \<open>int\<close>.
\<close>

record input_validation =
  val_must_exist :: bool
  val_allowed_extensions :: "string list"
  val_path_kind :: "string option"
  val_allowed_prefixes :: "string list"

record input_option =
  option_value :: json
  option_label :: string

record input_declaration =
  input_type_name :: string
  input_role :: string
  input_label :: string
  input_description :: "string option"
  input_required :: bool
  input_multiple :: bool
  input_validation :: input_validation
  input_default :: json
  input_options :: "input_option list"
  input_sensitive :: bool
  input_advanced :: bool
  input_metadata :: "json omap"

record remote_file_artifact =
  remote_url :: string
  remote_cache :: string

text \<open>\<open>AppArtifactInputBinding\<close> has the single field \<open>input_id\<close>.\<close>

record app_artifact_input_binding =
  binding_input_id :: string

record app_artifact_reference =
  aref_app_ref :: string
  aref_artifact :: string
  aref_input :: "app_artifact_input_binding option"
  aref_cache :: string

datatype recipe_artifact =
    RemoteFile remote_file_artifact
  | AppArtifact app_artifact_reference

datatype param_value =
    Ref string
  | AppTarget string
  | Literal json

record step_constraints =
  constraint_capabilities :: "string list"
  constraint_conflicts_with :: "string list"

record step_condition =
  cond_type_name :: string
  cond_params :: "json omap"

record step =
  step_id :: string
  step_type_name :: string
  step_name :: string
  step_description :: "string option"
  step_progress_note :: "string option"
  step_user_toggleable :: bool
  step_app_ref :: "string option"
  step_dependencies :: "string list"
  step_constraints :: step_constraints
  step_skip_if :: "step_condition list"
  step_params :: "param_value omap"
  step_verify :: "step_condition list"

text \<open>
  The recipe fields \<open>provides\<close> and \<open>config\<close> are read by the editor and the configuration
  compiler and by no function modelled here; they are omitted.
\<close>

record recipe =
  recipe_schema_version :: int
  recipe_kind :: string
  recipe_id :: string
  recipe_name :: string
  recipe_description :: "string option"
  recipe_dependencies :: "string list"
  recipe_inputs :: "input_declaration omap"
  recipe_artifacts :: "recipe_artifact omap"
  recipe_artifact_groups :: "string list omap"
  recipe_steps :: "step list"

type_synonym recipes = "(string, recipe) fmap"

section \<open>Shape of input values\<close>

definition scalar_input_value_matches :: "string \<Rightarrow> json \<Rightarrow> bool" where
  "scalar_input_value_matches type_name value =
     (if type_name \<in> {''string'', ''enum'', ''file'', ''directory'', ''path'', ''device_path''}
      then is_string value
      else if type_name = ''integer'' then as_i64 value \<noteq> None \<or> as_u64 value \<noteq> None
      else if type_name = ''boolean'' then is_boolean value
      else if type_name = ''object'' then is_object value
      else if type_name \<in> {''string_list'', ''path_list''} then is_array value
      else False)"

definition value_matches_type :: "input_declaration \<Rightarrow> json \<Rightarrow> bool" where
  "value_matches_type d value =
     (if input_multiple d
      then is_some_and (as_array value)
             (\<lambda>items. list_all (scalar_input_value_matches (input_type_name d)) items)
      else if input_type_name d \<in> {''string_list'', ''path_list''}
      then is_some_and (as_array value) (\<lambda>items. list_all is_string items)
      else scalar_input_value_matches (input_type_name d) value)"

definition binding_items :: "input_declaration \<Rightarrow> json \<Rightarrow> json list option" where
  "binding_items d value =
     (if input_multiple d \<or> input_type_name d \<in> {''string_list'', ''path_list''}
      then as_array value
      else Some [value])"

text \<open>The \<open>expect\<close> in \<open>validate_binding_value\<close> never panics: a value of the declared shape
  has items.\<close>

lemma value_matches_type_items:
  "value_matches_type d value \<Longrightarrow> \<exists>items. binding_items d value = Some items"
  by (auto simp: value_matches_type_def binding_items_def is_some_and_iff split: if_splits)

end
