(* ===== verification/Runtime_Refs.thy ===== *)
theory Runtime_Refs
  imports Recipe_Model
begin

text \<open>
  Parsing of authored runtime references and their type metadata, \<open>runtime_refs.rs\<close>.
  \<open>parse_reference\<close> returns \<open>None\<close> for \<open>Err(())\<close>.  The last section characterises the
  accepted texts: the printer \<open>show_ref\<close> is a left inverse up to the segments that the
  syntax can express.
\<close>

datatype runtime_ref =
    RInput string
  | RArtifactField string string
  | RStepShorthand string
  | RStepOutput string string

fun source_kind :: "runtime_ref \<Rightarrow> string" where
  "source_kind (RInput _) = ''input_ref''"
| "source_kind (RArtifactField _ _) = ''artifact_ref''"
| "source_kind (RStepShorthand _) = ''step_output_ref''"
| "source_kind (RStepOutput _ _) = ''step_output_ref''"

definition parse_reference :: "string \<Rightarrow> runtime_ref option" where
  "parse_reference value =
     (case strip_prefix ''inputs.'' value of
        Some target_id \<Rightarrow> if target_id \<noteq> [] then Some (RInput target_id) else None
      | None \<Rightarrow>
     (case strip_prefix ''steps.'' value of
        Some step_body \<Rightarrow>
          (case split_once ''.outputs.'' step_body of
             Some (target_id, field) \<Rightarrow>
               if target_id \<noteq> [] \<and> field \<noteq> [] then Some (RStepOutput target_id field) else None
           | None \<Rightarrow> if step_body \<noteq> [] then Some (RStepShorthand step_body) else None)
      | None \<Rightarrow>
     (case strip_prefix ''artifacts.'' value of
        Some body \<Rightarrow>
          (case rsplit_once ''.'' body of
             Some (target_id, field) \<Rightarrow>
               if target_id \<noteq> [] \<and> field \<noteq> [] then Some (RArtifactField target_id field) else None
           | None \<Rightarrow> None)
      | None \<Rightarrow> None)))"

definition input_value_type :: "string \<Rightarrow> bool \<Rightarrow> string" where
  "input_value_type type_name multiple =
     (if multiple
      then (if type_name \<in> {''string'', ''enum''} then ''string_list'' else ''path_list'')
      else if type_name = ''directory'' then ''directory_path''
      else if type_name = ''file'' then ''file_path''
      else if type_name = ''device_path'' then ''device_path''
      else if type_name = ''path'' then ''path''
      else if type_name = ''string_list'' then ''string_list''
      else if type_name = ''path_list'' then ''path_list''
      else if type_name = ''integer'' then ''integer''
      else if type_name = ''boolean'' then ''boolean''
      else if type_name = ''object'' then ''object''
      else if type_name \<in> {''string'', ''enum''} then ''string''
      else ''file_path'')"

definition artifact_field_value_type :: "string \<Rightarrow> string option" where
  "artifact_field_value_type field =
     (if field = ''cache_hit'' then Some ''boolean''
      else if field = ''local_path'' then Some ''file_path''
      else if field \<in> {''error'', ''filename'', ''resolved_url'', ''status''} then Some ''string''
      else None)"

section \<open>What the parser accepts\<close>

text \<open>The text of a reference; the inverse direction of \<open>parse_reference\<close>.\<close>

fun show_ref :: "runtime_ref \<Rightarrow> string" where
  "show_ref (RInput t) = ''inputs.'' @ t"
| "show_ref (RArtifactField t f) = ''artifacts.'' @ t @ ''.'' @ f"
| "show_ref (RStepShorthand t) = ''steps.'' @ t"
| "show_ref (RStepOutput t f) = ''steps.'' @ t @ ''.outputs.'' @ f"

text \<open>
  The references that have a text of their own: no segment is empty, an artifact field has no
  dot (the parser splits at the last one), and \<open>.outputs.\<close> ends a step id where it first
  occurs.
\<close>

fun wf_ref :: "runtime_ref \<Rightarrow> bool" where
  "wf_ref (RInput t) = (t \<noteq> [])"
| "wf_ref (RArtifactField t f) = (t \<noteq> [] \<and> f \<noteq> [] \<and> CHR ''.'' \<notin> set f)"
| "wf_ref (RStepShorthand t) = (t \<noteq> [] \<and> split_once ''.outputs.'' t = None)"
| "wf_ref (RStepOutput t f) =
     (t \<noteq> [] \<and> f \<noteq> [] \<and> split_once ''.outputs.'' (t @ ''.outputs.'' @ f) = Some (t, f))"

lemma rsplit_once_dot_Some:
  "rsplit_once ''.'' s = Some (a, b) \<longleftrightarrow> s = a @ CHR ''.'' # b \<and> CHR ''.'' \<notin> set b"
  by (rule rsplit_once_char_Some)

lemma parse_show_ref: "wf_ref r \<Longrightarrow> parse_reference (show_ref r) = Some r"
proof (cases r)
  case (RArtifactField t f)
  moreover assume "wf_ref r"
  ultimately have "rsplit_once ''.'' (t @ CHR ''.'' # f) = Some (t, f)"
    by (simp add: rsplit_once_dot_Some)
  with RArtifactField \<open>wf_ref r\<close> show ?thesis by (simp add: parse_reference_def)
qed (auto simp: parse_reference_def)

lemma parse_reference_cases:
  assumes "parse_reference v = Some r"
  obtains (inp) t where "v = ''inputs.'' @ t" "t \<noteq> []" "r = RInput t"
  | (outp) b t f where "v = ''steps.'' @ b" "split_once ''.outputs.'' b = Some (t, f)"
      "t \<noteq> []" "f \<noteq> []" "r = RStepOutput t f"
  | (shorthand) t where "v = ''steps.'' @ t" "split_once ''.outputs.'' t = None" "t \<noteq> []"
      "r = RStepShorthand t"
  | (field) b t f where "v = ''artifacts.'' @ b" "rsplit_once ''.'' b = Some (t, f)"
      "t \<noteq> []" "f \<noteq> []" "r = RArtifactField t f"
  using assms unfolding parse_reference_def
  by (simp only: strip_prefix_eq_Some split: option.split_asm prod.split_asm if_split_asm) auto

lemma parse_reference_sound: "parse_reference v = Some r \<Longrightarrow> wf_ref r \<and> show_ref r = v"
proof (elim parse_reference_cases)
  fix b t f
  assume "v = ''steps.'' @ b" and s: "split_once ''.outputs.'' b = Some (t, f)"
    and "t \<noteq> []" "f \<noteq> []" "r = RStepOutput t f"
  with split_once_again [OF s] show ?thesis by simp
next
  fix b t f
  assume "v = ''artifacts.'' @ b" "rsplit_once ''.'' b = Some (t, f)"
    and "t \<noteq> []" "f \<noteq> []" "r = RArtifactField t f"
  then show ?thesis by (simp add: rsplit_once_dot_Some)
qed simp_all

text \<open>
  C33: \<open>parse_reference\<close> and the printed form of references are inverse to each other: a text
  parses to a reference exactly when it is that reference's printed form and the reference has
  no empty segment and no separator inside a segment where the syntax would split it.
\<close>

theorem parse_reference_iff: "parse_reference v = Some r \<longleftrightarrow> wf_ref r \<and> show_ref r = v"
  using parse_show_ref [of r] parse_reference_sound [of v r] by blast

end
