(* ===== verification/Externals.thy ===== *)
theory Externals
  imports Recipe_Model
begin

text \<open>
  Code that is not in the repository, as parameters of the model.

  \<open>externals\<close> bundles the third-party crates and the Unicode tables of the Rust core library:
  whether \<open>Regex::new\<close> accepts a pattern and \<open>Regex::is_match\<close>, \<open>url::Url::parse\<close>, the length of
  \<open>serde_json::to_vec\<close> and the text of a value, the SHA-256 digest, the text of a URL from which
  the setters of \<open>Url\<close> have removed user name, password, query and fragment, the \<open>Debug\<close> text of
  a string and \<open>str::to_lowercase\<close>.  \<open>host_env\<close> bundles
  what the planner asks the host: \<open>fs::metadata\<close>, \<open>fs::canonicalize\<close>, the current directory
  and the variable \<open>HOME\<close>.  Functions of the model that need one of them take it as an
  argument; nothing is assumed about it unless a theorem says so.
\<close>

type_synonym u8 = "8 word"
type_synonym u16 = "16 word"

datatype url_host =
    Domain string
  | Ipv4 u8 u8 u8 u8
  | Ipv6 "u16 list"

record parsed_url =
  url_scheme :: string
  url_host_of :: "url_host option"
  url_username :: string
  url_password :: "string option"
  url_path :: string
  url_query :: "string option"
  url_fragment :: "string option"

record externals =
  ext_regex_compiles :: "string \<Rightarrow> bool"
  ext_regex_matches :: "string \<Rightarrow> string \<Rightarrow> bool"
  ext_url_parse :: "string \<Rightarrow> parsed_url option"
  ext_json_len :: "json \<Rightarrow> nat option"
  ext_json_text :: "json \<Rightarrow> string"
  ext_sha256 :: "string \<Rightarrow> u8 list"
  ext_url_redact :: "string \<Rightarrow> string"
  ext_str_debug :: "string \<Rightarrow> string"
  ext_lowercase :: "string \<Rightarrow> string"

datatype path_metadata = IsFile | IsDir | IsOther

record host_env =
  env_metadata :: "string \<Rightarrow> path_metadata option"
  env_canonicalize :: "string \<Rightarrow> string option"
  env_current_dir :: "string option"
  env_home :: "string option"

text \<open>
  Concrete instances for the witnesses: no URL parses, no pattern compiles, ASCII lower case,
  and an empty file system seen from the root directory.
\<close>

definition ascii_externals :: externals where
  "ascii_externals =
     \<lparr> ext_regex_compiles = (\<lambda>_. False), ext_regex_matches = (\<lambda>_ _. False),
       ext_url_parse = (\<lambda>_. None), ext_json_len = (\<lambda>_. Some 0),
       ext_json_text = (\<lambda>_. []), ext_sha256 = (\<lambda>_. []), ext_url_redact = id,
       ext_str_debug = (\<lambda>s. CHR 0x22 # s @ [CHR 0x22]), ext_lowercase = map ascii_lower \<rparr>"

definition empty_host :: host_env where
  "empty_host =
     \<lparr> env_metadata = (\<lambda>_. None), env_canonicalize = (\<lambda>_. None),
       env_current_dir = Some ''/'', env_home = None \<rparr>"

end
