(* ===== verification/Authored_Syntax.thy ===== *)
theory Authored_Syntax
  imports Externals
begin

text \<open>
  The lexical rules of authored data in \<open>authored_models.rs\<close>: identifiers, package ids,
  launcher activities, target paths, repositories, checksums and public HTTPS addresses.

  The source states the first three as regular expressions.  Here each is a test on the
  segments between separators, and the last section shows the test to accept exactly the
  language of the source's expression.
\<close>

unbundle bit_operations_syntax

section \<open>Identifiers\<close>

definition id_sep :: "char \<Rightarrow> bool" where
  "id_sep c = (c \<in> {CHR ''.'', CHR ''_'', CHR ''-''})"

definition id_char :: "char \<Rightarrow> bool" where
  "id_char c = (is_lower c \<or> is_digit c)"

definition is_alpha :: "char \<Rightarrow> bool" where
  "is_alpha c = (is_lower c \<or> is_upper c)"

definition is_dot :: "char \<Rightarrow> bool" where
  "is_dot c = (c = CHR ''.'')"

definition is_valid_identifier :: "string \<Rightarrow> bool" where
  "is_valid_identifier s = list_all (\<lambda>w. w \<noteq> [] \<and> list_all id_char w) (split_on id_sep s)"

definition headed :: "(char \<Rightarrow> bool) \<Rightarrow> (char \<Rightarrow> bool) \<Rightarrow> string \<Rightarrow> bool" where
  "headed P Q w = (case w of [] \<Rightarrow> False | c # cs \<Rightarrow> P c \<and> list_all Q cs)"

definition package_char :: "char \<Rightarrow> bool" where
  "package_char c = (is_alpha c \<or> is_digit c \<or> c = CHR ''_'')"

definition is_valid_package_id :: "string \<Rightarrow> bool" where
  "is_valid_package_id s =
     (let ws = split_on is_dot s in 2 \<le> length ws \<and> list_all (headed is_alpha package_char) ws)"

definition activity_head :: "char \<Rightarrow> bool" where
  "activity_head c = (is_alpha c \<or> c = CHR ''_'')"

definition activity_char :: "char \<Rightarrow> bool" where
  "activity_char c = (package_char c \<or> c = CHR ''$'')"

definition is_valid_concrete_launcher_activity :: "string \<Rightarrow> bool" where
  "is_valid_concrete_launcher_activity s =
     (let ws = split_on is_dot s in 2 \<le> length ws \<and> list_all (headed activity_head activity_char) ws)"

section \<open>Target paths\<close>

datatype app_target_kind = TFile | TDirectory

datatype app_target_location = AppData | ExternalAppData | SharedStorage | AbsoluteDevicePath

definition is_slash :: "char \<Rightarrow> bool" where
  "is_slash c = (c = CHR ''/'')"

definition path_segment_ok :: "string \<Rightarrow> bool" where
  "path_segment_ok w = (w \<noteq> [] \<and> w \<noteq> ''.'' \<and> w \<noteq> ''..'')"

definition is_valid_target_path :: "app_target_location \<Rightarrow> string \<Rightarrow> bool" where
  "is_valid_target_path location path =
     (if path = [] \<or> has_control path \<or> CHR 0x5C \<in> set path \<or> CHR ''~'' \<in> set path
         \<or> CHR ''$'' \<in> set path \<or> CHR ''{'' \<in> set path \<or> CHR ''}'' \<in> set path
      then False
      else
        let absolute = starts_with path ''/'' in
        if (location = AbsoluteDevicePath) \<noteq> absolute then False
        else
          let trimmed = (if location = AbsoluteDevicePath
                         then unwrap_or (strip_prefix ''/'' path) path else path)
          in trimmed \<noteq> [] \<and> \<not> ends_with trimmed ''/''
             \<and> list_all path_segment_ok (split_on is_slash trimmed))"

definition is_valid_app_configuration_template_path :: "string \<Rightarrow> string \<Rightarrow> bool" where
  "is_valid_app_configuration_template_path app_id path =
     (if CHR 0x5C \<in> set path \<or> CHR '':'' \<in> set path \<or> has_control path then False
      else
        let components = split_on is_slash path
        in 2 \<le> length components \<and> hd components = app_id
           \<and> list_all path_segment_ok components)"

section \<open>Repositories, checksums, public addresses\<close>

datatype release_provider = Github | Gitlab | Forgejo

definition is_valid_repository_component :: "string \<Rightarrow> bool" where
  "is_valid_repository_component v =
     (v \<noteq> [] \<and> v \<noteq> ''.'' \<and> v \<noteq> ''..'' \<and> length v \<le> 100
      \<and> list_all (\<lambda>c. is_alpha c \<or> is_digit c \<or> c \<in> {CHR ''-'', CHR ''_'', CHR ''.''}) v)"

definition is_valid_repository :: "release_provider \<Rightarrow> string \<Rightarrow> bool" where
  "is_valid_repository provider repository =
     (let parts = split_on is_slash repository;
          accepted_length = (case provider of
              Gitlab \<Rightarrow> 2 \<le> length parts \<and> length parts \<le> 20
            | _ \<Rightarrow> length parts = 2)
      in accepted_length \<and> list_all is_valid_repository_component parts)"

definition is_lowercase_sha256 :: "string \<Rightarrow> bool" where
  "is_lowercase_sha256 v =
     (length v = 64
      \<and> list_all (\<lambda>c. is_digit c \<or> ((97 :: nat) \<le> of_char c \<and> of_char c \<le> (102 :: nat))) v)"

text \<open>
  \<open>std::net\<close>'s address classes: \<open>is_private\<close>, \<open>is_loopback\<close>, \<open>is_link_local\<close>, \<open>is_unspecified\<close>,
  \<open>is_multicast\<close>, \<open>is_broadcast\<close> and \<open>is_documentation\<close> of \<open>Ipv4Addr\<close>, then the policy's own
  ranges.
\<close>

definition ipv4_is_non_public :: "u8 \<Rightarrow> u8 \<Rightarrow> u8 \<Rightarrow> u8 \<Rightarrow> bool" where
  "ipv4_is_non_public a b c d =
     (a = 10 \<or> (a = 172 \<and> 16 \<le> b \<and> b \<le> 31) \<or> (a = 192 \<and> b = 168)
      \<or> a = 127
      \<or> (a = 169 \<and> b = 254)
      \<or> (a = 0 \<and> b = 0 \<and> c = 0 \<and> d = 0)
      \<or> a = 0
      \<or> (224 \<le> a \<and> a \<le> 239)
      \<or> (a = 255 \<and> b = 255 \<and> c = 255 \<and> d = 255)
      \<or> (a = 192 \<and> b = 0 \<and> c = 2) \<or> (a = 198 \<and> b = 51 \<and> c = 100) \<or> (a = 203 \<and> b = 0 \<and> c = 113)
      \<or> (a = 100 \<and> 64 \<le> b \<and> b \<le> 127)
      \<or> (a = 192 \<and> b = 0)
      \<or> (a = 198 \<and> (b = 18 \<or> b = 19))
      \<or> 240 \<le> a)"

text \<open>\<open>Ipv6Addr::to_ipv4_mapped\<close>: \<open>::ffff:a.b.c.d\<close>.\<close>

definition mapped_non_public :: "u16 list \<Rightarrow> bool" where
  "mapped_non_public s =
     (take 6 s = [0, 0, 0, 0, 0, 0xffff]
      \<and> ipv4_is_non_public (ucast (drop_bit 8 (s ! 6))) (ucast (s ! 6))
                           (ucast (drop_bit 8 (s ! 7))) (ucast (s ! 7)))"

definition ipv6_is_public :: "u16 list \<Rightarrow> bool" where
  "ipv6_is_public s =
     (\<not> (s = [0, 0, 0, 0, 0, 0, 0, 1]
         \<or> s = [0, 0, 0, 0, 0, 0, 0, 0]
         \<or> s ! 0 AND 0xff00 = 0xff00
         \<or> mapped_non_public s
         \<or> s ! 0 AND 0xfe00 = 0xfc00
         \<or> s ! 0 AND 0xffc0 = 0xfe80
         \<or> s ! 0 AND 0xffc0 = 0xfec0
         \<or> (s ! 0 = 0x2001 \<and> s ! 1 = 0x0db8)
         \<or> (s ! 0 = 0x3fff \<and> s ! 1 AND 0xf000 = 0)))"

definition host_is_non_public :: "url_host \<Rightarrow> bool" where
  "host_is_non_public host =
     (case host of
        Domain domain \<Rightarrow>
          let d = rev (dropWhile is_dot (rev (trim domain)))
          in d = [] \<or> eq_ignore_ascii_case d ''localhost'' \<or> ends_with d ''.localhost''
      | Ipv4 a b c d \<Rightarrow> ipv4_is_non_public a b c d
      | Ipv6 s \<Rightarrow> \<not> ipv6_is_public s)"

definition parse_public_https_url :: "externals \<Rightarrow> string \<Rightarrow> parsed_url option" where
  "parse_public_https_url ext value =
     (case ext_url_parse ext value of
        None \<Rightarrow> None
      | Some parsed \<Rightarrow>
          (case url_host_of parsed of
             None \<Rightarrow> None
           | Some host \<Rightarrow>
               if url_scheme parsed = ''https'' \<and> \<not> host_is_non_public host
                  \<and> url_username parsed = [] \<and> url_password parsed = None
                  \<and> url_fragment parsed = None
               then Some parsed else None))"

definition is_public_https_url :: "externals \<Rightarrow> string \<Rightarrow> bool" where
  "is_public_https_url ext value = (parse_public_https_url ext value \<noteq> None)"

definition is_service_origin :: "externals \<Rightarrow> string \<Rightarrow> bool" where
  "is_service_origin ext value =
     is_some_and (parse_public_https_url ext value)
       (\<lambda>parsed. url_query parsed = None \<and> url_path parsed \<in> {[], ''/''})"

section \<open>The regular expressions of the source\<close>

datatype rx = Class "char \<Rightarrow> bool" | Seq rx rx | Rep rx

inductive matches :: "rx \<Rightarrow> string \<Rightarrow> bool" where
  single: "P c \<Longrightarrow> matches (Class P) [c]"
| seq: "matches r xs \<Longrightarrow> matches q ys \<Longrightarrow> matches (Seq r q) (xs @ ys)"
| rep_nil: "matches (Rep r) []"
| rep_cons: "matches r xs \<Longrightarrow> matches (Rep r) ys \<Longrightarrow> matches (Rep r) (xs @ ys)"

inductive_cases matches_ClassE: "matches (Class P) s"
inductive_cases matches_SeqE: "matches (Seq r q) s"

text \<open>\<open>^[a-z0-9]+(?:[._-][a-z0-9]+)*$\<close>\<close>

definition identifier_rx :: rx where
  "identifier_rx =
     (let w = Seq (Class id_char) (Rep (Class id_char))
      in Seq w (Rep (Seq (Class id_sep) w)))"

text \<open>\<open>^[A-Za-z][A-Za-z0-9_]*(?:\.[A-Za-z][A-Za-z0-9_]*)+$\<close>\<close>

definition package_rx :: rx where
  "package_rx =
     (let w = Seq (Class is_alpha) (Rep (Class package_char)); t = Seq (Class is_dot) w
      in Seq w (Seq t (Rep t)))"

text \<open>\<open>^[A-Za-z_][A-Za-z0-9_$]*(\.[A-Za-z_][A-Za-z0-9_$]*)+$\<close>\<close>

definition activity_rx :: rx where
  "activity_rx =
     (let w = Seq (Class activity_head) (Rep (Class activity_char)); t = Seq (Class is_dot) w
      in Seq w (Seq t (Rep t)))"

lemma matches_Class: "matches (Class P) s \<longleftrightarrow> (\<exists>c. s = [c] \<and> P c)"
  by (auto elim: matches_ClassE intro: matches.single)

lemma matches_Seq: "matches (Seq r q) s \<longleftrightarrow> (\<exists>xs ys. s = xs @ ys \<and> matches r xs \<and> matches q ys)"
  by (blast elim: matches_SeqE intro: matches.seq)

lemma matches_Seq_Class: "matches (Seq (Class P) q) s \<longleftrightarrow> (\<exists>c cs. s = c # cs \<and> P c \<and> matches q cs)"
  unfolding matches_Seq matches_Class
proof
  assume "\<exists>c cs. s = c # cs \<and> P c \<and> matches q cs"
  then obtain c cs where "s = [c] @ cs" "P c" "matches q cs" by auto
  then show "\<exists>xs ys. s = xs @ ys \<and> (\<exists>c. xs = [c] \<and> P c) \<and> matches q ys" by blast
qed auto

lemma matches_Rep_Class: "matches (Rep (Class P)) s \<longleftrightarrow> list_all P s"
proof
  assume "matches (Rep (Class P)) s"
  then show "list_all P s"
    by (induction "Rep (Class P)" s rule: matches.induct) (auto simp: matches_Class)
next
  assume "list_all P s"
  then show "matches (Rep (Class P)) s"
  proof (induction s)
    case Nil
    show ?case by (rule rep_nil)
  next
    case (Cons c cs)
    then have "matches (Class P) [c]" and "matches (Rep (Class P)) cs"
      by (auto intro: matches.single)
    from rep_cons [OF this] show ?case by simp
  qed
qed

lemma matches_assoc: "matches (Seq (Seq a b) d) s \<longleftrightarrow> matches (Seq a (Seq b d)) s"
proof
  assume "matches (Seq (Seq a b) d) s"
  then obtain x y z where "s = (x @ y) @ z" "matches a x" "matches b y" "matches d z"
    by (auto simp: matches_Seq)
  with matches.seq [of a x "Seq b d" "y @ z"] matches.seq [of b y d z]
  show "matches (Seq a (Seq b d)) s" by simp
next
  assume "matches (Seq a (Seq b d)) s"
  then obtain x y z where "s = x @ y @ z" "matches a x" "matches b y" "matches d z"
    by (auto simp: matches_Seq)
  with matches.seq [of "Seq a b" "x @ y" d z] matches.seq [of a x b y]
  show "matches (Seq (Seq a b) d) s" by simp
qed

lemma matches_headed:
  "matches (Seq (Class P) (Rep (Class Q))) s \<longleftrightarrow> headed P Q s"
  by (cases s) (auto simp: matches_Seq_Class matches_Rep_Class headed_def)

text \<open>A word followed by separated words matches exactly when every segment is a word.\<close>

lemma matches_segments:
  assumes word: "\<And>s. matches w s \<Longrightarrow> \<forall>c \<in> set s. \<not> sep c"
  shows "matches (Seq w (Rep (Seq (Class sep) w))) s \<longleftrightarrow> list_all (matches w) (split_on sep s)"
proof
  let ?t = "Seq (Class sep) w"
  have tail: "matches (Rep ?t) s \<Longrightarrow> matches w u \<Longrightarrow> list_all (matches w) (split_on sep (u @ s))" for u s
  proof (induction "Rep ?t" s arbitrary: u rule: matches.induct)
    case rep_nil
    then show ?case by (simp add: split_on_none word)
  next
    case (rep_cons xs ys)
    from rep_cons.hyps(1) obtain c v where xs: "xs = c # v" "sep c" "matches w v"
      by (auto simp: matches_Seq_Class)
    with rep_cons.hyps rep_cons.prems show ?case
      by (simp add: split_on_append split_on_none word)
  qed
  assume "matches (Seq w (Rep ?t)) s"
  then show "list_all (matches w) (split_on sep s)"
    by (auto simp: matches_Seq [of w] intro: tail)
next
  let ?t = "Seq (Class sep) w"
  assume "list_all (matches w) (split_on sep s)"
  then have "\<exists>u v. s = u @ v \<and> matches w u \<and> matches (Rep ?t) v"
  proof (induction "length s" arbitrary: s rule: less_induct)
    case less
    show ?case
    proof (cases "\<exists>c \<in> set s. sep c")
      case False
      then have "split_on sep s = [s]" by (simp add: split_on_none)
      with less.prems have "matches w s" by simp
      then show ?thesis using rep_nil by force
    next
      case True
      then obtain u c v where s: "s = u @ c # v" "sep c" "\<forall>d \<in> set u. \<not> sep d"
        using split_list_first_prop [of s sep] by blast
      with less.prems have u: "matches w u" and v: "list_all (matches w) (split_on sep v)"
        by (simp_all add: split_on_append split_on_none)
      from less.hyps [OF _ v] s(1) obtain v1 v2
        where "v = v1 @ v2" "matches w v1" "matches (Rep ?t) v2" by auto
      moreover from s(2) \<open>matches w v1\<close> have "matches ?t (c # v1)"
        by (simp add: matches_Seq_Class)
      ultimately have "matches (Rep ?t) (c # v)"
        using matches.rep_cons [of ?t "c # v1" v2] by simp
      with s(1) u show ?thesis by blast
    qed
  qed
  then show "matches (Seq w (Rep ?t)) s" by (auto simp: matches_Seq [of w])
qed

lemma matches_segments_many:
  assumes word: "\<And>s. matches w s \<Longrightarrow> \<forall>c \<in> set s. \<not> sep c"
  shows "matches (Seq w (Seq (Seq (Class sep) w) (Rep (Seq (Class sep) w)))) s \<longleftrightarrow>
     2 \<le> length (split_on sep s) \<and> list_all (matches w) (split_on sep s)"
proof -
  let ?t = "Seq (Class sep) w"
  have "matches (Seq w (Seq ?t (Rep ?t))) s \<longleftrightarrow>
      (\<exists>u c v. s = u @ c # v \<and> matches w u \<and> sep c \<and> matches (Seq w (Rep ?t)) v)"
    by (subst matches_Seq) (auto simp only: matches_assoc matches_Seq_Class)
  also have "\<dots> \<longleftrightarrow> (\<exists>u c v. s = u @ c # v \<and> matches w u \<and> sep c \<and> list_all (matches w) (split_on sep v))"
    by (simp only: matches_segments [OF word])
  also have "\<dots> \<longleftrightarrow> 2 \<le> length (split_on sep s) \<and> list_all (matches w) (split_on sep s)"
    (is "?L \<longleftrightarrow> ?R")
  proof
    assume ?L
    then obtain u c v where "s = u @ c # v" "matches w u" "sep c" "list_all (matches w) (split_on sep v)"
      by blast
    then show ?R
      by (cases "split_on sep v") (auto simp: split_on_append split_on_none word)
  next
    assume R: ?R
    then have "\<exists>c \<in> set s. sep c"
      using split_on_none [of s sep] by force
    then obtain u c v where "s = u @ c # v" "sep c" "\<forall>d \<in> set u. \<not> sep d"
      using split_list_first_prop [of s sep] by blast
    with R show ?L by (auto simp: split_on_append split_on_none)
  qed
  finally show ?thesis .
qed

lemma headed_no_sep: "headed P Q s \<Longrightarrow> (\<And>c. P c \<or> Q c \<Longrightarrow> \<not> sep c) \<Longrightarrow> \<forall>c \<in> set s. \<not> sep c"
  by (cases s) (auto simp: headed_def list_all_iff)

lemma id_sep_not_char: "id_char c \<Longrightarrow> \<not> id_sep c"
  by (auto simp: id_sep_def id_char_def is_lower_def is_digit_def)

lemma is_dot_not_char: "activity_char c \<Longrightarrow> \<not> is_dot c" "package_char c \<Longrightarrow> \<not> is_dot c"
  "activity_head c \<Longrightarrow> \<not> is_dot c" "is_alpha c \<Longrightarrow> \<not> is_dot c"
  by (auto simp: is_dot_def activity_char_def activity_head_def package_char_def is_alpha_def
      is_lower_def is_upper_def is_digit_def)

text \<open>
  The identifier check of the code, which splits at the separators and inspects the
  segments, accepts exactly the words of the regular expression
  \<open>[a-z0-9]+([._-][a-z0-9]+)*\<close>.
\<close>

lemma is_valid_identifier_rx: "is_valid_identifier s \<longleftrightarrow> matches identifier_rx s"
proof -
  have word: "headed id_char id_char = (\<lambda>w. w \<noteq> [] \<and> list_all id_char w)"
    by (auto simp: headed_def fun_eq_iff split: list.splits)
  have no_sep: "matches (Seq (Class id_char) (Rep (Class id_char))) w \<Longrightarrow> \<forall>c \<in> set w. \<not> id_sep c" for w
    unfolding matches_headed by (rule headed_no_sep) (auto dest: id_sep_not_char)
  have "matches identifier_rx s \<longleftrightarrow>
      list_all (matches (Seq (Class id_char) (Rep (Class id_char)))) (split_on id_sep s)"
    unfolding identifier_rx_def Let_def by (rule matches_segments) (erule no_sep)
  then show ?thesis
    by (simp add: is_valid_identifier_def matches_headed list_all_iff word)
qed

text \<open>
  The package check accepts exactly the words of
  \<open>[A-Za-z][A-Za-z0-9_]*(\.[A-Za-z][A-Za-z0-9_]*)+\<close>.
\<close>

lemma is_valid_package_id_rx: "is_valid_package_id s \<longleftrightarrow> matches package_rx s"
proof -
  have no_sep: "matches (Seq (Class is_alpha) (Rep (Class package_char))) w \<Longrightarrow>
      \<forall>c \<in> set w. \<not> is_dot c" for w
    unfolding matches_headed by (rule headed_no_sep) (auto dest: is_dot_not_char)
  have "matches package_rx s \<longleftrightarrow> 2 \<le> length (split_on is_dot s) \<and>
      list_all (matches (Seq (Class is_alpha) (Rep (Class package_char)))) (split_on is_dot s)"
    unfolding package_rx_def Let_def by (rule matches_segments_many) (erule no_sep)
  then show ?thesis
    by (simp add: is_valid_package_id_def Let_def matches_headed list_all_iff)
qed

text \<open>
  The launcher activity check accepts exactly the fully qualified class names: at least two
  segments, each an identifier that may contain \<open>_\<close> and \<open>$\<close>.
\<close>

lemma is_valid_concrete_launcher_activity_rx:
  "is_valid_concrete_launcher_activity s \<longleftrightarrow> matches activity_rx s"
proof -
  have no_sep: "matches (Seq (Class activity_head) (Rep (Class activity_char))) w \<Longrightarrow>
      \<forall>c \<in> set w. \<not> is_dot c" for w
    unfolding matches_headed by (rule headed_no_sep) (auto dest: is_dot_not_char)
  have "matches activity_rx s \<longleftrightarrow> 2 \<le> length (split_on is_dot s) \<and>
      list_all (matches (Seq (Class activity_head) (Rep (Class activity_char)))) (split_on is_dot s)"
    unfolding activity_rx_def Let_def by (rule matches_segments_many) (erule no_sep)
  then show ?thesis
    by (simp add: is_valid_concrete_launcher_activity_def Let_def matches_headed list_all_iff)
qed

end
