(* ===== verification/Numeric_Compare.thy ===== *)
theory Numeric_Compare
  imports Complex_Main Authored_Syntax
begin

text \<open>
  Exact comparison of JSON numbers, \<open>authored_models.rs\<close>.  The source compares 64-bit integers
  with IEEE 754 doubles by taking the double's bits apart, so that no integer is rounded.  The
  theory models the bit manipulation at its widths and shows that it computes the order of the
  rational numbers the two representations denote.
\<close>

declare of_nat_unat [simp del]

datatype ordering = Less | Equal | Greater

fun reverse :: "ordering \<Rightarrow> ordering" where
  "reverse Less = Greater"
| "reverse Equal = Equal"
| "reverse Greater = Less"

definition cmp :: "'a :: linorder \<Rightarrow> 'a \<Rightarrow> ordering" where
  "cmp a b = (if a < b then Less else if a = b then Equal else Greater)"

lemma cmp_eq_iff [simp]:
  "cmp a b = Less \<longleftrightarrow> a < b" "cmp a b = Equal \<longleftrightarrow> a = b" "cmp a b = Greater \<longleftrightarrow> b < a"
  by (auto simp: cmp_def)

lemma reverse_cmp: "reverse (cmp a b) = cmp b a"
  by (auto simp: cmp_def)

lemma cmp_of_nat_rat: "cmp (of_nat a :: rat) (of_nat b) = cmp a b"
  by (auto simp: cmp_def)

lemma cmp_of_int_rat: "cmp (of_int a :: rat) (of_int b) = cmp a b"
  by (auto simp: cmp_def)

section \<open>Integers\<close>

definition compare_integer_values :: "json \<Rightarrow> json \<Rightarrow> ordering option" where
  "compare_integer_values left right =
     (case (as_number left, as_number right) of
        (Some l, Some r) \<Rightarrow>
          (case (number_as_i64 l, number_as_u64 l, number_as_i64 r, number_as_u64 r) of
             (Some a, _, Some b, _) \<Rightarrow> Some (cmp a b)
           | (Some a, _, None, Some b) \<Rightarrow>
               if 0 \<le> a then Some (cmp (nat a) b) else Some Less
           | (None, Some a, Some b, _) \<Rightarrow>
               if 0 \<le> b then Some (cmp a (nat b)) else Some Greater
           | (None, Some a, None, Some b) \<Rightarrow> Some (cmp a b)
           | _ \<Rightarrow> None)
      | _ \<Rightarrow> None)"

section \<open>Doubles\<close>

definition float_exponent_bits :: "u64 \<Rightarrow> int" where
  "float_exponent_bits bits = uint (drop_bit 52 bits AND 0x7ff)"

definition float_fraction :: "u64 \<Rightarrow> u64" where
  "float_fraction bits = bits AND (push_bit 52 1 - 1)"

definition float_parts :: "u64 \<Rightarrow> u64 \<times> int" where
  "float_parts bits =
     (if float_exponent_bits bits = 0 then (float_fraction bits, -1074)
      else (float_fraction bits OR push_bit 52 1, float_exponent_bits bits - 1023 - 52))"

text \<open>\<open>u64::BITS - leading_zeros\<close>: the number of significant bits.\<close>

fun bit_length :: "nat \<Rightarrow> nat" where
  "bit_length n = (if n = 0 then 0 else Suc (bit_length (n div 2)))"

declare bit_length.simps [simp del]

definition leading_zeros :: "u64 \<Rightarrow> nat" where
  "leading_zeros w = 64 - bit_length (unat w)"

definition compare_unsigned_integer_to_nonnegative_float :: "u64 \<Rightarrow> u64 \<Rightarrow> ordering" where
  "compare_unsigned_integer_to_nonnegative_float integer bits =
     (let (significand, binary_exponent) = float_parts bits in
      if significand = 0 then cmp integer 0
      else if 0 \<le> binary_exponent then
        let significand_bits = 64 - int (leading_zeros significand) in
        if significand_bits + binary_exponent > 64 then Less
        else
          let float_integer = (push_bit (nat binary_exponent) (ucast significand) :: 128 word)
          in cmp integer (ucast float_integer)
      else
        let fractional_bits = nat (- binary_exponent) in
        if 64 \<le> fractional_bits then (if integer = 0 then Less else Greater)
        else
          let integral_part = drop_bit fractional_bits significand in
          (case cmp integer integral_part of
             Equal \<Rightarrow>
               if significand AND (push_bit fractional_bits 1 - 1) \<noteq> 0 then Less else Equal
           | unequal \<Rightarrow> unequal))"

text \<open>\<open>float < 0.0\<close> holds for a set sign bit and a non-zero magnitude; negation flips the sign.\<close>

definition f64_is_negative :: "u64 \<Rightarrow> bool" where
  "f64_is_negative bits = (bit bits 63 \<and> push_bit 1 bits \<noteq> 0)"

definition f64_neg :: "u64 \<Rightarrow> u64" where
  "f64_neg bits = bits XOR push_bit 63 1"

definition f64_is_finite :: "u64 \<Rightarrow> bool" where
  "f64_is_finite bits = (float_exponent_bits bits \<noteq> 0x7ff)"

definition compare_signed_integer_to_float :: "int \<Rightarrow> u64 \<Rightarrow> ordering" where
  "compare_signed_integer_to_float integer float =
     (if integer < 0 then
        if \<not> f64_is_negative float then Less
        else reverse (compare_unsigned_integer_to_nonnegative_float
               (word_of_int (- integer)) (f64_neg float))
      else if f64_is_negative float then Greater
      else compare_unsigned_integer_to_nonnegative_float (word_of_int integer) float)"

definition compare_unsigned_integer_to_float :: "nat \<Rightarrow> u64 \<Rightarrow> ordering" where
  "compare_unsigned_integer_to_float integer float =
     (if f64_is_negative float then Greater
      else compare_unsigned_integer_to_nonnegative_float (of_nat integer) float)"

fun number_as_f64 :: "json_number \<Rightarrow> u64 option" where
  "number_as_f64 (Float b) = Some b"
| "number_as_f64 _ = None"

definition compare_integer_and_float :: "json_number \<Rightarrow> u64 \<Rightarrow> ordering option" where
  "compare_integer_and_float integer float =
     (if \<not> f64_is_finite float then None
      else (case number_as_i64 integer of
              Some i \<Rightarrow> Some (compare_signed_integer_to_float i float)
            | None \<Rightarrow>
                map_option (\<lambda>n. compare_unsigned_integer_to_float n float) (number_as_u64 integer)))"

text \<open>
  \<open>f64::partial_cmp\<close> on two doubles: a NaN is incomparable, and otherwise the order of the
  sign-and-magnitude readings of the bits.
\<close>

definition f64_is_nan :: "u64 \<Rightarrow> bool" where
  "f64_is_nan bits = (float_exponent_bits bits = 0x7ff \<and> float_fraction bits \<noteq> 0)"

definition f64_key :: "u64 \<Rightarrow> int" where
  "f64_key bits =
     (let magnitude = uint (take_bit 63 bits) in if bit bits 63 then - magnitude else magnitude)"

definition f64_partial_cmp :: "u64 \<Rightarrow> u64 \<Rightarrow> ordering option" where
  "f64_partial_cmp a b =
     (if f64_is_nan a \<or> f64_is_nan b then None else Some (cmp (f64_key a) (f64_key b)))"

definition compare_number_values :: "json \<Rightarrow> json \<Rightarrow> ordering option" where
  "compare_number_values left right =
     (case (as_number left, as_number right) of
        (Some l, Some r) \<Rightarrow>
          (case (number_as_f64 l, number_as_f64 r) of
             (None, None) \<Rightarrow> compare_integer_values left right
           | (None, Some fr) \<Rightarrow> compare_integer_and_float l fr
           | (Some fl, None) \<Rightarrow> map_option reverse (compare_integer_and_float r fl)
           | (Some fl, Some fr) \<Rightarrow> f64_partial_cmp fl fr)
      | _ \<Rightarrow> None)"

section \<open>What a number denotes\<close>

definition scaled :: "nat \<Rightarrow> int \<Rightarrow> rat" where
  "scaled s e = (if 0 \<le> e then of_nat s * 2 ^ nat e else of_nat s / 2 ^ nat (- e))"

definition f64_magnitude :: "u64 \<Rightarrow> rat" where
  "f64_magnitude bits = (case float_parts bits of (s, e) \<Rightarrow> scaled (unat s) e)"

definition f64_value :: "u64 \<Rightarrow> rat" where
  "f64_value bits = (if bit bits 63 then - f64_magnitude bits else f64_magnitude bits)"

fun number_value :: "json_number \<Rightarrow> rat" where
  "number_value (PosInt n) = of_nat (unat n)"
| "number_value (NegInt n) = of_int (sint n)"
| "number_value (Float b) = f64_value b"

fun number_finite :: "json_number \<Rightarrow> bool" where
  "number_finite (Float b) = f64_is_finite b"
| "number_finite _ = True"

section \<open>The integer comparison is exact\<close>

lemma number_as_i64_value: "number_as_i64 n = Some i \<Longrightarrow> number_value n = of_int i"
  by (cases n) (auto simp: of_nat_unat split: if_splits)

lemma neg_int_less_nat: "\<not> 0 \<le> j \<Longrightarrow> (of_int j :: rat) < of_nat a"
proof -
  assume "\<not> 0 \<le> j"
  then have "(of_int j :: rat) < 0" by simp
  also have "(0 :: rat) \<le> of_nat a" by simp
  finally show ?thesis .
qed

lemma number_as_i64_none:
  assumes "number_as_i64 n = None" and "number_as_f64 n = None"
  obtains k where "number_as_u64 n = Some k" "number_value n = of_nat k"
  using assms by (cases n) (auto split: if_splits)

lemma compare_integer_values_exact:
  assumes l: "number_as_f64 l = None" and r: "number_as_f64 r = None"
  shows "compare_integer_values (JNumber l) (JNumber r) = Some (cmp (number_value l) (number_value r))"
proof (cases "number_as_i64 l")
  case None
  then obtain a where a: "number_as_u64 l = Some a" "number_value l = of_nat a"
    using l by (rule number_as_i64_none)
  show ?thesis
  proof (cases "number_as_i64 r")
    case N: None
    then obtain b where "number_as_u64 r = Some b" "number_value r = of_nat b"
      using r by (rule number_as_i64_none)
    with None N a show ?thesis by (simp add: compare_integer_values_def cmp_of_nat_rat)
  next
    case (Some j)
    have v: "number_value r = of_int j" by (rule number_as_i64_value [OF Some])
    show ?thesis
    proof (cases "0 \<le> j")
      case True
      then have "number_value r = of_nat (nat j)" by (simp add: v)
      with None Some True a(1) show ?thesis
        by (simp only: a(2) cmp_of_nat_rat) (simp add: compare_integer_values_def)
    next
      case False
      then have "cmp (number_value l) (number_value r) = Greater"
        using neg_int_less_nat [of j a] by (simp only: a(2) v cmp_eq_iff)
      with None Some False a(1) show ?thesis by (simp add: compare_integer_values_def del: cmp_eq_iff)
    qed
  qed
next
  case (Some i)
  show ?thesis
  proof (cases "number_as_i64 r")
    case N: None
    then obtain b where b: "number_as_u64 r = Some b" "number_value r = of_nat b"
      using r by (rule number_as_i64_none)
    have v: "number_value l = of_int i" by (rule number_as_i64_value [OF Some])
    show ?thesis
    proof (cases "0 \<le> i")
      case True
      then have "number_value l = of_nat (nat i)" by (simp add: v)
      with N Some True b(1) show ?thesis
        by (simp only: b(2) cmp_of_nat_rat) (simp add: compare_integer_values_def)
    next
      case False
      then have "cmp (number_value l) (number_value r) = Less"
        using neg_int_less_nat [of i b] by (simp only: b(2) v cmp_eq_iff)
      with N Some False b(1) show ?thesis by (simp add: compare_integer_values_def del: cmp_eq_iff)
    qed
  next
    case S: (Some j)
    with Some show ?thesis
      by (simp add: compare_integer_values_def cmp_of_int_rat number_as_i64_value)
  qed
qed

section \<open>The comparison with a double is exact\<close>

lemma bit_length_less: "n < 2 ^ bit_length n"
proof (induction n rule: bit_length.induct)
  case (1 n)
  show ?case
  proof (cases "n = 0")
    case True
    then show ?thesis by (simp add: bit_length.simps)
  next
    case False
    with "1.IH" have "n div 2 < 2 ^ bit_length (n div 2)" by simp
    then have "n < 2 * 2 ^ bit_length (n div 2)" by linarith
    with False show ?thesis by (subst bit_length.simps) simp
  qed
qed

lemma bit_length_ge: "0 < n \<Longrightarrow> 2 ^ (bit_length n - 1) \<le> n"
proof (induction n rule: bit_length.induct)
  case (1 n)
  show ?case
  proof (cases "n div 2 = 0")
    case True
    with "1.prems" show ?thesis by (simp add: bit_length.simps)
  next
    case False
    with "1.IH" "1.prems" have "2 ^ (bit_length (n div 2) - 1) \<le> n div 2" by simp
    then have "2 * 2 ^ (bit_length (n div 2) - 1) \<le> n" by linarith
    moreover from False have "0 < bit_length (n div 2)" by (subst bit_length.simps) simp
    ultimately show ?thesis
      using "1.prems" by (subst bit_length.simps) (simp flip: power_Suc)
  qed
qed

lemma bit_length_le: "n < 2 ^ k \<Longrightarrow> bit_length n \<le> k"
proof (cases "n = 0")
  case True
  then show ?thesis by (simp add: bit_length.simps)
next
  case False
  assume "n < 2 ^ k"
  with bit_length_ge [of n] False have "2 ^ (bit_length n - 1) < (2 :: nat) ^ k" by linarith
  then show ?thesis by simp
qed

lemma mask_and: "w AND (push_bit n 1 - 1) = take_bit n (w :: u64)"
  by (simp only: take_bit_eq_mask mask_eq_exp_minus_1 push_bit_of_1)

lemma float_fraction_take_bit: "float_fraction b = take_bit 52 b"
  by (simp only: float_fraction_def mask_and)

lemma unat_float_fraction: "unat (float_fraction b) < 2 ^ 52"
  using take_bit_nat_less_exp [of 52 "unat b"]
  by (simp add: float_fraction_take_bit unsigned_take_bit_eq)

lemma float_significand_bound: "float_parts b = (s, e) \<Longrightarrow> unat s < 2 ^ 53"
proof -
  assume p: "float_parts b = (s, e)"
  have or: "float_fraction b OR push_bit 52 1 = float_fraction b + push_bit 52 1"
    unfolding float_fraction_take_bit
    by (rule disjunctive_add [symmetric]) (simp only: bit_take_bit_iff bit_push_bit_iff, simp)
  have "unat (float_fraction b + push_bit 52 1) \<le> unat (float_fraction b) + 2 ^ 52"
    by (simp add: unat_word_ariths push_bit_of_1)
  with p or unat_float_fraction [of b] show ?thesis
    by (auto simp: float_parts_def split: if_splits)
qed

lemma scaled_pos_exponent:
  assumes s: "s < 2 ^ 53" "0 < s" and e: "0 \<le> e" and n: "n < 2 ^ 64"
    and over: "64 < int (bit_length s) + e"
  shows "(of_nat n :: rat) < scaled s e"
proof -
  have "2 ^ 64 \<le> (2 :: nat) ^ (bit_length s - 1 + nat e)"
    using over e by (intro power_increasing) auto
  also have "\<dots> \<le> s * 2 ^ nat e"
    using bit_length_ge [OF s(2)] by (simp add: power_add)
  finally have "n < s * 2 ^ nat e" using n by linarith
  then have "(of_nat n :: rat) < of_nat (s * 2 ^ nat e)" by (simp only: of_nat_less_iff)
  with e show ?thesis by (simp add: scaled_def)
qed

lemma scaled_shift_fits:
  assumes s: "unat (s :: u64) < 2 ^ 53" and e: "0 \<le> e"
    and fits: "int (bit_length (unat s)) + e \<le> 64" "s \<noteq> 0"
  shows "unat (ucast (push_bit (nat e) (ucast s :: 128 word)) :: u64) = unat s * 2 ^ nat e"
proof -
  let ?n = "unat s * 2 ^ nat e"
  have "?n < 2 ^ bit_length (unat s) * 2 ^ nat e" by (simp add: bit_length_less)
  also have "\<dots> = 2 ^ (bit_length (unat s) + nat e)" by (simp add: power_add)
  also have "\<dots> \<le> 2 ^ 64" using fits e by (intro power_increasing) auto
  finally have n: "?n < 2 ^ 64" .
  have wide: "unat (ucast s :: 128 word) = unat s"
    using s by (simp only: unsigned_ucast_eq) (simp add: take_bit_nat_eq_self)
  have "unat (push_bit (nat e) (ucast s :: 128 word)) = take_bit 128 ?n"
    by (simp only: unsigned_push_bit_eq wide) (simp add: push_bit_eq_mult)
  also have "\<dots> = ?n" using n by (simp add: take_bit_nat_eq_self)
  finally have "unat (push_bit (nat e) (ucast s :: 128 word)) = ?n" .
  then have "unat (ucast (push_bit (nat e) (ucast s :: 128 word)) :: u64) = take_bit 64 ?n"
    by (simp only: unsigned_ucast_eq) simp
  with n show ?thesis by (simp only: take_bit_nat_eq_self)
qed

lemma cmp_div_power:
  "(case cmp n (s div 2 ^ k) of Equal \<Rightarrow> if s mod 2 ^ k \<noteq> 0 then Less else Equal | c \<Rightarrow> c) =
     cmp (of_nat n) (of_nat s / 2 ^ k :: rat)"
proof -
  have eq: "cmp (of_nat n) (of_nat s / 2 ^ k :: rat) = cmp (n * 2 ^ k) s"
  proof -
    have "of_nat n < (of_nat s / 2 ^ k :: rat) \<longleftrightarrow> (of_nat (n * 2 ^ k) :: rat) < of_nat s"
      by (simp add: field_simps)
    moreover have "of_nat n = (of_nat s / 2 ^ k :: rat) \<longleftrightarrow> (of_nat (n * 2 ^ k) :: rat) = of_nat s"
      by (simp add: field_simps)
    ultimately show ?thesis by (simp only: cmp_def of_nat_less_iff of_nat_eq_iff)
  qed
  have "n < s div 2 ^ k \<Longrightarrow> n * 2 ^ k < s"
  proof -
    assume "n < s div 2 ^ k"
    then have "n * 2 ^ k < s div 2 ^ k * 2 ^ k" by simp
    also have "\<dots> \<le> s" by (rule div_times_less_eq_dividend)
    finally show ?thesis .
  qed
  moreover have "s div 2 ^ k < n \<Longrightarrow> s < n * 2 ^ k"
    by (simp add: div_less_iff_less_mult)
  moreover have "n = s div 2 ^ k \<Longrightarrow> s = n * 2 ^ k + s mod 2 ^ k"
    by (simp only: div_mult_mod_eq)
  ultimately show ?thesis
    unfolding eq
    by (cases n "s div 2 ^ k" rule: linorder_cases) (simp_all only: cmp_def, simp_all)
qed

lemma float_magnitude_nonneg: "0 \<le> f64_magnitude b"
  by (simp add: f64_magnitude_def scaled_def split: prod.split)

text \<open>The heart of the comparison: no rounding at any step.\<close>

lemma compare_unsigned_exact:
  "compare_unsigned_integer_to_nonnegative_float n b = cmp (of_nat (unat n)) (f64_magnitude b)"
proof -
  obtain s e where p: "float_parts b = (s, e)" by fastforce
  have s53: "unat s < 2 ^ 53" using p by (rule float_significand_bound)
  have n64: "unat n < 2 ^ 64" using unsigned_less [where ?'a = nat, of n] by simp
  have lz: "64 - int (leading_zeros s) = int (bit_length (unat s))"
    using bit_length_le [of "unat s" 64] s53 by (simp add: leading_zeros_def)
  have word_cmp: "cmp a b = cmp (unat a) (unat b)" for a b :: u64
    by (auto simp: cmp_def word_less_nat_alt word_unat_eq_iff)
  note unf = compare_unsigned_integer_to_nonnegative_float_def f64_magnitude_def p prod.case Let_def
  consider (zero) "s = 0" | (big) "s \<noteq> 0" "0 \<le> e" | (tiny) "s \<noteq> 0" "e < 0" "64 \<le> nat (- e)"
    | (mid) "s \<noteq> 0" "e < 0" "nat (- e) < 64" by linarith
  then show ?thesis
  proof cases
    case zero
    then show ?thesis
      by (simp add: unf scaled_def cmp_def word_less_nat_alt unat_eq_0)
  next
    case big
    have sp: "0 < unat s" using big by (simp add: unat_gt_0)
    show ?thesis
    proof (cases "64 < int (bit_length (unat s)) + e")
      case True
      with scaled_pos_exponent [OF s53 sp big(2) n64] big lz show ?thesis
        by (simp add: unf cmp_def)
    next
      case False
      then have "unat (ucast (push_bit (nat e) (ucast s :: 128 word)) :: u64) = unat s * 2 ^ nat e"
        using scaled_shift_fits [OF s53 big(2)] big by simp
      moreover have "scaled (unat s) e = of_nat (unat s * 2 ^ nat e)"
        using big by (simp add: scaled_def)
      ultimately show ?thesis
        using False big lz by (simp only: unf word_cmp cmp_of_nat_rat) simp
    qed
  next
    case tiny
    have "(of_nat (unat s) :: rat) < 2 ^ 53"
      using s53 by (metis of_nat_less_iff of_nat_numeral of_nat_power)
    also have "(2 :: rat) ^ 53 \<le> 2 ^ nat (- e)" using tiny by (intro power_increasing) auto
    finally have lt: "scaled (unat s) e < 1" using tiny by (simp add: scaled_def)
    have gt: "0 < scaled (unat s) e" using tiny by (simp add: scaled_def unat_gt_0)
    have "n \<noteq> 0 \<Longrightarrow> (1 :: rat) \<le> of_nat (unat n)"
      using unat_gt_0 [of n] by (metis One_nat_def Suc_leI of_nat_1 of_nat_le_iff)
    with lt gt tiny show ?thesis
      by (cases "n = 0") (auto simp: unf cmp_def)
  next
    case mid
    let ?k = "nat (- e)"
    have "s AND (push_bit ?k 1 - 1) \<noteq> 0 \<longleftrightarrow> unat s mod 2 ^ ?k \<noteq> 0"
    proof -
      have "unat (take_bit ?k s) = unat s mod 2 ^ ?k"
        by (rule trans [OF unsigned_take_bit_eq take_bit_eq_mod])
      then show ?thesis by (metis mask_and unat_eq_0)
    qed
    moreover have "unat (drop_bit ?k s) = unat s div 2 ^ ?k"
      by (rule trans [OF unat_drop_bit_eq drop_bit_eq_div])
    moreover have "scaled (unat s) e = of_nat (unat s) / 2 ^ ?k"
      using mid by (simp add: scaled_def)
    ultimately show ?thesis
      using mid cmp_div_power [where n = "unat n" and s = "unat s" and k = ?k]
      by (simp only: unf word_cmp) simp
  qed
qed


section \<open>Signs, and the comparison of any two numbers\<close>

lemma push_bit_1_eq_0: "push_bit 1 (b :: u64) = 0 \<longleftrightarrow> take_bit 63 b = 0"
proof -
  have "push_bit 1 b = 0 \<longleftrightarrow> (\<forall>n < 64. 1 \<le> n \<longrightarrow> \<not> bit b (n - 1))"
    unfolding bit_eq_iff bit_push_bit_iff by auto
  also have "\<dots> \<longleftrightarrow> (\<forall>m < 63. \<not> bit b m)"
  proof
    assume H: "\<forall>n < 64. 1 \<le> n \<longrightarrow> \<not> bit b (n - 1)"
    show "\<forall>m < 63. \<not> bit b m" using H [rule_format, of "Suc _"] by force
  qed auto
  also have "\<dots> \<longleftrightarrow> take_bit 63 b = 0"
    by (auto simp: bit_eq_iff bit_take_bit_iff)
  finally show ?thesis .
qed

lemma float_parts_cong:
  assumes "take_bit 63 a = take_bit 63 (b :: u64)"
  shows "float_parts a = float_parts b" and "f64_magnitude a = f64_magnitude b"
proof -
  have bit: "n < 63 \<Longrightarrow> bit a n = bit b n" for n
    using assms by (metis bit_take_bit_iff)
  have "float_fraction a = float_fraction b"
    unfolding float_fraction_take_bit by (auto simp: bit_eq_iff bit_take_bit_iff bit)
  moreover have "drop_bit 52 a AND 0x7ff = drop_bit 52 b AND 0x7ff"
  proof -
    have "(0x7ff :: u64) = mask 11" by (simp add: mask_eq_exp_minus_1)
    then show ?thesis
      by (simp only: take_bit_eq_mask [symmetric])
         (auto simp: bit_eq_iff bit_take_bit_iff bit_drop_bit_eq bit)
  qed
  ultimately show "float_parts a = float_parts b"
    by (simp add: float_parts_def float_exponent_bits_def)
  then show "f64_magnitude a = f64_magnitude b" by (simp add: f64_magnitude_def)
qed

lemma f64_magnitude_neg: "f64_magnitude (f64_neg b) = f64_magnitude b"
  by (rule float_parts_cong)
     (auto simp: f64_neg_def bit_eq_iff bit_take_bit_iff bit_xor_iff bit_push_bit_iff)

lemma float_fraction_zero: "float_parts b = (0, e) \<Longrightarrow> take_bit 63 b = 0"
proof -
  assume p: "float_parts b = (0, e)"
  have nz: "float_fraction b OR push_bit 52 1 \<noteq> 0"
  proof
    assume "float_fraction b OR push_bit 52 1 = 0"
    then have "bit (float_fraction b OR push_bit 52 1) 52 = bit (0 :: u64) 52" by simp
    then show False by (simp add: bit_or_iff bit_push_bit_iff)
  qed
  with p have f: "take_bit 52 b = 0" and e: "drop_bit 52 b AND 0x7ff = 0"
    by (auto simp: float_parts_def float_exponent_bits_def float_fraction_take_bit uint_0_iff
        split: if_splits)
  have "(0x7ff :: u64) = mask 11" by (simp add: mask_eq_exp_minus_1)
  with e have e': "take_bit 11 (drop_bit 52 b) = 0" by (simp add: take_bit_eq_mask)
  show "take_bit 63 b = 0"
  proof (rule bit_eqI)
    fix n
    show "bit (take_bit 63 b) n = bit 0 n"
    proof (cases "n < 52")
      case True
      with arg_cong [OF f, of "\<lambda>w. bit w n"] show ?thesis by (simp add: bit_take_bit_iff)
    next
      case False
      with arg_cong [OF e', of "\<lambda>w. bit w (n - 52)"] show ?thesis
        by (auto simp: bit_take_bit_iff bit_drop_bit_eq)
    qed
  qed
qed

lemma f64_magnitude_zero: "f64_magnitude b = 0 \<longleftrightarrow> take_bit 63 b = 0"
proof
  assume "f64_magnitude b = 0"
  then obtain e where "float_parts b = (0, e)"
    by (cases "float_parts b") (auto simp: f64_magnitude_def scaled_def unat_eq_0 split: if_splits)
  then show "take_bit 63 b = 0" by (rule float_fraction_zero)
next
  assume "take_bit 63 b = 0"
  then have "take_bit 63 b = take_bit 63 (0 :: u64)" by simp
  then have "f64_magnitude b = f64_magnitude 0" by (rule float_parts_cong)
  then show "f64_magnitude b = 0"
    by (simp add: f64_magnitude_def float_parts_def float_exponent_bits_def float_fraction_def scaled_def)
qed

lemma f64_is_negative_iff: "f64_is_negative b \<longleftrightarrow> f64_value b < 0"
  using float_magnitude_nonneg [of b] f64_magnitude_zero [of b] push_bit_1_eq_0 [of b]
  by (auto simp: f64_is_negative_def f64_value_def)

lemma f64_not_negative: "\<not> f64_is_negative b \<Longrightarrow> f64_value b = f64_magnitude b"
  using f64_magnitude_zero [of b] push_bit_1_eq_0 [of b]
  by (auto simp: f64_is_negative_def f64_value_def)

lemma f64_negative: "f64_is_negative b \<Longrightarrow> f64_value b = - f64_magnitude b"
  by (auto simp: f64_is_negative_def f64_value_def)

lemma compare_signed_exact:
  assumes i: "- (2 ^ 63) \<le> i" "i < 2 ^ 63"
  shows "compare_signed_integer_to_float i b = cmp (of_int i) (f64_value b)"
proof (cases "i < 0")
  case True
  then have neg: "unat (word_of_int (- i) :: u64) = nat (- i)"
    using i by (simp only: unsigned_of_int) (simp add: take_bit_int_eq_self)
  show ?thesis
  proof (cases "f64_is_negative b")
    case N: True
    have "reverse (cmp (of_nat (nat (- i)) :: rat) (f64_magnitude b)) = cmp (of_int i) (- f64_magnitude b)"
      using True by (auto simp: cmp_def)
    with N True neg show ?thesis
      by (simp only: compare_signed_integer_to_float_def compare_unsigned_exact f64_magnitude_neg
          f64_negative if_True) simp
  next
    case N: False
    then have "(of_int i :: rat) < f64_value b"
      using True f64_is_negative_iff [of b] by (simp add: less_le_trans)
    with N True show ?thesis
      by (simp add: compare_signed_integer_to_float_def cmp_def)
  qed
next
  case False
  then have pos: "unat (word_of_int i :: u64) = nat i"
    using i by (simp add: unsigned_of_int take_bit_int_eq_self)
  show ?thesis
  proof (cases "f64_is_negative b")
    case N: True
    then have "f64_value b < of_int i"
      using False f64_is_negative_iff [of b] by (simp add: less_le_trans)
    with N False show ?thesis
      by (simp add: compare_signed_integer_to_float_def cmp_def)
  next
    case N: False
    with False pos show ?thesis
      by (simp add: compare_signed_integer_to_float_def compare_unsigned_exact f64_not_negative)
  qed
qed

lemma compare_unsigned_float_exact:
  assumes "n < 2 ^ 64"
  shows "compare_unsigned_integer_to_float n b = cmp (of_nat n) (f64_value b)"
proof -
  have un: "unat (of_nat n :: u64) = n"
    using assms by (simp add: unsigned_of_nat take_bit_nat_eq_self)
  show ?thesis
  proof (cases "f64_is_negative b")
    case True
    then have "f64_value b < of_nat n"
      using f64_is_negative_iff [of b] by (simp add: less_le_trans)
    with True show ?thesis by (simp add: compare_unsigned_integer_to_float_def cmp_def)
  next
    case False
    with un show ?thesis
      by (simp add: compare_unsigned_integer_to_float_def compare_unsigned_exact f64_not_negative)
  qed
qed

lemma number_as_i64_range: "number_as_i64 n = Some i \<Longrightarrow> - (2 ^ 63) \<le> i \<and> i < 2 ^ 63"
proof (cases n)
  case (PosInt w)
  assume "number_as_i64 n = Some i"
  with PosInt have "i = uint w" "uint w \<le> i64_max" by (auto split: if_splits)
  moreover have "- (2 ^ 63) \<le> (0 :: int)" and "0 \<le> uint w" by simp_all
  then have "- (2 ^ 63) \<le> uint w" by (rule order_trans)
  ultimately show ?thesis by (simp add: i64_max_def)
next
  case (NegInt w)
  assume "number_as_i64 n = Some i"
  with NegInt show ?thesis using sint_greater_eq [of w] sint_less [of w] by simp
qed simp

lemma compare_integer_and_float_exact:
  assumes n: "number_as_f64 n = None" and f: "f64_is_finite b"
  shows "compare_integer_and_float n b = Some (cmp (number_value n) (f64_value b))"
proof (cases "number_as_i64 n")
  case (Some i)
  with f number_as_i64_range [OF Some] number_as_i64_value [OF Some] show ?thesis
    by (simp add: compare_integer_and_float_def compare_signed_exact)
next
  case None
  then obtain k where k: "number_as_u64 n = Some k" "number_value n = of_nat k"
    using n by (rule number_as_i64_none)
  have bound: "unat w < 2 ^ 64" for w :: u64
    using unsigned_less [where ?'a = nat, of w] by simp
  from k n have "k < 2 ^ 64"
    by (cases n) (use bound in auto)
  with None k f show ?thesis
    by (simp add: compare_integer_and_float_def compare_unsigned_float_exact)
qed

text \<open>One integer and any finite number: the comparison never rounds.\<close>

text \<open>
  C34: when at least one of two finite numbers is an integer, the comparison used for managed
  properties is the comparison of the exact mathematical values: no 64-bit integer is ever
  rounded to a double.
\<close>

theorem compare_number_values_exact:
  assumes "number_finite l" and "number_finite r"
    and "number_as_f64 l = None \<or> number_as_f64 r = None"
  shows "compare_number_values (JNumber l) (JNumber r) = Some (cmp (number_value l) (number_value r))"
proof -
  consider "number_as_f64 l = None" "number_as_f64 r = None"
    | b where "number_as_f64 l = None" "r = Float b"
    | b where "l = Float b" "number_as_f64 r = None"
    using assms(3) by (cases l; cases r) auto
  then show ?thesis
    using assms(1,2)
    by cases (simp_all add: compare_number_values_def compare_integer_values_exact
        compare_integer_and_float_exact reverse_cmp)
qed


text \<open>At \<open>2^53 + 1\<close> and \<open>2^53\<close> as a double, which conversion to \<open>f64\<close> would make equal.\<close>

theorem compare_number_values_exact_witness:
  "compare_number_values (JNumber (PosInt 9007199254740993)) (JNumber (Float 0x4340000000000000)) =
     Some (cmp (number_value (PosInt 9007199254740993)) (number_value (Float 0x4340000000000000)))"
  by (rule compare_number_values_exact) code_simp+

end
