(* ===== verification/App_Definition.thy ===== *)
theory App_Definition
  imports Numeric_Compare
begin

text \<open>
  App Definitions and their validation, \<open>authored_models.rs\<close>.  Every \<open>validate_*\<close> function of
  the source pushes diagnostics onto a shared vector; here it returns the diagnostics it
  pushes, in order, and the caller concatenates them.
\<close>

section \<open>Data\<close>

record diagnostic =
  diag_code :: string
  diag_message :: string
  diag_field :: string

datatype app_artifact_kind = Apk | AFile

datatype app_artifact_source =
    UserProvided
  | DirectUrl string "string option"
  | LatestRelease release_provider string string "string option" "bool option" bool

record app_artifact =
  artifact_kind :: app_artifact_kind
  artifact_name :: "string option"
  artifact_description :: "string option"
  artifact_source :: app_artifact_source

record runtime_permission_action =
  rpa_permission :: string
  rpa_api_min :: "int option"
  rpa_api_max :: "int option"

datatype app_op_mode = Allow

record app_op_action =
  aoa_op :: string
  aoa_mode :: app_op_mode
  aoa_api_min :: "int option"
  aoa_api_max :: "int option"

record app_permission_set =
  pset_runtime :: "runtime_permission_action list"
  pset_app_ops :: "app_op_action list"

record app_permission_sets =
  psets_baseline :: "app_permission_set option"
  psets_elevated :: "app_permission_set option"

record app_target =
  target_kind :: app_target_kind
  target_location :: app_target_location
  target_path :: string

datatype config_format = KeyValueV1 | JsonV1

datatype config_value_type = CString | CInteger | CNumber | CBoolean

record config_validators =
  cv_allowed_values :: "json list"
  cv_minimum :: "json option"
  cv_maximum :: "json option"
  cv_min_length :: "nat option"
  cv_max_length :: "nat option"

record managed_property =
  mp_path :: "string list"
  mp_type_name :: config_value_type
  mp_clearable :: bool
  mp_default :: "json option"
  mp_validators :: config_validators

record app_configuration =
  conf_format :: config_format
  conf_target :: string
  conf_templates :: "string omap"
  conf_managed_properties :: "managed_property omap"

record app_definition =
  app_schema_version :: int
  app_kind :: string
  app_id :: string
  app_name :: string
  app_description :: "string option"
  app_category :: "string option"
  app_package_id :: string
  app_artifacts :: "app_artifact omap"
  app_permission_sets :: "app_permission_sets option"
  app_targets :: "app_target omap"
  app_configurations :: "app_configuration omap"
  app_launcher_activity :: "string option"
  app_metadata :: "json omap"

type_synonym apps = "(string, app_definition) fmap"

section \<open>Small checks\<close>

definition diag :: "string \<Rightarrow> string \<Rightarrow> string \<Rightarrow> diagnostic" where
  "diag code message field = \<lparr> diag_code = code, diag_message = message, diag_field = field \<rparr>"

definition diag_if :: "bool \<Rightarrow> string \<Rightarrow> string \<Rightarrow> string \<Rightarrow> diagnostic list" where
  "diag_if b code message field = (if b then [diag code message field] else [])"

lemma diag_if_Nil [simp]: "diag_if b c m f = [] \<longleftrightarrow> \<not> b"
  by (simp add: diag_if_def)

definition validate_nonblank :: "string \<Rightarrow> string \<Rightarrow> string \<Rightarrow> string \<Rightarrow> diagnostic list" where
  "validate_nonblank code message field value = diag_if (is_blank value) code message field"

definition validate_optional_nonblank ::
  "string \<Rightarrow> string \<Rightarrow> string \<Rightarrow> string option \<Rightarrow> diagnostic list" where
  "validate_optional_nonblank code message field value =
     diag_if (is_some_and value is_blank) code message field"

definition validate_identity ::
  "int \<Rightarrow> string \<Rightarrow> string \<Rightarrow> string \<Rightarrow> string \<Rightarrow> diagnostic list" where
  "validate_identity schema_version kind expected_kind id_text name =
     diag_if (schema_version \<noteq> 1) ''schema_version_unsupported'' ''schema_version must be 1.''
       ''schema_version''
     @ diag_if (kind \<noteq> expected_kind) ''authored_kind_invalid''
       (''kind must be '' @ quoted expected_kind @ ''.'') ''kind''
     @ diag_if (\<not> is_valid_identifier id_text) ''authored_id_invalid''
       ''ID must contain lowercase alphanumeric segments separated by '.', '_', or '-'.'' ''id''
     @ validate_nonblank ''authored_name_invalid'' ''Name must not be empty.'' ''name'' name"

definition validate_package_id :: "string \<Rightarrow> diagnostic list" where
  "validate_package_id package_id =
     diag_if (\<not> is_valid_package_id package_id) ''package_id_invalid''
       ''Package IDs must contain at least two valid dot-separated identifier segments.''
       ''package_id''"

text \<open>The text shared by every diagnostic on an identifier that names an entry.\<close>

definition ids_message :: "string \<Rightarrow> string" where
  "ids_message what =
     what @ '' IDs must contain lowercase alphanumeric segments separated by '.', '_', or '-'.''"

section \<open>Artifacts\<close>

definition validate_artifact_source ::
  "externals \<Rightarrow> string \<Rightarrow> app_artifact_source \<Rightarrow> diagnostic list" where
  "validate_artifact_source ext field source =
     (case source of
        UserProvided \<Rightarrow> []
      | DirectUrl url sha256 \<Rightarrow>
          diag_if (\<not> is_public_https_url ext url) ''app_artifact_url_invalid''
            ''Direct URL artifact sources require a public HTTPS address without credentials or a fragment.''
            (field @ ''.source.url'')
          @ (case sha256 of None \<Rightarrow> [] | Some digest \<Rightarrow>
              diag_if (\<not> is_lowercase_sha256 digest) ''app_artifact_sha256_invalid''
                ''The artifact SHA-256 must contain exactly 64 lowercase hexadecimal characters.''
                (field @ ''.source.sha256''))
      | LatestRelease provider base_url repository asset_pattern invert_asset_pattern _ \<Rightarrow>
          diag_if (\<not> is_service_origin ext base_url) ''app_artifact_base_url_invalid''
            ''Latest-release sources require an HTTPS service origin: no credentials, query, fragment, or path.''
            (field @ ''.source.base_url'')
          @ diag_if (\<not> is_valid_repository provider repository) ''app_artifact_repository_invalid''
            ''The release repository must name a valid owner and project for the selected provider.''
            (field @ ''.source.repository'')
          @ (case asset_pattern of
               Some pattern \<Rightarrow>
                 diag_if (is_blank pattern \<or> \<not> ext_regex_compiles ext pattern)
                   ''app_artifact_asset_pattern_invalid''
                   ''The asset pattern must be a non-empty regular expression when present.''
                   (field @ ''.source.asset_pattern'')
             | None \<Rightarrow>
                 diag_if (invert_asset_pattern \<noteq> None) ''app_artifact_invert_without_pattern''
                   ''Inverting asset-pattern matches requires an asset pattern.''
                   (field @ ''.source.invert_asset_pattern'')))"

definition validate_artifact :: "externals \<Rightarrow> string \<times> app_artifact \<Rightarrow> diagnostic list" where
  "validate_artifact ext = (\<lambda>(artifact_id, artifact).
     let field = ''artifacts['' @ artifact_id @ '']'' in
     diag_if (\<not> is_valid_identifier artifact_id) ''app_artifact_id_invalid'' (ids_message ''Artifact'') field
     @ validate_optional_nonblank ''app_artifact_text_invalid''
         ''Artifact names must not be empty when present.'' (field @ ''.name'') (artifact_name artifact)
     @ validate_optional_nonblank ''app_artifact_text_invalid''
         ''Artifact descriptions must not be empty when present.'' (field @ ''.description'')
         (artifact_description artifact)
     @ validate_artifact_source ext field (artifact_source artifact))"

definition validate_artifacts :: "externals \<Rightarrow> app_artifact omap \<Rightarrow> diagnostic list" where
  "validate_artifacts ext artifacts = concat (map (validate_artifact ext) artifacts)"

section \<open>Permission sets\<close>

definition bounds_message :: string where
  "bounds_message =
     ''Android API bounds must be positive, and the minimum must not exceed the maximum.''"

definition validate_api_bounds :: "string \<Rightarrow> int option \<Rightarrow> int option \<Rightarrow> diagnostic list" where
  "validate_api_bounds field minimum maximum =
     (let invalid_minimum = (is_some_and minimum (\<lambda>v. v < 1)
            \<or> (case (minimum, maximum) of (Some a, Some b) \<Rightarrow> a > b | _ \<Rightarrow> False))
      in diag_if invalid_minimum ''app_permission_api_bounds_invalid'' bounds_message
           (field @ ''.android_api_min'')
         @ diag_if (is_some_and maximum (\<lambda>v. v < 1)) ''app_permission_api_bounds_invalid''
             bounds_message (field @ ''.android_api_max''))"

definition duplicate_action_message :: string where
  "duplicate_action_message =
     ''Permission automation actions must be unique within and across permission sets.''"

text \<open>The action loops thread the set \<open>seen\<close> of action keys; \<open>HashSet::insert\<close> reports a key
  that was there.\<close>

definition check_action ::
  "string \<Rightarrow> string \<Rightarrow> string \<Rightarrow> string \<Rightarrow> string \<Rightarrow> int option \<Rightarrow> int option \<Rightarrow>
     string set \<Rightarrow> diagnostic list \<times> string set" where
  "check_action field name_field name_message key_prefix name minimum maximum seen =
     (let key = key_prefix @ name in
      (validate_nonblank ''app_permission_action_invalid'' name_message (field @ name_field) name
       @ validate_api_bounds field minimum maximum
       @ diag_if (\<not> is_blank name \<and> key \<in> seen) ''app_permission_action_duplicate''
           duplicate_action_message field,
       if \<not> is_blank name then insert key seen else seen))"

fun validate_runtime_actions ::
  "string \<Rightarrow> nat \<Rightarrow> runtime_permission_action list \<Rightarrow> string set \<Rightarrow> diagnostic list \<times> string set" where
  "validate_runtime_actions set_field index [] seen = ([], seen)"
| "validate_runtime_actions set_field index (action # actions) seen =
     (let field = set_field @ ''.runtime['' @ show_nat index @ '']'';
          (ds, seen') = check_action field ''.permission'' ''Permission names must not be empty.''
            ''runtime:'' (rpa_permission action) (rpa_api_min action) (rpa_api_max action) seen;
          (ds', seen'') = validate_runtime_actions set_field (Suc index) actions seen'
      in (ds @ ds', seen''))"

fun validate_op_actions ::
  "string \<Rightarrow> nat \<Rightarrow> app_op_action list \<Rightarrow> string set \<Rightarrow> diagnostic list \<times> string set" where
  "validate_op_actions set_field index [] seen = ([], seen)"
| "validate_op_actions set_field index (action # actions) seen =
     (let field = set_field @ ''.app_ops['' @ show_nat index @ '']'';
          (ds, seen') = check_action field ''.op'' ''App-op names must not be empty.''
            ''app_op:'' (aoa_op action) (aoa_api_min action) (aoa_api_max action) seen;
          (ds', seen'') = validate_op_actions set_field (Suc index) actions seen'
      in (ds @ ds', seen''))"

definition validate_permission_set ::
  "string \<Rightarrow> app_permission_set option \<Rightarrow> string set \<Rightarrow> diagnostic list \<times> string set" where
  "validate_permission_set set_name set_opt seen =
     (case set_opt of
        None \<Rightarrow> ([], seen)
      | Some s \<Rightarrow>
          let set_field = ''permission_sets.'' @ set_name;
              (rs, seen1) = validate_runtime_actions set_field 0 (pset_runtime s) seen;
              (os, seen2) = validate_op_actions set_field 0 (pset_app_ops s) seen1
          in (diag_if (pset_runtime s = [] \<and> pset_app_ops s = []) ''app_permission_set_empty''
                ''A present permission set must contain at least one action.'' set_field
              @ rs @ os, seen2))"

definition validate_permission_sets :: "app_permission_sets option \<Rightarrow> diagnostic list" where
  "validate_permission_sets sets_opt =
     (case sets_opt of
        None \<Rightarrow> []
      | Some sets \<Rightarrow>
          let (bs, seen) = validate_permission_set ''baseline'' (psets_baseline sets) {};
              (es, _) = validate_permission_set ''elevated'' (psets_elevated sets) seen
          in diag_if (psets_baseline sets = None \<and> psets_elevated sets = None)
               ''app_permission_set_empty''
               ''Present permission sets must contain at least one named set.'' ''permission_sets''
             @ bs @ es)"

section \<open>Targets, launcher, metadata\<close>

definition validate_targets :: "app_target omap \<Rightarrow> diagnostic list" where
  "validate_targets targets =
     concat (map (\<lambda>(target_id, t).
       let field = ''targets['' @ target_id @ '']'' in
       diag_if (\<not> is_valid_identifier target_id) ''app_target_id_invalid'' (ids_message ''Target'') field
       @ diag_if (\<not> is_valid_target_path (target_location t) (target_path t)) ''app_target_path_invalid''
           ''App target paths must be literal slash-separated paths in the form the target location requires.''
           (field @ ''.path'')) targets)"

definition validate_launcher_activity :: "string option \<Rightarrow> diagnostic list" where
  "validate_launcher_activity launcher_activity =
     diag_if (is_some_and launcher_activity (\<lambda>a. \<not> is_valid_concrete_launcher_activity a))
       ''launcher_activity_invalid''
       ''The launcher activity must be one fully-qualified activity class name.'' ''launcher_activity''"

definition reserved_metadata_keys :: "string list" where
  "reserved_metadata_keys =
     [''schema_version'', ''kind'', ''id'', ''name'', ''description'', ''category'', ''package_id'',
      ''artifacts'', ''permission_sets'', ''targets'', ''configurations'', ''launcher_activity'',
      ''metadata'', ''apk_inspection'']"

definition validate_ordered_map_keys :: "string \<Rightarrow> json omap \<Rightarrow> diagnostic list" where
  "validate_ordered_map_keys field values =
     concat (map (\<lambda>key. diag_if (is_blank key) ''extension_key_invalid''
       ''Extension mapping keys must not be empty.'' field) (omap_keys values))"

definition validate_metadata :: "json omap \<Rightarrow> diagnostic list" where
  "validate_metadata values =
     validate_ordered_map_keys ''metadata'' values
     @ concat (map (\<lambda>key. diag_if (key \<in> set reserved_metadata_keys) ''metadata_reserved_key''
         (''Metadata key is reserved by the app definition schema: '' @ key) ''metadata'')
         (omap_keys values))"

section \<open>Configurations\<close>

fun config_type_matches :: "config_value_type \<Rightarrow> json \<Rightarrow> bool" where
  "config_type_matches CString v = is_string v"
| "config_type_matches CInteger v = is_some_and (as_number v) (\<lambda>n. \<not> is_f64 n)"
| "config_type_matches CNumber v = is_number v"
| "config_type_matches CBoolean v = is_boolean v"

definition configuration_property_path_tokens ::
  "config_format \<Rightarrow> string list \<Rightarrow> string list option" where
  "configuration_property_path_tokens format path =
     (if path = [] \<or> (\<exists>segment \<in> set path. segment = [] \<or> has_control segment) then None
      else (case format of
              KeyValueV1 \<Rightarrow>
                (case path of
                   [key] \<Rightarrow>
                     if trim key \<noteq> key \<or> (\<exists>c \<in> set key. c \<in> {CHR ''='', CHR ''/'', CHR 0x5C})
                     then None else Some path
                 | _ \<Rightarrow> None)
            | JsonV1 \<Rightarrow> Some path))"

definition path_tokens_overlap :: "string list \<Rightarrow> string list \<Rightarrow> bool" where
  "path_tokens_overlap l r =
     (let common = min (length l) (length r) in take common l = take common r)"

definition configuration_paths_overlap ::
  "config_format \<Rightarrow> string list \<Rightarrow> string list \<Rightarrow> bool" where
  "configuration_paths_overlap format l r =
     (case (configuration_property_path_tokens format l, configuration_property_path_tokens format r) of
        (Some a, Some b) \<Rightarrow> path_tokens_overlap a b
      | _ \<Rightarrow> False)"

fun compare_managed_numeric_values :: "config_value_type \<Rightarrow> json \<Rightarrow> json \<Rightarrow> ordering option" where
  "compare_managed_numeric_values CInteger l r = compare_integer_values l r"
| "compare_managed_numeric_values CNumber l r = compare_number_values l r"
| "compare_managed_numeric_values _ l r = None"

fun managed_numeric_bound_matches_type :: "config_value_type \<Rightarrow> json \<Rightarrow> bool" where
  "managed_numeric_bound_matches_type CInteger b = is_some_and (as_number b) (\<lambda>n. \<not> is_f64 n)"
| "managed_numeric_bound_matches_type CNumber b = is_number b"
| "managed_numeric_bound_matches_type _ b = False"

definition managed_property_values_equal :: "config_value_type \<Rightarrow> json \<Rightarrow> json \<Rightarrow> bool option" where
  "managed_property_values_equal t l r =
     (if t \<in> {CInteger, CNumber}
      then map_option (\<lambda>ord. ord = Equal) (compare_managed_numeric_values t l r)
      else Some (json_eq l r))"

definition managed_property_value_is_valid :: "managed_property \<Rightarrow> json \<Rightarrow> bool" where
  "managed_property_value_is_valid prop value =
     (let t = mp_type_name prop; vs = mp_validators prop in
      \<not> is_null value \<and> config_type_matches t value
      \<and> (cv_allowed_values vs = []
         \<or> (\<exists>allowed \<in> set (cv_allowed_values vs).
               managed_property_values_equal t value allowed = Some True))
      \<and> is_none_or (cv_minimum vs) (\<lambda>minimum.
           is_some_and (compare_managed_numeric_values t value minimum) (\<lambda>ord. ord \<noteq> Less))
      \<and> is_none_or (cv_maximum vs) (\<lambda>maximum.
           is_some_and (compare_managed_numeric_values t value maximum) (\<lambda>ord. ord \<noteq> Greater))
      \<and> is_none_or (cv_min_length vs) (\<lambda>n. is_some_and (as_str value) (\<lambda>s. n \<le> char_count s))
      \<and> is_none_or (cv_max_length vs) (\<lambda>n. is_some_and (as_str value) (\<lambda>s. char_count s \<le> n)))"

text \<open>\<open>usize\<close> has 64 bits; \<open>saturating_add\<close> stops at its maximum.\<close>

definition usize_max :: nat where
  "usize_max = 18446744073709551615"

definition saturating_add :: "nat \<Rightarrow> nat \<Rightarrow> nat" where
  "saturating_add a b = min usize_max (a + b)"

definition inline_config_literal_size :: "externals \<Rightarrow> json \<Rightarrow> nat" where
  "inline_config_literal_size ext value =
     (case as_str value of
        Some s \<Rightarrow> length s
      | None \<Rightarrow> (case ext_json_len ext value of None \<Rightarrow> usize_max | Some n \<Rightarrow> n))"

text \<open>Returns the diagnostics and the new total of literal bytes.\<close>

definition record_config_literal ::
  "externals \<Rightarrow> string \<Rightarrow> json \<Rightarrow> nat \<Rightarrow> string \<Rightarrow> diagnostic list \<times> nat" where
  "record_config_literal ext field value bytes code =
     (let size = inline_config_literal_size ext value in
      (diag_if (size > 65536) code
         ''Each inline configuration literal must be no larger than 64 KiB.'' field,
       saturating_add bytes size))"

definition allowed_value_message :: string where
  "allowed_value_message =
     ''Each allowed value must be unique, non-null, match the managed property type, and satisfy its minimum, maximum, min_length, and max_length constraints.''"

fun validate_allowed_values ::
  "externals \<Rightarrow> managed_property \<Rightarrow> string \<Rightarrow> json list \<Rightarrow> json list \<Rightarrow> nat \<Rightarrow> diagnostic list \<times> nat" where
  "validate_allowed_values ext prop field previous [] bytes = ([], bytes)"
| "validate_allowed_values ext prop field previous (allowed # rest) bytes =
     (let item = field @ ''.validators.allowed_values['' @ show_nat (length previous) @ '']'';
          t = mp_type_name prop;
          (ls, bytes1) = record_config_literal ext item allowed bytes ''app_config_literal_too_large'';
          bad = (\<not> config_type_matches t allowed
                 \<or> (\<exists>p \<in> set previous. is_none_or (managed_property_values_equal t p allowed) (\<lambda>e. e))
                 \<or> \<not> managed_property_value_is_valid prop allowed);
          (ds, bytes2) = validate_allowed_values ext prop field (previous @ [allowed]) rest bytes1
      in (ls @ diag_if bad ''app_config_validator_invalid'' allowed_value_message item @ ds, bytes2))"

definition validate_bound ::
  "externals \<Rightarrow> managed_property \<Rightarrow> string \<Rightarrow> string \<Rightarrow> json option \<Rightarrow> nat \<Rightarrow> diagnostic list \<times> nat" where
  "validate_bound ext prop field bound_name bound_opt bytes =
     (case bound_opt of
        None \<Rightarrow> ([], bytes)
      | Some bound \<Rightarrow>
          let item = field @ ''.validators.'' @ bound_name;
              (ls, bytes1) = record_config_literal ext item bound bytes ''app_config_literal_too_large''
          in (ls @ diag_if (\<not> managed_numeric_bound_matches_type (mp_type_name prop) bound)
                ''app_config_validator_invalid''
                ''Numeric bounds require a numeric managed property and numeric values.'' item,
              bytes1))"

definition validate_bound_order :: "managed_property \<Rightarrow> string \<Rightarrow> diagnostic list" where
  "validate_bound_order prop field =
     (case (cv_minimum (mp_validators prop), cv_maximum (mp_validators prop)) of
        (Some minimum, Some maximum) \<Rightarrow>
          let t = mp_type_name prop in
          diag_if (managed_numeric_bound_matches_type t minimum
                   \<and> managed_numeric_bound_matches_type t maximum
                   \<and> is_none_or (compare_managed_numeric_values t minimum maximum) (\<lambda>ord. ord = Greater))
            ''app_config_validator_invalid'' ''Minimum must not exceed maximum.''
            (field @ ''.validators'')
      | _ \<Rightarrow> [])"

definition validate_length_bounds :: "managed_property \<Rightarrow> string \<Rightarrow> diagnostic list" where
  "validate_length_bounds prop field =
     (let vs = mp_validators prop in
      if cv_min_length vs \<noteq> None \<or> cv_max_length vs \<noteq> None then
        diag_if (mp_type_name prop \<noteq> CString) ''app_config_validator_invalid''
          ''min_length and max_length are supported only for string properties.'' (field @ ''.validators'')
        @ diag_if (case (cv_min_length vs, cv_max_length vs) of (Some a, Some b) \<Rightarrow> a > b | _ \<Rightarrow> False)
          ''app_config_validator_invalid'' ''min_length must not exceed max_length.'' (field @ ''.validators'')
      else [])"

definition validate_property_path ::
  "externals \<Rightarrow> config_format \<Rightarrow> string \<Rightarrow> string \<Rightarrow> managed_property \<Rightarrow>
     (string \<times> string list) list \<Rightarrow> diagnostic list \<times> (string \<times> string list) list" where
  "validate_property_path ext format field property_id prop paths =
     (case configuration_property_path_tokens format (mp_path prop) of
        Some tokens \<Rightarrow>
          (concat (map (\<lambda>(previous_id, previous_tokens).
             diag_if (path_tokens_overlap previous_tokens tokens) ''app_config_property_path_overlap''
               (''Managed property path overlaps property '' @ ext_str_debug ext previous_id @ ''.'')
               (field @ ''.path'')) paths),
           paths @ [(property_id, tokens)])
      | None \<Rightarrow>
          ([diag ''app_config_property_path_invalid''
              ''Managed property path is invalid for the declared configuration format.''
              (field @ ''.path'')], paths))"

definition validate_default ::
  "externals \<Rightarrow> managed_property \<Rightarrow> string \<Rightarrow> nat \<Rightarrow> diagnostic list \<times> nat" where
  "validate_default ext prop field bytes =
     (case mp_default prop of
        None \<Rightarrow> ([], bytes)
      | Some d \<Rightarrow>
          let (ls, bytes1) = record_config_literal ext (field @ ''.default'') d bytes
                ''app_config_literal_too_large''
          in (ls @ diag_if (\<not> managed_property_value_is_valid prop d) ''app_config_default_invalid''
                ''Managed property default must match its declared type and validators.''
                (field @ ''.default''), bytes1))"

fun validate_properties ::
  "externals \<Rightarrow> config_format \<Rightarrow> string \<Rightarrow> managed_property omap \<Rightarrow>
     (string \<times> string list) list \<Rightarrow> nat \<Rightarrow> diagnostic list \<times> nat" where
  "validate_properties ext format cfield [] paths bytes = ([], bytes)"
| "validate_properties ext format cfield ((property_id, prop) # rest) paths bytes =
     (let field = cfield @ ''.managed_properties['' @ property_id @ '']'';
          vs = mp_validators prop;
          ids = diag_if (\<not> is_valid_identifier property_id) ''app_config_property_id_invalid''
                  (ids_message ''Managed property'') field;
          (ps, paths') = validate_property_path ext format field property_id prop paths;
          (ds, bytes1) = validate_default ext prop field bytes;
          (as, bytes2) = validate_allowed_values ext prop field [] (cv_allowed_values vs) bytes1;
          (mins, bytes3) = validate_bound ext prop field ''minimum'' (cv_minimum vs) bytes2;
          (maxs, bytes4) = validate_bound ext prop field ''maximum'' (cv_maximum vs) bytes3;
          (rs, bytes5) = validate_properties ext format cfield rest paths' bytes4
      in (ids @ ps @ ds @ as @ mins @ maxs @ validate_bound_order prop field
          @ validate_length_bounds prop field @ rs, bytes5))"

definition validate_configuration ::
  "externals \<Rightarrow> string \<Rightarrow> app_target omap \<Rightarrow> string \<times> app_configuration \<Rightarrow> diagnostic list" where
  "validate_configuration ext app_id_text targets = (\<lambda>(configuration_id, c).
     let field = ''configurations['' @ configuration_id @ '']'';
         ts = concat (map (\<lambda>(template_id, path).
                diag_if (\<not> is_valid_identifier template_id
                         \<or> \<not> is_valid_app_configuration_template_path app_id_text path)
                  ''app_configuration_template_path_invalid''
                  ''Template paths must be relative slash-separated files under the owning app ID directory in authored/apps.''
                  (field @ ''.templates['' @ template_id @ ''].path'')) (conf_templates c));
         (ps, bytes) = validate_properties ext (conf_format c) field (conf_managed_properties c) [] 0
     in diag_if (\<not> is_valid_identifier configuration_id) ''app_configuration_id_invalid''
          (ids_message ''Configuration'') field
        @ diag_if (\<not> is_some_and (omap_get targets (conf_target c)) (\<lambda>t. target_kind t = TFile))
          ''app_configuration_target_invalid''
          ''A configuration document must reference a declared file App Target.'' (field @ ''.target'')
        @ ts @ ps
        @ diag_if (bytes > 2097152) ''app_config_literal_budget_exceeded''
          ''Inline configuration literals in one configuration document must total no more than 2 MiB.''
          field)"

definition validate_configurations ::
  "externals \<Rightarrow> string \<Rightarrow> app_target omap \<Rightarrow> app_configuration omap \<Rightarrow> diagnostic list" where
  "validate_configurations ext app_id_text targets configurations =
     concat (map (validate_configuration ext app_id_text targets) configurations)"

section \<open>The whole definition\<close>

definition validate_app_definition :: "externals \<Rightarrow> app_definition \<Rightarrow> diagnostic list" where
  "validate_app_definition ext app =
     validate_identity (app_schema_version app) (app_kind app) ''app_definition'' (app_id app) (app_name app)
     @ validate_optional_nonblank ''authored_description_invalid''
         ''Description must not be empty when present.'' ''description'' (app_description app)
     @ validate_optional_nonblank ''app_category_invalid''
         ''App category must not be empty when present.'' ''category'' (app_category app)
     @ validate_package_id (app_package_id app)
     @ validate_artifacts ext (app_artifacts app)
     @ validate_permission_sets (app_permission_sets app)
     @ validate_targets (app_targets app)
     @ validate_configurations ext (app_id app) (app_targets app) (app_configurations app)
     @ validate_launcher_activity (app_launcher_activity app)
     @ validate_metadata (app_metadata app)"

section \<open>What an accepted definition guarantees\<close>

lemma valid_app_package: "validate_app_definition ext app = [] \<Longrightarrow> is_valid_package_id (app_package_id app)"
  by (simp add: validate_app_definition_def validate_package_id_def)

lemma valid_app_id: "validate_app_definition ext app = [] \<Longrightarrow> is_valid_identifier (app_id app)"
  by (simp add: validate_app_definition_def validate_identity_def)

lemma valid_app_target:
  assumes "validate_app_definition ext app = []" and "omap_get (app_targets app) i = Some t"
  shows "is_valid_target_path (target_location t) (target_path t)"
  using assms(1) map_of_SomeD [OF assms(2)]
  by (auto simp: validate_app_definition_def validate_targets_def Let_def)

lemma valid_app_launcher:
  "validate_app_definition ext app = [] \<Longrightarrow> app_launcher_activity app = Some a \<Longrightarrow>
     is_valid_concrete_launcher_activity a"
  by (simp add: validate_app_definition_def validate_launcher_activity_def)

end
