(* ===== verification/Step_Specs.thy ===== *)
theory Step_Specs
  imports Recipe_Model
begin

text \<open>
  The static table of step types, \<open>step_specs.rs\<close>: which parameters a step type has, where their
  values may come from, what it outputs and which defaults it has.  The tables are \<open>BTreeMap\<close>s
  in the source, association lists sorted by key here (\<open>btree_collect\<close>).
\<close>

section \<open>Sorted maps\<close>

fun btree_insert :: "string \<Rightarrow> 'v \<Rightarrow> 'v omap \<Rightarrow> 'v omap" where
  "btree_insert k v [] = [(k, v)]"
| "btree_insert k v ((k', v') # m) =
     (if k = k' then (k, v) # m
      else if k < k' then (k, v) # (k', v') # m
      else (k', v') # btree_insert k v m)"

definition btree_collect :: "'v omap \<Rightarrow> 'v omap" where
  "btree_collect ps = fold (\<lambda>(k, v) m. btree_insert k v m) ps []"

lemma btree_insert_keys: "fst ` set (btree_insert k v m) = insert k (fst ` set m)"
  by (induction k v m rule: btree_insert.induct) auto

lemma btree_insert_sorted:
  "sorted_wrt (<) (omap_keys m) \<Longrightarrow> sorted_wrt (<) (omap_keys (btree_insert k v m))"
proof (induction k v m rule: btree_insert.induct)
  case (1 k v)
  then show ?case by simp
next
  case (2 k v k' v' m)
  have "\<forall>x \<in> fst ` set (btree_insert k v m). k' < x" if "k' < k"
    using that 2 by (auto simp: btree_insert_keys)
  with 2 show ?case by (auto simp: btree_insert_keys)
qed

lemma btree_collect_sorted: "sorted_wrt (<) (omap_keys (btree_collect ps))"
proof -
  have "sorted_wrt (<) (omap_keys m) \<Longrightarrow>
      sorted_wrt (<) (omap_keys (fold (\<lambda>(k, v) m. btree_insert k v m) ps m))" for m
    by (induction ps arbitrary: m) (auto intro: btree_insert_sorted)
  then show ?thesis by (simp add: btree_collect_def)
qed

lemma strict_sorted_distinct: "sorted_wrt (<) xs \<Longrightarrow> distinct (xs :: string list)"
  by (induction xs) auto

section \<open>Data\<close>

datatype app_context_requirement = ContextNone | ContextOptional | ContextRequired

record step_output =
  out_name :: string
  out_value_type :: string
  out_primary :: bool

record step_param =
  sp_accepted_sources :: "string list"
  sp_accepted_value_types :: "string list"
  sp_required :: bool
  sp_enum_values :: "string list"
  sp_shape :: "json option"

record step_spec =
  spec_type_name :: string
  spec_label :: string
  spec_supported :: bool
  spec_app_context :: app_context_requirement
  spec_primary_output_name :: "string option"
  spec_outputs :: "step_output list"
  spec_param_order :: "string list"
  spec_params :: "step_param omap"
  spec_defaults :: "json omap"

definition make_spec ::
  "string \<Rightarrow> string \<Rightarrow> string option \<Rightarrow> step_output list \<Rightarrow> string list \<Rightarrow>
     step_param omap \<Rightarrow> json omap \<Rightarrow> step_spec" where
  "make_spec type_name label primary_output_name outputs param_order params defaults =
     \<lparr> spec_type_name = type_name, spec_label = label, spec_supported = True,
       spec_app_context =
         (if type_name \<in> {''install_apk'', ''grant_permissions'', ''launch_app'', ''force_stop_app''}
          then ContextRequired
          else if type_name \<in> {''copy_files'', ''package_installed''} then ContextOptional
          else ContextNone),
       spec_primary_output_name = primary_output_name, spec_outputs = outputs,
       spec_param_order = param_order, spec_params = params, spec_defaults = defaults \<rparr>"

definition make_output :: "string \<Rightarrow> string \<Rightarrow> bool \<Rightarrow> step_output" where
  "make_output name value_type primary =
     \<lparr> out_name = name, out_value_type = value_type, out_primary = primary \<rparr>"

definition make_param ::
  "string list \<Rightarrow> string list \<Rightarrow> bool \<Rightarrow> string list \<Rightarrow> json option \<Rightarrow> step_param" where
  "make_param sources value_types required enum_values shape =
     \<lparr> sp_accepted_sources = sources, sp_accepted_value_types = value_types,
       sp_required = required, sp_enum_values = enum_values, sp_shape = shape \<rparr>"

definition list_shape :: "string \<Rightarrow> json" where
  "list_shape target =
     JObject [(''fields'', JObject []), (''itemKind'', JString ''string''), (''kind'', JString ''list''),
              (''ordered'', JBool True), (''target'', JString target), (''unique'', JBool True)]"

definition artifact_list_shape :: json where
  "artifact_list_shape = list_shape ''artifact''"

definition artifact_group_list_shape :: json where
  "artifact_group_list_shape = list_shape ''artifact_group''"

definition permission_policy_shape :: json where
  "permission_policy_shape =
     JObject [(''fields'', JObject [(''on_failure'',
                JObject [(''enumValues'', jstrs [''warn'', ''fail'']), (''kind'', JString ''string''),
                         (''required'', JBool True)])]),
              (''kind'', JString ''object''), (''ordered'', JBool False), (''unique'', JBool False)]"

section \<open>The table\<close>

definition download_remote_file_spec :: step_spec where
  "download_remote_file_spec =
     make_spec ''download_remote_file'' ''Download Remote File'' (Some ''local_path'')
       [make_output ''local_path'' ''file_path'' True, make_output ''filename'' ''string'' False]
       [''url'', ''cache'']
       (btree_collect
         [(''url'', make_param [''literal'', ''step_output_ref''] [''string''] True [] None),
          (''cache'', make_param [''literal''] [''string''] False [''default'', ''none''] None)])
       (btree_collect [(''cache'', JString ''default'')])"

definition resolve_artifacts_spec :: step_spec where
  "resolve_artifacts_spec =
     make_spec ''resolve_artifacts'' ''Resolve Artifacts'' None [] [''artifacts'', ''artifact_groups'']
       (btree_collect
         [(''artifact_groups'',
             make_param [''literal''] [''string_list''] False [] (Some artifact_group_list_shape)),
          (''artifacts'',
             make_param [''literal''] [''string_list''] False [] (Some artifact_list_shape))])
       (btree_collect [])"

definition extract_artifacts_spec :: step_spec where
  "extract_artifacts_spec =
     make_spec ''extract_artifacts'' ''Extract Artifacts'' (Some ''extracted_paths'')
       [make_output ''extracted_paths'' ''path_list'' True]
       [''artifacts'', ''artifact_groups'', ''extract_on'']
       (btree_collect
         [(''artifact_groups'',
             make_param [''literal''] [''string_list''] False [] (Some artifact_group_list_shape)),
          (''artifacts'',
             make_param [''literal''] [''string_list''] False [] (Some artifact_list_shape)),
          (''extract_on'', make_param [''literal''] [''string''] False [''host'', ''device''] None)])
       (btree_collect [(''extract_on'', JString ''host'')])"

definition extract_archive_spec :: step_spec where
  "extract_archive_spec =
     make_spec ''extract_archive'' ''Extract Archive'' (Some ''extracted_path'')
       [make_output ''extracted_path'' ''directory_path'' True]
       [''archive'', ''extract_on'', ''dest'', ''device_temp_path'', ''cleanup'']
       (btree_collect
         [(''archive'',
             make_param [''input_ref'', ''artifact_ref'', ''step_output_ref''] [''file_path''] True [] None),
          (''cleanup'', make_param [''literal''] [''boolean''] False [] None),
          (''dest'', make_param [''literal''] [''string''] False [] None),
          (''device_temp_path'', make_param [''literal''] [''device_path''] False [] None),
          (''extract_on'', make_param [''literal''] [''string''] False [''host'', ''device''] None)])
       (btree_collect [(''cleanup'', JBool True), (''extract_on'', JString ''host'')])"

definition copy_files_spec :: step_spec where
  "copy_files_spec =
     make_spec ''copy_files'' ''Copy Files'' (Some ''copied_paths'')
       [make_output ''copied_paths'' ''path_list'' True]
       [''source'', ''dest'', ''copy_policy'']
       (btree_collect
         [(''copy_policy'',
             make_param [''literal'', ''input_ref''] [''string''] False
               [''merge'', ''sync'', ''replace''] None),
          (''dest'',
             make_param [''literal'', ''input_ref'', ''app_target''] [''device_path''] True [] None),
          (''source'',
             make_param [''input_ref'', ''artifact_ref'', ''step_output_ref'']
               [''file_path'', ''directory_path'', ''path_list''] True [] None)])
       (btree_collect [(''copy_policy'', JString ''merge'')])"

definition install_apk_spec :: step_spec where
  "install_apk_spec =
     make_spec ''install_apk'' ''Install APK'' None [] [''app'', ''replace_existing'']
       (btree_collect
         [(''app'', make_param [''artifact_ref''] [''file_path''] True [] None),
          (''replace_existing'', make_param [''literal''] [''boolean''] False [] None)])
       (btree_collect [(''replace_existing'', JBool False)])"

definition grant_permissions_spec :: step_spec where
  "grant_permissions_spec =
     make_spec ''grant_permissions'' ''Grant Permissions'' None [] [''permission_set'', ''policy'']
       (btree_collect
         [(''permission_set'',
             make_param [''literal''] [''string''] True [''baseline'', ''elevated''] None),
          (''policy'',
             make_param [''literal''] [''object''] True [] (Some permission_policy_shape))])
       (btree_collect [])"

definition launch_app_spec :: step_spec where
  "launch_app_spec = make_spec ''launch_app'' ''Launch App'' None [] [] (btree_collect []) (btree_collect [])"

definition wait_spec :: step_spec where
  "wait_spec =
     make_spec ''wait'' ''Wait'' None [] [''duration_ms'']
       (btree_collect [(''duration_ms'', make_param [''literal''] [''integer''] True [] None)])
       (btree_collect [])"

definition force_stop_app_spec :: step_spec where
  "force_stop_app_spec =
     make_spec ''force_stop_app'' ''Force Stop'' None [] [] (btree_collect []) (btree_collect [])"

definition step_specs_result :: "step_spec list" where
  "step_specs_result =
     [download_remote_file_spec, resolve_artifacts_spec, extract_artifacts_spec,
      extract_archive_spec, copy_files_spec, install_apk_spec, grant_permissions_spec,
      launch_app_spec, wait_spec, force_stop_app_spec]"

definition step_spec_for :: "string \<Rightarrow> step_spec option" where
  "step_spec_for type_name = find (\<lambda>spec. spec_type_name spec = type_name) step_specs_result"

definition authored_step_spec_for :: "step \<Rightarrow> step_spec option" where
  "authored_step_spec_for s = step_spec_for (step_type_name s)"

definition is_supported_step_type :: "string \<Rightarrow> bool" where
  "is_supported_step_type type_name = (step_spec_for type_name \<noteq> None)"

section \<open>Facts\<close>

lemma spec_type_names [simp]:
  "spec_type_name download_remote_file_spec = ''download_remote_file''"
  "spec_type_name resolve_artifacts_spec = ''resolve_artifacts''"
  "spec_type_name extract_artifacts_spec = ''extract_artifacts''"
  "spec_type_name extract_archive_spec = ''extract_archive''"
  "spec_type_name copy_files_spec = ''copy_files''"
  "spec_type_name install_apk_spec = ''install_apk''"
  "spec_type_name grant_permissions_spec = ''grant_permissions''"
  "spec_type_name launch_app_spec = ''launch_app''"
  "spec_type_name wait_spec = ''wait''"
  "spec_type_name force_stop_app_spec = ''force_stop_app''"
  by (simp_all add: download_remote_file_spec_def resolve_artifacts_spec_def
      extract_artifacts_spec_def extract_archive_spec_def copy_files_spec_def install_apk_spec_def
      grant_permissions_spec_def launch_app_spec_def wait_spec_def force_stop_app_spec_def
      make_spec_def)

lemma step_spec_for_simps [simp]:
  "step_spec_for ''download_remote_file'' = Some download_remote_file_spec"
  "step_spec_for ''resolve_artifacts'' = Some resolve_artifacts_spec"
  "step_spec_for ''extract_artifacts'' = Some extract_artifacts_spec"
  "step_spec_for ''extract_archive'' = Some extract_archive_spec"
  "step_spec_for ''copy_files'' = Some copy_files_spec"
  "step_spec_for ''install_apk'' = Some install_apk_spec"
  "step_spec_for ''grant_permissions'' = Some grant_permissions_spec"
  "step_spec_for ''launch_app'' = Some launch_app_spec"
  "step_spec_for ''wait'' = Some wait_spec"
  "step_spec_for ''force_stop_app'' = Some force_stop_app_spec"
  by (simp_all add: step_spec_for_def step_specs_result_def)

lemma step_spec_for_cases:
  assumes "step_spec_for t = Some spec"
  shows "spec_type_name spec = t" and "spec \<in> set step_specs_result"
  using assms by (auto simp: step_spec_for_def find_Some_iff)

text \<open>Each parameter order lists exactly the parameters of the table.\<close>

lemma spec_param_order_complete:
  "spec \<in> set step_specs_result \<Longrightarrow> set (spec_param_order spec) = set (omap_keys (spec_params spec))"
  by (auto simp: step_specs_result_def download_remote_file_spec_def resolve_artifacts_spec_def
      extract_artifacts_spec_def extract_archive_spec_def copy_files_spec_def install_apk_spec_def
      grant_permissions_spec_def launch_app_spec_def wait_spec_def force_stop_app_spec_def
      make_spec_def btree_collect_def)

text \<open>The primary output is the first output with that name, and it is marked primary.\<close>

lemma spec_primary_output:
  "spec \<in> set step_specs_result \<Longrightarrow> spec_primary_output_name spec = Some name \<Longrightarrow>
     \<exists>out. find (\<lambda>out. out_name out = name) (spec_outputs spec) = Some out \<and> out_primary out"
  by (auto simp: step_specs_result_def download_remote_file_spec_def resolve_artifacts_spec_def
      extract_artifacts_spec_def extract_archive_spec_def copy_files_spec_def install_apk_spec_def
      grant_permissions_spec_def launch_app_spec_def wait_spec_def force_stop_app_spec_def
      make_spec_def make_output_def)

end
