(* ===== verification/Plan_Types.thy ===== *)
theory Plan_Types
  imports Step_Specs App_Definition
begin

text \<open>
  The data of the planner, first part of \<open>planner.rs\<close>: messages, runtime capabilities, the
  device binding, the permission plan and the execution plan with its review snapshots, and
  the small functions on them (capability lookup and update, progress notes, comparison of
  device facts).  \<open>copy_commit_snapshots\<close>, whose types are those of \<open>executor/copy_commit.rs\<close>, is
  empty in every plan the planner emits and is filled when the review is prepared.
\<close>

section \<open>Messages\<close>

record planner_message =
  msg_code :: string
  msg_message :: string
  msg_details :: json

definition msg :: "string \<Rightarrow> string \<Rightarrow> (string \<times> json) list \<Rightarrow> planner_message" where
  "msg code message details =
     \<lparr> msg_code = code, msg_message = message, msg_details = JObject details \<rparr>"

lemma msg_simps [simp]:
  "msg_code (msg c m d) = c" "msg_message (msg c m d) = m" "msg_details (msg c m d) = JObject d"
  by (simp_all add: msg_def)

text \<open>\<open>PlannerMessage\<close> derives \<open>PartialEq\<close> over \<open>Value::eq\<close>.\<close>

definition message_eq :: "planner_message \<Rightarrow> planner_message \<Rightarrow> bool" where
  "message_eq a b = (msg_code a = msg_code b \<and> msg_message a = msg_message b
                     \<and> json_eq (msg_details a) (msg_details b))"

section \<open>Runtime capabilities\<close>

datatype root_shell_route = SuCommand | SuZero

record runtime_capabilities =
  rc_adb_available :: bool
  rc_apk_install :: bool
  rc_shared_storage_write :: bool
  rc_app_launch :: bool
  rc_shell_command :: bool
  rc_package_remove_for_user :: bool
  rc_root_shell :: bool
  rc_app_data_write :: bool
  rc_root_shell_route :: "root_shell_route option"

datatype runtime_capability =
    AdbAvailable
  | ApkInstall
  | SharedStorageWrite
  | AppLaunch
  | ShellCommand
  | PackageRemoveForUser
  | RootShell
  | AppDataWrite

definition capability_from_name :: "string \<Rightarrow> runtime_capability option" where
  "capability_from_name name =
     (if name = ''adb_available'' then Some AdbAvailable
      else if name = ''apk_install'' then Some ApkInstall
      else if name = ''shared_storage_write'' then Some SharedStorageWrite
      else if name = ''app_launch'' then Some AppLaunch
      else if name = ''shell_command'' then Some ShellCommand
      else if name = ''package_remove_for_user'' then Some PackageRemoveForUser
      else if name = ''root_shell'' then Some RootShell
      else if name = ''app_data_write'' then Some AppDataWrite
      else None)"

fun is_available :: "runtime_capability \<Rightarrow> runtime_capabilities \<Rightarrow> bool" where
  "is_available AdbAvailable c = rc_adb_available c"
| "is_available ApkInstall c = rc_apk_install c"
| "is_available SharedStorageWrite c = rc_shared_storage_write c"
| "is_available AppLaunch c = rc_app_launch c"
| "is_available ShellCommand c = rc_shell_command c"
| "is_available PackageRemoveForUser c = rc_package_remove_for_user c"
| "is_available RootShell c = rc_root_shell c"
| "is_available AppDataWrite c = rc_app_data_write c"

fun set_available :: "runtime_capability \<Rightarrow> runtime_capabilities \<Rightarrow> bool \<Rightarrow> runtime_capabilities" where
  "set_available AdbAvailable c b = c \<lparr> rc_adb_available := b \<rparr>"
| "set_available ApkInstall c b = c \<lparr> rc_apk_install := b \<rparr>"
| "set_available SharedStorageWrite c b = c \<lparr> rc_shared_storage_write := b \<rparr>"
| "set_available AppLaunch c b = c \<lparr> rc_app_launch := b \<rparr>"
| "set_available ShellCommand c b = c \<lparr> rc_shell_command := b \<rparr>"
| "set_available PackageRemoveForUser c b = c \<lparr> rc_package_remove_for_user := b \<rparr>"
| "set_available RootShell c b = c \<lparr> rc_root_shell := b \<rparr>"
| "set_available AppDataWrite c b = c \<lparr> rc_app_data_write := b \<rparr>"

definition runtime_capability_available :: "runtime_capabilities \<Rightarrow> string \<Rightarrow> bool" where
  "runtime_capability_available capabilities capability =
     is_some_and (capability_from_name capability) (\<lambda>c. is_available c capabilities)"

text \<open>\<open>set_runtime_capability\<close> updates through \<open>&mut\<close> and returns whether the name is known.\<close>

definition set_runtime_capability ::
  "runtime_capabilities \<Rightarrow> string \<Rightarrow> bool \<Rightarrow> bool \<times> runtime_capabilities" where
  "set_runtime_capability capabilities name available =
     (case capability_from_name name of
        None \<Rightarrow> (False, capabilities)
      | Some capability \<Rightarrow> (True, set_available capability capabilities available))"

definition capability_names :: "string list" where
  "capability_names =
     [''adb_available'', ''apk_install'', ''shared_storage_write'', ''app_launch'', ''shell_command'',
      ''package_remove_for_user'', ''root_shell'', ''app_data_write'']"

lemma capability_from_name_Some_iff:
  "capability_from_name name \<noteq> None \<longleftrightarrow> name \<in> set capability_names"
  unfolding capability_from_name_def capability_names_def by auto

lemma capability_from_name_inj:
  "capability_from_name a = Some c \<Longrightarrow> capability_from_name b = Some c \<Longrightarrow> a = b"
  unfolding capability_from_name_def by (simp split: if_splits)

lemma is_available_set_available [simp]:
  "is_available c' (set_available c cs b) = (if c' = c then b else is_available c' cs)"
  by (cases c; cases c'; simp)

lemma route_set_available [simp]:
  "rc_root_shell_route (set_available c cs b) = rc_root_shell_route cs"
  by (cases c; simp)

lemma set_available_again [simp]:
  "set_available c (set_available c cs a) b = set_available c cs b"
  by (cases c; simp)

lemma set_available_same [simp]: "set_available c cs (is_available c cs) = cs"
  by (cases c; simp)

section \<open>Device\<close>

record device_context =
  dc_manufacturer :: string
  dc_model :: string
  dc_android_version :: int
  dc_android_api_level :: "int option"
  dc_device_tags :: "string list"
  dc_root_shell_mode :: "root_shell_route option"

definition bind_verified_root_shell_mode ::
  "device_context \<Rightarrow> root_shell_route option \<Rightarrow> device_context" where
  "bind_verified_root_shell_mode context mode = context \<lparr> dc_root_shell_mode := mode \<rparr>"

record target_device_binding =
  td_serial :: string
  td_manufacturer :: "string option"
  td_model :: "string option"
  td_android_api_level :: "int option"

section \<open>Permission plans\<close>

datatype permission_set_kind = Baseline | Elevated
datatype permission_failure_policy = WarnOnFailure | FailOnFailure

datatype permission_not_applicable_reason =
    AndroidApiBelowMinimum int int
  | AndroidApiAboveMaximum int int

datatype permission_action_applicability =
    Applicable
  | NotApplicable permission_not_applicable_reason

fun description :: "permission_not_applicable_reason \<Rightarrow> string" where
  "description (AndroidApiBelowMinimum actual minimum) =
     ''Android API level '' @ show_int actual @ '' is below the action minimum of '' @ show_int minimum @ ''.''"
| "description (AndroidApiAboveMaximum actual maximum) =
     ''Android API level '' @ show_int actual @ '' is above the action maximum of '' @ show_int maximum @ ''.''"

datatype permission_plan_action =
    RuntimePermission (ppa_package_name: string) (ppa_permission: string)
      (ppa_api_min: "int option") (ppa_api_max: "int option")
      (ppa_applicability: permission_action_applicability)
  | AppOp (ppa_package_name: string) (ppa_op: string) (ppa_mode: app_op_mode)
      (ppa_api_min: "int option") (ppa_api_max: "int option")
      (ppa_applicability: permission_action_applicability)

fun source_section :: "permission_plan_action \<Rightarrow> string" where
  "source_section (RuntimePermission _ _ _ _ _) = ''runtime''"
| "source_section (AppOp _ _ _ _ _ _) = ''app_ops''"

record permission_plan =
  pp_permission_set :: permission_set_kind
  pp_on_failure :: permission_failure_policy
  pp_actions :: "permission_plan_action list"

definition has_applicable_actions :: "permission_plan \<Rightarrow> bool" where
  "has_applicable_actions plan =
     (\<exists>action \<in> set (pp_actions plan). ppa_applicability action = Applicable)"

section \<open>The execution plan\<close>

record execution_device_plan_snapshot =
  dps_id :: string
  dps_name :: "string option"
  dps_description :: "string option"

record execution_app_snapshot =
  apps_id :: string
  apps_name :: string
  apps_description :: "string option"
  apps_category :: "string option"
  apps_package_id :: string

text \<open>The planner copies the catalog identity without reading it; its enumerations are kept
  as the strings they are serialized to.\<close>

record catalog_identity =
  cat_source_kind :: string
  cat_source_id :: string
  cat_version :: "string option"
  cat_cache_key :: "string option"
  cat_content_digest :: "string option"

record execution_plan_source =
  src_device_profile_ref :: string
  src_device_plan_ref :: string
  src_selected_recipe_refs :: "string list"
  src_expanded_recipe_refs :: "string list"
  src_catalog :: "catalog_identity option"

record execution_recipe_snapshot =
  rs_id :: string
  rs_name :: string
  rs_description :: "string option"

datatype binding_source = Explicit | UserConfiguration | DevicePlan | RecipeDefault

record execution_resolved_input_snapshot =
  ris_key :: string
  ris_recipe_id :: string
  ris_input_id :: string
  ris_type_name :: string
  ris_value :: "json option"
  ris_source :: "binding_source option"
  ris_label :: string
  ris_description :: "string option"
  ris_required :: bool
  ris_sensitive :: bool
  ris_selected_enum_label :: "string option"

record runtime_value =
  rv_type_name :: string
  rv_value :: json
  rv_location :: "string option"

record execution_input_value =
  eiv_id :: string
  eiv_value :: runtime_value

datatype execution_artifact_source =
    SrcRemoteFile string
  | SrcLocalInput string
  | SrcDirectUrl string "string option"
  | SrcRemoteRelease string string string bool "string option" bool

record execution_artifact_app_provenance =
  prov_app_id :: string
  prov_artifact_id :: string
  prov_kind :: string

record execution_artifact =
  ea_id :: string
  ea_type_name :: string
  ea_source :: execution_artifact_source
  ea_cache :: string
  ea_app_provenance :: "execution_artifact_app_provenance option"

fun remote_file_url_of :: "execution_artifact_source \<Rightarrow> string option" where
  "remote_file_url_of (SrcRemoteFile url) = Some url"
| "remote_file_url_of (SrcDirectUrl url _) = Some url"
| "remote_file_url_of (SrcLocalInput _) = None"
| "remote_file_url_of (SrcRemoteRelease _ _ _ _ _ _) = None"

definition remote_file_url :: "execution_artifact \<Rightarrow> string option" where
  "remote_file_url artifact = remote_file_url_of (ea_source artifact)"

record execution_step_constraints =
  esc_capabilities :: "string list"
  esc_conflicts_with :: "string list"

record execution_step_condition =
  econd_type_name :: string
  econd_app_id :: "string option"
  econd_params :: "json omap"

datatype execution_param_value =
    ParamRef string
  | ParamLiteral json

record execution_step =
  es_id :: string
  es_recipe_ref :: string
  es_app_id :: "string option"
  es_type_name :: string
  es_name :: string
  es_note :: string
  es_dependencies :: "string list"
  es_constraints :: execution_step_constraints
  es_permission_plan :: "permission_plan option"
  es_params :: "execution_param_value omap"
  es_skip_if :: "execution_step_condition list"
  es_verify :: "execution_step_condition list"

text \<open>The trees a directory copy was reviewed against (\<open>executor/copy_commit.rs\<close>).\<close>

datatype copy_commit_operation = AddUpdate | ReplaceTree | MirrorTree
datatype copy_entry_kind = DirectoryEntry | FileEntry
datatype copy_commit_destination_kind = AppTargetDest | SharedDevicePathDest

record copy_manifest_entry =
  cme_relative_path :: string
  cme_kind :: copy_entry_kind
  cme_sha256 :: "string option"
  cme_entry_identity :: "string option"

record execution_copy_commit_snapshot =
  ccs_step_id :: string
  ccs_operation :: copy_commit_operation
  ccs_destination_kind :: copy_commit_destination_kind
  ccs_source_path :: string
  ccs_source_root :: string
  ccs_source_manifest :: "copy_manifest_entry list"
  ccs_source_digest_sha256 :: string
  ccs_destination_identity :: string
  ccs_fake_device_root :: string
  ccs_selected_root :: string
  ccs_destination_binding :: "string option"
  ccs_destination_before_manifest :: "copy_manifest_entry list"
  ccs_destination_before_digest_sha256 :: string
  ccs_reviewed_deletion_set :: "string list"

record execution_plan =
  plan_id :: string
  plan_source :: execution_plan_source
  plan_device_plan :: "execution_device_plan_snapshot option"
  plan_recipes :: "execution_recipe_snapshot list"
  plan_apps :: "execution_app_snapshot list"
  plan_resolved_inputs :: "execution_resolved_input_snapshot list"
  plan_copy_commit_snapshots :: "execution_copy_commit_snapshot list"
  plan_target_device :: "target_device_binding option"
  plan_device_context :: device_context
  plan_runtime_capabilities :: runtime_capabilities
  plan_inputs :: "execution_input_value list"
  plan_artifacts :: "execution_artifact list"
  plan_steps :: "execution_step list"
  plan_schema_version :: int
  plan_kind :: string

datatype planning_status = PlanSuccess | PlanWarning | PlanError

record planning_result =
  res_status :: planning_status
  res_warnings :: "planner_message list"
  res_errors :: "planner_message list"
  res_execution_plan :: "execution_plan option"
  res_schema_version :: int
  res_kind :: string

definition error_result :: "planner_message list \<Rightarrow> planning_result" where
  "error_result errors =
     \<lparr> res_status = PlanError, res_warnings = [], res_errors = errors, res_execution_plan = None,
       res_schema_version = 1, res_kind = ''planning_result'' \<rparr>"

record planner_input =
  pin_recipes :: "recipe list"
  pin_selected_recipe_refs :: "string list"
  pin_explicit_input_bindings :: "json omap"
  pin_user_configuration_bindings :: "json omap"
  pin_device_plan_input_bindings :: "json omap"
  pin_plan_id :: string
  pin_device_plan_ref :: string
  pin_device_profile_ref :: string
  pin_device_context :: device_context
  pin_runtime_capabilities :: runtime_capabilities
  pin_catalog_identity :: "catalog_identity option"
  pin_target_device :: "target_device_binding option"
  pin_device_plan_presentation :: "execution_device_plan_snapshot option"

text \<open>\<open>ResolvedStepUsage\<close> of \<open>app_targets.rs\<close>: the resolved target operands and effective
  capabilities of one authored step.\<close>

record resolved_step_usage =
  usage_dest :: "string option"
  usage_dest_kind :: "app_target_kind option"
  usage_skip_if_paths :: "string option list"
  usage_verify_paths :: "string option list"
  usage_capabilities :: "string list"

type_synonym target_usage = "(string, resolved_step_usage) fmap"

section \<open>Qualified identifiers\<close>

definition make_execution_step_id :: "string \<Rightarrow> string \<Rightarrow> string" where
  "make_execution_step_id recipe_ref local_id = recipe_ref @ ''/'' @ local_id"

definition make_execution_input_id :: "string \<Rightarrow> string \<Rightarrow> string" where
  "make_execution_input_id recipe_ref input_id = recipe_ref @ ''/'' @ input_id"

definition make_execution_artifact_id :: "string \<Rightarrow> string \<Rightarrow> string" where
  "make_execution_artifact_id recipe_ref artifact_id = recipe_ref @ ''/'' @ artifact_id"

lemma make_execution_step_id_inj [simp]:
  "make_execution_step_id r a = make_execution_step_id r b \<longleftrightarrow> a = b"
  by (simp add: make_execution_step_id_def)

text \<open>An identifier that names a recipe has no slash, so the qualified form is unambiguous.\<close>

lemma make_execution_step_id_recipe:
  assumes "CHR ''/'' \<notin> set r" "CHR ''/'' \<notin> set r'"
    and "make_execution_step_id r a = make_execution_step_id r' b"
  shows "r = r' \<and> a = b"
proof -
  have "Some (r, a) = split_once ''/'' (r @ CHR ''/'' # a)"
    using split_once_char_at [OF assms(1)] by metis
  also have "\<dots> = split_once ''/'' (r' @ CHR ''/'' # b)"
    using assms(3) by (simp only: make_execution_step_id_def append_Cons append_Nil)
  also have "\<dots> = Some (r', b)"
    using split_once_char_at [OF assms(2)] by metis
  finally show ?thesis by simp
qed

section \<open>Presentation text\<close>

definition non_blank :: "string option \<Rightarrow> string option" where
  "non_blank value = opt_filter (\<lambda>v. v \<noteq> []) (map_option trim value)"

text \<open>\<open>get_mut(0..1)\<close> is the first byte when it is a character of its own; a byte of a longer
  character is not an ASCII letter, and \<open>make_ascii_uppercase\<close> would leave it.\<close>

definition humanized_step_type :: "externals \<Rightarrow> string \<Rightarrow> string option" where
  "humanized_step_type ext type_name =
     (let words = filter (\<lambda>w. w \<noteq> []) (split_on (\<lambda>c. c = CHR ''_'' \<or> c = CHR ''-'') type_name) in
      if words = [] then None
      else (case ext_lowercase ext (join '' '' words) of
              [] \<Rightarrow> Some []
            | first # rest \<Rightarrow> Some (ascii_upper first # rest)))"

definition normalized_plan_step_note ::
  "externals \<Rightarrow> string option \<Rightarrow> string \<Rightarrow> string \<Rightarrow> string \<Rightarrow> string" where
  "normalized_plan_step_note ext progress_note name type_name step_id' =
     unwrap_or (or_else (or_else (non_blank progress_note) (non_blank (Some name)))
                        (humanized_step_type ext type_name)) step_id'"

definition normalized_progress_note :: "externals \<Rightarrow> step \<Rightarrow> string" where
  "normalized_progress_note ext s =
     normalized_plan_step_note ext (step_progress_note s) (step_name s) (step_type_name s) (step_id s)"

section \<open>Comparison of device facts\<close>

text \<open>\<open>str::split_whitespace\<close>: the maximal runs of characters that are not white space.\<close>

function split_whitespace_from :: "string \<Rightarrow> string \<Rightarrow> string list" where
  "split_whitespace_from word s =
     (case strip_first white_space_encodings s of
        Some rest \<Rightarrow> (if word = [] then [] else [word]) @ split_whitespace_from [] rest
      | None \<Rightarrow>
          (case s of
             [] \<Rightarrow> (if word = [] then [] else [word])
           | c # rest \<Rightarrow> split_whitespace_from (word @ [c]) rest))"
  by pat_completeness auto
termination
  by (relation "measure (\<lambda>(word, s). length s)")
    (auto dest: strip_white_space_shorter)

declare split_whitespace_from.simps [simp del]

definition normalize_target_text :: "externals \<Rightarrow> string \<Rightarrow> string" where
  "normalize_target_text ext value =
     ext_lowercase ext (join '' '' (split_whitespace_from [] value))"

definition target_mismatch_field ::
  "externals \<Rightarrow> target_device_binding \<Rightarrow> target_device_binding \<Rightarrow> string option" where
  "target_mismatch_field ext reviewed actual =
     (let differs = (\<lambda>expected found.
            is_none_or found (\<lambda>a. normalize_target_text ext expected \<noteq> normalize_target_text ext a)) in
      if trim (td_serial reviewed) \<noteq> trim (td_serial actual) then Some ''serial''
      else if is_some_and (td_manufacturer reviewed) (\<lambda>e. differs e (td_manufacturer actual))
      then Some ''manufacturer''
      else if is_some_and (td_model reviewed) (\<lambda>e. differs e (td_model actual))
      then Some ''model''
      else if is_some_and (td_android_api_level reviewed)
                (\<lambda>e. td_android_api_level actual \<noteq> Some e)
      then Some ''android_api_level''
      else None)"

text \<open>What a match promises: every fact the review recorded is present on the device and agrees.\<close>

definition device_agrees ::
  "externals \<Rightarrow> target_device_binding \<Rightarrow> target_device_binding \<Rightarrow> bool" where
  "device_agrees ext reviewed actual \<longleftrightarrow>
     trim (td_serial reviewed) = trim (td_serial actual)
     \<and> (\<forall>e. td_manufacturer reviewed = Some e \<longrightarrow>
          (\<exists>a. td_manufacturer actual = Some a \<and> normalize_target_text ext e = normalize_target_text ext a))
     \<and> (\<forall>e. td_model reviewed = Some e \<longrightarrow>
          (\<exists>a. td_model actual = Some a \<and> normalize_target_text ext e = normalize_target_text ext a))
     \<and> (\<forall>e. td_android_api_level reviewed = Some e \<longrightarrow> td_android_api_level actual = Some e)"

lemma target_mismatch_None: "target_mismatch_field ext r a = None \<longleftrightarrow> device_agrees ext r a"
  unfolding target_mismatch_field_def device_agrees_def Let_def
  by (auto simp: is_some_and_iff is_none_or_iff)

section \<open>Properties\<close>

text \<open>
  The reviewed device and the connected device are told apart exactly when a recorded fact
  is missing or different: no mismatch is reported if and only if the serial numbers agree and
  every recorded manufacturer, model and API level is present on the device and agrees.
\<close>

lemma target_mismatch_field_complete:
  "target_mismatch_field ext reviewed actual = None \<longleftrightarrow> device_agrees ext reviewed actual"
  by (rule target_mismatch_None)

text \<open>
  Setting a capability by name changes what is read under that name and under no other,
  and reports failure, changing nothing, exactly for the names the planner does not know.
\<close>

lemma set_runtime_capability_correct:
  "(fst (set_runtime_capability caps name b) \<longleftrightarrow> name \<in> set capability_names)
   \<and> (snd (set_runtime_capability caps name b) = caps \<or> name \<in> set capability_names)
   \<and> (runtime_capability_available (snd (set_runtime_capability caps name b)) other \<longleftrightarrow>
        (if other = name \<and> name \<in> set capability_names then b
         else runtime_capability_available caps other))"
proof (cases "capability_from_name name")
  case None
  then have "name \<notin> set capability_names" using capability_from_name_Some_iff by blast
  with None show ?thesis by (simp add: set_runtime_capability_def)
next
  case (Some c)
  then have "name \<in> set capability_names" using capability_from_name_Some_iff by blast
  moreover have "other = name" if "capability_from_name other = Some c"
    by (rule capability_from_name_inj [OF that Some])
  ultimately show ?thesis
    using Some by (cases "capability_from_name other")
      (auto simp: set_runtime_capability_def runtime_capability_available_def)
qed

end
