(* ===== verification/Samples.thy ===== *)
theory Samples
  imports Plan_Types
begin

text \<open>
  Small authored values at which the properties are instantiated: a recipe built from its
  identifier, dependencies, inputs and steps, and a step built from its identifier, type,
  dependencies and parameters.
\<close>

definition sample_input :: "string \<Rightarrow> bool \<Rightarrow> json \<Rightarrow> input_declaration" where
  "sample_input type_name required default_value =
     \<lparr> input_type_name = type_name, input_role = ''value'', input_label = ''Input'',
       input_description = None, input_required = required, input_multiple = False,
       input_validation = \<lparr> val_must_exist = False, val_allowed_extensions = [],
         val_path_kind = None, val_allowed_prefixes = [] \<rparr>,
       input_default = default_value, input_options = [], input_sensitive = False,
       input_advanced = False, input_metadata = [] \<rparr>"

definition sample_step ::
  "string \<Rightarrow> string \<Rightarrow> string list \<Rightarrow> param_value omap \<Rightarrow> step" where
  "sample_step local_id type_name dependencies params =
     \<lparr> step_id = local_id, step_type_name = type_name, step_name = ''Step'',
       step_description = None, step_progress_note = None, step_user_toggleable = False,
       step_app_ref = None, step_dependencies = dependencies,
       step_constraints = \<lparr> constraint_capabilities = [], constraint_conflicts_with = [] \<rparr>,
       step_skip_if = [], step_params = params, step_verify = [] \<rparr>"

definition sample_recipe ::
  "string \<Rightarrow> string list \<Rightarrow> input_declaration omap \<Rightarrow> step list \<Rightarrow> recipe" where
  "sample_recipe rid dependencies inputs steps =
     \<lparr> recipe_schema_version = 1, recipe_kind = ''recipe'', recipe_id = rid,
       recipe_name = rid, recipe_description = None, recipe_dependencies = dependencies,
       recipe_inputs = inputs, recipe_artifacts = [], recipe_artifact_groups = [],
       recipe_steps = steps \<rparr>"

text \<open>\<open>b\<close> depends on \<open>a\<close>; \<open>c\<close> on both.\<close>

definition sample_recipes :: recipes where
  "sample_recipes = fmap_of_list
     [(''a'', sample_recipe ''a'' [] [] []), (''b'', sample_recipe ''b'' [''a''] [] []),
      (''c'', sample_recipe ''c'' [''a'', ''b''] [] [])]"

end
