(* ===== verification/Dependency_Order.thy ===== *)
theory Dependency_Order
  imports Prelude
begin

text \<open>
  The interface shared by the two orderings the planner computes, the expansion of recipe
  dependencies and the sort of the emitted steps.  Both take a graph and either report errors
  or return a sequence; \<open>dependency_order\<close> states what a sequence without errors promises,
  and its lemmas are what the rest of the planner reads off it.  The two providers discharge
  the laws for the functions of the model (\<open>recipe_order\<close> in Recipe_Graph, \<open>step_order\<close> in
  Step_Order).
\<close>

section \<open>Reachability\<close>

definition dep_rel :: "('a \<Rightarrow> 'a set) \<Rightarrow> ('a \<times> 'a) set" where
  "dep_rel deps = {(a, b). b \<in> deps a}"

lemma in_dep_rel [simp]: "(a, b) \<in> dep_rel deps \<longleftrightarrow> b \<in> deps a"
  by (simp add: dep_rel_def)

definition reachable :: "('a \<Rightarrow> 'a set) \<Rightarrow> 'a set \<Rightarrow> 'a set" where
  "reachable deps roots = (dep_rel deps)\<^sup>* `` roots"

lemma reachable_root: "r \<in> roots \<Longrightarrow> r \<in> reachable deps roots"
  by (auto simp: reachable_def)

lemma reachable_dep: "a \<in> reachable deps roots \<Longrightarrow> b \<in> deps a \<Longrightarrow> b \<in> reachable deps roots"
  unfolding reachable_def by (metis ImageE ImageI in_dep_rel rtrancl.rtrancl_into_rtrancl)

lemma reachable_mono: "roots \<subseteq> roots' \<Longrightarrow> reachable deps roots \<subseteq> reachable deps roots'"
  by (auto simp: reachable_def)

lemma reachable_least:
  assumes "roots \<subseteq> S" and closed: "\<And>a b. a \<in> S \<Longrightarrow> b \<in> deps a \<Longrightarrow> b \<in> S"
  shows "reachable deps roots \<subseteq> S"
proof -
  have "b \<in> S" if "(a, b) \<in> (dep_rel deps)\<^sup>*" "a \<in> S" for a b
    using that by (induction rule: rtrancl_induct) (auto intro: closed)
  with assms(1) show ?thesis by (auto simp: reachable_def)
qed

text \<open>A sequence in which every element comes after its dependencies is closed and acyclic.\<close>

lemma deps_first_at:
  assumes "deps_first deps {} xs" "i < length xs" "b \<in> deps (xs ! i)"
  shows "\<exists>j < i. b = xs ! j"
proof -
  have "b \<in> set (take i xs)" using assms by (auto simp: deps_first_nth)
  with assms(2) show ?thesis by (auto simp: in_set_conv_nth)
qed

lemma deps_first_closed:
  assumes "deps_first deps {} xs" "a \<in> set xs" "b \<in> deps a"
  shows "b \<in> set xs"
proof -
  obtain i where "i < length xs" "a = xs ! i"
    using assms(2) by (auto simp: in_set_conv_nth)
  with deps_first_at [OF assms(1), of i b] assms(3) show ?thesis by auto
qed

lemma deps_first_index:
  assumes "deps_first deps {} xs" "distinct xs" "(xs ! i, b) \<in> (dep_rel deps)\<^sup>+" "i < length xs"
  shows "\<exists>j < i. b = xs ! j"
  using assms(3)
proof (induction rule: trancl_induct)
  case (base b)
  with deps_first_at [OF assms(1) assms(4)] show ?case by auto
next
  case (step b c)
  then obtain j where j: "j < i" "b = xs ! j" by blast
  with step(2) deps_first_at [OF assms(1), of j c] assms(4)
  obtain k where "k < j" "c = xs ! k" by auto
  with j have "k < i" "c = xs ! k" by simp_all
  then show ?case by blast
qed

lemma deps_first_acyclic:
  assumes "deps_first deps {} xs" "distinct xs" "a \<in> set xs"
  shows "(a, a) \<notin> (dep_rel deps)\<^sup>+"
proof
  assume cycle: "(a, a) \<in> (dep_rel deps)\<^sup>+"
  obtain i where i: "i < length xs" "a = xs ! i"
    using assms(3) by (auto simp: in_set_conv_nth)
  with cycle obtain j where "j < i" "xs ! i = xs ! j"
    using deps_first_index [OF assms(1,2), of i a] by auto
  with i assms(2) show False by (simp add: nth_eq_iff_index_eq)
qed

section \<open>The interface\<close>

locale dependency_order =
  fixes run :: "'g \<Rightarrow> 's \<Rightarrow> 'a list \<times> 'e list"
    and ok :: "'g \<Rightarrow> 's \<Rightarrow> bool"
    and deps :: "'g \<Rightarrow> 's \<Rightarrow> 'a \<Rightarrow> 'a set"
    and wanted :: "'g \<Rightarrow> 's \<Rightarrow> 'a set"
  assumes run_distinct: "ok g s \<Longrightarrow> run g s = (xs, []) \<Longrightarrow> distinct xs"
    and run_deps_first: "ok g s \<Longrightarrow> run g s = (xs, []) \<Longrightarrow> deps_first (deps g s) {} xs"
    and run_wanted: "ok g s \<Longrightarrow> run g s = (xs, []) \<Longrightarrow> wanted g s \<subseteq> set xs"
begin

lemma dependency_before:
  assumes "ok g s" "run g s = (xs, [])" "i < length xs" "b \<in> deps g s (xs ! i)"
  shows "\<exists>j < i. b = xs ! j"
  by (rule deps_first_at [OF run_deps_first [OF assms(1,2)] assms(3,4)])

lemma closed:
  "ok g s \<Longrightarrow> run g s = (xs, []) \<Longrightarrow> a \<in> set xs \<Longrightarrow> b \<in> deps g s a \<Longrightarrow> b \<in> set xs"
  by (rule deps_first_closed [OF run_deps_first])

lemma reachable_in:
  assumes "ok g s" "run g s = (xs, [])"
  shows "reachable (deps g s) (wanted g s) \<subseteq> set xs"
  by (rule reachable_least [OF run_wanted [OF assms]]) (rule closed [OF assms])

lemma acyclic:
  assumes "ok g s" "run g s = (xs, [])" "a \<in> set xs"
  shows "(a, a) \<notin> (dep_rel (deps g s))\<^sup>+"
  by (rule deps_first_acyclic [OF run_deps_first [OF assms(1,2)] run_distinct [OF assms(1,2)] assms(3)])

end

end
