(* ===== verification/Recipe_Graph.thy ===== *)
theory Recipe_Graph
  imports Samples Dependency_Order
begin

text \<open>
  Expansion of recipe dependencies (\<open>expand_recipe_dependencies\<close>, \<open>visit_recipe_dependency\<close>
  in \<open>planner.rs\<close>): a depth-first walk that appends a recipe after its dependencies and
  reports missing recipes and cycles.  The vectors \<open>ordered\<close> and \<open>errors\<close> and the set
  \<open>permanent\<close> are threaded; \<open>stack\<close> and \<open>temporary\<close> are restored by the caller on every
  return, so they are passed down.  The walk ends because \<open>temporary\<close> only grows along a call
  chain and holds loaded recipes.
\<close>

record recipe_walk =
  rw_ordered :: "string list"
  rw_permanent :: "string set"
  rw_errors :: "planner_message list"

definition recipe_cycle_error :: "string list \<Rightarrow> string \<Rightarrow> planner_message" where
  "recipe_cycle_error stack recipe_ref =
     msg ''dependency_cycle'' (''Recipe dependency cycle detected at '' @ quoted recipe_ref @ ''.'')
       [(''cycle'', jstrs (stack @ [recipe_ref]))]"

definition recipe_not_found_error :: "string list \<Rightarrow> string \<Rightarrow> planner_message" where
  "recipe_not_found_error stack recipe_ref =
     msg ''recipe_not_found'' (''Recipe '' @ quoted recipe_ref @ '' was not found.'')
       (if stack \<noteq> []
        then [(''recipe_ref'', JString recipe_ref), (''dependency_ref'', JString recipe_ref),
              (''dependent_recipe_ref'', JString (last stack)),
              (''source'', JString ''recipe_dependencies'')]
        else [(''recipe_ref'', JString recipe_ref), (''selected_recipe_ref'', JString recipe_ref),
              (''source'', JString ''selected_recipe_refs'')])"

function visit_recipe_dependency ::
  "recipes \<Rightarrow> string \<Rightarrow> string list \<Rightarrow> string set \<Rightarrow> recipe_walk \<Rightarrow> recipe_walk" where
  "visit_recipe_dependency recipes recipe_ref stack temporary w =
     (if recipe_ref \<in> rw_permanent w then w
      else if recipe_ref \<in> temporary then
        w \<lparr> rw_errors := rw_errors w @ [recipe_cycle_error stack recipe_ref] \<rparr>
      else
        case fmlookup recipes recipe_ref of
          None \<Rightarrow> w \<lparr> rw_errors := rw_errors w @ [recipe_not_found_error stack recipe_ref] \<rparr>
        | Some r \<Rightarrow>
            let w' = fold (\<lambda>dependency_ref. visit_recipe_dependency recipes dependency_ref
                             (stack @ [recipe_ref]) (insert recipe_ref temporary))
                       (recipe_dependencies r) w
            in w' \<lparr> rw_permanent := insert recipe_ref (rw_permanent w'),
                    rw_ordered := push_new (rw_ordered w') recipe_ref \<rparr>)"
  by pat_completeness auto
termination
proof (relation "measure (\<lambda>(recipes, _, _, temporary, _). card (fmdom' recipes - temporary))", simp)
  fix recipes :: recipes and recipe_ref dependency_ref :: string and temporary :: "string set"
    and stack w r
  assume "recipe_ref \<notin> temporary" "fmlookup recipes recipe_ref = Some r"
  then have "recipe_ref \<in> fmdom' recipes - temporary" by (auto intro: fmdom'I)
  then have "card (fmdom' recipes - insert recipe_ref temporary) < card (fmdom' recipes - temporary)"
    by (intro psubset_card_mono) auto
  then show "((recipes, dependency_ref, stack @ [recipe_ref], insert recipe_ref temporary, w'),
              (recipes, recipe_ref, stack, temporary, w))
      \<in> measure (\<lambda>(recipes, _, _, temporary, _). card (fmdom' recipes - temporary))" for w'
    by simp
qed

declare visit_recipe_dependency.simps [simp del]

definition expand_recipe_dependencies ::
  "recipes \<Rightarrow> string list \<Rightarrow> string list \<times> planner_message list" where
  "expand_recipe_dependencies recipes selected_recipe_refs =
     (let w = fold (\<lambda>recipe_ref. visit_recipe_dependency recipes recipe_ref [] {})
                selected_recipe_refs
                \<lparr> rw_ordered = [], rw_permanent = {}, rw_errors = [] \<rparr>
      in (rw_ordered w, rw_errors w))"

section \<open>What one visit does\<close>

definition recipe_deps :: "recipes \<Rightarrow> string \<Rightarrow> string set" where
  "recipe_deps recipes r =
     (case fmlookup recipes r of None \<Rightarrow> {} | Some rec \<Rightarrow> set (recipe_dependencies rec))"

definition walk_inv :: "recipe_walk \<Rightarrow> bool" where
  "walk_inv w \<longleftrightarrow> rw_permanent w = set (rw_ordered w) \<and> distinct (rw_ordered w)"

text \<open>An error names a recipe below the roots that is not loaded or lies on a cycle.\<close>

definition justified :: "recipes \<Rightarrow> string set \<Rightarrow> planner_message \<Rightarrow> bool" where
  "justified recipes roots e \<longleftrightarrow>
     (\<exists>stack x. x \<in> reachable (recipe_deps recipes) roots
        \<and> (e = recipe_not_found_error stack x \<and> x \<notin> fmdom' recipes
           \<or> e = recipe_cycle_error stack x \<and> (x, x) \<in> (dep_rel (recipe_deps recipes))\<^sup>+))"

definition extends :: "recipes \<Rightarrow> string set \<Rightarrow> recipe_walk \<Rightarrow> recipe_walk \<Rightarrow> bool" where
  "extends recipes roots w w' \<longleftrightarrow>
     walk_inv w' \<and>
     (\<exists>xs es. rw_ordered w' = rw_ordered w @ xs \<and> rw_errors w' = rw_errors w @ es
        \<and> set xs \<subseteq> reachable (recipe_deps recipes) roots \<inter> fmdom' recipes
        \<and> (\<forall>e \<in> set es. justified recipes roots e)
        \<and> (es = [] \<longrightarrow> roots \<subseteq> set (rw_ordered w')
              \<and> deps_first (recipe_deps recipes) (set (rw_ordered w)) xs))"

lemma justified_mono: "justified recipes roots e \<Longrightarrow> roots \<subseteq> roots' \<Longrightarrow> justified recipes roots' e"
  unfolding justified_def using reachable_mono by blast

lemma extends_refl: "walk_inv w \<Longrightarrow> roots \<subseteq> set (rw_ordered w) \<Longrightarrow> extends recipes roots w w"
  by (auto simp: extends_def)

lemma extends_trans:
  assumes "extends recipes A w w'" "extends recipes B w' w''"
  shows "extends recipes (A \<union> B) w w''"
proof -
  obtain xs es where 1: "rw_ordered w' = rw_ordered w @ xs" "rw_errors w' = rw_errors w @ es"
    "set xs \<subseteq> reachable (recipe_deps recipes) A \<inter> fmdom' recipes"
    "\<forall>e \<in> set es. justified recipes A e"
    "es = [] \<longrightarrow> A \<subseteq> set (rw_ordered w') \<and> deps_first (recipe_deps recipes) (set (rw_ordered w)) xs"
    using assms(1) unfolding extends_def by blast
  obtain ys fs where 2: "rw_ordered w'' = rw_ordered w' @ ys" "rw_errors w'' = rw_errors w' @ fs"
    "set ys \<subseteq> reachable (recipe_deps recipes) B \<inter> fmdom' recipes"
    "\<forall>e \<in> set fs. justified recipes B e"
    "fs = [] \<longrightarrow> B \<subseteq> set (rw_ordered w'') \<and> deps_first (recipe_deps recipes) (set (rw_ordered w')) ys"
    "walk_inv w''"
    using assms(2) unfolding extends_def by blast
  have "set (xs @ ys) \<subseteq> reachable (recipe_deps recipes) (A \<union> B) \<inter> fmdom' recipes"
    using 1(3) 2(3) reachable_mono [OF Un_upper1 [of A B], of "recipe_deps recipes"]
      reachable_mono [OF Un_upper2 [of B A], of "recipe_deps recipes"] by auto
  moreover have "\<forall>e \<in> set (es @ fs). justified recipes (A \<union> B) e"
    using 1(4) 2(4) justified_mono [OF _ Un_upper1 [of A B]] justified_mono [OF _ Un_upper2 [of B A]]
    by auto
  moreover have "es @ fs = [] \<longrightarrow> A \<union> B \<subseteq> set (rw_ordered w'')
      \<and> deps_first (recipe_deps recipes) (set (rw_ordered w)) (xs @ ys)"
    using 1(1,5) 2(1,5) by (auto simp: deps_first_append)
  ultimately show ?thesis
    using 1(1,2) 2(1,2,6) unfolding extends_def by (metis append.assoc)
qed

lemma extends_inv: "extends recipes A w w' \<Longrightarrow> walk_inv w'"
  by (simp add: extends_def)

lemma extends_fold:
  assumes "\<And>d w. d \<in> set ds \<Longrightarrow> walk_inv w \<Longrightarrow> extends recipes {d} w (f d w)" and "walk_inv w"
  shows "extends recipes (set ds) w (fold f ds w)"
  using assms
proof (induction ds arbitrary: w)
  case Nil
  then show ?case by (simp add: extends_refl)
next
  case (Cons d ds)
  have step: "extends recipes {d} w (f d w)" using Cons.prems by simp
  have "extends recipes (set ds) (f d w) (fold f ds (f d w))"
    by (rule Cons.IH) (auto intro: Cons.prems(1) extends_inv [OF step])
  from extends_trans [OF step this] show ?case by simp
qed

lemma extends_errors:
  assumes "walk_inv w" "justified recipes roots e"
  shows "extends recipes roots w (w \<lparr> rw_errors := rw_errors w @ [e] \<rparr>)"
  using assms by (auto simp: extends_def walk_inv_def)

text \<open>Closing a visit: the recipe follows its dependencies.\<close>

lemma extends_finish:
  assumes deps: "extends recipes (recipe_deps recipes r) w w'" and "r \<in> fmdom' recipes"
  shows "extends recipes {r} w
           (w' \<lparr> rw_permanent := insert r (rw_permanent w'), rw_ordered := push_new (rw_ordered w') r \<rparr>)"
    (is "extends _ _ _ ?w''")
proof -
  obtain xs es where 1: "rw_ordered w' = rw_ordered w @ xs" "rw_errors w' = rw_errors w @ es"
    "set xs \<subseteq> reachable (recipe_deps recipes) (recipe_deps recipes r) \<inter> fmdom' recipes"
    "\<forall>e \<in> set es. justified recipes (recipe_deps recipes r) e"
    "es = [] \<longrightarrow> recipe_deps recipes r \<subseteq> set (rw_ordered w')
        \<and> deps_first (recipe_deps recipes) (set (rw_ordered w)) xs"
    "walk_inv w'"
    using deps unfolding extends_def by blast
  let ?deps = "recipe_deps recipes"
  have below: "reachable ?deps (?deps r) \<subseteq> reachable ?deps {r}"
    by (rule reachable_least) (auto intro: reachable_dep reachable_root)
  define ys where "ys = (if r \<in> set (rw_ordered w') then xs else xs @ [r])"
  have "walk_inv ?w''" using 1(6) by (auto simp: walk_inv_def)
  moreover have "rw_ordered ?w'' = rw_ordered w @ ys"
    using 1(1) by (simp add: ys_def push_new_def)
  moreover have "rw_errors ?w'' = rw_errors w @ es" using 1(2) by simp
  moreover have "set ys \<subseteq> reachable ?deps {r} \<inter> fmdom' recipes"
    using 1(3) below assms(2) reachable_root [of r "{r}" ?deps] by (auto simp: ys_def)
  moreover have "\<forall>e \<in> set es. justified recipes {r} e"
    using 1(4) below unfolding justified_def by blast
  moreover have "es = [] \<longrightarrow> {r} \<subseteq> set (rw_ordered ?w'') \<and> deps_first ?deps (set (rw_ordered w)) ys"
    using 1(1,5) by (auto simp: ys_def deps_first_append)
  ultimately show ?thesis unfolding extends_def by blast
qed

lemma visit_extends:
  assumes "walk_inv w"
    and "\<forall>t \<in> temporary. (t, r) \<in> (dep_rel (recipe_deps recipes))\<^sup>+"
  shows "extends recipes {r} w (visit_recipe_dependency recipes r stack temporary w)"
  using assms
proof (induction recipes r stack temporary w rule: visit_recipe_dependency.induct)
  case (1 recipes r stack temporary w)
  let ?deps = "recipe_deps recipes"
  show ?case
  proof (cases "r \<in> rw_permanent w \<or> r \<in> temporary \<or> fmlookup recipes r = None")
    case True
    have "justified recipes {r} (recipe_cycle_error stack r)" if "r \<in> temporary"
      unfolding justified_def using 1(3) that reachable_root [of r "{r}" ?deps] by blast
    moreover have "justified recipes {r} (recipe_not_found_error stack r)" if "fmlookup recipes r = None"
      unfolding justified_def using fmdom'_notI [OF that] reachable_root [of r "{r}" ?deps] by blast
    moreover have "r \<in> set (rw_ordered w)" if "r \<in> rw_permanent w"
      using 1(2) that by (simp add: walk_inv_def)
    ultimately show ?thesis
      using True 1(2)
      by (subst visit_recipe_dependency.simps) (auto intro: extends_errors extends_refl)
  next
    case False
    then obtain rec where rec: "fmlookup recipes r = Some rec" and new: "r \<notin> rw_permanent w" "r \<notin> temporary"
      by auto
    define f where "f = (\<lambda>d. visit_recipe_dependency recipes d (stack @ [r]) (insert r temporary))"
    have ds: "?deps r = set (recipe_dependencies rec)" by (simp add: recipe_deps_def rec)
    have "extends recipes {d} v (f d v)" if "d \<in> set (recipe_dependencies rec)" "walk_inv v" for d v
      unfolding f_def
    proof (rule 1(1) [OF new rec that])
      have "(r, d) \<in> dep_rel ?deps" using that(1) ds by simp
      then show "\<forall>t \<in> insert r temporary. (t, d) \<in> (dep_rel ?deps)\<^sup>+"
        using 1(3) by (auto intro: trancl_into_trancl)
    qed
    then have "extends recipes (?deps r) w (fold f (recipe_dependencies rec) w)"
      unfolding ds by (rule extends_fold) (use 1(2) in auto)
    from extends_finish [OF this fmdom'I [OF rec]] new rec show ?thesis
      by (subst visit_recipe_dependency.simps) (simp add: f_def Let_def)
  qed
qed

section \<open>The expansion\<close>

lemma expand_extends:
  "\<exists>w. expand_recipe_dependencies recipes sel = (rw_ordered w, rw_errors w)
     \<and> extends recipes (set sel) \<lparr> rw_ordered = [], rw_permanent = {}, rw_errors = [] \<rparr> w"
proof -
  have "extends recipes (set sel) \<lparr> rw_ordered = [], rw_permanent = {}, rw_errors = [] \<rparr>
      (fold (\<lambda>r. visit_recipe_dependency recipes r [] {}) sel
        \<lparr> rw_ordered = [], rw_permanent = {}, rw_errors = [] \<rparr>)"
    by (rule extends_fold) (auto intro: visit_extends simp: walk_inv_def)
  then show ?thesis unfolding expand_recipe_dependencies_def Let_def by blast
qed

lemma expand_facts:
  assumes "expand_recipe_dependencies recipes sel = (xs, es)"
  shows "distinct xs" "set xs \<subseteq> reachable (recipe_deps recipes) (set sel) \<inter> fmdom' recipes"
    and "\<forall>e \<in> set es. justified recipes (set sel) e"
    and "es = [] \<Longrightarrow> set sel \<subseteq> set xs" "es = [] \<Longrightarrow> deps_first (recipe_deps recipes) {} xs"
  using expand_extends [of recipes sel] assms by (auto simp: extends_def walk_inv_def)

lemma justified_bad:
  "justified recipes roots e \<Longrightarrow> \<exists>x \<in> reachable (recipe_deps recipes) roots.
     x \<notin> fmdom' recipes \<or> (x, x) \<in> (dep_rel (recipe_deps recipes))\<^sup>+"
  unfolding justified_def by blast

interpretation recipe_order: dependency_order expand_recipe_dependencies "\<lambda>_ _. True"
  "\<lambda>recipes _. recipe_deps recipes" "\<lambda>_ sel. set sel"
  by unfold_locales (auto dest: expand_facts)

lemma expand_set:
  assumes "expand_recipe_dependencies recipes sel = (xs, [])"
  shows "set xs = reachable (recipe_deps recipes) (set sel)"
  using recipe_order.reachable_in [OF _ assms] expand_facts(2) [OF assms] by blast

text \<open>
  C29: when the expansion of the selected recipes reports no error, its result lists every
  recipe reachable from the selection through \<open>recipe_dependencies\<close> and no other, each once,
  all of them loaded, and each one after every recipe it depends on.
\<close>

theorem expand_recipe_dependencies_ordered:
  assumes "expand_recipe_dependencies recipes sel = (xs, [])"
  shows "distinct xs \<and> set xs = reachable (recipe_deps recipes) (set sel) \<and> set xs \<subseteq> fmdom' recipes
    \<and> (\<forall>i < length xs. \<forall>b \<in> recipe_deps recipes (xs ! i). \<exists>j < i. b = xs ! j)"
  using recipe_order.run_distinct [OF _ assms] expand_set [OF assms] expand_facts(2) [OF assms]
    recipe_order.dependency_before [OF _ assms] by auto

lemma expand_sample: "expand_recipe_dependencies sample_recipes [''c''] = ([''a'', ''b'', ''c''], [])"
  by code_simp

theorem expand_recipe_dependencies_ordered_witness:
  "expand_recipe_dependencies sample_recipes [''c''] = ([''a'', ''b'', ''c''], [])
     \<and> distinct [''a'', ''b'', ''c'']
     \<and> {''a'', ''b'', ''c''} = reachable (recipe_deps sample_recipes) {''c''}"
  using expand_recipe_dependencies_ordered [OF expand_sample] expand_sample by simp

text \<open>
  The expansion reports no error exactly when every recipe reachable from the selection is
  loaded and none of them lies on a dependency cycle.
\<close>

lemma expand_recipe_dependencies_errors:
  "snd (expand_recipe_dependencies recipes sel) = [] \<longleftrightarrow>
     reachable (recipe_deps recipes) (set sel) \<subseteq>
       {x \<in> fmdom' recipes. (x, x) \<notin> (dep_rel (recipe_deps recipes))\<^sup>+}"
proof (cases "expand_recipe_dependencies recipes sel")
  case (Pair xs es)
  show ?thesis
  proof (cases "es = []")
    case True
    with Pair have run: "expand_recipe_dependencies recipes sel = (xs, [])" by simp
    from expand_set [OF run] expand_facts(2) [OF run] recipe_order.acyclic [OF _ run]
    show ?thesis using run by auto
  next
    case False
    then obtain e where "e \<in> set es" by (cases es) auto
    with expand_facts(3) [OF Pair] justified_bad [of recipes "set sel" e] False Pair
    show ?thesis by auto
  qed
qed

text \<open>
  Every error of the expansion is true: it is the error for a missing recipe, about a
  recipe that is reachable from the selection and not loaded, or the error for a cycle, about
  a reachable recipe that depends on itself.
\<close>

lemma expand_recipe_dependencies_error_sound:
  assumes "e \<in> set (snd (expand_recipe_dependencies recipes sel))"
  shows "\<exists>stack x. x \<in> reachable (recipe_deps recipes) (set sel)
    \<and> (e = recipe_not_found_error stack x \<and> x \<notin> fmdom' recipes
       \<or> e = recipe_cycle_error stack x \<and> (x, x) \<in> (dep_rel (recipe_deps recipes))\<^sup>+)"
proof -
  obtain xs es where run: "expand_recipe_dependencies recipes sel = (xs, es)" by fastforce
  with expand_facts(3) [OF run] assms show ?thesis by (auto simp: justified_def)
qed

lemma expand_missing_sample:
  "recipe_not_found_error [] ''d'' \<in> set (snd (expand_recipe_dependencies sample_recipes [''d'']))"
  by code_simp

theorem expand_recipe_dependencies_error_sound_witness:
  "\<exists>stack x. x \<in> reachable (recipe_deps sample_recipes) {''d''}
    \<and> (recipe_not_found_error [] ''d'' = recipe_not_found_error stack x \<and> x \<notin> fmdom' sample_recipes
       \<or> recipe_not_found_error [] ''d'' = recipe_cycle_error stack x
         \<and> (x, x) \<in> (dep_rel (recipe_deps sample_recipes))\<^sup>+)"
  using expand_recipe_dependencies_error_sound [OF expand_missing_sample] by simp

end
