(* ===== verification/Step_Graph.thy ===== *)
theory Step_Graph
  imports Samples Dependency_Order
begin

text \<open>
  Validation of the dependencies between the steps of one recipe: unknown and self
  dependencies, and the search for a cycle (\<open>validate_available_step_dependencies\<close>,
  \<open>validate_local_step_dependencies\<close>, \<open>validate_step_dependency_cycles\<close>,
  \<open>visit_step_dependency_cycle\<close> and \<open>has_dependency_ancestor\<close> in \<open>planner.rs\<close>).
\<close>

type_synonym emitted = "string \<times> string \<times> step"

definition unique_dependency_ids :: "string list \<Rightarrow> string list" where
  "unique_dependency_ids dependencies = unique_from {} dependencies"

lemma set_unique_dependency_ids [simp]: "set (unique_dependency_ids ds) = set ds"
  by (simp add: unique_dependency_ids_def)

lemma distinct_unique_dependency_ids [simp]: "distinct (unique_dependency_ids ds)"
  by (simp add: unique_dependency_ids_def)

section \<open>Unknown and self dependencies\<close>

definition self_dependency_error :: "string \<Rightarrow> step \<Rightarrow> string \<Rightarrow> planner_message" where
  "self_dependency_error recipe_ref s dependency =
     msg ''self_step_dependency''
       (''Step '' @ quoted (step_id s) @ '' may not depend on itself via dependency '' @ quoted dependency @ ''.'')
       [(''recipe_ref'', JString recipe_ref), (''step_id'', JString (step_id s)),
        (''dependency'', JString dependency)]"

definition unknown_dependency_error ::
  "string \<Rightarrow> string \<Rightarrow> step \<Rightarrow> string \<Rightarrow> planner_message" where
  "unknown_dependency_error what recipe_ref s dependency =
     msg ''unknown_step_dependency''
       (''Step '' @ quoted (step_id s) @ '' depends on '' @ what @ '' step '' @ quoted dependency @ ''.'')
       [(''recipe_ref'', JString recipe_ref), (''step_id'', JString (step_id s)),
        (''dependency'', JString dependency)]"

text \<open>The loop over the dependencies of one step; \<open>reported\<close> is the set that keeps a
  repeated dependency from being reported twice.\<close>

fun check_dependencies ::
  "string \<Rightarrow> string \<Rightarrow> (string \<Rightarrow> bool) \<Rightarrow> string \<Rightarrow> step \<Rightarrow> (string \<times> string) set \<Rightarrow> string list \<Rightarrow>
     planner_message list" where
  "check_dependencies what recipe_ref known key s reported [] = []"
| "check_dependencies what recipe_ref known key s reported (dependency # rest) =
     (if dependency = key then
        (if (''self_step_dependency'', dependency) \<notin> reported
         then self_dependency_error recipe_ref s dependency
              # check_dependencies what recipe_ref known key s
                  (insert (''self_step_dependency'', dependency) reported) rest
         else check_dependencies what recipe_ref known key s reported rest)
      else if \<not> known dependency \<and> (''unknown_step_dependency'', dependency) \<notin> reported
      then unknown_dependency_error what recipe_ref s dependency
           # check_dependencies what recipe_ref known key s
               (insert (''unknown_step_dependency'', dependency) reported) rest
      else check_dependencies what recipe_ref known key s reported rest)"

lemma check_dependencies_Nil:
  assumes "\<forall>d. (''self_step_dependency'', d) \<in> reported \<longrightarrow> False"
    and "\<forall>d. (''unknown_step_dependency'', d) \<in> reported \<longrightarrow> False"
  shows "check_dependencies what recipe_ref known key s reported ds = [] \<longleftrightarrow>
     (\<forall>d \<in> set ds. d \<noteq> key \<and> known d)"
  using assms by (induction ds) auto

lemma check_dependencies_start [simp]:
  "check_dependencies what recipe_ref known key s {} ds = [] \<longleftrightarrow> (\<forall>d \<in> set ds. d \<noteq> key \<and> known d)"
  by (simp add: check_dependencies_Nil)

section \<open>Cycles\<close>

function visit_step_dependency_cycle ::
  "(string, step) fmap \<Rightarrow> string \<Rightarrow> string set \<Rightarrow> string list \<Rightarrow> string set \<Rightarrow> string list + string set" where
  "visit_step_dependency_cycle step_by_id sid temporary stack permanent =
     (if sid \<in> permanent then Inr permanent
      else if sid \<in> temporary then
        Inl ((if sid \<in> set stack then dropWhile (\<lambda>item. item \<noteq> sid) stack else stack) @ [sid])
      else
        case fmlookup step_by_id sid of
          None \<Rightarrow> Inr permanent
        | Some s \<Rightarrow>
            (case fold (\<lambda>dependency acc.
                     case acc of
                       Inl cycle \<Rightarrow> Inl cycle
                     | Inr permanent \<Rightarrow>
                         visit_step_dependency_cycle step_by_id dependency
                           (insert sid temporary) (stack @ [sid]) permanent)
                   (unique_dependency_ids (step_dependencies s)) (Inr permanent) of
               Inl cycle \<Rightarrow> Inl cycle
             | Inr permanent' \<Rightarrow> Inr (insert sid permanent')))"
  by pat_completeness auto
termination
proof (relation "measure (\<lambda>(step_by_id, _, temporary, _, _). card (fmdom' step_by_id - temporary))", simp)
  fix step_by_id :: "(string, step) fmap" and sid dependency :: string and temporary
    permanent permanent' :: "string set" and stack s
  assume "sid \<notin> temporary" "fmlookup step_by_id sid = Some s"
  then have "sid \<in> fmdom' step_by_id - temporary" by (auto intro: fmdom'I)
  then have "card (fmdom' step_by_id - insert sid temporary) < card (fmdom' step_by_id - temporary)"
    by (intro psubset_card_mono) auto
  then show "((step_by_id, dependency, insert sid temporary, stack @ [sid], permanent'),
              (step_by_id, sid, temporary, stack, permanent))
      \<in> measure (\<lambda>(step_by_id, _, temporary, _, _). card (fmdom' step_by_id - temporary))"
    by simp
qed

declare visit_step_dependency_cycle.simps [simp del]

definition step_cycle_error :: "string \<Rightarrow> string list \<Rightarrow> planner_message" where
  "step_cycle_error recipe_ref cycle =
     msg ''dependency_cycle'' (''Step dependency cycle detected in recipe '' @ quoted recipe_ref @ ''.'')
       [(''recipe_ref'', JString recipe_ref), (''cycle'', jstrs cycle)]"

definition validate_step_dependency_cycles ::
  "string \<Rightarrow> (string \<times> step) list \<Rightarrow> planner_message list" where
  "validate_step_dependency_cycles recipe_ref steps =
     (let step_by_id = hash_collect steps in
      case fold (\<lambda>(sid, _) acc.
               case acc of
                 Inl cycle \<Rightarrow> Inl cycle
               | Inr permanent \<Rightarrow> visit_step_dependency_cycle step_by_id sid {} [] permanent)
             steps (Inr {}) of
        Inl cycle \<Rightarrow> [step_cycle_error recipe_ref cycle]
      | Inr _ \<Rightarrow> [])"

section \<open>The two validators\<close>

definition validate_available_step_dependencies ::
  "recipe \<Rightarrow> string list \<Rightarrow> (string, step) fmap \<Rightarrow> planner_message list" where
  "validate_available_step_dependencies r available_step_ids by_id =
     (let errors = concat (map (\<lambda>sid.
            case fmlookup by_id sid of
              None \<Rightarrow> []
            | Some s \<Rightarrow>
                check_dependencies ''unknown authored'' (recipe_id r)
                  (\<lambda>d. fmlookup by_id d \<noteq> None) sid s {} (step_dependencies s)) available_step_ids)
      in if errors = []
         then validate_step_dependency_cycles (recipe_id r)
                (List.map_filter (\<lambda>sid. map_option (\<lambda>s. (sid, s)) (fmlookup by_id sid))
                   available_step_ids)
         else errors)"

definition validate_local_step_dependencies ::
  "string \<Rightarrow> (string \<times> step) list \<Rightarrow> planner_message list" where
  "validate_local_step_dependencies recipe_ref steps =
     (let step_ids = set (map fst steps);
          errors = concat (map (\<lambda>(sid, s).
            check_dependencies ''unknown or non-emitted'' recipe_ref (\<lambda>d. d \<in> step_ids) sid s {}
              (step_dependencies s)) steps)
      in if errors = [] then validate_step_dependency_cycles recipe_ref steps else errors)"

text \<open>Steps are grouped by recipe in order of first occurrence.\<close>

fun push_group :: "string \<Rightarrow> 'a \<Rightarrow> (string \<times> 'a list) list \<Rightarrow> (string \<times> 'a list) list" where
  "push_group k a [] = [(k, [a])]"
| "push_group k a ((k', as) # groups) =
     (if k' = k then (k', as @ [a]) # groups else (k', as) # push_group k a groups)"

definition group_steps :: "emitted list \<Rightarrow> (string \<times> (string \<times> step) list) list" where
  "group_steps steps = fold (\<lambda>(_, rid, s). push_group rid (step_id s, s)) steps []"

definition validate_emitted_step_dependencies :: "emitted list \<Rightarrow> planner_message list" where
  "validate_emitted_step_dependencies steps =
     concat (map (\<lambda>(rid, recipe_steps). validate_local_step_dependencies rid recipe_steps)
       (group_steps steps))"

section \<open>The search finds a cycle exactly when there is one\<close>

definition step_deps :: "(string, step) fmap \<Rightarrow> string \<Rightarrow> string set" where
  "step_deps G x = (case fmlookup G x of None \<Rightarrow> {} | Some s \<Rightarrow> set (step_dependencies s))"

definition inner_deps :: "(string, step) fmap \<Rightarrow> string \<Rightarrow> string set" where
  "inner_deps G x = step_deps G x \<inter> fmdom' G"

definition real_cycle :: "(string, step) fmap \<Rightarrow> string list \<Rightarrow> bool" where
  "real_cycle G c \<longleftrightarrow> 2 \<le> length c \<and> hd c = last c \<and> successively (\<lambda>a b. b \<in> step_deps G a) c"

definition finished :: "(string, step) fmap \<Rightarrow> string set \<Rightarrow> bool" where
  "finished G permanent \<longleftrightarrow>
     (\<exists>xs. distinct xs \<and> set xs = permanent \<and> permanent \<subseteq> fmdom' G \<and> deps_first (inner_deps G) {} xs)"

definition visit_post :: "(string, step) fmap \<Rightarrow> string set \<Rightarrow> string set \<Rightarrow> string list + string set \<Rightarrow> bool" where
  "visit_post G roots permanent result =
     (case result of
        Inl cycle \<Rightarrow> real_cycle G cycle
      | Inr permanent' \<Rightarrow>
          finished G permanent' \<and> permanent \<subseteq> permanent' \<and> roots \<inter> fmdom' G \<subseteq> permanent')"

lemma visit_post_simps [simp]:
  "visit_post G roots p (Inl c) \<longleftrightarrow> real_cycle G c"
  "visit_post G roots p (Inr p') \<longleftrightarrow> finished G p' \<and> p \<subseteq> p' \<and> roots \<inter> fmdom' G \<subseteq> p'"
  by (simp_all add: visit_post_def)

lemma fold_Inl [simp]:
  "fold (\<lambda>d acc. case acc of Inl c \<Rightarrow> Inl c | Inr p \<Rightarrow> f d p) ds (Inl c) = Inl c"
  by (induction ds) auto

lemma visit_post_fold:
  assumes "\<And>d p. d \<in> set ds \<Longrightarrow> finished G p \<Longrightarrow> visit_post G {k d} p (f d p)" "finished G p"
  shows "visit_post G (k ` set ds) p
           (fold (\<lambda>d acc. case acc of Inl c \<Rightarrow> Inl c | Inr p \<Rightarrow> f d p) ds (Inr p))"
  using assms
proof (induction ds arbitrary: p)
  case Nil
  then show ?case by simp
next
  case (Cons d ds)
  have first: "visit_post G {k d} p (f d p)" using Cons.prems by simp
  show ?case
  proof (cases "f d p")
    case (Inl c)
    with first show ?thesis by simp
  next
    case (Inr p')
    with first have p': "finished G p'" "p \<subseteq> p'" "{k d} \<inter> fmdom' G \<subseteq> p'" by simp_all
    from Cons.prems(1) Cons.IH [OF _ p'(1)]
    have "visit_post G (k ` set ds) p'
        (fold (\<lambda>d acc. case acc of Inl c \<Rightarrow> Inl c | Inr p \<Rightarrow> f d p) ds (Inr p'))"
      by simp
    with p' Inr show ?thesis
      by (cases "fold (\<lambda>d acc. case acc of Inl c \<Rightarrow> Inl c | Inr p \<Rightarrow> f d p) ds (Inr p')") auto
  qed
qed

lemma finished_insert:
  assumes "finished G p" "x \<in> fmdom' G" "inner_deps G x \<subseteq> p"
  shows "finished G (insert x p)"
proof (cases "x \<in> p")
  case True
  then show ?thesis using assms(1) by (simp add: insert_absorb)
next
  case False
  obtain xs where "distinct xs" "set xs = p" "p \<subseteq> fmdom' G" "deps_first (inner_deps G) {} xs"
    using assms(1) unfolding finished_def by blast
  with False assms have "distinct (xs @ [x])" "set (xs @ [x]) = insert x p"
    "insert x p \<subseteq> fmdom' G" "deps_first (inner_deps G) {} (xs @ [x])"
    by (auto simp: deps_first_append)
  then show ?thesis unfolding finished_def by blast
qed

lemma dropWhile_cycle:
  assumes "x \<in> set stack" "successively (\<lambda>a b. b \<in> step_deps G a) (stack @ [x])"
  shows "real_cycle G (dropWhile (\<lambda>item. item \<noteq> x) stack @ [x])"
proof -
  obtain a b where s: "stack = a @ x # b" "x \<notin> set a"
    using assms(1) by (meson split_list_first)
  then have "dropWhile (\<lambda>item. item \<noteq> x) stack = x # b"
    by (induction a arbitrary: stack) auto
  moreover have "successively (\<lambda>a b. b \<in> step_deps G a) (x # b @ [x])"
    using assms(2) s(1) by (simp add: successively_append_iff)
  ultimately show ?thesis by (auto simp: real_cycle_def)
qed

lemma visit_cycle_post:
  assumes "finished G permanent" "temporary = set stack"
    and "successively (\<lambda>a b. b \<in> step_deps G a) (stack @ [x])"
  shows "visit_post G {x} permanent (visit_step_dependency_cycle G x temporary stack permanent)"
  using assms
proof (induction G x temporary stack permanent rule: visit_step_dependency_cycle.induct)
  case (1 G x temporary stack permanent)
  show ?case
  proof (cases "x \<in> permanent \<or> x \<in> temporary \<or> fmlookup G x = None")
    case True
    then show ?thesis
      using 1(2-4) dropWhile_cycle [of x stack G]
      by (subst visit_step_dependency_cycle.simps) (auto dest: fmdom'_notI)
  next
    case False
    then obtain s where s: "fmlookup G x = Some s" and new: "x \<notin> permanent" "x \<notin> temporary" by auto
    define f where "f = (\<lambda>d p. visit_step_dependency_cycle G d (insert x temporary) (stack @ [x]) p)"
    let ?ds = "unique_dependency_ids (step_dependencies s)"
    let ?r = "fold (\<lambda>d acc. case acc of Inl c \<Rightarrow> Inl c | Inr p \<Rightarrow> f d p) ?ds (Inr permanent)"
    have deps: "step_deps G x = set (step_dependencies s)" by (simp add: step_deps_def s)
    have "visit_post G {d} p (f d p)" if "d \<in> set ?ds" "finished G p" for d p
      unfolding f_def
    proof (rule 1(1) [OF new s that(1) that(2)])
      show "insert x temporary = set (stack @ [x])" using 1(3) by auto
      show "successively (\<lambda>a b. b \<in> step_deps G a) ((stack @ [x]) @ [d])"
        using 1(4) that(1) deps by (simp add: successively_append_iff)
    qed
    then have post: "visit_post G (id ` set ?ds) permanent ?r"
      by (intro visit_post_fold) (use 1(2) in auto)
    have run: "visit_step_dependency_cycle G x temporary stack permanent =
        (case ?r of Inl c \<Rightarrow> Inl c | Inr p \<Rightarrow> Inr (insert x p))"
      using new s by (subst visit_step_dependency_cycle.simps) (simp add: f_def)
    show ?thesis
    proof (cases ?r)
      case (Inl c)
      with post show ?thesis by (simp add: run)
    next
      case (Inr p)
      with post have "finished G p" "permanent \<subseteq> p" "inner_deps G x \<subseteq> p"
        by (auto simp: inner_deps_def deps)
      with Inr finished_insert [of G p x] fmdom'I [OF s] show ?thesis by (auto simp: run)
    qed
  qed
qed

lemma real_cycle_trancl:
  assumes "real_cycle G c"
  shows "(hd c, hd c) \<in> (dep_rel (step_deps G))\<^sup>+"
proof -
  have "(hd c, last c) \<in> (dep_rel (step_deps G))\<^sup>+"
    if "2 \<le> length c" "successively (\<lambda>a b. b \<in> step_deps G a) c" for c
    using that
  proof (induction c rule: induct_list012)
    case (3 a b c)
    then show ?case by (cases c) (auto intro: trancl_into_trancl2)
  qed auto
  from this [of c] assms show ?thesis by (auto simp: real_cycle_def)
qed

lemma step_deps_dom: "b \<in> step_deps G a \<Longrightarrow> a \<in> fmdom' G"
  by (auto simp: step_deps_def intro: fmdom'I split: option.splits)

lemma trancl_inner:
  "(x, y) \<in> (dep_rel (step_deps G))\<^sup>+ \<Longrightarrow> y \<in> fmdom' G \<Longrightarrow> (x, y) \<in> (dep_rel (inner_deps G))\<^sup>+"
proof (induction rule: trancl_induct)
  case (base y)
  then show ?case by (auto simp: inner_deps_def)
next
  case (step y z)
  then have "y \<in> fmdom' G" "(y, z) \<in> dep_rel (inner_deps G)"
    by (auto simp: inner_deps_def dest: step_deps_dom)
  with step show ?case by (auto intro: trancl_into_trancl)
qed

lemma finished_acyclic:
  assumes "finished G (fmdom' G)"
  shows "(x, x) \<notin> (dep_rel (step_deps G))\<^sup>+"
proof
  assume cycle: "(x, x) \<in> (dep_rel (step_deps G))\<^sup>+"
  then have "x \<in> fmdom' G" by (metis in_dep_rel step_deps_dom tranclD)
  moreover obtain xs where "distinct xs" "set xs = fmdom' G" "deps_first (inner_deps G) {} xs"
    using assms unfolding finished_def by blast
  ultimately show False
    using trancl_inner [OF cycle] deps_first_acyclic [of "inner_deps G" xs x] by auto
qed

lemma fmdom'_hash_collect: "fmdom' (hash_collect ps) = fst ` set ps"
proof (rule set_eqI)
  show "k \<in> fmdom' (hash_collect ps) \<longleftrightarrow> k \<in> fst ` set ps" for k
    using hash_collect_None [of ps k] fmlookup_dom'_iff [of k "hash_collect ps"] not_None_eq by metis
qed

lemma validate_cycles_post:
  "visit_post (hash_collect steps) (fst ` set steps) {}
     (fold (\<lambda>(sid, _) acc.
        case acc of Inl cycle \<Rightarrow> Inl cycle
        | Inr permanent \<Rightarrow> visit_step_dependency_cycle (hash_collect steps) sid {} [] permanent)
      steps (Inr {}))"
proof -
  let ?G = "hash_collect steps"
  have "visit_post ?G (fst ` set steps) {}
     (fold (\<lambda>p acc.
        case acc of Inl cycle \<Rightarrow> Inl cycle
        | Inr permanent \<Rightarrow> visit_step_dependency_cycle ?G (fst p) {} [] permanent)
      steps (Inr {}))"
  proof (rule visit_post_fold)
    show "finished ?G {}" by (auto simp: finished_def intro: exI [of _ "[]"])
  qed (auto intro: visit_cycle_post)
  then show ?thesis by (simp add: case_prod_beta')
qed

lemma validate_cycles_run:
  "\<exists>r. visit_post (hash_collect steps) (fst ` set steps) {} r
     \<and> validate_step_dependency_cycles rid steps =
         (case r of Inl cycle \<Rightarrow> [step_cycle_error rid cycle] | Inr _ \<Rightarrow> [])"
  using validate_cycles_post [of steps] unfolding validate_step_dependency_cycles_def Let_def by blast

lemma validate_step_dependency_cycles_Nil:
  "validate_step_dependency_cycles rid steps = [] \<longleftrightarrow>
     (\<forall>x. (x, x) \<notin> (dep_rel (step_deps (hash_collect steps)))\<^sup>+)"
  (is "_ \<longleftrightarrow> ?acyclic")
proof -
  let ?G = "hash_collect steps"
  obtain r where post: "visit_post ?G (fst ` set steps) {} r"
    and run: "validate_step_dependency_cycles rid steps =
      (case r of Inl cycle \<Rightarrow> [step_cycle_error rid cycle] | Inr _ \<Rightarrow> [])"
    using validate_cycles_run [of steps rid] by blast
  show ?thesis
  proof (cases r)
    case (Inl c)
    with post real_cycle_trancl [of ?G c] have "\<not> ?acyclic" by auto
    with Inl show ?thesis by (simp add: run)
  next
    case (Inr p)
    with post have "finished ?G p" "fmdom' ?G \<subseteq> p" by (simp_all add: fmdom'_hash_collect)
    moreover from this have "p = fmdom' ?G" by (auto simp: finished_def)
    ultimately have ?acyclic using finished_acyclic by blast
    with Inr show ?thesis by (simp add: run)
  qed
qed

text \<open>
  The cycle search over the steps of a recipe reports nothing exactly when no step depends
  on itself through any chain of dependencies.
\<close>

lemma validate_step_dependency_cycles_complete:
  "validate_step_dependency_cycles rid steps = [] \<longleftrightarrow>
     (\<forall>x. (x, x) \<notin> (dep_rel (step_deps (hash_collect steps)))\<^sup>+)"
  by (rule validate_step_dependency_cycles_Nil)

text \<open>
  A reported cycle is one: its message lists steps each of which depends on the next, and
  returns to the step it starts at.
\<close>

lemma validate_step_dependency_cycles_sound:
  assumes "e \<in> set (validate_step_dependency_cycles rid steps)"
  shows "\<exists>cycle. e = step_cycle_error rid cycle \<and> real_cycle (hash_collect steps) cycle"
proof -
  obtain r where "visit_post (hash_collect steps) (fst ` set steps) {} r"
    and "validate_step_dependency_cycles rid steps =
      (case r of Inl cycle \<Rightarrow> [step_cycle_error rid cycle] | Inr _ \<Rightarrow> [])"
    using validate_cycles_run [of steps rid] by blast
  with assms show ?thesis by (cases r) auto
qed

definition sample_cycle :: "(string \<times> step) list" where
  "sample_cycle = [(''a'', sample_step ''a'' ''wait'' [''b''] []), (''b'', sample_step ''b'' ''wait'' [''a''] [])]"

lemma sample_cycle_reported:
  "step_cycle_error ''r'' [''a'', ''b'', ''a''] \<in> set (validate_step_dependency_cycles ''r'' sample_cycle)"
  by code_simp

theorem validate_step_dependency_cycles_sound_witness:
  "\<exists>cycle. step_cycle_error ''r'' [''a'', ''b'', ''a''] = step_cycle_error ''r'' cycle
     \<and> real_cycle (hash_collect sample_cycle) cycle"
  by (rule validate_step_dependency_cycles_sound [OF sample_cycle_reported])

section \<open>What the validators establish\<close>

lemma validate_local_Nil:
  "validate_local_step_dependencies rid steps = [] \<longleftrightarrow>
     (\<forall>(sid, s) \<in> set steps. \<forall>d \<in> set (step_dependencies s). d \<noteq> sid \<and> d \<in> fst ` set steps)
     \<and> (\<forall>x. (x, x) \<notin> (dep_rel (step_deps (hash_collect steps)))\<^sup>+)"
proof -
  let ?errors = "concat (map (\<lambda>(sid, s). check_dependencies ''unknown or non-emitted'' rid
      (\<lambda>d. d \<in> set (map fst steps)) sid s {} (step_dependencies s)) steps)"
  have "?errors = [] \<longleftrightarrow>
      (\<forall>(sid, s) \<in> set steps. \<forall>d \<in> set (step_dependencies s). d \<noteq> sid \<and> d \<in> fst ` set steps)"
    by (force simp: concat_eq_Nil_conv)
  then show ?thesis
    unfolding validate_local_step_dependencies_def Let_def
    using validate_step_dependency_cycles_Nil [of rid steps] by (simp only: if_splits) auto
qed

lemma push_group_get:
  "map_of (push_group k a gs) =
     (map_of gs)(k \<mapsto> (case map_of gs k of None \<Rightarrow> [a] | Some as \<Rightarrow> as @ [a]))"
  by (induction gs) (auto simp: fun_eq_iff)

lemma push_group_keys: "map fst (push_group k a gs) = push_new (map fst gs) k"
  by (induction k a gs rule: push_group.induct) (auto simp: push_new_def)

definition recipe_group :: "string \<Rightarrow> emitted list \<Rightarrow> (string \<times> step) list" where
  "recipe_group rid steps = map (\<lambda>(_, _, s). (step_id s, s)) (filter (\<lambda>(_, r, _). r = rid) steps)"

lemma group_steps_get:
  "map_of (group_steps steps) rid =
     (if recipe_group rid steps = [] then None else Some (recipe_group rid steps))"
proof (induction steps rule: rev_induct)
  case Nil
  then show ?case by (simp add: group_steps_def recipe_group_def)
next
  case (snoc x steps)
  obtain i r s where "x = (i, r, s)" by (cases x) auto
  with snoc show ?case
    by (auto simp: group_steps_def push_group_get recipe_group_def split: option.splits if_splits)
qed

lemma group_steps_distinct: "distinct (map fst (group_steps steps))"
proof (induction steps rule: rev_induct)
  case Nil
  then show ?case by (simp add: group_steps_def)
next
  case (snoc x steps)
  then show ?case by (cases x) (simp add: group_steps_def push_group_keys)
qed

lemma in_group_steps:
  "(rid, ss) \<in> set (group_steps steps) \<longleftrightarrow> ss = recipe_group rid steps \<and> ss \<noteq> []"
  using map_of_eq_Some_iff [OF group_steps_distinct, of steps rid ss] group_steps_get [of steps rid]
  by (auto split: if_splits)

text \<open>The emitted steps are closed under dependencies and free of cycles, recipe by recipe.\<close>

lemma validate_emitted_Nil:
  "validate_emitted_step_dependencies steps = [] \<longleftrightarrow>
     (\<forall>(i, rid, s) \<in> set steps. validate_local_step_dependencies rid (recipe_group rid steps) = [])"
proof -
  have group: "recipe_group rid steps \<noteq> []" if "(i, rid, s) \<in> set steps" for i rid s
    using that by (force simp: recipe_group_def filter_empty_conv)
  have member: "\<exists>i s. (i, rid, s) \<in> set steps" if "recipe_group rid steps \<noteq> []" for rid
    using that by (force simp: recipe_group_def filter_empty_conv)
  have "validate_emitted_step_dependencies steps = [] \<longleftrightarrow>
      (\<forall>(rid, ss) \<in> set (group_steps steps). validate_local_step_dependencies rid ss = [])"
    by (auto simp: validate_emitted_step_dependencies_def concat_eq_Nil_conv)
  also have "\<dots> \<longleftrightarrow> (\<forall>rid. recipe_group rid steps \<noteq> [] \<longrightarrow>
      validate_local_step_dependencies rid (recipe_group rid steps) = [])"
    by (auto simp: in_group_steps)
  also have "\<dots> \<longleftrightarrow> (\<forall>rid. (\<exists>i s. (i, rid, s) \<in> set steps) \<longrightarrow>
      validate_local_step_dependencies rid (recipe_group rid steps) = [])"
    using group member by metis
  finally show ?thesis by blast
qed

lemma in_recipe_group:
  "(sid, s) \<in> set (recipe_group rid steps) \<longleftrightarrow> sid = step_id s \<and> (\<exists>i. (i, rid, s) \<in> set steps)"
  by (force simp: recipe_group_def)

section \<open>Ancestors\<close>

text \<open>
  \<open>has_dependency_ancestor\<close>: the closure of the source's \<open>any\<close> is the list recursion of the
  second function; \<open>visited\<close> is threaded and returned.  The set after the recursive call is
  written \<open>visited \<union> insert d visited'\<close> for the termination proof; it is \<open>visited'\<close> itself
  (\<open>has_ancestor_among_Cons\<close>).
\<close>

function has_ancestor_among ::
  "(string, step) fmap \<Rightarrow> string \<Rightarrow> string set \<Rightarrow> string list \<Rightarrow> bool \<times> string set" where
  "has_ancestor_among G ancestor visited [] = (False, visited)"
| "has_ancestor_among G ancestor visited (d # ds) =
     (if d = ancestor then (True, visited)
      else if d \<in> visited then has_ancestor_among G ancestor visited ds
      else
        case fmlookup G d of
          None \<Rightarrow> has_ancestor_among G ancestor (insert d visited) ds
        | Some parent \<Rightarrow>
            let (found, visited') =
              has_ancestor_among G ancestor (insert d visited) (step_dependencies parent)
            in if found then (True, visited')
               else has_ancestor_among G ancestor (visited \<union> insert d visited') ds)"
  by pat_completeness auto
termination
proof (relation "measures [\<lambda>(G, _, visited, _). card (fmdom' G - visited), \<lambda>(_, _, _, ds). length ds]",
    goal_cases)
  case (4 G ancestor visited d ds parent)
  then have "d \<in> fmdom' G - visited" by (auto intro: fmdom'I)
  then have "card (fmdom' G - insert d visited) < card (fmdom' G - visited)"
    by (intro psubset_card_mono) auto
  then show ?case by simp
next
  case (5 G ancestor visited d ds parent)
  then have "d \<in> fmdom' G - visited" by (auto intro: fmdom'I)
  then have "card (fmdom' G - (visited \<union> insert d v)) < card (fmdom' G - visited)" for v
    by (intro psubset_card_mono) auto
  then show ?case by simp
next
  case (3 G ancestor visited d ds)
  have "card (fmdom' G - insert d visited) \<le> card (fmdom' G - visited)"
    by (rule card_mono) auto
  then show ?case by auto
qed auto

declare has_ancestor_among.simps(2) [simp del]

lemma has_ancestor_among_visited: "visited \<subseteq> snd (has_ancestor_among G ancestor visited ds)"
proof (induction G ancestor visited ds rule: has_ancestor_among.induct)
  case (2 G ancestor visited d ds)
  consider "d = ancestor" | "d \<noteq> ancestor" "d \<in> visited" | "d \<noteq> ancestor" "d \<notin> visited" "fmlookup G d = None"
    | parent where "d \<noteq> ancestor" "d \<notin> visited" "fmlookup G d = Some parent"
    by fastforce
  then show ?case
  proof cases
    case (4 parent)
    obtain found v where v:
      "has_ancestor_among G ancestor (insert d visited) (step_dependencies parent) = (found, v)"
      by fastforce
    from 2(3) [OF 4] v have "insert d visited \<subseteq> v" by simp
    moreover from 2(4) [OF 4, OF v [symmetric]] v
    have "visited \<union> insert d v \<subseteq> snd (has_ancestor_among G ancestor (visited \<union> insert d v) ds)"
      if "\<not> found" using that by simp
    ultimately show ?thesis
      using 4 v by (subst has_ancestor_among.simps(2)) (auto simp: Let_def)
  qed (use 2 in \<open>auto simp: has_ancestor_among.simps(2)\<close>)
qed simp

lemma has_ancestor_among_Cons:
  "has_ancestor_among G ancestor visited (d # ds) =
     (if d = ancestor then (True, visited)
      else if d \<in> visited then has_ancestor_among G ancestor visited ds
      else
        case fmlookup G d of
          None \<Rightarrow> has_ancestor_among G ancestor (insert d visited) ds
        | Some parent \<Rightarrow>
            let (found, visited') =
              has_ancestor_among G ancestor (insert d visited) (step_dependencies parent)
            in if found then (True, visited') else has_ancestor_among G ancestor visited' ds)"
proof -
  have "visited \<union> insert d v = v"
    if "has_ancestor_among G ancestor (insert d visited) ds' = (b, v)" for ds' b v
    using has_ancestor_among_visited [of "insert d visited" G ancestor ds'] that by auto
  then show ?thesis
    by (subst has_ancestor_among.simps(2)) (auto split: option.splits prod.splits simp: Let_def)
qed

definition has_dependency_ancestor :: "step \<Rightarrow> string \<Rightarrow> (string, step) fmap \<Rightarrow> bool" where
  "has_dependency_ancestor s ancestor steps_by_id =
     fst (has_ancestor_among steps_by_id ancestor {} (step_dependencies s))"

lemma has_ancestor_among_sound:
  "fst (has_ancestor_among G a visited ds) \<Longrightarrow> a \<in> reachable (step_deps G) (set ds)"
proof (induction G a visited ds rule: has_ancestor_among.induct)
  case (2 G a visited d ds)
  have tail: "reachable (step_deps G) (set ds) \<subseteq> reachable (step_deps G) (set (d # ds))"
    by (rule reachable_mono) auto
  consider "d = a" | "d \<noteq> a" "d \<in> visited" | "d \<noteq> a" "d \<notin> visited" "fmlookup G d = None"
    | parent where "d \<noteq> a" "d \<notin> visited" "fmlookup G d = Some parent"
    by fastforce
  then show ?case
  proof cases
    case 1
    then show ?thesis by (simp add: reachable_root)
  next
    case (4 parent)
    obtain found v where v:
      "has_ancestor_among G a (insert d visited) (step_dependencies parent) = (found, v)"
      by fastforce
    show ?thesis
    proof (cases found)
      case True
      have "reachable (step_deps G) (set (step_dependencies parent)) \<subseteq> reachable (step_deps G) (set (d # ds))"
        by (rule reachable_least) (auto intro: reachable_dep reachable_root simp: step_deps_def 4
            reachable_dep [of d])
      with 2(3) [OF 4] v True show ?thesis by auto
    next
      case False
      with 2(5) v 4 has_ancestor_among.simps(2) [of G a visited d ds]
      have "fst (has_ancestor_among G a (visited \<union> insert d v) ds)" by simp
      from 2(4) [OF 4, OF v [symmetric] refl False this] tail show ?thesis by blast
    qed
  qed (use 2 tail in \<open>auto simp: has_ancestor_among.simps(2)\<close>)
qed simp

text \<open>When the search fails it has visited everything below the given steps.\<close>

lemma has_ancestor_among_complete:
  assumes "\<not> fst (has_ancestor_among G a visited ds)" "a \<notin> visited"
  shows "a \<notin> snd (has_ancestor_among G a visited ds)
    \<and> set ds \<subseteq> snd (has_ancestor_among G a visited ds)
    \<and> (\<forall>x \<in> snd (has_ancestor_among G a visited ds) - visited.
         step_deps G x \<subseteq> snd (has_ancestor_among G a visited ds))"
  using assms
proof (induction G a visited ds rule: has_ancestor_among.induct)
  case (2 G a visited d ds)
  from 2(5) have "d \<noteq> a" by (auto simp: has_ancestor_among_Cons)
  then consider "d \<noteq> a" "d \<in> visited" | "d \<noteq> a" "d \<notin> visited" "fmlookup G d = None"
    | parent where "d \<noteq> a" "d \<notin> visited" "fmlookup G d = Some parent"
    by fastforce
  then show ?case
  proof cases
    case 1
    with 2 has_ancestor_among_visited [of visited G a ds] show ?thesis
      by (auto simp: has_ancestor_among_Cons)
  next
    case 2
    with "2.IH"(2) "2.prems" has_ancestor_among_visited [of "insert d visited" G a ds] show ?thesis
      by (auto simp: has_ancestor_among_Cons step_deps_def)
  next
    case (3 parent)
    obtain found v where v:
      "has_ancestor_among G a (insert d visited) (step_dependencies parent) = (found, v)"
      by fastforce
    have v': "visited \<union> insert d v = v"
      using has_ancestor_among_visited [of "insert d visited" G a "step_dependencies parent"] v by auto
    have run: "has_ancestor_among G a visited (d # ds) =
        (if found then (True, v) else has_ancestor_among G a v ds)"
      using 3 v by (simp add: has_ancestor_among_Cons)
    with 2(5) have "\<not> found" and run: "has_ancestor_among G a visited (d # ds) = has_ancestor_among G a v ds"
      by (auto split: if_splits)
    from 2(3) [OF 3] v \<open>\<not> found\<close> 2(6) 3
    have inner: "a \<notin> v" "step_deps G d \<subseteq> v" "\<forall>x \<in> v - insert d visited. step_deps G x \<subseteq> v"
      by (simp_all add: step_deps_def)
    note rec = 2(4) [OF 3, OF v [symmetric] refl \<open>\<not> found\<close>, unfolded v']
    from rec [OF _ inner(1)] 2(5) run
    have outer: "a \<notin> snd (has_ancestor_among G a v ds)" "set ds \<subseteq> snd (has_ancestor_among G a v ds)"
      "\<forall>x \<in> snd (has_ancestor_among G a v ds) - v. step_deps G x \<subseteq> snd (has_ancestor_among G a v ds)"
      by simp_all
    have "v \<subseteq> snd (has_ancestor_among G a v ds)" by (rule has_ancestor_among_visited)
    moreover have "step_deps G x \<subseteq> snd (has_ancestor_among G a v ds)"
      if "x \<in> snd (has_ancestor_among G a v ds) - visited" for x
      using that outer(3) inner(2,3) calculation by (cases "x \<in> v"; cases "x = d") blast+
    ultimately show ?thesis using outer v' by (simp only: run) auto
  qed
qed simp

text \<open>
  The search \<open>has_dependency_ancestor\<close> finds a step exactly when it is reached from the given step by
  one or more dependencies, whatever cycles the steps may have.
\<close>

lemma has_dependency_ancestor_iff:
  "has_dependency_ancestor s ancestor G \<longleftrightarrow> ancestor \<in> reachable (step_deps G) (set (step_dependencies s))"
proof
  show "has_dependency_ancestor s ancestor G \<Longrightarrow> ancestor \<in> reachable (step_deps G) (set (step_dependencies s))"
    unfolding has_dependency_ancestor_def by (rule has_ancestor_among_sound)
next
  assume reach: "ancestor \<in> reachable (step_deps G) (set (step_dependencies s))"
  show "has_dependency_ancestor s ancestor G"
  proof (rule ccontr)
    let ?v = "snd (has_ancestor_among G ancestor {} (step_dependencies s))"
    assume "\<not> has_dependency_ancestor s ancestor G"
    then have "ancestor \<notin> ?v" "set (step_dependencies s) \<subseteq> ?v" "\<forall>x \<in> ?v. step_deps G x \<subseteq> ?v"
      using has_ancestor_among_complete [of G ancestor "{}" "step_dependencies s"]
      by (auto simp: has_dependency_ancestor_def)
    with reachable_least [of "set (step_dependencies s)" ?v "step_deps G"] reach show False by blast
  qed
qed

end
