(* ===== verification/Step_Sort.thy ===== *)
theory Step_Sort
  imports Step_Graph
begin

text \<open>
  Ordering of the emitted steps (\<open>topologically_sort_steps\<close> in \<open>planner.rs\<close>), Kahn's algorithm
  over hash maps.  The hash maps are finite maps; the two places where the source sorts a
  collection in hash order sort the keys here from a list in some fixed order, and the sort
  key, the position in the input, tells them apart.  A degree is an \<open>int\<close>: the source's
  \<open>usize\<close> is only compared with zero, and wraps instead of going negative.
\<close>

definition authored_steps :: "recipes \<Rightarrow> string list \<Rightarrow> string set \<Rightarrow> emitted list" where
  "authored_steps recipes expanded_recipe_refs selected_step_ids =
     concat (map (\<lambda>rid.
       case fmlookup recipes rid of
         None \<Rightarrow> []
       | Some r \<Rightarrow>
           map (\<lambda>s. (make_execution_step_id rid (step_id s), rid, s))
             (filter (\<lambda>s. make_execution_step_id rid (step_id s) \<in> selected_step_ids)
               (recipe_steps r)))
       expanded_recipe_refs)"

record sort_state =
  ss_queue :: "string list"
  ss_reverse_graph :: "(string, string list) fmap"
  ss_indegree :: "(string, int) fmap"
  ss_result :: "emitted list"

definition index_by_id :: "emitted list \<Rightarrow> (string, nat) fmap" where
  "index_by_id steps = hash_collect (zip (map fst steps) [0..<length steps])"

definition step_by_id :: "emitted list \<Rightarrow> (string, string \<times> step) fmap" where
  "step_by_id steps = hash_collect steps"

definition lookup_or :: "'v \<Rightarrow> ('k, 'v) fmap \<Rightarrow> 'k \<Rightarrow> 'v" where
  "lookup_or d m k = unwrap_or (fmlookup m k) d"

lemma lookup_or_upd [simp]: "lookup_or d (fmupd k v m) k' = (if k' = k then v else lookup_or d m k')"
  by (simp add: lookup_or_def)

lemma lookup_or_empty [simp]: "lookup_or d fmempty k = d"
  by (simp add: lookup_or_def)

definition push_dependent ::
  "string \<Rightarrow> string \<Rightarrow> (string, string list) fmap \<Rightarrow> (string, string list) fmap" where
  "push_dependent sid dependency_id graph =
     fmupd dependency_id (lookup_or [] graph dependency_id @ [sid]) graph"

definition add_to_graph ::
  "emitted \<Rightarrow> (string, string list) fmap \<times> (string, int) fmap \<Rightarrow>
     (string, string list) fmap \<times> (string, int) fmap" where
  "add_to_graph = (\<lambda>(sid, rid, s) (graph, indegree).
     let dependency_ids = unique_dependency_ids (step_dependencies s);
         graph = (if fmlookup graph sid = None then fmupd sid [] graph else graph)
     in (fold (\<lambda>dependency. push_dependent sid (make_execution_step_id rid dependency))
           dependency_ids graph,
         fmupd sid (int (length dependency_ids)) indegree))"

definition release :: "string \<Rightarrow> (string, int) fmap \<times> string list \<Rightarrow> (string, int) fmap \<times> string list" where
  "release dependent_id = (\<lambda>(indegree, queue).
     case fmlookup indegree dependent_id of
       None \<Rightarrow> (indegree, queue)
     | Some degree \<Rightarrow>
         (fmupd dependent_id (degree - 1) indegree,
          if degree - 1 = 0 then queue @ [dependent_id] else queue))"

text \<open>One round of the loop: the head of the queue is emitted and its dependents released.\<close>

definition sort_step :: "emitted list \<Rightarrow> string \<Rightarrow> string list \<Rightarrow> sort_state \<Rightarrow> sort_state" where
  "sort_step steps sid rest st =
     (let result = (case fmlookup (step_by_id steps) sid of
                      None \<Rightarrow> ss_result st
                    | Some (rid, s) \<Rightarrow> ss_result st @ [(sid, rid, s)]);
          dependents = sort_key (lookup_or 0 (index_by_id steps))
                         (lookup_or [] (ss_reverse_graph st) sid);
          (indegree, queue) = fold release dependents (ss_indegree st, rest)
      in \<lparr> ss_queue = queue, ss_reverse_graph = fmdrop sid (ss_reverse_graph st),
           ss_indegree = indegree, ss_result = result \<rparr>)"

text \<open>Every element pushed uses up an edge of the reverse graph.\<close>

definition edge_count :: "(string, string list) fmap \<Rightarrow> nat" where
  "edge_count graph = (\<Sum>k \<in> fmdom' graph. length (lookup_or [] graph k))"

lemma edge_count_drop:
  "edge_count (fmdrop k graph) + length (lookup_or [] graph k) = edge_count graph"
proof (cases "k \<in> fmdom' graph")
  case True
  have "(\<Sum>j \<in> fmdom' graph - {k}. length (lookup_or [] (fmdrop k graph) j)) =
        (\<Sum>j \<in> fmdom' graph - {k}. length (lookup_or [] graph j))"
    by (rule sum.cong) (auto simp: lookup_or_def)
  with True sum.remove [of "fmdom' graph" k "\<lambda>j. length (lookup_or [] graph j)"] show ?thesis
    by (simp add: edge_count_def fmdom'_drop)
next
  case False
  then have "fmlookup graph k = None" by (simp add: fmdom'_notD)
  then have "fmdrop k graph = graph" by (intro fmap_ext) auto
  with \<open>fmlookup graph k = None\<close> show ?thesis by (simp add: lookup_or_def)
qed

lemma release_length: "length (snd (release d st)) \<le> Suc (length (snd st))"
  by (cases st) (auto simp: release_def split: option.splits)

lemma fold_release_length: "length (snd (fold release ds st)) \<le> length ds + length (snd st)"
proof (induction ds arbitrary: st)
  case Nil
  then show ?case by simp
next
  case (Cons d ds)
  from Cons [of "release d st"] release_length [of d st] show ?case by simp
qed

function sort_loop :: "emitted list \<Rightarrow> sort_state \<Rightarrow> sort_state" where
  "sort_loop steps st =
     (case ss_queue st of
        [] \<Rightarrow> st
      | sid # rest \<Rightarrow> sort_loop steps (sort_step steps sid rest st))"
  by pat_completeness auto
termination
proof (relation "measure (\<lambda>(steps, st). length (ss_queue st) + edge_count (ss_reverse_graph st))", simp)
  fix steps :: "emitted list" and st :: sort_state and sid rest
  assume "ss_queue st = sid # rest"
  moreover have "length (ss_queue (sort_step steps sid rest st))
      \<le> length (lookup_or [] (ss_reverse_graph st) sid) + length rest"
    using fold_release_length [of "sort_key (lookup_or 0 (index_by_id steps))
        (lookup_or [] (ss_reverse_graph st) sid)" "(ss_indegree st, rest)"]
    by (auto simp: sort_step_def Let_def split: prod.splits)
  moreover have "ss_reverse_graph (sort_step steps sid rest st) = fmdrop sid (ss_reverse_graph st)"
    by (auto simp: sort_step_def Let_def split: prod.splits)
  ultimately show "((steps, sort_step steps sid rest st), (steps, st))
      \<in> measure (\<lambda>(steps, st). length (ss_queue st) + edge_count (ss_reverse_graph st))"
    using edge_count_drop [of sid "ss_reverse_graph st"] by simp
qed

declare sort_loop.simps [simp del]

definition initial_sort_state :: "emitted list \<Rightarrow> sort_state" where
  "initial_sort_state steps =
     (let (graph, indegree) = fold add_to_graph steps (fmempty, fmempty);
          ready = filter (\<lambda>sid. fmlookup indegree sid = Some 0) (sorted_list_of_fset (fmdom indegree))
      in \<lparr> ss_queue = sort_key (lookup_or 0 (index_by_id steps)) ready,
           ss_reverse_graph = graph, ss_indegree = indegree, ss_result = [] \<rparr>)"

definition topologically_sort_steps :: "emitted list \<Rightarrow> emitted list \<times> planner_message list" where
  "topologically_sort_steps steps =
     (let result = ss_result (sort_loop steps (initial_sort_state steps)) in
      if length result \<noteq> length steps
      then ([], [msg ''dependency_cycle'' ''Execution step dependency cycle detected.''
                   [(''step_ids'', jstrs (map fst steps))]])
      else (result, []))"

section \<open>The graph the sort starts from\<close>

definition direct_deps :: "string \<times> step \<Rightarrow> string set" where
  "direct_deps = (\<lambda>(rid, s). make_execution_step_id rid ` set (step_dependencies s))"

definition emitted_deps :: "emitted list \<Rightarrow> string \<Rightarrow> string set" where
  "emitted_deps steps sid =
     (case fmlookup (step_by_id steps) sid of None \<Rightarrow> {} | Some e \<Rightarrow> direct_deps e)"

definition dependents_of :: "emitted list \<Rightarrow> string \<Rightarrow> string list" where
  "dependents_of steps k = map fst (filter (\<lambda>(_, e). k \<in> direct_deps e) steps)"

lemma fold_push_dependent:
  "distinct ds \<Longrightarrow>
     lookup_or [] (fold (\<lambda>d. push_dependent sid (make_execution_step_id rid d)) ds g) k =
     lookup_or [] g k @ (if k \<in> make_execution_step_id rid ` set ds then [sid] else [])"
proof (induction ds arbitrary: g)
  case Nil
  then show ?case by simp
next
  case (Cons d ds)
  from Cons.prems have "make_execution_step_id rid d \<notin> make_execution_step_id rid ` set ds" by auto
  with Cons show ?case by (auto simp: push_dependent_def)
qed

lemma add_to_graph_graph:
  "lookup_or [] (fst (add_to_graph (sid, e) (g, d))) k =
     lookup_or [] g k @ (if k \<in> direct_deps e then [sid] else [])"
proof -
  have "lookup_or [] (if fmlookup g sid = None then fmupd sid [] g else g) k = lookup_or [] g k"
    by (auto simp: lookup_or_def)
  then show ?thesis
    by (cases e) (simp add: add_to_graph_def Let_def fold_push_dependent direct_deps_def)
qed

lemma add_to_graph_degree:
  "snd (add_to_graph (sid, e) (g, d)) = fmupd sid (int (card (direct_deps e))) d"
proof -
  obtain rid s where e: "e = (rid, s)" by fastforce
  have "card (direct_deps e) = card (set (step_dependencies s))"
    unfolding e direct_deps_def prod.case by (rule card_image) (auto simp: inj_on_def)
  also have "\<dots> = length (unique_dependency_ids (step_dependencies s))"
    using distinct_card [OF distinct_unique_dependency_ids] by simp
  finally show ?thesis by (simp add: add_to_graph_def Let_def e)
qed

lemma fold_add_to_graph:
  "lookup_or [] (fst (fold add_to_graph steps (fmempty, fmempty))) k = dependents_of steps k"
  "fmlookup (snd (fold add_to_graph steps (fmempty, fmempty))) sid =
     map_option (\<lambda>e. int (card (direct_deps e))) (map_of (rev steps) sid)"
proof (induction steps rule: rev_induct)
  case Nil
  case 1 then show ?case by (simp add: dependents_of_def)
  case 2 then show ?case by simp
next
  case (snoc x steps)
  obtain i e where x: "x = (i, e)" by (cases x)
  obtain g d where gd: "fold add_to_graph steps (fmempty, fmempty) = (g, d)" by fastforce
  case 1 then show ?case
    using snoc(1) by (simp add: gd x add_to_graph_graph dependents_of_def)
  case 2 then show ?case
    using snoc(2) by (simp add: gd x add_to_graph_degree)
qed

lemma dependents_of_facts:
  assumes "distinct (map fst steps)"
  shows "distinct (dependents_of steps k)"
    and "set (dependents_of steps k) = {sid \<in> fst ` set steps. k \<in> emitted_deps steps sid}"
proof -
  show "distinct (dependents_of steps k)"
    using assms by (auto simp: dependents_of_def distinct_map_filter)
  have "emitted_deps steps sid = direct_deps e" if "(sid, e) \<in> set steps" for sid e
    using that fmlookup_hash_collect_distinct [OF assms]
    by (auto simp: emitted_deps_def step_by_id_def map_of_is_SomeI [OF assms])
  then show "set (dependents_of steps k) = {sid \<in> fst ` set steps. k \<in> emitted_deps steps sid}"
    by (force simp: dependents_of_def)
qed

lemma release_facts:
  assumes "release d (deg, q) = (deg', q')"
  shows "fmlookup deg' k = (if k = d then map_option (\<lambda>n. n - 1) (fmlookup deg k) else fmlookup deg k)"
    and "q' = q @ (if fmlookup deg d = Some 1 then [d] else [])"
  using assms by (auto simp: release_def split: option.splits if_splits)

lemma fold_release_degree:
  "distinct ds \<Longrightarrow> fmlookup (fst (fold release ds (deg, q))) k =
      (if k \<in> set ds then map_option (\<lambda>n. n - 1) (fmlookup deg k) else fmlookup deg k)"
proof (induction ds arbitrary: deg q)
  case Nil
  then show ?case by simp
next
  case (Cons d ds)
  obtain deg' q' where r: "release d (deg, q) = (deg', q')" by fastforce
  show ?case using Cons.IH [of deg' q'] Cons.prems by (auto simp: r release_facts(1) [OF r])
qed

lemma fold_release_queue:
  "distinct ds \<Longrightarrow>
     snd (fold release ds (deg, q)) = q @ filter (\<lambda>d. fmlookup deg d = Some 1) ds"
proof (induction ds arbitrary: deg q)
  case Nil
  then show ?case by simp
next
  case (Cons d ds)
  obtain deg' q' where r: "release d (deg, q) = (deg', q')" by fastforce
  have "filter (\<lambda>d. fmlookup deg' d = Some 1) ds = filter (\<lambda>d. fmlookup deg d = Some 1) ds"
    using Cons.prems by (intro filter_cong) (auto simp: release_facts(1) [OF r])
  then show ?case using Cons.IH [of deg' q'] Cons.prems by (simp add: r release_facts(2) [OF r])
qed

section \<open>The loop invariant\<close>

abbreviation emitted_ids :: "emitted list \<Rightarrow> string set" where
  "emitted_ids steps \<equiv> fst ` set steps"

abbreviation popped :: "sort_state \<Rightarrow> string list" where
  "popped st \<equiv> map fst (ss_result st)"

definition sort_inv :: "emitted list \<Rightarrow> sort_state \<Rightarrow> bool" where
  "sort_inv steps st \<longleftrightarrow>
     distinct (popped st @ ss_queue st) \<and> set (popped st @ ss_queue st) \<subseteq> emitted_ids steps
     \<and> set (ss_result st) \<subseteq> set steps
     \<and> (\<forall>sid \<in> emitted_ids steps. fmlookup (ss_indegree st) sid =
          Some (int (card (emitted_deps steps sid - set (popped st)))))
     \<and> (\<forall>k. k \<notin> set (popped st) \<longrightarrow>
          lookup_or [] (ss_reverse_graph st) k = dependents_of steps k)
     \<and> (\<forall>sid \<in> emitted_ids steps.
          sid \<in> set (popped st @ ss_queue st) \<longleftrightarrow> emitted_deps steps sid \<subseteq> set (popped st))
     \<and> deps_first (emitted_deps steps) {} (popped st)"

lemma finite_emitted_deps [simp]: "finite (emitted_deps steps sid)"
  by (auto simp: emitted_deps_def direct_deps_def split: option.splits prod.splits)

lemma step_by_id_distinct:
  assumes "distinct (map fst steps)"
  shows "fmlookup (step_by_id steps) sid = Some e \<longleftrightarrow> (sid, e) \<in> set steps"
  using assms by (simp add: step_by_id_def fmlookup_hash_collect_distinct)

lemma step_by_id_ids:
  "sid \<in> emitted_ids steps \<Longrightarrow> \<exists>e. fmlookup (step_by_id steps) sid = Some e"
  using hash_collect_None [of steps sid] by (auto simp: step_by_id_def)

lemma sort_inv_initial:
  assumes "distinct (map fst steps)"
  shows "sort_inv steps (initial_sort_state steps)"
proof -
  obtain graph indegree where init: "fold add_to_graph steps (fmempty, fmempty) = (graph, indegree)"
    by fastforce
  have graph: "lookup_or [] graph k = dependents_of steps k" for k
    using fold_add_to_graph(1) [of steps k] by (simp add: init)
  have degree: "fmlookup indegree sid = map_option (\<lambda>e. int (card (direct_deps e))) (map_of (rev steps) sid)" for sid
    using fold_add_to_graph(2) [of steps sid] by (simp add: init)
  then have degree': "fmlookup indegree sid =
      map_option (\<lambda>e. int (card (direct_deps e))) (fmlookup (step_by_id steps) sid)" for sid
    by (simp add: step_by_id_def fmlookup_hash_collect)
  have ids: "sid |\<in>| fmdom indegree \<longleftrightarrow> sid \<in> emitted_ids steps" for sid
    using hash_collect_None [of steps sid]
    by (simp add: fmdom_notI fmlookup_dom_iff degree' step_by_id_def) auto
  have zero: "fmlookup indegree sid = Some 0 \<longleftrightarrow> emitted_deps steps sid = {}"
    if "sid \<in> emitted_ids steps" for sid
    using step_by_id_ids [OF that] by (auto simp: degree' emitted_deps_def direct_deps_def)
  let ?st = "initial_sort_state steps"
  have "ss_result ?st = []" "ss_reverse_graph ?st = graph" "ss_indegree ?st = indegree"
    by (simp_all add: initial_sort_state_def init)
  moreover have "distinct (ss_queue ?st)"
    and "set (ss_queue ?st) = {sid \<in> emitted_ids steps. emitted_deps steps sid = {}}"
    using zero distinct_sorted_list_of_set [of "fset (fmdom indegree)"]
    by (auto simp: initial_sort_state_def init ids [symmetric] sorted_list_of_fset.rep_eq)
  moreover have "fmlookup indegree sid = Some (int (card (emitted_deps steps sid)))"
    if "sid \<in> emitted_ids steps" for sid
    using step_by_id_ids [OF that] by (auto simp: degree' emitted_deps_def)
  ultimately show ?thesis by (simp add: sort_inv_def graph)
qed

text \<open>Emitting the head of the queue keeps the invariant.\<close>

lemma sort_inv_step:
  assumes distinct: "distinct (map fst steps)" and inv: "sort_inv steps st"
    and queue: "ss_queue st = sid # rest"
  shows "sort_inv steps (sort_step steps sid rest st)"
proof -
  let ?P = "fst ` set (ss_result st)" and ?D = "emitted_deps steps" and ?st = "sort_step steps sid rest st"
  define ds where "ds = sort_key (lookup_or 0 (index_by_id steps)) (dependents_of steps sid)"
  obtain deg q where rel: "fold release ds (ss_indegree st, rest) = (deg, q)" by fastforce
  have new: "sid \<notin> ?P" "sid \<in> emitted_ids steps" "sid \<notin> set rest"
    and degree: "\<And>k. k \<in> emitted_ids steps \<Longrightarrow>
      fmlookup (ss_indegree st) k = Some (int (card (?D k - ?P)))"
    and graph: "\<And>k. k \<notin> ?P \<Longrightarrow> lookup_or [] (ss_reverse_graph st) k = dependents_of steps k"
    and ready: "\<And>k. k \<in> emitted_ids steps \<Longrightarrow>
      k \<in> ?P \<or> k = sid \<or> k \<in> set rest \<longleftrightarrow> ?D k \<subseteq> ?P"
    using inv queue by (auto simp: sort_inv_def)
  have ds: "distinct ds" "set ds = {k \<in> emitted_ids steps. sid \<in> ?D k}"
    using dependents_of_facts [OF distinct, of sid] by (simp_all add: ds_def)
  obtain e where e: "(sid, e) \<in> set steps" using new(2) by auto
  then have lookup: "fmlookup (step_by_id steps) sid = Some e"
    by (simp add: step_by_id_distinct [OF distinct])
  have q: "q = rest @ filter (\<lambda>d. fmlookup (ss_indegree st) d = Some 1) ds"
    using fold_release_queue [OF ds(1), of "ss_indegree st" rest] by (simp add: rel)
  have st: "ss_queue ?st = q" "ss_reverse_graph ?st = fmdrop sid (ss_reverse_graph st)"
    "ss_indegree ?st = deg" "ss_result ?st = ss_result st @ [(sid, e)]"
    using lookup rel graph [OF new(1)]
    by (simp_all add: sort_step_def Let_def ds_def split: prod.splits)
  have P': "fst ` set (ss_result ?st) = insert sid ?P" by (auto simp: st)
  have card1: "card (?D k - insert sid ?P) = (if k \<in> set ds then card (?D k - ?P) - 1 else card (?D k - ?P))"
    and pos: "k \<in> set ds \<Longrightarrow> 0 < card (?D k - ?P)" if "k \<in> emitted_ids steps" for k
  proof -
    have split: "?D k - insert sid ?P = (?D k - ?P) - {sid}" by auto
    have iff: "k \<in> set ds \<longleftrightarrow> sid \<in> ?D k - ?P" using that new(1) ds(2) by auto
    show "card (?D k - insert sid ?P) = (if k \<in> set ds then card (?D k - ?P) - 1 else card (?D k - ?P))"
      unfolding split iff by (simp add: card_Diff_singleton_if)
    show "0 < card (?D k - ?P)" if "k \<in> set ds"
      using that unfolding iff by (auto simp: card_gt_0_iff)
  qed
  have one: "fmlookup (ss_indegree st) k = Some 1 \<longleftrightarrow> ?D k \<subseteq> insert sid ?P" if "k \<in> set ds" for k
  proof -
    have k: "k \<in> emitted_ids steps" using that ds(2) by auto
    have "fmlookup (ss_indegree st) k = Some 1 \<longleftrightarrow> card (?D k - insert sid ?P) = 0"
      using card1 [OF k] pos [OF k that] that by (auto simp: degree [OF k])
    then show ?thesis by (auto simp: card_eq_0_iff)
  qed
  have "?D sid \<subseteq> ?P" using ready [OF new(2)] by auto
  then have first: "deps_first ?D {} (popped ?st)"
    using inv by (simp add: st sort_inv_def deps_first_append)
  have disj: "set ds \<inter> (?P \<union> insert sid (set rest)) = {}"
    using ds(2) ready new(1) by blast
  have "distinct (popped ?st @ ss_queue ?st)"
    using inv queue ds(1) disj by (auto simp: sort_inv_def st q)
  moreover have "set (popped ?st @ ss_queue ?st) \<subseteq> emitted_ids steps"
    using inv queue ds(2) by (auto simp: sort_inv_def st q)
  moreover have "set (ss_result ?st) \<subseteq> set steps"
    using inv e by (simp add: sort_inv_def st)
  moreover have "fmlookup (ss_indegree ?st) k = Some (int (card (?D k - set (popped ?st))))"
    if "k \<in> emitted_ids steps" for k
    using fold_release_degree [OF ds(1), of "ss_indegree st" rest k] card1 [OF that] pos [OF that]
    by (auto simp: rel st(3) P' degree [OF that] of_nat_diff)
  moreover have "lookup_or [] (ss_reverse_graph ?st) k = dependents_of steps k"
    if "k \<notin> set (popped ?st)" for k
    using graph [of k] that by (auto simp: st lookup_or_def)
  moreover have "k \<in> set (popped ?st @ ss_queue ?st) \<longleftrightarrow> ?D k \<subseteq> set (popped ?st)"
    if k: "k \<in> emitted_ids steps" for k
  proof (cases "k \<in> set ds")
    case True
    with one [OF True] disj show ?thesis by (auto simp: P' st(1) q)
  next
    case False
    with ds(2) k have "sid \<notin> ?D k" by auto
    with ready [OF k] False show ?thesis by (auto simp: P' st(1) q)
  qed
  ultimately show ?thesis using first unfolding sort_inv_def by blast
qed

lemma sort_loop_inv:
  "distinct (map fst steps) \<Longrightarrow> sort_inv steps st \<Longrightarrow>
     sort_inv steps (sort_loop steps st) \<and> ss_queue (sort_loop steps st) = []"
proof (induction steps st rule: sort_loop.induct)
  case (1 steps st)
  show ?case
  proof (cases "ss_queue st")
    case Nil
    with 1 show ?thesis by (simp add: sort_loop.simps [of steps st])
  next
    case (Cons sid rest)
    with 1(1) [OF Cons 1(2) sort_inv_step [OF 1(2,3) Cons]] show ?thesis
      by (simp add: sort_loop.simps [of steps st])
  qed
qed

lemma sorted_facts:
  assumes "distinct (map fst steps)"
  defines "res \<equiv> ss_result (sort_loop steps (initial_sort_state steps))"
  shows "distinct (map fst res)" "set res \<subseteq> set steps"
    "deps_first (emitted_deps steps) {} (map fst res)"
    "\<And>sid. sid \<in> emitted_ids steps \<Longrightarrow>
       sid \<in> emitted_ids res \<longleftrightarrow> emitted_deps steps sid \<subseteq> emitted_ids res"
proof -
  have inv: "sort_inv steps (sort_loop steps (initial_sort_state steps))"
    and queue: "ss_queue (sort_loop steps (initial_sort_state steps)) = []"
    using sort_loop_inv [OF assms(1) sort_inv_initial [OF assms(1)]] by simp_all
  note inv' = inv [unfolded sort_inv_def queue append_Nil2 res_def [symmetric]]
  from inv' show "distinct (map fst res)" "set res \<subseteq> set steps"
    "deps_first (emitted_deps steps) {} (map fst res)" by simp_all
  show "sid \<in> emitted_ids res \<longleftrightarrow> emitted_deps steps sid \<subseteq> emitted_ids res"
    if "sid \<in> emitted_ids steps" for sid
    using inv' that by (metis list.set_map)
qed

lemma full_result:
  assumes distinct: "distinct (map fst steps)" and res: "distinct (map fst res)" "set res \<subseteq> set steps"
  shows "length res = length steps \<longleftrightarrow> set res = set steps"
proof -
  have "distinct res" "distinct steps" using distinct res(1) by (simp_all add: distinct_map)
  then have "length res = card (set res)" "length steps = card (set steps)"
    by (simp_all add: distinct_card)
  with res(2) card_subset_eq [of "set steps" "set res"] show ?thesis by auto
qed

lemma sort_success:
  assumes "distinct (map fst steps)" "topologically_sort_steps steps = (res, [])"
  shows "distinct (map fst res)" "set res = set steps" "deps_first (emitted_deps steps) {} (map fst res)"
  using assms(2) sorted_facts [OF assms(1)] full_result [OF assms(1)]
  by (auto simp: topologically_sort_steps_def Let_def split: if_splits)

interpretation step_order: dependency_order
  "\<lambda>(_::unit) steps. (map fst (fst (topologically_sort_steps steps)), snd (topologically_sort_steps steps))"
  "\<lambda>_ steps. distinct (map fst steps)" "\<lambda>_ steps. emitted_deps steps" "\<lambda>_ steps. emitted_ids steps"
proof (unfold_locales, goal_cases)
  case (1 _ steps xs)
  then show ?case using sort_success [of steps "fst (topologically_sort_steps steps)"]
    by (cases "topologically_sort_steps steps") auto
next
  case (2 _ steps xs)
  then show ?case using sort_success [of steps "fst (topologically_sort_steps steps)"]
    by (cases "topologically_sort_steps steps") auto
next
  case (3 _ steps xs)
  then obtain res where "topologically_sort_steps steps = (res, [])" "xs = map fst res"
    by (cases "topologically_sort_steps steps") simp
  with sort_success(2) [OF 3(1)] show ?case by simp
qed

lemma emitted_deps_ids: "b \<in> emitted_deps steps a \<Longrightarrow> a \<in> emitted_ids steps"
  using hash_collect_None [of steps a]
  by (auto simp: emitted_deps_def step_by_id_def split: option.splits)

text \<open>What the sort emits is all that is emitted below it, so an omitted step has an omitted
  dependency, and following those leads around a cycle.\<close>

lemma sort_complete:
  assumes distinct: "distinct (map fst steps)"
    and closed: "\<And>x. x \<in> emitted_ids steps \<Longrightarrow> emitted_deps steps x \<subseteq> emitted_ids steps"
    and acyclic: "\<And>x. (x, x) \<notin> (dep_rel (emitted_deps steps))\<^sup>+"
  shows "snd (topologically_sort_steps steps) = []"
proof -
  let ?D = "emitted_deps steps"
  let ?res = "ss_result (sort_loop steps (initial_sort_state steps))"
  note facts = sorted_facts [OF distinct]
  have "finite (dep_rel ?D)"
  proof (rule finite_subset)
    show "dep_rel ?D \<subseteq> emitted_ids steps \<times> emitted_ids steps"
    proof
      fix p assume "p \<in> dep_rel ?D"
      then obtain a b where p: "p = (a, b)" "b \<in> ?D a" by (cases p) simp
      from emitted_deps_ids [OF p(2)] closed [of a] p(2) show "p \<in> emitted_ids steps \<times> emitted_ids steps"
        unfolding p(1) by (simp only: mem_Times_iff fst_conv snd_conv) blast
    qed
  qed simp
  moreover have "acyclic (dep_rel ?D)" using acyclic by (simp add: acyclic_def)
  ultimately have wf: "wf ((dep_rel ?D)\<inverse>)" by (rule finite_acyclic_wf_converse)
  have "x \<in> emitted_ids steps \<longrightarrow> x \<in> emitted_ids ?res" for x
  proof (induction x rule: wf_induct_rule [OF wf])
    case (1 x)
    show ?case
    proof
      assume x: "x \<in> emitted_ids steps"
      have "y \<in> emitted_ids ?res" if "y \<in> ?D x" for y
      proof -
        have "(y, x) \<in> (dep_rel ?D)\<inverse>" using that by simp
        moreover have "y \<in> emitted_ids steps" using closed [OF x] that by (rule subsetD)
        ultimately show ?thesis using 1 by simp
      qed
      then have "?D x \<subseteq> emitted_ids ?res" by (rule subsetI)
      with facts(4) [OF x] show "x \<in> emitted_ids ?res" by simp
    qed
  qed
  then have ids: "emitted_ids steps \<subseteq> emitted_ids ?res" by blast
  have "set steps \<subseteq> set ?res"
  proof
    fix e assume e: "e \<in> set steps"
    then have "fst e \<in> emitted_ids ?res" using ids by blast
    then obtain e' where "e' \<in> set ?res" "fst e' = fst e" by (metis imageE)
    moreover from this facts(2) e distinct have "e' = e"
      by (metis distinct_map inj_onD in_mono)
    ultimately show "e \<in> set ?res" by simp
  qed
  then show ?thesis
    using facts(2) full_result [OF distinct facts(1,2)]
    by (auto simp: topologically_sort_steps_def Let_def)
qed

section \<open>Validated steps can be sorted\<close>

text \<open>Emitted steps carry the identifier made of their recipe and their own identifier, and
  no identifier twice.\<close>

definition wf_emitted :: "emitted list \<Rightarrow> bool" where
  "wf_emitted steps \<longleftrightarrow> distinct (map fst steps)
     \<and> (\<forall>(sid, rid, s) \<in> set steps. sid = make_execution_step_id rid (step_id s))"

lemma wf_emitted_id:
  "wf_emitted steps \<Longrightarrow> (x, r, s) \<in> set steps \<Longrightarrow> x = make_execution_step_id r (step_id s)"
  by (force simp: wf_emitted_def)

lemma recipe_group_graph:
  assumes wf: "wf_emitted steps" and s: "(x, r, s) \<in> set steps"
  shows "fmlookup (hash_collect (recipe_group r steps)) (step_id s) = Some s"
proof -
  have "inj_on (\<lambda>(x, r', s). step_id s) (set (filter (\<lambda>(_, r', _). r' = r) steps))"
  proof (rule inj_onI, clarsimp)
    fix x y s t
    assume "(x, r, s) \<in> set steps" "(y, r, t) \<in> set steps" "step_id s = step_id t"
    moreover from this have "x = y" using wf_emitted_id [OF wf] by metis
    ultimately show "x = y \<and> s = t"
      using wf by (auto simp: wf_emitted_def dest: eq_key_imp_eq_value)
  qed
  moreover have "distinct (filter (\<lambda>(_, r', _). r' = r) steps)"
    using wf by (auto simp: wf_emitted_def distinct_map)
  ultimately have "distinct (map (\<lambda>(x, r', s). step_id s) (filter (\<lambda>(_, r', _). r' = r) steps))"
    by (simp only: distinct_map)
  then have "distinct (map fst (recipe_group r steps))"
    by (simp add: recipe_group_def comp_def case_prod_beta')
  moreover have "(step_id s, s) \<in> set (recipe_group r steps)"
    using s by (auto simp: in_recipe_group)
  ultimately show ?thesis by (simp add: fmlookup_hash_collect_distinct)
qed

lemma emitted_deps_step:
  assumes "wf_emitted steps" "(x, r, s) \<in> set steps"
  shows "emitted_deps steps x = make_execution_step_id r ` set (step_dependencies s)"
proof -
  have "fmlookup (step_by_id steps) x = Some (r, s)"
    using assms step_by_id_distinct [of steps x "(r, s)"] by (simp add: wf_emitted_def)
  then show ?thesis by (simp add: emitted_deps_def direct_deps_def)
qed

lemma validated_dependency:
  assumes wf: "wf_emitted steps" and valid: "validate_emitted_step_dependencies steps = []"
    and s: "(x, r, s) \<in> set steps" and d: "d \<in> set (step_dependencies s)"
  shows "\<exists>t. (make_execution_step_id r d, r, t) \<in> set steps \<and> step_id t = d"
proof -
  have "validate_local_step_dependencies r (recipe_group r steps) = []"
    using valid s unfolding validate_emitted_Nil by blast
  moreover have "(step_id s, s) \<in> set (recipe_group r steps)" using s by (auto simp: in_recipe_group)
  ultimately have "d \<in> fst ` set (recipe_group r steps)"
    using d unfolding validate_local_Nil by blast
  then obtain t i where "(i, r, t) \<in> set steps" "step_id t = d"
    by (auto simp: in_recipe_group)
  with wf show ?thesis by (auto simp: wf_emitted_def)
qed

lemma validated_path:
  assumes wf: "wf_emitted steps" and valid: "validate_emitted_step_dependencies steps = []"
    and s: "(x, r, s) \<in> set steps" and path: "(x, y) \<in> (dep_rel (emitted_deps steps))\<^sup>+"
  shows "\<exists>t. (y, r, t) \<in> set steps
    \<and> (step_id s, step_id t) \<in> (dep_rel (step_deps (hash_collect (recipe_group r steps))))\<^sup>+"
  using path
proof (induction rule: trancl_induct)
  case (base y)
  then obtain d where d: "d \<in> set (step_dependencies s)" "y = make_execution_step_id r d"
    using emitted_deps_step [OF wf s] by auto
  with validated_dependency [OF wf valid s d(1)] recipe_group_graph [OF wf s] show ?case
    by (auto simp: step_deps_def intro!: r_into_trancl)
next
  case (step y z)
  then obtain t where t: "(y, r, t) \<in> set steps"
    "(step_id s, step_id t) \<in> (dep_rel (step_deps (hash_collect (recipe_group r steps))))\<^sup>+"
    by blast
  obtain d where d: "d \<in> set (step_dependencies t)" "z = make_execution_step_id r d"
    using step(2) emitted_deps_step [OF wf t(1)] by auto
  have "(step_id t, d) \<in> dep_rel (step_deps (hash_collect (recipe_group r steps)))"
    using d(1) recipe_group_graph [OF wf t(1)] by (simp add: step_deps_def)
  from trancl_into_trancl [OF t(2) this] validated_dependency [OF wf valid t(1) d(1)] d(2)
  show ?case by blast
qed

lemma validated_sort:
  assumes wf: "wf_emitted steps" and valid: "validate_emitted_step_dependencies steps = []"
  shows "snd (topologically_sort_steps steps) = []"
proof (rule sort_complete)
  show "distinct (map fst steps)" using wf by (simp add: wf_emitted_def)
next
  fix x assume "x \<in> emitted_ids steps"
  then obtain r s where s: "(x, r, s) \<in> set steps" by auto
  show "emitted_deps steps x \<subseteq> emitted_ids steps"
    using validated_dependency [OF wf valid s] emitted_deps_step [OF wf s] by force
next
  show "(x, x) \<notin> (dep_rel (emitted_deps steps))\<^sup>+" for x
  proof
    assume cycle: "(x, x) \<in> (dep_rel (emitted_deps steps))\<^sup>+"
    then obtain b where "b \<in> emitted_deps steps x" by (auto dest: tranclD)
    from emitted_deps_ids [OF this] obtain r s where s: "(x, r, s) \<in> set steps" by auto
    from validated_path [OF wf valid s cycle] obtain t where t: "(x, r, t) \<in> set steps"
      "(step_id s, step_id t) \<in> (dep_rel (step_deps (hash_collect (recipe_group r steps))))\<^sup>+"
      by blast
    have "make_execution_step_id r (step_id t) = make_execution_step_id r (step_id s)"
      using wf_emitted_id [OF wf s] wf_emitted_id [OF wf t(1)] by simp
    with t(2) have "(step_id s, step_id s) \<in> (dep_rel (step_deps (hash_collect (recipe_group r steps))))\<^sup>+"
      by simp
    moreover have "validate_local_step_dependencies r (recipe_group r steps) = []"
      using valid s unfolding validate_emitted_Nil by blast
    ultimately show False unfolding validate_local_Nil by blast
  qed
qed

section \<open>Properties\<close>

text \<open>
  C31: when the sort succeeds, its result holds the given steps, each once, and every step comes
  after all the steps it depends on.
\<close>

theorem topologically_sort_steps_sorted:
  assumes "distinct (map fst steps)" "topologically_sort_steps steps = (res, [])"
  shows "distinct res \<and> set res = set steps
    \<and> (\<forall>i < length res. \<forall>b \<in> emitted_deps steps (fst (res ! i)). \<exists>j < i. fst (res ! j) = b)"
proof -
  have "distinct res" using sort_success(1) [OF assms] by (simp add: distinct_map)
  moreover have "\<exists>j < i. fst (res ! j) = b"
    if "i < length res" "b \<in> emitted_deps steps (fst (res ! i))" for i b
  proof -
    have "\<exists>j < i. b = map fst res ! j"
      by (rule step_order.dependency_before [of steps]) (use assms that in auto)
    then obtain j where "j < i" "b = map fst res ! j" by blast
    with that(1) show ?thesis by (intro exI [of _ j]) simp
  qed
  ultimately show ?thesis using sort_success(2) [OF assms] by blast
qed


definition sample_steps :: "emitted list" where
  "sample_steps =
     [(''r/b'', ''r'', sample_step ''b'' ''wait'' [''a''] []),
      (''r/a'', ''r'', sample_step ''a'' ''wait'' [] [])]"

lemma sample_steps_facts:
  "distinct (map fst sample_steps)" "wf_emitted sample_steps"
  "validate_emitted_step_dependencies sample_steps = []"
  "topologically_sort_steps sample_steps = (rev sample_steps, [])"
  by code_simp+

lemma sample_steps_dependency: "''r/a'' \<in> emitted_deps sample_steps (fst (rev sample_steps ! 1))"
  by code_simp

theorem topologically_sort_steps_sorted_witness:
  "set (rev sample_steps) = set sample_steps \<and> (\<exists>j < 1. fst (rev sample_steps ! j) = ''r/a'')"
  using topologically_sort_steps_sorted [OF sample_steps_facts(1,4)] sample_steps_dependency
  by (auto simp: sample_steps_def)


end
