(* ===== verification/Local_Selection.thy ===== *)
theory Local_Selection
  imports Step_Graph
begin

text \<open>
  Selection of the steps of one recipe (\<open>select_local_step_ids\<close>, \<open>can_select_local_step\<close>,
  \<open>add_local_step_with_dependencies\<close>, \<open>dependent_step_ids\<close> in \<open>planner.rs\<close>): a step is
  selected when it and everything it depends on is available.

  \<open>can_select_local_step\<close> threads its cache and errors and passes \<open>temporary\<close> down, which the
  source restores on return.  \<open>add_local_step_with_dependencies\<close> does not return on a cyclic
  graph: it takes fuel and \<open>None\<close> means that the recursion was deeper.  The planner gives it
  one more than the number of steps, and \<open>select_local_step_ids_total\<close> shows that this is
  always enough, because the validation before it has excluded cycles.
\<close>

type_synonym select_state = "(string, bool) fmap \<times> planner_message list"

function can_select_local_step ::
  "recipe \<Rightarrow> (string, step) fmap \<Rightarrow> (string, bool) fmap \<Rightarrow> string \<Rightarrow> string set \<Rightarrow> select_state \<Rightarrow>
     bool \<times> select_state" where
  "can_select_local_step r by_id available sid temporary st =
     (case fmlookup (fst st) sid of
        Some cached \<Rightarrow> (cached, st)
      | None \<Rightarrow>
          if sid \<in> temporary then
            (False, (fst st,
               if snd st = [] then
                 [msg ''dependency_cycle''
                    (''Step dependency cycle detected in recipe '' @ quoted (recipe_id r) @ ''.'')
                    [(''recipe_ref'', JString (recipe_id r)), (''step_id'', JString sid)]]
               else snd st))
          else
            case fmlookup by_id sid of
              None \<Rightarrow> (False, (fmupd sid False (fst st), snd st))
            | Some s \<Rightarrow>
                let (allowed, (cache, errors)) =
                  fold (\<lambda>dependency acc.
                    if fst acc
                    then can_select_local_step r by_id available dependency (insert sid temporary) (snd acc)
                    else acc)
                  (step_dependencies s) (unwrap_or (fmlookup available sid) False, st)
                in (allowed, (fmupd sid allowed cache, errors)))"
  by pat_completeness auto
termination
proof (relation "measure (\<lambda>(_, by_id, _, _, temporary, _). card (fmdom' by_id - temporary))", simp)
  fix r :: recipe and by_id :: "(string, step) fmap" and available :: "(string, bool) fmap"
    and sid dependency :: string and temporary :: "string set" and st st' :: select_state and s
  assume "sid \<notin> temporary" "fmlookup by_id sid = Some s"
  then have "sid \<in> fmdom' by_id - temporary" by (auto intro: fmdom'I)
  then have "card (fmdom' by_id - insert sid temporary) < card (fmdom' by_id - temporary)"
    by (intro psubset_card_mono) auto
  then show "((r, by_id, available, dependency, insert sid temporary, st'),
              (r, by_id, available, sid, temporary, st))
      \<in> measure (\<lambda>(_, by_id, _, _, temporary, _). card (fmdom' by_id - temporary))"
    by simp
qed

declare can_select_local_step.simps [simp del]

fun add_local_step_with_dependencies ::
  "nat \<Rightarrow> (string, step) fmap \<Rightarrow> string \<Rightarrow> string set \<Rightarrow> string set option" where
  "add_local_step_with_dependencies 0 by_id sid selected = None"
| "add_local_step_with_dependencies (Suc fuel) by_id sid selected =
     (if sid \<in> selected then Some selected
      else case fmlookup by_id sid of
             None \<Rightarrow> Some selected
           | Some s \<Rightarrow>
               map_option (insert sid)
                 (fold (\<lambda>dependency acc. Option.bind acc
                    (add_local_step_with_dependencies fuel by_id dependency))
                   (step_dependencies s) (Some selected)))"

text \<open>One request: the first component is \<open>selected\<close>.\<close>

definition select_request ::
  "recipe \<Rightarrow> (string, step) fmap \<Rightarrow> (string, bool) fmap \<Rightarrow> string \<Rightarrow>
     string set \<times> select_state \<Rightarrow> (string set \<times> select_state) option" where
  "select_request r by_id available requested_id = (\<lambda>(selected, st).
     let (can, st') = can_select_local_step r by_id available requested_id {} st in
     if can
     then map_option (\<lambda>selected'. (selected', st'))
            (add_local_step_with_dependencies (Suc (card (fmdom' by_id))) by_id requested_id selected)
     else Some (selected, st'))"

definition recipe_by_id :: "recipe \<Rightarrow> (string, step) fmap" where
  "recipe_by_id r = hash_collect (map (\<lambda>s. (step_id s, s)) (recipe_steps r))"

definition select_local_step_ids ::
  "recipe \<Rightarrow> string list \<Rightarrow> (string, bool) fmap \<Rightarrow> (string set \<times> planner_message list) option" where
  "select_local_step_ids r requested_local_step_ids available_by_local_step_id =
     (let by_id = recipe_by_id r;
          dependency_errors = validate_available_step_dependencies r requested_local_step_ids by_id
      in if dependency_errors \<noteq> [] then Some ({}, dependency_errors)
         else map_option (\<lambda>(selected, (cache, errors)).
                if errors = [] then (selected, []) else ({}, errors))
              (fold (\<lambda>requested_id acc. Option.bind acc
                 (select_request r by_id available_by_local_step_id requested_id))
                requested_local_step_ids (Some ({}, (fmempty, [])))))"

section \<open>Dependents\<close>

definition dependents_pass :: "recipe \<Rightarrow> string \<Rightarrow> string set \<times> bool \<Rightarrow> string set \<times> bool" where
  "dependents_pass r dependency_id st =
     fold (\<lambda>s (dependents, changed).
       if step_id s = dependency_id \<or> step_id s \<in> dependents then (dependents, changed)
       else if dependency_id \<in> set (step_dependencies s)
            \<or> (\<exists>item \<in> set (step_dependencies s). item \<in> dependents)
       then (insert (step_id s) dependents, True)
       else (dependents, changed)) (recipe_steps r) st"

lemma dependents_pass_facts:
  assumes "dependents_pass r dep (ds, b) = (ds', b')"
  shows "ds \<subseteq> ds'" "ds' \<subseteq> ds \<union> step_id ` set (recipe_steps r)" "b' \<longleftrightarrow> b \<or> ds' \<noteq> ds"
proof -
  have "ds \<subseteq> fst st \<and> fst st \<subseteq> ds \<union> step_id ` set xs \<and> (snd st \<longleftrightarrow> b \<or> fst st \<noteq> ds)"
    if "st = fold (\<lambda>s (dependents, changed).
       if step_id s = dep \<or> step_id s \<in> dependents then (dependents, changed)
       else if dep \<in> set (step_dependencies s)
            \<or> (\<exists>item \<in> set (step_dependencies s). item \<in> dependents)
       then (insert (step_id s) dependents, True)
       else (dependents, changed)) xs (ds, b)" for xs st
    using that
    by (induction xs arbitrary: st rule: rev_induct) (auto split: prod.splits if_splits)
  from this [OF refl, of "recipe_steps r"] assms
  show "ds \<subseteq> ds'" "ds' \<subseteq> ds \<union> step_id ` set (recipe_steps r)" "b' \<longleftrightarrow> b \<or> ds' \<noteq> ds"
    by (simp_all add: dependents_pass_def)
qed

function dependents_loop :: "recipe \<Rightarrow> string \<Rightarrow> string set \<Rightarrow> string set" where
  "dependents_loop r dependency_id dependents =
     (let (dependents', changed) = dependents_pass r dependency_id (dependents, False) in
      if changed then dependents_loop r dependency_id dependents' else dependents')"
  by pat_completeness auto
termination
proof (relation "measure (\<lambda>(r, _, dependents). card (step_id ` set (recipe_steps r) - dependents))", simp)
  fix r :: recipe and dep dependents x dependents' changed
  assume x: "x = dependents_pass r dep (dependents, False)" "(dependents', changed) = x" "changed"
  then have pass: "dependents_pass r dep (dependents, False) = (dependents', changed)" by simp
  have "step_id ` set (recipe_steps r) - dependents' \<subset> step_id ` set (recipe_steps r) - dependents"
    using dependents_pass_facts [OF pass] x(3) by auto
  then show "((r, dep, dependents'), (r, dep, dependents))
      \<in> measure (\<lambda>(r, _, dependents). card (step_id ` set (recipe_steps r) - dependents))"
    by (simp add: psubset_card_mono)
qed

declare dependents_loop.simps [simp del]

definition dependent_step_ids :: "recipe \<Rightarrow> string \<Rightarrow> string set" where
  "dependent_step_ids r dependency_id = dependents_loop r dependency_id {}"

section \<open>What can be selected\<close>

definition available_step :: "(string, bool) fmap \<Rightarrow> string \<Rightarrow> bool" where
  "available_step available x = unwrap_or (fmlookup available x) False"

text \<open>The dependencies the recursion follows start at available steps.\<close>

definition followed_deps :: "(string, step) fmap \<Rightarrow> (string, bool) fmap \<Rightarrow> string \<Rightarrow> string set" where
  "followed_deps by_id available x = (if available_step available x then step_deps by_id x else {})"

definition selectable :: "(string, step) fmap \<Rightarrow> (string, bool) fmap \<Rightarrow> string \<Rightarrow> bool" where
  "selectable by_id available x \<longleftrightarrow>
     (\<forall>y \<in> reachable (step_deps by_id) {x}. y \<in> fmdom' by_id \<and> available_step available y)"

lemma reachable_unfold: "reachable deps {x} = insert x (reachable deps (deps x))"
proof -
  have "reachable deps {x} \<subseteq> insert x (reachable deps (deps x))"
    by (rule reachable_least) (auto intro: reachable_root reachable_dep)
  moreover have "reachable deps (deps x) \<subseteq> reachable deps {x}"
    by (rule reachable_least) (auto intro: reachable_root reachable_dep)
  ultimately show ?thesis using reachable_root [of x "{x}" deps] by auto
qed

lemma reachable_Union: "y \<in> reachable deps A \<longleftrightarrow> (\<exists>a \<in> A. y \<in> reachable deps {a})"
  by (auto simp: reachable_def)

lemma selectable_iff:
  "selectable by_id available x \<longleftrightarrow> x \<in> fmdom' by_id \<and> available_step available x
     \<and> (\<forall>d \<in> step_deps by_id x. selectable by_id available d)"
  unfolding selectable_def
  by (subst reachable_unfold) (auto simp: reachable_Union [of _ _ "step_deps by_id x"])

definition cache_ok :: "(string, step) fmap \<Rightarrow> (string, bool) fmap \<Rightarrow> select_state \<Rightarrow> bool" where
  "cache_ok by_id available st \<longleftrightarrow>
     (\<forall>k v. fmlookup (fst st) k = Some v \<longrightarrow> v = selectable by_id available k)"

definition select_post ::
  "(string, step) fmap \<Rightarrow> (string, bool) fmap \<Rightarrow> select_state \<Rightarrow> bool \<Rightarrow> bool \<times> select_state \<Rightarrow> bool" where
  "select_post by_id available st b result \<longleftrightarrow>
     fst result = b \<and> cache_ok by_id available (snd result) \<and> snd (snd result) = snd st"

lemma select_post_fold:
  assumes "\<And>d st. d \<in> set ds \<Longrightarrow> cache_ok by_id available st \<Longrightarrow>
      select_post by_id available st (selectable by_id available d) (f d st)"
    and "cache_ok by_id available st"
  shows "select_post by_id available st (b \<and> (\<forall>d \<in> set ds. selectable by_id available d))
     (fold (\<lambda>d acc. if fst acc then f d (snd acc) else acc) ds (b, st))"
  using assms
proof (induction ds arbitrary: b st)
  case Nil
  then show ?case by (simp add: select_post_def)
next
  case (Cons d ds)
  show ?case
  proof (cases b)
    case True
    have first: "select_post by_id available st (selectable by_id available d) (f d st)"
      using Cons.prems by simp
    obtain b' st' where f: "f d st = (b', st')" by (cases "f d st")
    with first have "cache_ok by_id available st'" "b' = selectable by_id available d" "snd st' = snd st"
      by (simp_all add: select_post_def)
    with Cons.IH [of st' b'] Cons.prems(1) True f show ?thesis
      by (auto simp: select_post_def)
  next
    case False
    with Cons.IH [of st False] Cons.prems show ?thesis by (simp add: select_post_def)
  qed
qed

lemma can_select_post:
  assumes "\<And>x. (x, x) \<notin> (dep_rel (followed_deps by_id available))\<^sup>+"
    and "cache_ok by_id available st"
    and "\<forall>t \<in> temporary. (t, sid) \<in> (dep_rel (followed_deps by_id available))\<^sup>+"
  shows "select_post by_id available st (selectable by_id available sid)
    (can_select_local_step r by_id available sid temporary st)"
  using assms
proof (induction r by_id available sid temporary st rule: can_select_local_step.induct)
  case (1 r by_id available sid temporary st)
  let ?ok = "selectable by_id available"
  note acyclic = 1(2) and cache = 1(3) and path = 1(4)
  have new: "sid \<notin> temporary" using acyclic path by blast
  consider cached where "fmlookup (fst st) sid = Some cached"
    | "fmlookup (fst st) sid = None" "fmlookup by_id sid = None"
    | s where "fmlookup (fst st) sid = None" "fmlookup by_id sid = Some s"
    by fastforce
  then show ?case
  proof cases
    case 1
    with cache show ?thesis
      by (simp add: can_select_local_step.simps [of r] select_post_def cache_ok_def)
  next
    case 2
    then have "\<not> ?ok sid" by (subst selectable_iff) (simp add: fmdom'_notI)
    with 2 new cache show ?thesis
      by (auto simp: can_select_local_step.simps [of r] select_post_def cache_ok_def)
  next
    case (3 s)
    define f where "f = (\<lambda>d. can_select_local_step r by_id available d (insert sid temporary))"
    define av where "av = unwrap_or (fmlookup available sid) False"
    have deps: "step_deps by_id sid = set (step_dependencies s)" by (simp add: step_deps_def 3)
    have ok: "?ok sid \<longleftrightarrow> av \<and> (\<forall>d \<in> set (step_dependencies s). ?ok d)"
      using fmdom'I [OF 3(2)] by (subst selectable_iff) (simp add: deps av_def available_step_def)
    have post: "select_post by_id available st (?ok sid)
        (fold (\<lambda>d acc. if fst acc then f d (snd acc) else acc) (step_dependencies s) (av, st))"
    proof (cases av)
      case True
      have "select_post by_id available v (?ok d) (f d v)"
        if d: "d \<in> set (step_dependencies s)" and v: "cache_ok by_id available v" for d v
      proof -
        have "(sid, d) \<in> dep_rel (followed_deps by_id available)"
          using True d by (simp add: followed_deps_def available_step_def deps av_def)
        then have "\<forall>t \<in> insert sid temporary. (t, d) \<in> (dep_rel (followed_deps by_id available))\<^sup>+"
          using path by (auto intro: trancl_into_trancl)
        with 1(1) [OF 3(1) new 3(2) d, of "(True, v)"] acyclic v show ?thesis by (simp add: f_def)
      qed
      from select_post_fold [of _ by_id available f st av, OF this cache] show ?thesis
        by (simp add: ok)
    next
      case False
      have "fold (\<lambda>d acc. if fst acc then f d (snd acc) else acc) ds (False, st) = (False, st)" for ds
        by (induction ds) simp_all
      with False cache show ?thesis by (simp add: ok select_post_def)
    qed
    have run: "can_select_local_step r by_id available sid temporary st =
        (let (allowed, (cache, errors)) =
           fold (\<lambda>d acc. if fst acc then f d (snd acc) else acc) (step_dependencies s) (av, st)
         in (allowed, (fmupd sid allowed cache, errors)))"
      unfolding f_def av_def by (subst can_select_local_step.simps) (simp add: 3 new)
    show ?thesis using post
      by (auto simp: run Let_def select_post_def cache_ok_def split: prod.splits)
  qed
qed

section \<open>Adding a step adds what it depends on\<close>

lemma finite_reachable: "reachable (step_deps by_id) {x} \<subseteq> fmdom' by_id \<Longrightarrow> finite (reachable (step_deps by_id) {x})"
  by (rule finite_subset [OF _ finite_fmdom'])

lemma fold_bind_None [simp]: "fold (\<lambda>d acc. Option.bind acc (f d)) ds None = None"
  by (induction ds) simp_all

lemma add_fold:
  assumes "\<And>d S. d \<in> set ds \<Longrightarrow> ok S \<Longrightarrow> f d S = Some (S \<union> R d) \<and> ok (S \<union> R d)" "ok S"
  shows "fold (\<lambda>d acc. Option.bind acc (f d)) ds (Some S) = Some (S \<union> \<Union> (R ` set ds))
    \<and> ok (S \<union> \<Union> (R ` set ds))"
  using assms
proof (induction ds arbitrary: S)
  case Nil
  then show ?case by simp
next
  case (Cons d ds)
  then have "f d S = Some (S \<union> R d)" "ok (S \<union> R d)" by simp_all
  with Cons.IH [of "S \<union> R d"] Cons.prems(1) show ?case by (simp add: Un_assoc)
qed

lemma add_local_step_closure:
  assumes "reachable (step_deps by_id) {sid} \<subseteq> fmdom' by_id"
    and "\<And>x. x \<in> reachable (step_deps by_id) {sid} \<Longrightarrow> (x, x) \<notin> (dep_rel (step_deps by_id))\<^sup>+"
    and "card (reachable (step_deps by_id) {sid}) < fuel"
    and "\<And>x d. x \<in> selected \<Longrightarrow> d \<in> step_deps by_id x \<Longrightarrow> d \<in> selected"
  shows "add_local_step_with_dependencies fuel by_id sid selected =
    Some (selected \<union> reachable (step_deps by_id) {sid})"
  using assms
proof (induction fuel arbitrary: sid selected)
  case 0
  then show ?case by simp
next
  case (Suc fuel)
  let ?D = "step_deps by_id"
  let ?closed = "\<lambda>S. \<forall>x \<in> S. \<forall>d \<in> ?D x. d \<in> S"
  have unfold: "reachable ?D {sid} = insert sid (\<Union>d \<in> ?D sid. reachable ?D {d})"
    by (subst reachable_unfold) (auto simp: reachable_Union [of _ _ "?D sid"])
  show ?case
  proof (cases "sid \<in> selected")
    case True
    have "reachable ?D {sid} \<subseteq> selected"
      by (rule reachable_least) (use True Suc.prems(4) in auto)
    with True show ?thesis by (simp add: Un_absorb2)
  next
    case False
    obtain s where s: "fmlookup by_id sid = Some s"
      using Suc.prems(1) unfold by (auto simp: fmlookup_dom'_iff)
    then have deps: "?D sid = set (step_dependencies s)" by (simp add: step_deps_def)
    have "add_local_step_with_dependencies fuel by_id d S = Some (S \<union> reachable ?D {d})
        \<and> ?closed (S \<union> reachable ?D {d})" if d: "d \<in> set (step_dependencies s)" and S: "?closed S" for d S
    proof
      have sub: "reachable ?D {d} \<subseteq> reachable ?D {sid}" using d deps unfold by auto
      have "sid \<notin> reachable ?D {d}"
      proof
        assume "sid \<in> reachable ?D {d}"
        then have "(d, sid) \<in> (dep_rel ?D)\<^sup>*" by (simp add: reachable_def)
        moreover have "(sid, d) \<in> dep_rel ?D" using d deps by simp
        ultimately have "(sid, sid) \<in> (dep_rel ?D)\<^sup>+" by (rule rtrancl_into_trancl2 [rotated])
        with Suc.prems(2) [of sid] reachable_root [of sid "{sid}"] show False by simp
      qed
      then have "reachable ?D {d} \<subset> reachable ?D {sid}" using sub unfold by auto
      then have "card (reachable ?D {d}) < card (reachable ?D {sid})"
        by (rule psubset_card_mono [OF finite_reachable [OF Suc.prems(1)]])
      with Suc.IH [of d S] Suc.prems(1-3) sub S
      show "add_local_step_with_dependencies fuel by_id d S = Some (S \<union> reachable ?D {d})" by auto
      show "?closed (S \<union> reachable ?D {d})" using S by (auto intro: reachable_dep)
    qed
    then have "fold (\<lambda>d acc. Option.bind acc (add_local_step_with_dependencies fuel by_id d))
        (step_dependencies s) (Some selected) =
        Some (selected \<union> \<Union> ((\<lambda>d. reachable ?D {d}) ` set (step_dependencies s)))
      \<and> ?closed (selected \<union> \<Union> ((\<lambda>d. reachable ?D {d}) ` set (step_dependencies s)))"
      by (rule add_fold [where ok = ?closed]) (auto intro: Suc.prems(4))
    with False s show ?thesis by (simp add: unfold deps)
  qed
qed

section \<open>The selection of one recipe\<close>

lemma requested_graph:
  assumes "x \<in> set requested" "fmlookup by_id x = Some s"
  shows "fmlookup (hash_collect (List.map_filter (\<lambda>sid. map_option (\<lambda>s. (sid, s)) (fmlookup by_id sid)) requested)) x
    = Some s"
proof -
  let ?rs = "List.map_filter (\<lambda>sid. map_option (\<lambda>s. (sid, s)) (fmlookup by_id sid)) requested"
  have entry: "fmlookup by_id k = Some v" if "(k, v) \<in> set ?rs" for k v
    using that by (auto simp: List.map_filter_def)
  have "x \<in> fst ` set ?rs" using assms by (force simp: List.map_filter_def)
  then have "fmlookup (hash_collect ?rs) x \<noteq> None" by (simp add: hash_collect_None)
  then obtain v where "fmlookup (hash_collect ?rs) x = Some v" by blast
  with entry [OF hash_collect_Some [OF this]] assms(2) show ?thesis by simp
qed

lemma followed_acyclic:
  assumes valid: "validate_available_step_dependencies r requested by_id = []"
    and covers: "\<And>x. x \<in> fmdom' by_id \<Longrightarrow> available_step available x \<Longrightarrow> x \<in> set requested"
  shows "(x, x) \<notin> (dep_rel (followed_deps by_id available))\<^sup>+"
proof
  let ?G = "hash_collect (List.map_filter (\<lambda>sid. map_option (\<lambda>s. (sid, s)) (fmlookup by_id sid)) requested)"
  assume cycle: "(x, x) \<in> (dep_rel (followed_deps by_id available))\<^sup>+"
  have "dep_rel (followed_deps by_id available) \<subseteq> dep_rel (step_deps ?G)"
  proof
    fix e assume "e \<in> dep_rel (followed_deps by_id available)"
    then obtain a b where e: "e = (a, b)" "b \<in> step_deps by_id a" "available_step available a"
      by (cases e) (auto simp: followed_deps_def split: if_splits)
    then obtain s where s: "fmlookup by_id a = Some s" by (auto simp: step_deps_def split: option.splits)
    with requested_graph [OF covers [OF fmdom'I [OF s] e(3)] s] e show "e \<in> dep_rel (step_deps ?G)"
      by (simp add: step_deps_def)
  qed
  from trancl_mono [OF cycle this] have "(x, x) \<in> (dep_rel (step_deps ?G))\<^sup>+" .
  moreover have "validate_step_dependency_cycles (recipe_id r)
      (List.map_filter (\<lambda>sid. map_option (\<lambda>s. (sid, s)) (fmlookup by_id sid)) requested) = []"
    using valid by (simp add: validate_available_step_dependencies_def Let_def split: if_splits)
  ultimately show False unfolding validate_step_dependency_cycles_Nil by blast
qed

lemma selectable_reachable:
  "selectable by_id available x \<Longrightarrow> y \<in> reachable (step_deps by_id) {x} \<Longrightarrow> selectable by_id available y"
  unfolding selectable_def reachable_def by (auto intro: rtrancl_trans)

lemma selectable_path:
  assumes "selectable by_id available x" "(x, y) \<in> (dep_rel (step_deps by_id))\<^sup>+"
  shows "(x, y) \<in> (dep_rel (followed_deps by_id available))\<^sup>+"
  using assms(2)
proof (induction rule: trancl_induct)
  case (base y)
  then show ?case using assms(1) by (subst (asm) selectable_iff) (auto simp: followed_deps_def)
next
  case (step y z)
  then have "y \<in> reachable (step_deps by_id) {x}" by (simp add: reachable_def trancl_into_rtrancl)
  then have "available_step available y" using assms(1) by (simp add: selectable_def)
  with step show ?case by (auto simp: followed_deps_def intro: trancl_into_trancl)
qed

lemma select_request_post:
  assumes acyclic: "\<And>x. (x, x) \<notin> (dep_rel (followed_deps by_id available))\<^sup>+"
    and cache: "cache_ok by_id available st"
    and closed: "\<And>x d. x \<in> selected \<Longrightarrow> d \<in> step_deps by_id x \<Longrightarrow> d \<in> selected"
  shows "\<exists>st'. select_request r by_id available q (selected, st) =
      Some (selected \<union> (if selectable by_id available q then reachable (step_deps by_id) {q} else {}), st')
    \<and> cache_ok by_id available st' \<and> snd st' = snd st"
proof -
  let ?ok = "selectable by_id available"
  obtain can st' where can: "can_select_local_step r by_id available q {} st = (can, st')"
    by (cases "can_select_local_step r by_id available q {} st")
  with can_select_post [OF acyclic cache, of "{}" q r]
  have post: "can = ?ok q" "cache_ok by_id available st'" "snd st' = snd st"
    by (simp_all add: select_post_def)
  show ?thesis
  proof (cases "?ok q")
    case True
    have below: "reachable (step_deps by_id) {q} \<subseteq> fmdom' by_id"
      using True by (auto simp: selectable_def)
    have "add_local_step_with_dependencies (Suc (card (fmdom' by_id))) by_id q selected =
        Some (selected \<union> reachable (step_deps by_id) {q})"
    proof (rule add_local_step_closure [OF below])
      show "(x, x) \<notin> (dep_rel (step_deps by_id))\<^sup>+" if "x \<in> reachable (step_deps by_id) {q}" for x
        using selectable_path [OF selectable_reachable [OF True that]] acyclic by blast
      show "card (reachable (step_deps by_id) {q}) < Suc (card (fmdom' by_id))"
        using card_mono [OF finite_fmdom' below] by simp
    qed (rule closed)
    with True post can show ?thesis
      by (simp add: select_request_def del: add_local_step_with_dependencies.simps)
  next
    case False
    with post can show ?thesis by (simp add: select_request_def)
  qed
qed

lemma select_requests_post:
  assumes acyclic: "\<And>x. (x, x) \<notin> (dep_rel (followed_deps by_id available))\<^sup>+"
    and cache: "cache_ok by_id available st"
    and closed: "\<And>x d. x \<in> selected \<Longrightarrow> d \<in> step_deps by_id x \<Longrightarrow> d \<in> selected"
  shows "\<exists>st'. fold (\<lambda>q acc. Option.bind acc (select_request r by_id available q)) qs (Some (selected, st)) =
      Some (selected \<union> \<Union> ((\<lambda>q. reachable (step_deps by_id) {q}) ` {q \<in> set qs. selectable by_id available q}), st')
    \<and> snd st' = snd st"
  using cache closed
proof (induction qs arbitrary: selected st)
  case Nil
  then show ?case by auto
next
  case (Cons q qs)
  let ?R = "if selectable by_id available q then reachable (step_deps by_id) {q} else {}"
  obtain st' where st': "select_request r by_id available q (selected, st) = Some (selected \<union> ?R, st')"
    "cache_ok by_id available st'" "snd st' = snd st"
    using select_request_post [OF acyclic Cons.prems(1), of selected r q] Cons.prems(2) by blast
  let ?U = "\<lambda>qs. \<Union> ((\<lambda>q. reachable (step_deps by_id) {q}) ` {q \<in> set qs. selectable by_id available q})"
  have step: "d \<in> selected \<union> ?R" if "x \<in> selected \<union> ?R" "d \<in> step_deps by_id x" for x d
    using that Cons.prems(2) by (auto intro: reachable_dep split: if_splits)
  obtain st'' where "fold (\<lambda>q acc. Option.bind acc (select_request r by_id available q)) qs
      (Some (selected \<union> ?R, st')) = Some (selected \<union> ?R \<union> ?U qs, st'')" "snd st'' = snd st'"
    using Cons.IH [OF st'(2), of "selected \<union> ?R"] step by blast
  moreover have "selected \<union> ?R \<union> ?U qs = selected \<union> ?U (q # qs)" by auto
  ultimately show ?case using st'(1,3) by simp
qed

text \<open>What the planner passes: every loaded step that is available is requested.\<close>

definition requests_cover :: "recipe \<Rightarrow> string list \<Rightarrow> (string, bool) fmap \<Rightarrow> bool" where
  "requests_cover r requested available \<longleftrightarrow>
     (\<forall>x \<in> fmdom' (recipe_by_id r). available_step available x \<longrightarrow> x \<in> set requested)"

lemma select_local_valid:
  assumes "requests_cover r requested available"
    and "validate_available_step_dependencies r requested (recipe_by_id r) = []"
  shows "select_local_step_ids r requested available =
    Some ({x. selectable (recipe_by_id r) available x}, [])"
proof -
  let ?by_id = "recipe_by_id r"
  have acyclic: "(x, x) \<notin> (dep_rel (followed_deps ?by_id available))\<^sup>+" for x
    by (rule followed_acyclic [OF assms(2)]) (use assms(1) in \<open>simp add: requests_cover_def\<close>)
  have "cache_ok ?by_id available (fmempty, [])" by (simp add: cache_ok_def)
  from select_requests_post [OF acyclic this, of "{}" r requested] obtain st' where
    "fold (\<lambda>q acc. Option.bind acc (select_request r ?by_id available q)) requested (Some ({}, (fmempty, []))) =
      Some (\<Union> ((\<lambda>q. reachable (step_deps ?by_id) {q}) ` {q \<in> set requested. selectable ?by_id available q}), st')"
    "snd st' = []" by auto
  moreover have "\<Union> ((\<lambda>q. reachable (step_deps ?by_id) {q}) ` {q \<in> set requested. selectable ?by_id available q}) =
      {x. selectable ?by_id available x}"
  proof (intro equalityI subsetI)
    fix x assume "x \<in> {x. selectable ?by_id available x}"
    then have x: "selectable ?by_id available x" by simp
    then have "x \<in> fmdom' ?by_id" "available_step available x" by (simp_all add: selectable_iff [of _ _ x])
    with assms(1) have "x \<in> set requested" by (simp add: requests_cover_def)
    with x show "x \<in> \<Union> ((\<lambda>q. reachable (step_deps ?by_id) {q}) ` {q \<in> set requested. selectable ?by_id available q})"
      using reachable_root [of x "{x}"] by blast
  qed (auto intro: selectable_reachable)
  ultimately show ?thesis using assms(2)
    by (cases st') (simp add: select_local_step_ids_def Let_def)
qed

lemma select_local_total:
  assumes "requests_cover r requested available"
  shows "\<exists>res. select_local_step_ids r requested available = Some res"
proof (cases "validate_available_step_dependencies r requested (recipe_by_id r) = []")
  case True
  with select_local_valid [OF assms] show ?thesis by simp
next
  case False
  then show ?thesis by (simp add: select_local_step_ids_def Let_def)
qed

text \<open>
  When the dependencies of the available steps of a recipe are valid, the selection
  succeeds and selects exactly the steps that are available together with everything they
  depend on, directly or not.
\<close>

lemma select_local_step_ids_exact:
  assumes "requests_cover r requested available"
    and "validate_available_step_dependencies r requested (recipe_by_id r) = []"
  shows "select_local_step_ids r requested available =
    Some ({x. \<forall>y \<in> reachable (step_deps (recipe_by_id r)) {x}.
             y \<in> fmdom' (recipe_by_id r) \<and> available_step available y}, [])"
  using select_local_valid [OF assms] by (simp add: selectable_def)

text \<open>
  Selection always returns: the recursion that adds a step with its dependencies never
  exceeds its fuel, and the cycle error of \<open>can_select_local_step\<close> is never raised, because
  the validation in front of it rejects the cycles it could meet.
\<close>

lemma select_local_step_ids_total:
  assumes "requests_cover r requested available"
  shows "\<exists>selected errors. select_local_step_ids r requested available = Some (selected, errors)
    \<and> errors = validate_available_step_dependencies r requested (recipe_by_id r)"
proof (cases "validate_available_step_dependencies r requested (recipe_by_id r) = []")
  case True
  with select_local_valid [OF assms] show ?thesis by simp
next
  case False
  then show ?thesis by (simp add: select_local_step_ids_def Let_def)
qed

definition sample_selection :: recipe where
  "sample_selection = sample_recipe ''r'' [] []
     [sample_step ''a'' ''wait'' [] [], sample_step ''b'' ''wait'' [''a''] [],
      sample_step ''c'' ''wait'' [''d''] [], sample_step ''d'' ''wait'' [] []]"

definition sample_available :: "(string, bool) fmap" where
  "sample_available = fmap_of_list [(''a'', True), (''b'', True), (''c'', True), (''d'', False)]"

lemma sample_selection_facts:
  "requests_cover sample_selection [''a'', ''b'', ''c''] sample_available"
  "validate_available_step_dependencies sample_selection [''a'', ''b'', ''c''] (recipe_by_id sample_selection) = []"
  by code_simp+

lemma sample_selection_run:
  "select_local_step_ids sample_selection [''a'', ''b'', ''c''] sample_available = Some ({''a'', ''b''}, [])"
  by code_simp

theorem select_local_step_ids_exact_witness:
  "{''a'', ''b''} = {x. \<forall>y \<in> reachable (step_deps (recipe_by_id sample_selection)) {x}.
     y \<in> fmdom' (recipe_by_id sample_selection) \<and> available_step sample_available y}"
  using select_local_step_ids_exact [OF sample_selection_facts] sample_selection_run by simp

theorem select_local_step_ids_total_witness:
  "\<exists>selected errors. select_local_step_ids sample_selection [''a'', ''b'', ''c''] sample_available
      = Some (selected, errors)
    \<and> errors = validate_available_step_dependencies sample_selection [''a'', ''b'', ''c'']
        (recipe_by_id sample_selection)"
  by (rule select_local_step_ids_total [OF sample_selection_facts(1)])

section \<open>The dependents of a step\<close>

definition recipe_step_rel :: "recipe \<Rightarrow> (string \<times> string) set" where
  "recipe_step_rel r = {(step_id s, d) | s d. s \<in> set (recipe_steps r) \<and> d \<in> set (step_dependencies s)}"

lemma dependents_pass_sound:
  assumes "ds \<subseteq> {x. (x, dep) \<in> (recipe_step_rel r)\<^sup>+} - {dep}"
  shows "fst (dependents_pass r dep (ds, b)) \<subseteq> {x. (x, dep) \<in> (recipe_step_rel r)\<^sup>+} - {dep}"
proof -
  let ?T = "{x. (x, dep) \<in> (recipe_step_rel r)\<^sup>+} - {dep}"
  have "fst (fold (\<lambda>s (dependents, changed).
       if step_id s = dep \<or> step_id s \<in> dependents then (dependents, changed)
       else if dep \<in> set (step_dependencies s)
            \<or> (\<exists>item \<in> set (step_dependencies s). item \<in> dependents)
       then (insert (step_id s) dependents, True)
       else (dependents, changed)) xs st) \<subseteq> ?T"
    if "set xs \<subseteq> set (recipe_steps r)" "fst st \<subseteq> ?T" for xs st
    using that
  proof (induction xs arbitrary: st)
    case Nil
    then show ?case by simp
  next
    case (Cons s xs)
    obtain ds b where st: "st = (ds, b)" by fastforce
    have edge: "(step_id s, d) \<in> recipe_step_rel r" if "d \<in> set (step_dependencies s)" for d
      using that Cons.prems(1) by (auto simp: recipe_step_rel_def)
    have "step_id s \<in> ?T" if "step_id s \<noteq> dep"
      "dep \<in> set (step_dependencies s) \<or> (\<exists>item \<in> set (step_dependencies s). item \<in> ds)"
      using that edge Cons.prems(2) by (auto simp: st intro: trancl_into_trancl2)
    with Cons show ?case by (auto simp: st)
  qed
  from this [of "recipe_steps r" "(ds, b)"] assms show ?thesis by (simp add: dependents_pass_def)
qed

lemma dependents_pass_stable:
  assumes "dependents_pass r dep (ds, False) = (ds', False)" "s \<in> set (recipe_steps r)"
    "step_id s \<noteq> dep" "d \<in> set (step_dependencies s)" "d = dep \<or> d \<in> ds'"
  shows "step_id s \<in> ds'"
proof -
  define pass where "pass = (\<lambda>(s::step) (dependents, changed).
       if step_id s = dep \<or> step_id s \<in> dependents then (dependents, changed)
       else if dep \<in> set (step_dependencies s)
            \<or> (\<exists>item \<in> set (step_dependencies s). item \<in> dependents)
       then (insert (step_id s) dependents, True)
       else (dependents, changed))"
  have keep: "snd st \<Longrightarrow> snd (fold pass xs st)" for xs st
    by (induction xs arbitrary: st) (auto simp: pass_def split: prod.splits)
  have same: "fst (fold pass xs st) = fst st" if "\<not> snd (fold pass xs st)" for xs st
    using that
  proof (induction xs arbitrary: st)
    case (Cons x xs)
    have "\<not> snd (pass x st)" using Cons.prems keep [of "pass x st" xs] by auto
    then have "fst (pass x st) = fst st" by (auto simp: pass_def split: prod.splits if_splits)
    with Cons show ?case by simp
  qed simp
  have run: "fold pass (recipe_steps r) (ds, False) = (ds', False)"
    using assms(1) by (simp add: dependents_pass_def pass_def)
  with same [of "recipe_steps r" "(ds, False)"] have ds: "ds' = ds" by simp
  obtain as bs where split: "recipe_steps r = as @ s # bs"
    using assms(2) by (meson split_list)
  have tail: "\<not> snd (fold pass bs (pass s (fold pass as (ds, False))))"
    using run by (simp add: split)
  then have "\<not> snd (pass s (fold pass as (ds, False)))" using keep by blast
  moreover from this have "\<not> snd (fold pass as (ds, False))"
    using keep [of "fold pass as (ds, False)" "[s]"] by auto
  moreover from same [OF this] have "fst (fold pass as (ds, False)) = ds" by simp
  ultimately show ?thesis
    using assms(3-5) ds by (cases "fold pass as (ds, False)") (auto simp: pass_def split: if_splits)
qed

lemma dependents_loop_facts:
  "dependents \<subseteq> {x. (x, dep) \<in> (recipe_step_rel r)\<^sup>+} - {dep} \<Longrightarrow>
     dependents_loop r dep dependents = {x. (x, dep) \<in> (recipe_step_rel r)\<^sup>+} - {dep}"
proof (induction r dep dependents rule: dependents_loop.induct)
  case (1 r dep dependents)
  let ?T = "{x. (x, dep) \<in> (recipe_step_rel r)\<^sup>+} - {dep}"
  obtain ds' changed where pass: "dependents_pass r dep (dependents, False) = (ds', changed)" by fastforce
  have sound: "ds' \<subseteq> ?T" using dependents_pass_sound [OF 1(2), of False] pass by simp
  show ?case
  proof (cases changed)
    case True
    with 1(1) [OF pass [symmetric] refl True] sound pass show ?thesis
      by (subst dependents_loop.simps) simp
  next
    case False
    have "x = dep \<or> x \<in> ds'" if "(x, dep) \<in> (recipe_step_rel r)\<^sup>+" for x
      using that
    proof (induction rule: converse_trancl_induct)
      case (base x)
      with dependents_pass_stable [of r dep dependents ds'] pass False show ?case
        by (auto simp: recipe_step_rel_def)
    next
      case (step x y)
      with dependents_pass_stable [of r dep dependents ds'] pass False show ?case
        by (auto simp: recipe_step_rel_def)
    qed
    with sound False pass show ?thesis by (subst dependents_loop.simps) auto
  qed
qed

lemma dependent_step_ids_eq:
  "dependent_step_ids r dep = {x. (x, dep) \<in> (recipe_step_rel r)\<^sup>+} - {dep}"
  by (simp add: dependent_step_ids_def dependents_loop_facts)

text \<open>
  The fixed-point loop of \<open>dependent_step_ids\<close> returns exactly the other steps that depend
  on the given one, directly or through other steps.
\<close>

lemma dependent_step_ids_exact:
  "x \<in> dependent_step_ids r dep \<longleftrightarrow> x \<noteq> dep \<and> (x, dep) \<in> (recipe_step_rel r)\<^sup>+"
  by (auto simp: dependent_step_ids_eq)

end
