(* ===== verification/Artifact_Selection.thy ===== *)
theory Artifact_Selection
  imports Step_Graph
begin

text \<open>
  The artifacts a step selects by name and by group (\<open>expand_artifact_selection\<close>,
  \<open>string_list\<close>, \<open>normalize_artifact_selection\<close>) and the validation of such a selection
  (\<open>validate_artifact_selections\<close>), \<open>planner.rs\<close>.
\<close>

definition string_list :: "param_value option \<Rightarrow> string list" where
  "string_list value =
     (case value of Some (Literal (JArray items)) \<Rightarrow> List.map_filter as_str items | _ \<Rightarrow> [])"

definition expand_artifact_selection ::
  "recipe \<Rightarrow> param_value option \<Rightarrow> param_value option \<Rightarrow> string list" where
  "expand_artifact_selection r artifacts artifact_groups =
     string_list artifacts
     @ concat (map (\<lambda>group_id. case omap_get (recipe_artifact_groups r) group_id of
                      Some group_artifacts \<Rightarrow> group_artifacts | None \<Rightarrow> [])
         (string_list artifact_groups))"

definition normalize_artifact_selection ::
  "recipe \<Rightarrow> param_value omap \<Rightarrow> execution_param_value omap" where
  "normalize_artifact_selection r normalized =
     (let selected = expand_artifact_selection r (omap_get normalized ''artifacts'')
                       (omap_get normalized ''artifact_groups'');
          result = omap_insert ''artifacts''
            (ParamLiteral (jstrs (map (make_execution_artifact_id (recipe_id r)) selected))) []
      in case omap_get normalized ''extract_on'' of
           Some (Literal value) \<Rightarrow> omap_insert ''extract_on'' (ParamLiteral value) result
         | _ \<Rightarrow> result)"

section \<open>Validation\<close>

definition selection_error :: "string \<Rightarrow> string \<Rightarrow> recipe \<Rightarrow> step \<Rightarrow> string \<Rightarrow> (string \<times> json) list \<Rightarrow> planner_message" where
  "selection_error code text r s param extra =
     msg code (''Step '' @ quoted (step_id s) @ text)
       ([(''recipe_ref'', JString (recipe_id r)), (''step_id'', JString (step_id s)),
         (''param'', JString param)] @ extra)"

definition check_named_artifact :: "recipe \<Rightarrow> step \<Rightarrow> string \<Rightarrow> planner_message list" where
  "check_named_artifact r s artifact_id =
     (if omap_get (recipe_artifacts r) artifact_id = None
      then [selection_error ''unknown_artifact_ref''
              ('' references unknown artifact '' @ quoted artifact_id @ ''.'') r s ''artifacts''
              [(''artifact_id'', JString artifact_id)]]
      else [])"

definition check_grouped_artifact :: "recipe \<Rightarrow> step \<Rightarrow> string \<Rightarrow> string \<Rightarrow> planner_message list" where
  "check_grouped_artifact r s group_id artifact_id =
     (if omap_get (recipe_artifacts r) artifact_id = None
      then [selection_error ''unknown_artifact_ref''
              ('' references unknown artifact '' @ quoted artifact_id @ '' in artifact group ''
               @ quoted group_id @ ''.'') r s ''artifact_groups''
              [(''group_id'', JString group_id), (''artifact_id'', JString artifact_id)]]
      else [])"

text \<open>The loop over a group returns its errors and the pairs it appends to \<open>expanded\<close>.\<close>

definition check_artifact_group ::
  "recipe \<Rightarrow> step \<Rightarrow> string \<Rightarrow> planner_message list \<times> (string \<times> string) list" where
  "check_artifact_group r s group_id =
     (case omap_get (recipe_artifact_groups r) group_id of
        None \<Rightarrow>
          ([selection_error ''unknown_artifact_group_ref''
              ('' references unknown artifact group '' @ quoted group_id @ ''.'') r s
              ''artifact_groups'' [(''group_id'', JString group_id)]], [])
      | Some group_artifacts \<Rightarrow>
          (concat (map (check_grouped_artifact r s group_id) group_artifacts),
           map (\<lambda>artifact_id. (artifact_id, ''artifact_groups'')) group_artifacts))"

fun duplicate_selections ::
  "recipe \<Rightarrow> step \<Rightarrow> string set \<Rightarrow> string set \<Rightarrow> (string \<times> string) list \<Rightarrow> planner_message list" where
  "duplicate_selections r s seen duplicate_ids [] = []"
| "duplicate_selections r s seen duplicate_ids ((artifact_id, param) # rest) =
     (if artifact_id \<in> seen \<and> artifact_id \<notin> duplicate_ids
      then selection_error ''duplicate_artifact_selection''
             ('' resolves duplicate artifact id '' @ quoted artifact_id
              @ '' after artifact group expansion.'') r s param
             [(''duplicate_artifact_id'', JString artifact_id)]
           # duplicate_selections r s seen (insert artifact_id duplicate_ids) rest
      else duplicate_selections r s (insert artifact_id seen) duplicate_ids rest)"

definition validate_artifact_selection :: "recipe \<Rightarrow> step \<Rightarrow> planner_message list" where
  "validate_artifact_selection r s =
     (let named = string_list (omap_get (step_params s) ''artifacts'');
          groups = map (check_artifact_group r s)
                     (string_list (omap_get (step_params s) ''artifact_groups''))
      in concat (map (check_named_artifact r s) named)
         @ concat (map fst groups)
         @ duplicate_selections r s {} {}
             (map (\<lambda>artifact_id. (artifact_id, ''artifacts'')) named @ concat (map snd groups)))"

definition validate_artifact_selections :: "recipes \<Rightarrow> emitted list \<Rightarrow> planner_message list" where
  "validate_artifact_selections recipes steps =
     concat (map (\<lambda>(_, rid, s).
       if step_type_name s \<notin> {''resolve_artifacts'', ''extract_artifacts''} then []
       else case fmlookup recipes rid of
              None \<Rightarrow> []
            | Some r \<Rightarrow> validate_artifact_selection r s) steps)"

section \<open>What the validation establishes\<close>

definition step_artifacts :: "recipe \<Rightarrow> step \<Rightarrow> string list" where
  "step_artifacts r s = expand_artifact_selection r (omap_get (step_params s) ''artifacts'')
     (omap_get (step_params s) ''artifact_groups'')"

lemma duplicate_selections_Nil:
  "duplicate_selections r s seen {} xs = [] \<longleftrightarrow> distinct (map fst xs) \<and> seen \<inter> set (map fst xs) = {}"
proof (induction xs arbitrary: seen)
  case Nil
  then show ?case by simp
next
  case (Cons x xs)
  obtain a p where "x = (a, p)" by fastforce
  with Cons [of "insert a seen"] show ?case by auto
qed

lemma check_named_artifact_Nil [simp]:
  "check_named_artifact r s a = [] \<longleftrightarrow> omap_get (recipe_artifacts r) a \<noteq> None"
  by (simp add: check_named_artifact_def)

lemma check_grouped_artifact_Nil [simp]:
  "check_grouped_artifact r s g a = [] \<longleftrightarrow> omap_get (recipe_artifacts r) a \<noteq> None"
  by (simp add: check_grouped_artifact_def)

lemma check_artifact_group_facts:
  "fst (check_artifact_group r s g) = [] \<longleftrightarrow>
     (\<exists>as. omap_get (recipe_artifact_groups r) g = Some as
        \<and> (\<forall>a \<in> set as. omap_get (recipe_artifacts r) a \<noteq> None))"
  "map fst (snd (check_artifact_group r s g)) =
     (case omap_get (recipe_artifact_groups r) g of Some as \<Rightarrow> as | None \<Rightarrow> [])"
  by (auto simp: check_artifact_group_def check_grouped_artifact_Nil comp_def split: option.splits)

text \<open>
  The selection of a step passes validation exactly when every group it names exists,
  every artifact it selects, directly or through a group, is declared by the recipe, and no
  artifact is selected twice.
\<close>

lemma validate_artifact_selection_iff:
  "validate_artifact_selection r s = [] \<longleftrightarrow>
     set (string_list (omap_get (step_params s) ''artifact_groups'')) \<subseteq> set (omap_keys (recipe_artifact_groups r))
     \<and> set (step_artifacts r s) \<subseteq> set (omap_keys (recipe_artifacts r))
     \<and> distinct (step_artifacts r s)"
proof -
  let ?named = "string_list (omap_get (step_params s) ''artifacts'')"
  let ?groups = "string_list (omap_get (step_params s) ''artifact_groups'')"
  let ?expanded = "map (\<lambda>a. (a, ''artifacts'')) ?named @ concat (map snd (map (check_artifact_group r s) ?groups))"
  have ids: "map fst ?expanded = step_artifacts r s"
    by (simp add: step_artifacts_def expand_artifact_selection_def map_concat comp_def
        check_artifact_group_facts(2))
  have dup: "duplicate_selections r s {} {} ?expanded = [] \<longleftrightarrow> distinct (step_artifacts r s)"
    using duplicate_selections_Nil [of r s "{}" ?expanded] by (simp only: ids) simp
  have named: "concat (map (check_named_artifact r s) ?named) = [] \<longleftrightarrow>
      (\<forall>a \<in> set ?named. omap_get (recipe_artifacts r) a \<noteq> None)"
    by (simp add: check_named_artifact_Nil)
  have groups: "concat (map fst (map (check_artifact_group r s) ?groups)) = [] \<longleftrightarrow>
      (\<forall>g \<in> set ?groups. \<exists>as. omap_get (recipe_artifact_groups r) g = Some as
         \<and> (\<forall>a \<in> set as. omap_get (recipe_artifacts r) a \<noteq> None))"
    by (simp add: check_artifact_group_facts(1))
  have members: "set (step_artifacts r s) =
      set ?named \<union> \<Union> {set as | g as. g \<in> set ?groups \<and> omap_get (recipe_artifact_groups r) g = Some as}"
    by (auto simp: step_artifacts_def expand_artifact_selection_def split: option.splits) force
  have iff: "validate_artifact_selection r s = [] \<longleftrightarrow>
     (\<forall>g \<in> set ?groups. omap_get (recipe_artifact_groups r) g \<noteq> None)
     \<and> (\<forall>a \<in> set (step_artifacts r s). omap_get (recipe_artifacts r) a \<noteq> None)
     \<and> distinct (step_artifacts r s)"
    unfolding validate_artifact_selection_def Let_def append_is_Nil_conv dup named groups members
    by fastforce
  have keys: "(\<forall>k \<in> K. map_of m k \<noteq> None) \<longleftrightarrow> K \<subseteq> set (omap_keys m)" for K and m :: "(string \<times> 'b) list"
    by (auto simp: map_of_eq_None_iff)
  show ?thesis unfolding iff keys ..
qed
end
