(* ===== verification/Step_Selection.thy ===== *)
theory Step_Selection
  imports Local_Selection Artifact_Selection Runtime_Refs
begin

text \<open>
  Selection across the expanded recipes (\<open>selected_step_ids\<close> and the functions it calls in
  \<open>planner.rs\<close>): availability of the steps under the runtime capabilities, selection recipe by
  recipe, and the removal of steps that refer to an optional input without a value, together
  with the steps that depend on them.  The inputs and artifacts of the selected steps follow.
  \<open>None\<close> stands for a recursion that does not end; \<open>selected_step_ids_total\<close> excludes it.
\<close>

section \<open>Availability\<close>

text \<open>\<open>target_usage\<close> is indexed by the source with \<open>[]\<close>, which panics on a missing entry; the
  resolver of app targets enters every step of the expanded recipes before this runs.\<close>

definition step_capabilities :: "target_usage \<Rightarrow> string \<Rightarrow> string list" where
  "step_capabilities usage sid =
     (case fmlookup usage sid of Some u \<Rightarrow> usage_capabilities u | None \<Rightarrow> [])"

definition capability_satisfied :: "runtime_capabilities \<Rightarrow> bool \<Rightarrow> string \<Rightarrow> bool" where
  "capability_satisfied caps assume_unrecognized name =
     (case capability_from_name name of
        None \<Rightarrow> assume_unrecognized
      | Some c \<Rightarrow> is_available c caps)"

definition step_is_available ::
  "runtime_capabilities \<Rightarrow> target_usage \<Rightarrow> bool \<Rightarrow> string \<Rightarrow> step \<Rightarrow> bool" where
  "step_is_available caps usage assume_unrecognized rid s =
     list_all (capability_satisfied caps assume_unrecognized)
       (step_capabilities usage (make_execution_step_id rid (step_id s)))"

text \<open>The unsupported names pass through a \<open>BTreeSet\<close>: each once, in byte order.\<close>

definition unsupported_warnings :: "target_usage \<Rightarrow> string \<Rightarrow> step \<Rightarrow> planner_message list" where
  "unsupported_warnings usage rid s =
     map (\<lambda>capability. msg ''unsupported_runtime_capability''
            (''The planner pruned this step because it requires unsupported runtime capability ''
             @ quoted capability
             @ ''; update the Recipe to use a capability supported by the planner.'')
            [(''recipe_ref'', JString rid), (''step_id'', JString (step_id s)),
             (''capability'', JString capability)])
       (sort (remdups (filter (\<lambda>name. capability_from_name name = None)
          (step_capabilities usage (make_execution_step_id rid (step_id s))))))"

record selection_state =
  sel_selected :: "string set"
  sel_availability :: "(string, bool) fmap"
  sel_errors :: "planner_message list"
  sel_warnings :: "planner_message list"

definition local_availability ::
  "runtime_capabilities \<Rightarrow> target_usage \<Rightarrow> bool \<Rightarrow> string \<Rightarrow> recipe \<Rightarrow> (string \<times> bool) list" where
  "local_availability caps usage assume_unrecognized rid r =
     map (\<lambda>s. (step_id s, step_is_available caps usage assume_unrecognized rid s)) (recipe_steps r)"

definition select_recipe ::
  "recipes \<Rightarrow> runtime_capabilities \<Rightarrow> target_usage \<Rightarrow> bool \<Rightarrow> bool \<Rightarrow> string \<Rightarrow> selection_state \<Rightarrow>
     selection_state option" where
  "select_recipe recipes caps usage assume_unrecognized report rid st =
     (case fmlookup recipes rid of
        None \<Rightarrow> Some st
      | Some r \<Rightarrow>
          let local_list = local_availability caps usage assume_unrecognized rid r;
              requested = map fst (filter snd local_list);
              warnings = (if report \<and> \<not> assume_unrecognized
                          then concat (map (unsupported_warnings usage rid) (recipe_steps r)) else [])
          in map_option (\<lambda>(local_step_ids, errors).
               st \<lparr> sel_selected := sel_selected st \<union> make_execution_step_id rid ` local_step_ids,
                    sel_availability := fold (\<lambda>(x, b). fmupd (make_execution_step_id rid x) b)
                                          local_list (sel_availability st),
                    sel_errors := sel_errors st @ errors,
                    sel_warnings := sel_warnings st @ warnings \<rparr>)
               (select_local_step_ids r requested (hash_collect local_list)))"

section \<open>Optional inputs\<close>

definition referenced_input_ids :: "string \<Rightarrow> step \<Rightarrow> string list" where
  "referenced_input_ids rid s =
     fold (\<lambda>value ids.
       case value of
         Ref ref_value \<Rightarrow>
           (case parse_reference ref_value of
              Some (RInput target_id) \<Rightarrow> push_new ids (make_execution_input_id rid target_id)
            | _ \<Rightarrow> ids)
       | _ \<Rightarrow> ids) (omap_values (step_params s)) []"

definition optional_input_is_unbound :: "recipes \<Rightarrow> json omap \<Rightarrow> string \<Rightarrow> bool" where
  "optional_input_is_unbound recipes input_bindings input_id =
     (case split_once ''/'' input_id of
        None \<Rightarrow> False
      | Some (rid, local_input_id) \<Rightarrow>
          (case Option.bind (fmlookup recipes rid) (\<lambda>r. omap_get (recipe_inputs r) local_input_id) of
             None \<Rightarrow> False
           | Some declaration \<Rightarrow>
               \<not> input_required declaration \<and> \<not> omap_contains input_bindings input_id
               \<and> is_null (input_default declaration)))"

definition refers_to_unbound :: "recipes \<Rightarrow> json omap \<Rightarrow> string \<Rightarrow> step \<Rightarrow> bool" where
  "refers_to_unbound recipes input_bindings rid s =
     (filter (optional_input_is_unbound recipes input_bindings) (referenced_input_ids rid s) \<noteq> [])"

text \<open>One round of the loop: the identifiers it removes.\<close>

definition prune_step ::
  "recipes \<Rightarrow> (string, bool) fmap \<Rightarrow> json omap \<Rightarrow> string set \<Rightarrow> string \<Rightarrow> recipe \<Rightarrow> step \<Rightarrow> string set" where
  "prune_step recipes availability input_bindings selected rid r s =
     (let sid = make_execution_step_id rid (step_id s) in
      if sid \<notin> selected \<or> \<not> unwrap_or (fmlookup availability sid) False then {}
      else if \<not> refers_to_unbound recipes input_bindings rid s then {}
      else insert sid (make_execution_step_id rid ` dependent_step_ids r (step_id s)))"

definition removed_step_ids ::
  "recipes \<Rightarrow> string list \<Rightarrow> (string, bool) fmap \<Rightarrow> json omap \<Rightarrow> string set \<Rightarrow> string set" where
  "removed_step_ids recipes expanded availability input_bindings selected =
     \<Union> (set (map (\<lambda>rid.
       case fmlookup recipes rid of
         None \<Rightarrow> {}
       | Some r \<Rightarrow> \<Union> (set (map (prune_step recipes availability input_bindings selected rid r)
                            (recipe_steps r)))) expanded))"

definition expanded_step_ids :: "recipes \<Rightarrow> string list \<Rightarrow> string set" where
  "expanded_step_ids recipes expanded =
     \<Union> (set (map (\<lambda>rid. case fmlookup recipes rid of None \<Rightarrow> {}
        | Some r \<Rightarrow> make_execution_step_id rid ` step_id ` set (recipe_steps r)) expanded))"

lemma in_removed_step_ids:
  "x \<in> removed_step_ids recipes expanded availability input_bindings selected \<longleftrightarrow>
     (\<exists>rid r s. rid \<in> set expanded \<and> fmlookup recipes rid = Some r \<and> s \<in> set (recipe_steps r)
        \<and> x \<in> prune_step recipes availability input_bindings selected rid r s)"
  by (force simp: removed_step_ids_def split: option.splits)

lemma removed_root:
  assumes "removed_step_ids recipes expanded availability input_bindings selected \<noteq> {}"
  shows "\<exists>sid \<in> removed_step_ids recipes expanded availability input_bindings selected.
     sid \<in> selected \<and> sid \<in> expanded_step_ids recipes expanded"
proof -
  obtain rid r s where rid: "rid \<in> set expanded" "fmlookup recipes rid = Some r" "s \<in> set (recipe_steps r)"
    and some: "prune_step recipes availability input_bindings selected rid r s \<noteq> {}"
    using assms in_removed_step_ids [of _ recipes expanded availability input_bindings selected]
    by (metis empty_iff equals0I)
  let ?sid = "make_execution_step_id rid (step_id s)"
  have "?sid \<in> selected" "?sid \<in> prune_step recipes availability input_bindings selected rid r s"
    using some by (auto simp: prune_step_def Let_def split: if_splits)
  moreover from this rid have "?sid \<in> removed_step_ids recipes expanded availability input_bindings selected"
    unfolding in_removed_step_ids by blast
  moreover have "?sid \<in> expanded_step_ids recipes expanded"
    using rid by (force simp: expanded_step_ids_def)
  ultimately show ?thesis by blast
qed

lemma finite_expanded_step_ids [simp]: "finite (expanded_step_ids recipes expanded)"
  by (auto simp: expanded_step_ids_def split: option.splits)

function prune_optional_input_steps ::
  "recipes \<Rightarrow> string list \<Rightarrow> string set \<Rightarrow> (string, bool) fmap \<Rightarrow> json omap \<Rightarrow> string set" where
  "prune_optional_input_steps recipes expanded selected availability input_bindings =
     (let removed = removed_step_ids recipes expanded availability input_bindings selected in
      if removed = {} then selected
      else prune_optional_input_steps recipes expanded (selected - removed) availability input_bindings)"
  by pat_completeness auto
termination
proof (relation "measure (\<lambda>(recipes, expanded, selected, _, _).
    card (selected \<inter> expanded_step_ids recipes expanded))", simp)
  fix recipes expanded selected availability input_bindings removed
  assume "removed = removed_step_ids recipes expanded availability input_bindings selected" "removed \<noteq> {}"
  then have "(selected - removed) \<inter> expanded_step_ids recipes expanded
      \<subset> selected \<inter> expanded_step_ids recipes expanded"
    using removed_root [of recipes expanded availability input_bindings selected] by auto
  then show "((recipes, expanded, selected - removed, availability, input_bindings),
      (recipes, expanded, selected, availability, input_bindings))
      \<in> measure (\<lambda>(recipes, expanded, selected, _, _). card (selected \<inter> expanded_step_ids recipes expanded))"
    by (simp add: psubset_card_mono)
qed

declare prune_optional_input_steps.simps [simp del]

section \<open>The selection\<close>

definition selected_step_ids ::
  "recipes \<Rightarrow> string list \<Rightarrow> json omap \<Rightarrow> runtime_capabilities \<Rightarrow> target_usage \<Rightarrow> bool \<Rightarrow> bool \<Rightarrow>
     (string set \<times> planner_message list \<times> planner_message list) option" where
  "selected_step_ids recipes expanded input_bindings caps usage assume_unrecognized report =
     map_option (\<lambda>st.
       if sel_errors st \<noteq> [] then ({}, sel_errors st, sel_warnings st)
       else (prune_optional_input_steps recipes expanded (sel_selected st) (sel_availability st)
               input_bindings, [], sel_warnings st))
     (fold (\<lambda>rid acc. Option.bind acc
        (select_recipe recipes caps usage assume_unrecognized report rid))
      expanded
      (Some \<lparr> sel_selected = {}, sel_availability = fmempty, sel_errors = [], sel_warnings = [] \<rparr>))"

definition selected_artifact_ids :: "recipes \<Rightarrow> string list \<Rightarrow> string set \<Rightarrow> string set" where
  "selected_artifact_ids recipes expanded selected =
     \<Union> (set (map (\<lambda>rid.
       case fmlookup recipes rid of
         None \<Rightarrow> {}
       | Some r \<Rightarrow> \<Union> (set (map (\<lambda>s.
           if make_execution_step_id rid (step_id s) \<notin> selected then {}
           else set (map (make_execution_artifact_id rid) (step_artifacts r s))
                \<union> set (List.map_filter (\<lambda>value. case value of
                     Ref reference \<Rightarrow>
                       (case parse_reference reference of
                          Some (RArtifactField target_id _) \<Rightarrow> Some (make_execution_artifact_id rid target_id)
                        | _ \<Rightarrow> None)
                   | _ \<Rightarrow> None) (omap_values (step_params s)))) (recipe_steps r)))) expanded))"

definition selected_input_ids :: "recipes \<Rightarrow> string list \<Rightarrow> string set \<Rightarrow> string set \<Rightarrow> string list" where
  "selected_input_ids recipes expanded selected selected_artifacts =
     fold (\<lambda>rid input_ids.
       case fmlookup recipes rid of
         None \<Rightarrow> input_ids
       | Some r \<Rightarrow>
           let of_steps = fold (\<lambda>s ids.
                 if make_execution_step_id rid (step_id s) \<notin> selected then ids
                 else fold (\<lambda>input_id ids. push_new ids input_id) (referenced_input_ids rid s) ids)
                 (recipe_steps r) input_ids
           in fold (\<lambda>(artifact_id, artifact) ids.
                if make_execution_artifact_id rid artifact_id \<notin> selected_artifacts then ids
                else case artifact of
                       AppArtifact reference \<Rightarrow>
                         (case aref_input reference of
                            Some binding \<Rightarrow> push_new ids (make_execution_input_id rid (binding_input_id binding))
                          | None \<Rightarrow> ids)
                     | RemoteFile _ \<Rightarrow> ids) (recipe_artifacts r) of_steps) expanded []"

section \<open>Selection recipe by recipe\<close>

lemma fold_availability_other:
  "k \<notin> make_execution_step_id rid ` fst ` set l \<Longrightarrow>
     fmlookup (fold (\<lambda>(x, b). fmupd (make_execution_step_id rid x) b) l av) k = fmlookup av k"
  by (induction l arbitrary: av) auto

lemma fold_availability_own:
  "distinct (map fst l) \<Longrightarrow> (x, b) \<in> set l \<Longrightarrow>
     fmlookup (fold (\<lambda>(x, b). fmupd (make_execution_step_id rid x) b) l av) (make_execution_step_id rid x) = Some b"
proof (induction l arbitrary: av)
  case Nil
  then show ?case by simp
next
  case (Cons p l)
  obtain y c where p: "p = (y, c)" by fastforce
  show ?case
  proof (cases "p = (x, b)")
    case True
    with Cons.prems(1) have "x \<notin> fst ` set l" by simp
    then have "make_execution_step_id rid x \<notin> make_execution_step_id rid ` fst ` set l"
      unfolding image_iff make_execution_step_id_inj by blast
    from fold_availability_other [OF this] True show ?thesis by simp
  next
    case False
    with Cons show ?thesis by (auto simp: p)
  qed
qed

text \<open>The recipe identifiers have no slash and no recipe has two steps of one name.\<close>

definition wf_expanded :: "recipes \<Rightarrow> string list \<Rightarrow> bool" where
  "wf_expanded recipes expanded \<longleftrightarrow>
     (\<forall>rid \<in> set expanded. CHR ''/'' \<notin> set rid
        \<and> (\<forall>r. fmlookup recipes rid = Some r \<longrightarrow> distinct (map step_id (recipe_steps r))))"

lemma recipe_by_id_iff:
  assumes "distinct (map step_id (recipe_steps r))"
  shows "fmlookup (recipe_by_id r) x = Some s \<longleftrightarrow> s \<in> set (recipe_steps r) \<and> step_id s = x"
proof -
  have "distinct (map fst (map (\<lambda>s. (step_id s, s)) (recipe_steps r)))"
    using assms by (simp add: comp_def)
  from fmlookup_hash_collect_distinct [OF this, of x] map_of_eq_Some_iff [OF this, of x s]
  show ?thesis by (auto simp: recipe_by_id_def)
qed

definition local_map ::
  "runtime_capabilities \<Rightarrow> target_usage \<Rightarrow> bool \<Rightarrow> string \<Rightarrow> recipe \<Rightarrow> (string, bool) fmap" where
  "local_map caps usage au rid r = hash_collect (local_availability caps usage au rid r)"

lemma requests_cover_local:
  "requests_cover r (map fst (filter snd (local_availability caps usage au rid r))) (local_map caps usage au rid r)"
proof -
  have "x \<in> fst ` set (filter snd l)" if "available_step (hash_collect l) x" for x l
  proof -
    from that have "fmlookup (hash_collect l) x = Some True"
      by (cases "fmlookup (hash_collect l) x") (simp_all add: available_step_def)
    from hash_collect_Some [OF this] show ?thesis by force
  qed
  then show ?thesis by (simp add: requests_cover_def local_map_def)
qed

definition dependency_errors ::
  "recipes \<Rightarrow> runtime_capabilities \<Rightarrow> target_usage \<Rightarrow> bool \<Rightarrow> string \<Rightarrow> planner_message list" where
  "dependency_errors recipes caps usage au rid =
     (case fmlookup recipes rid of
        None \<Rightarrow> []
      | Some r \<Rightarrow> validate_available_step_dependencies r
          (map fst (filter snd (local_availability caps usage au rid r))) (recipe_by_id r))"

definition selectable_ids ::
  "recipes \<Rightarrow> runtime_capabilities \<Rightarrow> target_usage \<Rightarrow> bool \<Rightarrow> string \<Rightarrow> string set" where
  "selectable_ids recipes caps usage au rid =
     (case fmlookup recipes rid of
        None \<Rightarrow> {}
      | Some r \<Rightarrow> make_execution_step_id rid ` {x. selectable (recipe_by_id r) (local_map caps usage au rid r) x})"

definition availability_known ::
  "recipes \<Rightarrow> runtime_capabilities \<Rightarrow> target_usage \<Rightarrow> bool \<Rightarrow> string list \<Rightarrow> (string, bool) fmap \<Rightarrow> bool" where
  "availability_known recipes caps usage au rids av \<longleftrightarrow>
     (\<forall>rid \<in> set rids. \<forall>r s. fmlookup recipes rid = Some r \<longrightarrow> s \<in> set (recipe_steps r) \<longrightarrow>
        fmlookup av (make_execution_step_id rid (step_id s)) = Some (step_is_available caps usage au rid s))"

lemma select_recipe_step:
  "\<exists>st'. select_recipe recipes caps usage au report rid st = Some st'
     \<and> sel_errors st' = sel_errors st @ dependency_errors recipes caps usage au rid
     \<and> (dependency_errors recipes caps usage au rid = [] \<longrightarrow>
          sel_selected st' = sel_selected st \<union> selectable_ids recipes caps usage au rid)
     \<and> sel_availability st' = (case fmlookup recipes rid of None \<Rightarrow> sel_availability st
          | Some r \<Rightarrow> fold (\<lambda>(x, b). fmupd (make_execution_step_id rid x) b)
                      (local_availability caps usage au rid r) (sel_availability st))"
proof (cases "fmlookup recipes rid")
  case None
  then show ?thesis by (simp add: select_recipe_def dependency_errors_def selectable_ids_def)
next
  case (Some r)
  let ?requested = "map fst (filter snd (local_availability caps usage au rid r))"
  show ?thesis
  proof (cases "dependency_errors recipes caps usage au rid = []")
    case True
    then have valid: "validate_available_step_dependencies r ?requested (recipe_by_id r) = []"
      by (simp add: dependency_errors_def Some)
    from select_local_valid [OF requests_cover_local valid] True Some show ?thesis
      by (simp add: select_recipe_def Let_def selectable_ids_def local_map_def)
  next
    case False
    then have "select_local_step_ids r ?requested (local_map caps usage au rid r) =
        Some ({}, dependency_errors recipes caps usage au rid)"
      by (simp add: select_local_step_ids_def Let_def dependency_errors_def Some)
    with False Some show ?thesis by (simp add: select_recipe_def Let_def local_map_def)
  qed
qed

lemma availability_known_step:
  assumes wf: "wf_expanded recipes (rids @ [rid])"
    and known: "availability_known recipes caps usage au rids av"
    and av': "av' = (case fmlookup recipes rid of None \<Rightarrow> av
        | Some r \<Rightarrow> fold (\<lambda>(x, b). fmupd (make_execution_step_id rid x) b)
                    (local_availability caps usage au rid r) av)"
  shows "availability_known recipes caps usage au (rids @ [rid]) av'"
proof -
  have own: "fmlookup av' (make_execution_step_id rid (step_id s)) = Some (step_is_available caps usage au rid s)"
    if "fmlookup recipes rid = Some r" "s \<in> set (recipe_steps r)" for r s
  proof -
    have "distinct (map fst (local_availability caps usage au rid r))"
      using wf that(1) by (simp add: local_availability_def wf_expanded_def comp_def)
    from fold_availability_own [OF this] that show ?thesis
      by (auto simp: av' local_availability_def)
  qed
  have "fmlookup av' (make_execution_step_id rid' (step_id s)) = Some (step_is_available caps usage au rid' s)"
    if rid': "rid' \<in> set rids" and r: "fmlookup recipes rid' = Some r" "s \<in> set (recipe_steps r)" for rid' r s
  proof (cases "rid' = rid")
    case True
    with own r show ?thesis by simp
  next
    case False
    have "make_execution_step_id rid' (step_id s) \<noteq> make_execution_step_id rid x" for x
      using make_execution_step_id_recipe [of rid' rid "step_id s" x] False wf rid'
      by (auto simp: wf_expanded_def)
    then have other: "make_execution_step_id rid' (step_id s) \<notin> make_execution_step_id rid ` A" for A
      by blast
    have "fmlookup av' (make_execution_step_id rid' (step_id s)) =
        fmlookup av (make_execution_step_id rid' (step_id s))"
    proof (cases "fmlookup recipes rid")
      case (Some q)
      show ?thesis unfolding av' Some option.case by (rule fold_availability_other [OF other])
    qed (simp add: av')
    with known rid' r show ?thesis by (auto simp: availability_known_def)
  qed
  with own show ?thesis by (auto simp: availability_known_def)
qed

definition recipes_state ::
  "recipes \<Rightarrow> runtime_capabilities \<Rightarrow> target_usage \<Rightarrow> bool \<Rightarrow> string list \<Rightarrow> selection_state \<Rightarrow> bool" where
  "recipes_state recipes caps usage au rids st \<longleftrightarrow>
     sel_errors st = concat (map (dependency_errors recipes caps usage au) rids)
     \<and> (sel_errors st = [] \<longrightarrow> sel_selected st = \<Union> (selectable_ids recipes caps usage au ` set rids))
     \<and> (wf_expanded recipes rids \<longrightarrow> availability_known recipes caps usage au rids (sel_availability st))"

lemma select_recipes_state:
  "\<exists>st. fold (\<lambda>rid acc. Option.bind acc (select_recipe recipes caps usage au report rid)) rids
      (Some \<lparr> sel_selected = {}, sel_availability = fmempty, sel_errors = [], sel_warnings = [] \<rparr>) = Some st
    \<and> recipes_state recipes caps usage au rids st"
proof (induction rids rule: rev_induct)
  case Nil
  then show ?case by (simp add: recipes_state_def availability_known_def)
next
  case (snoc rid rids)
  then obtain st where st:
    "fold (\<lambda>rid acc. Option.bind acc (select_recipe recipes caps usage au report rid)) rids
      (Some \<lparr> sel_selected = {}, sel_availability = fmempty, sel_errors = [], sel_warnings = [] \<rparr>) = Some st"
    "recipes_state recipes caps usage au rids st" by blast
  obtain st' where st': "select_recipe recipes caps usage au report rid st = Some st'"
    "sel_errors st' = sel_errors st @ dependency_errors recipes caps usage au rid"
    "dependency_errors recipes caps usage au rid = [] \<longrightarrow>
       sel_selected st' = sel_selected st \<union> selectable_ids recipes caps usage au rid"
    "sel_availability st' = (case fmlookup recipes rid of None \<Rightarrow> sel_availability st
          | Some r \<Rightarrow> fold (\<lambda>(x, b). fmupd (make_execution_step_id rid x) b)
                      (local_availability caps usage au rid r) (sel_availability st))"
    using select_recipe_step [of recipes caps usage au report rid st] by blast
  have "recipes_state recipes caps usage au (rids @ [rid]) st'"
    using st(2) st'(2,3) availability_known_step [OF _ _ st'(4)]
    by (auto simp: recipes_state_def wf_expanded_def)
  with st(1) st'(1) show ?case by simp
qed

section \<open>The prune loop\<close>

text \<open>One round finds every step to remove: what is left refers to no unbound optional input.\<close>

lemma removed_step_ids_again:
  "removed_step_ids recipes expanded av bindings
     (selected - removed_step_ids recipes expanded av bindings selected) = {}"
proof (rule ccontr)
  let ?removed = "removed_step_ids recipes expanded av bindings selected"
  assume "removed_step_ids recipes expanded av bindings (selected - ?removed) \<noteq> {}"
  then obtain rid r s where rid: "rid \<in> set expanded" "fmlookup recipes rid = Some r" "s \<in> set (recipe_steps r)"
    and some: "prune_step recipes av bindings (selected - ?removed) rid r s \<noteq> {}"
    using in_removed_step_ids [of _ recipes expanded av bindings "selected - ?removed"]
    by (metis empty_iff equals0I)
  let ?sid = "make_execution_step_id rid (step_id s)"
  have "?sid \<in> selected - ?removed" "?sid \<in> prune_step recipes av bindings selected rid r s"
    using some by (auto simp: prune_step_def Let_def split: if_splits)
  moreover from this(2) rid have "?sid \<in> ?removed" unfolding in_removed_step_ids by blast
  ultimately show False by blast
qed

lemma prune_once:
  "prune_optional_input_steps recipes expanded selected av bindings =
     selected - removed_step_ids recipes expanded av bindings selected"
proof (cases "removed_step_ids recipes expanded av bindings selected = {}")
  case True
  then show ?thesis by (subst prune_optional_input_steps.simps) (simp add: Let_def)
next
  case False
  then have "prune_optional_input_steps recipes expanded selected av bindings =
      prune_optional_input_steps recipes expanded
        (selected - removed_step_ids recipes expanded av bindings selected) av bindings"
    by (subst prune_optional_input_steps.simps) (simp add: Let_def)
  also have "\<dots> = selected - removed_step_ids recipes expanded av bindings selected"
    using removed_step_ids_again [of recipes expanded av bindings selected]
    by (subst prune_optional_input_steps.simps) (simp add: Let_def)
  finally show ?thesis .
qed

section \<open>Exactly which steps are selected\<close>

text \<open>What a step needs for itself.\<close>

definition step_usable ::
  "recipes \<Rightarrow> json omap \<Rightarrow> runtime_capabilities \<Rightarrow> target_usage \<Rightarrow> bool \<Rightarrow> string \<Rightarrow> recipe \<Rightarrow> string \<Rightarrow> bool" where
  "step_usable recipes bindings caps usage au rid r x \<longleftrightarrow>
     (\<exists>s \<in> set (recipe_steps r). step_id s = x \<and> step_is_available caps usage au rid s
        \<and> \<not> refers_to_unbound recipes bindings rid s)"

definition selected_spec ::
  "recipes \<Rightarrow> string list \<Rightarrow> json omap \<Rightarrow> runtime_capabilities \<Rightarrow> target_usage \<Rightarrow> bool \<Rightarrow> string set" where
  "selected_spec recipes expanded bindings caps usage au =
     {make_execution_step_id rid x | rid r x. rid \<in> set expanded \<and> fmlookup recipes rid = Some r
        \<and> (\<forall>y \<in> reachable (step_deps (recipe_by_id r)) {x}. step_usable recipes bindings caps usage au rid r y)}"

lemma local_map_iff:
  assumes "distinct (map step_id (recipe_steps r))"
  shows "y \<in> fmdom' (recipe_by_id r) \<and> available_step (local_map caps usage au rid r) y \<longleftrightarrow>
     (\<exists>s \<in> set (recipe_steps r). step_id s = y \<and> step_is_available caps usage au rid s)"
proof -
  have dist: "distinct (map fst (local_availability caps usage au rid r))"
    using assms by (simp add: local_availability_def comp_def)
  have "available_step (local_map caps usage au rid r) y \<longleftrightarrow> (y, True) \<in> set (local_availability caps usage au rid r)"
    using fmlookup_hash_collect_distinct [OF dist, of y] map_of_eq_Some_iff [OF dist, of y]
    by (cases "map_of (local_availability caps usage au rid r) y")
      (auto simp: local_map_def available_step_def)
  moreover have "y \<in> fmdom' (recipe_by_id r) \<longleftrightarrow> (\<exists>s \<in> set (recipe_steps r). step_id s = y)"
    using recipe_by_id_iff [OF assms] by (auto simp: fmlookup_dom'_iff)
  ultimately show ?thesis by (auto simp: local_availability_def image_iff)
qed

lemma step_rel_by_id:
  assumes "distinct (map step_id (recipe_steps r))"
  shows "recipe_step_rel r = dep_rel (step_deps (recipe_by_id r))"
proof (rule set_eqI)
  fix e :: "string \<times> string"
  obtain a d where e: "e = (a, d)" by fastforce
  have "(\<exists>s. s \<in> set (recipe_steps r) \<and> step_id s = a \<and> d \<in> set (step_dependencies s)) \<longleftrightarrow>
      d \<in> step_deps (recipe_by_id r) a"
  proof (cases "fmlookup (recipe_by_id r) a")
    case None
    with recipe_by_id_iff [OF assms, of a] show ?thesis by (auto simp: step_deps_def)
  next
    case (Some t)
    then have "s \<in> set (recipe_steps r) \<and> step_id s = a \<longleftrightarrow> s = t" for s
      using recipe_by_id_iff [OF assms, of a s] by auto
    with Some show ?thesis by (simp add: step_deps_def conj_assoc [symmetric])
  qed
  then show "e \<in> recipe_step_rel r \<longleftrightarrow> e \<in> dep_rel (step_deps (recipe_by_id r))"
    by (auto simp: e recipe_step_rel_def)
qed

lemma reachable_or_dependent:
  assumes "distinct (map step_id (recipe_steps r))"
  shows "y \<in> reachable (step_deps (recipe_by_id r)) {x} \<longleftrightarrow> x = y \<or> x \<in> dependent_step_ids r y"
  by (auto simp: dependent_step_ids_eq step_rel_by_id [OF assms] reachable_def rtrancl_eq_or_trancl)

text \<open>The state after the loop over the recipes, when it reported no error.\<close>

definition selection_done ::
  "recipes \<Rightarrow> string list \<Rightarrow> runtime_capabilities \<Rightarrow> target_usage \<Rightarrow> bool \<Rightarrow> string set \<Rightarrow> (string, bool) fmap \<Rightarrow> bool" where
  "selection_done recipes expanded caps usage au selected av \<longleftrightarrow>
     wf_expanded recipes expanded
     \<and> selected = \<Union> (selectable_ids recipes caps usage au ` set expanded)
     \<and> availability_known recipes caps usage au expanded av"

lemma wf_expandedD:
  assumes "wf_expanded recipes expanded" "rid \<in> set expanded"
  shows "CHR ''/'' \<notin> set rid" "fmlookup recipes rid = Some r \<Longrightarrow> distinct (map step_id (recipe_steps r))"
  using assms by (auto simp: wf_expanded_def)

lemma wf_expanded_id:
  assumes "wf_expanded recipes expanded" "rid \<in> set expanded" "rid' \<in> set expanded"
    "make_execution_step_id rid x = make_execution_step_id rid' y"
  shows "rid = rid'" "x = y"
  using make_execution_step_id_recipe [OF wf_expandedD(1) [OF assms(1,2)] wf_expandedD(1) [OF assms(1,3)] assms(4)]
  by simp_all

lemma selected_iff:
  assumes fin: "selection_done recipes expanded caps usage au selected av"
    and rid: "rid \<in> set expanded" "fmlookup recipes rid = Some r"
  shows "make_execution_step_id rid x \<in> selected \<longleftrightarrow>
      (\<forall>y \<in> reachable (step_deps (recipe_by_id r)) {x}.
         \<exists>s \<in> set (recipe_steps r). step_id s = y \<and> step_is_available caps usage au rid s)"
proof -
  have wf: "wf_expanded recipes expanded" using fin by (simp add: selection_done_def)
  have "make_execution_step_id rid x \<in> selected \<longleftrightarrow>
      (\<exists>rid' \<in> set expanded. make_execution_step_id rid x \<in> selectable_ids recipes caps usage au rid')"
    using fin by (simp add: selection_done_def)
  also have "\<dots> \<longleftrightarrow> make_execution_step_id rid x \<in> selectable_ids recipes caps usage au rid"
  proof
    assume "\<exists>rid' \<in> set expanded. make_execution_step_id rid x \<in> selectable_ids recipes caps usage au rid'"
    then obtain rid' y where "rid' \<in> set expanded" "make_execution_step_id rid x = make_execution_step_id rid' y"
      "make_execution_step_id rid x \<in> selectable_ids recipes caps usage au rid'"
      by (auto simp: selectable_ids_def split: option.splits)
    with wf_expanded_id(1) [OF wf rid(1)]
    show "make_execution_step_id rid x \<in> selectable_ids recipes caps usage au rid" by metis
  qed (use rid(1) in blast)
  also have "\<dots> \<longleftrightarrow> selectable (recipe_by_id r) (local_map caps usage au rid r) x"
    by (auto simp: selectable_ids_def rid(2))
  finally show ?thesis
    using local_map_iff [OF wf_expandedD(2) [OF wf rid]] by (simp add: selectable_def)
qed

lemma selected_available:
  assumes fin: "selection_done recipes expanded caps usage au selected av"
    and rid: "rid \<in> set expanded" "fmlookup recipes rid = Some r"
    and s: "s \<in> set (recipe_steps r)" "make_execution_step_id rid (step_id s) \<in> selected"
  shows "unwrap_or (fmlookup av (make_execution_step_id rid (step_id s))) False"
proof -
  have "step_id s \<in> reachable (step_deps (recipe_by_id r)) {step_id s}" by (simp add: reachable_root)
  then obtain t where t: "t \<in> set (recipe_steps r)" "step_id t = step_id s" "step_is_available caps usage au rid t"
    using s(2) unfolding selected_iff [OF fin rid] by blast
  have "distinct (map step_id (recipe_steps r))"
    using fin rid wf_expandedD(2) by (auto simp: selection_done_def)
  with t s(1) have "t = s" by (auto simp: distinct_map dest: inj_onD)
  with t fin rid s(1) show ?thesis by (auto simp: selection_done_def availability_known_def)
qed

lemma removed_iff:
  assumes fin: "selection_done recipes expanded caps usage au selected av"
    and rid: "rid \<in> set expanded" "fmlookup recipes rid = Some r"
    and x: "make_execution_step_id rid x \<in> selected"
  shows "make_execution_step_id rid x \<in> removed_step_ids recipes expanded av bindings selected \<longleftrightarrow>
    (\<exists>s \<in> set (recipe_steps r). step_id s \<in> reachable (step_deps (recipe_by_id r)) {x}
       \<and> refers_to_unbound recipes bindings rid s)"
    (is "?removed \<longleftrightarrow> ?root")
proof
  have wf: "wf_expanded recipes expanded" using fin by (simp add: selection_done_def)
  note below = reachable_or_dependent [OF wf_expandedD(2) [OF wf rid]]
  {
    assume ?removed
    then obtain rid' r' s where s: "rid' \<in> set expanded" "fmlookup recipes rid' = Some r'" "s \<in> set (recipe_steps r')"
      "make_execution_step_id rid x \<in> prune_step recipes av bindings selected rid' r' s"
      unfolding in_removed_step_ids by blast
    then obtain z where z: "make_execution_step_id rid x = make_execution_step_id rid' z"
      "z = step_id s \<or> z \<in> dependent_step_ids r' (step_id s)" "refers_to_unbound recipes bindings rid' s"
      by (auto simp: prune_step_def Let_def split: if_splits)
    have eq: "rid = rid'" "x = z" using wf_expanded_id [OF wf rid(1) s(1) z(1)] by simp_all
    then have "r' = r" using rid(2) s(2) by simp
    with z(2,3) s(3) show ?root unfolding eq below by (intro bexI [of _ s]) auto
  next
    assume ?root
    then obtain s where s: "s \<in> set (recipe_steps r)" "step_id s \<in> reachable (step_deps (recipe_by_id r)) {x}"
      "refers_to_unbound recipes bindings rid s" by blast
    have "reachable (step_deps (recipe_by_id r)) {step_id s} \<subseteq> reachable (step_deps (recipe_by_id r)) {x}"
      by (rule reachable_least) (use s(2) in \<open>auto intro: reachable_dep\<close>)
    then have "make_execution_step_id rid (step_id s) \<in> selected"
      using x unfolding selected_iff [OF fin rid] by blast
    with selected_available [OF fin rid s(1) this] s(2,3)
    have "make_execution_step_id rid x \<in> prune_step recipes av bindings selected rid r s"
      unfolding below by (auto simp: prune_step_def Let_def)
    then show ?removed unfolding in_removed_step_ids using rid s(1) by blast
  }
qed

lemma pruned_iff:
  assumes fin: "selection_done recipes expanded caps usage au selected av"
    and rid: "rid \<in> set expanded" "fmlookup recipes rid = Some r"
  shows "make_execution_step_id rid x \<in> prune_optional_input_steps recipes expanded selected av bindings \<longleftrightarrow>
    (\<forall>y \<in> reachable (step_deps (recipe_by_id r)) {x}. step_usable recipes bindings caps usage au rid r y)"
proof -
  have "distinct (map step_id (recipe_steps r))"
    using fin rid wf_expandedD(2) by (auto simp: selection_done_def)
  then have unique: "s = t" if "s \<in> set (recipe_steps r)" "t \<in> set (recipe_steps r)" "step_id s = step_id t" for s t
    using that by (auto simp: distinct_map dest: inj_onD)
  show ?thesis
  proof (cases "make_execution_step_id rid x \<in> selected")
    case True
    then have "\<forall>y \<in> reachable (step_deps (recipe_by_id r)) {x}.
        \<exists>s \<in> set (recipe_steps r). step_id s = y \<and> step_is_available caps usage au rid s"
      unfolding selected_iff [OF fin rid] .
    then have all: "\<exists>s \<in> set (recipe_steps r). step_id s = y \<and> step_is_available caps usage au rid s"
      if "y \<in> reachable (step_deps (recipe_by_id r)) {x}" for y using that by blast
    have "(\<exists>s \<in> set (recipe_steps r). step_id s \<in> reachable (step_deps (recipe_by_id r)) {x}
           \<and> refers_to_unbound recipes bindings rid s) \<longleftrightarrow>
        (\<exists>y \<in> reachable (step_deps (recipe_by_id r)) {x}. \<not> step_usable recipes bindings caps usage au rid r y)"
      (is "?root \<longleftrightarrow> ?unusable")
    proof
      assume ?root
      then obtain s where s: "s \<in> set (recipe_steps r)" "step_id s \<in> reachable (step_deps (recipe_by_id r)) {x}"
        "refers_to_unbound recipes bindings rid s" by blast
      then have "\<not> step_usable recipes bindings caps usage au rid r (step_id s)"
        using unique by (auto simp: step_usable_def)
      with s(2) show ?unusable by blast
    next
      assume ?unusable
      then obtain y where y: "y \<in> reachable (step_deps (recipe_by_id r)) {x}"
        "\<not> step_usable recipes bindings caps usage au rid r y" by blast
      with all [OF y(1)] show ?root by (auto simp: step_usable_def)
    qed
    with True removed_iff [OF fin rid True, of bindings] show ?thesis unfolding prune_once by blast
  next
    case False
    then have "\<not> (\<forall>y \<in> reachable (step_deps (recipe_by_id r)) {x}.
        \<exists>s \<in> set (recipe_steps r). step_id s = y \<and> step_is_available caps usage au rid s)"
      unfolding selected_iff [OF fin rid] .
    with False show ?thesis unfolding prune_once step_usable_def by blast
  qed
qed

lemma pruned_spec:
  assumes fin: "selection_done recipes expanded caps usage au selected av"
  shows "prune_optional_input_steps recipes expanded selected av bindings =
    selected_spec recipes expanded bindings caps usage au"
proof (intro equalityI subsetI)
  fix k assume k: "k \<in> prune_optional_input_steps recipes expanded selected av bindings"
  then have "k \<in> selected" by (simp add: prune_once)
  with fin obtain rid where rid: "rid \<in> set expanded" "k \<in> selectable_ids recipes caps usage au rid"
    by (auto simp: selection_done_def)
  then obtain r x where r: "fmlookup recipes rid = Some r" "k = make_execution_step_id rid x"
    by (auto simp: selectable_ids_def split: option.splits)
  with k pruned_iff [OF fin rid(1) r(1), of x bindings] rid(1)
  show "k \<in> selected_spec recipes expanded bindings caps usage au"
    unfolding selected_spec_def by blast
next
  fix k assume "k \<in> selected_spec recipes expanded bindings caps usage au"
  with pruned_iff [OF fin] show "k \<in> prune_optional_input_steps recipes expanded selected av bindings"
    unfolding selected_spec_def by blast
qed

lemma selected_step_ids_run:
  "\<exists>selected errors warnings.
     selected_step_ids recipes expanded bindings caps usage au report = Some (selected, errors, warnings)
     \<and> errors = concat (map (dependency_errors recipes caps usage au) expanded)
     \<and> (errors = [] \<longrightarrow> wf_expanded recipes expanded \<longrightarrow>
          selected = selected_spec recipes expanded bindings caps usage au)"
proof -
  obtain st where st: "fold (\<lambda>rid acc. Option.bind acc (select_recipe recipes caps usage au report rid)) expanded
      (Some \<lparr> sel_selected = {}, sel_availability = fmempty, sel_errors = [], sel_warnings = [] \<rparr>) = Some st"
    "recipes_state recipes caps usage au expanded st"
    using select_recipes_state [of recipes caps usage au report expanded] by blast
  have "prune_optional_input_steps recipes expanded (sel_selected st) (sel_availability st) bindings =
      selected_spec recipes expanded bindings caps usage au"
    if "sel_errors st = []" "wf_expanded recipes expanded"
    by (rule pruned_spec) (use st(2) that in \<open>simp add: recipes_state_def selection_done_def\<close>)
  with st show ?thesis by (auto simp: selected_step_ids_def recipes_state_def)
qed

section \<open>Properties\<close>

text \<open>
  C30: when the selection reports no error, it selects exactly the steps of the expanded recipes
  for which the step itself and every step it depends on, directly or not, exist, have all
  their capabilities, and refer to no optional input that has neither a binding nor a default.
\<close>

theorem selected_step_ids_exact:
  assumes "wf_expanded recipes expanded"
    and "selected_step_ids recipes expanded bindings caps usage au report = Some (selected, [], warnings)"
  shows "selected = selected_spec recipes expanded bindings caps usage au"
  using selected_step_ids_run [of recipes expanded bindings caps usage au report] assms by auto

text \<open>
  The selection returns for every catalog and every set of bindings, and its errors are the
  dependency errors of the recipes in their expanded order.
\<close>

lemma selected_step_ids_total:
  "\<exists>selected warnings. selected_step_ids recipes expanded bindings caps usage au report =
     Some (selected, concat (map (dependency_errors recipes caps usage au) expanded), warnings)"
  using selected_step_ids_run [of recipes expanded bindings caps usage au report] by blast

definition no_capabilities :: runtime_capabilities where
  "no_capabilities =
     \<lparr> rc_adb_available = False, rc_apk_install = False, rc_shared_storage_write = False,
       rc_app_launch = False, rc_shell_command = False, rc_package_remove_for_user = False,
       rc_root_shell = False, rc_app_data_write = False, rc_root_shell_route = None \<rparr>"

definition sample_catalog :: recipes where
  "sample_catalog = fmap_of_list [(''r'', sample_recipe ''r'' [] [(''i'', sample_input ''string'' False JNull)]
     [sample_step ''a'' ''copy_files'' [] [(''source'', Ref ''inputs.i'')],
      sample_step ''b'' ''wait'' [''a''] [], sample_step ''c'' ''wait'' [] [],
      sample_step ''d'' ''launch_app'' [''c''] []])]"

definition sample_usage :: target_usage where
  "sample_usage = fmap_of_list [(''r/d'',
     \<lparr> usage_dest = None, usage_dest_kind = None, usage_skip_if_paths = [], usage_verify_paths = [],
       usage_capabilities = [''app_launch''] \<rparr>)]"

lemma sample_catalog_wf: "wf_expanded sample_catalog [''r'']"
  by (simp add: wf_expanded_def sample_catalog_def sample_recipe_def sample_step_def)

lemma sample_catalog_selection:
  "selected_step_ids sample_catalog [''r''] [] no_capabilities sample_usage False False = Some ({''r/c''}, [], [])"
  by code_simp

theorem selected_step_ids_exact_witness:
  "{''r/c''} = selected_spec sample_catalog [''r''] [] no_capabilities sample_usage False"
  by (rule selected_step_ids_exact [OF sample_catalog_wf sample_catalog_selection])

end
