(* ===== verification/Step_Contracts.thy ===== *)
theory Step_Contracts
  imports Artifact_Selection Runtime_Refs Samples
begin

text \<open>
  The parameter contracts of emitted steps, \<open>planner.rs\<close>: every authored parameter is declared
  by the table of step types, its value comes from an accepted source and has an accepted type
  (\<open>validate_spec_param_contracts\<close>), and the checks written for one step type
  (\<open>validate_focused_param_values\<close>) hold.  A function that pushes errors on a vector is the
  list of the errors it pushes.
\<close>

section \<open>Messages and values\<close>

definition params_with_defaults :: "step \<Rightarrow> param_value omap" where
  "params_with_defaults s =
     (case step_spec_for (step_type_name s) of
        None \<Rightarrow> step_params s
      | Some spec \<Rightarrow>
          fold (\<lambda>(name, default_value). omap_or_insert name (Literal default_value))
            (spec_defaults spec) (step_params s))"

fun param_value_to_json :: "param_value \<Rightarrow> json" where
  "param_value_to_json (Ref ref_value) = JObject [(''ref'', JString ref_value)]"
| "param_value_to_json (AppTarget target_id) = JObject [(''app_target'', JString target_id)]"
| "param_value_to_json (Literal v) = v"

definition param_contract_message ::
  "string \<Rightarrow> string \<Rightarrow> string \<Rightarrow> step \<Rightarrow> string \<Rightarrow> json \<Rightarrow> json \<Rightarrow> planner_message" where
  "param_contract_message code message rid s param expected actual =
     msg code message
       [(''recipe_ref'', JString rid), (''step_id'', JString (step_id s)),
        (''step_type'', JString (step_type_name s)), (''param'', JString param),
        (''expected'', expected), (''actual'', actual)]"

definition expected_param_names :: "step_spec \<Rightarrow> json" where
  "expected_param_names spec = jstrs (sort (omap_keys (spec_params spec)))"

definition literal_string :: "param_value option \<Rightarrow> string option" where
  "literal_string v = (case v of Some (Literal (JString s)) \<Rightarrow> Some s | _ \<Rightarrow> None)"

definition is_positive_integer :: "json \<Rightarrow> bool" where
  "is_positive_integer v = (is_some_and (as_i64 v) (\<lambda>i. 0 < i) \<or> is_some_and (as_u64 v) (\<lambda>n. 0 < n))"

definition sorted_unsupported_fields :: "json omap \<Rightarrow> string list \<Rightarrow> string list" where
  "sorted_unsupported_fields item allowed_fields =
     sort (filter (\<lambda>name. name \<notin> set allowed_fields) (omap_keys item))"

definition is_emitted_step_type :: "string \<Rightarrow> bool" where
  "is_emitted_step_type step_type =
     (step_type \<in> {''copy_files'', ''extract_artifacts'', ''extract_archive'', ''install_apk'', ''wait'',
                    ''grant_permissions'', ''launch_app'', ''force_stop_app''})"

section \<open>Checks of one parameter\<close>

definition on_step :: "string \<Rightarrow> string \<Rightarrow> step \<Rightarrow> string" where
  "on_step param text s =
     ''Param '' @ quoted param @ text @ '' for step type '' @ quoted (step_type_name s) @ ''.''"

definition require_param ::
  "string \<Rightarrow> step \<Rightarrow> param_value omap \<Rightarrow> string \<Rightarrow> json \<Rightarrow> planner_message list" where
  "require_param rid s normalized param expected =
     (if omap_contains normalized param then []
      else [param_contract_message ''missing_required_param'' (on_step param '' is required'' s)
              rid s param expected JNull])"

definition validate_literal_mode_if_present ::
  "string \<Rightarrow> step \<Rightarrow> param_value omap \<Rightarrow> string \<Rightarrow> json \<Rightarrow> planner_message list" where
  "validate_literal_mode_if_present rid s normalized param expected =
     (case omap_get normalized param of
        None \<Rightarrow> []
      | Some (Literal _) \<Rightarrow> []
      | Some v \<Rightarrow> [param_contract_message ''invalid_param_mode'' (on_step param '' must be a literal'' s)
                    rid s param expected (param_value_to_json v)])"

definition validate_literal_list_param ::
  "string \<Rightarrow> step \<Rightarrow> param_value omap \<Rightarrow> string \<Rightarrow> planner_message list" where
  "validate_literal_list_param rid s normalized param =
     (case omap_get normalized param of
        None \<Rightarrow> []
      | Some (Ref _) \<Rightarrow> []
      | Some (Literal (JArray _)) \<Rightarrow> []
      | Some v \<Rightarrow> [param_contract_message ''invalid_param_value''
                    (on_step param '' must be a literal list'' s)
                    rid s param (JString ''literal list'') (param_value_to_json v)])"

definition validate_bool_param ::
  "string \<Rightarrow> step \<Rightarrow> param_value omap \<Rightarrow> string \<Rightarrow> planner_message list" where
  "validate_bool_param rid s normalized param =
     (case omap_get normalized param of
        None \<Rightarrow> []
      | Some (Ref _) \<Rightarrow> []
      | Some (Literal (JBool _)) \<Rightarrow> []
      | Some v \<Rightarrow> [param_contract_message ''invalid_param_value''
                    (on_step param '' must be a literal bool'' s)
                    rid s param (JString ''literal bool'') (param_value_to_json v)])"

definition validate_enum_param ::
  "string \<Rightarrow> step \<Rightarrow> param_value omap \<Rightarrow> string \<Rightarrow> string list \<Rightarrow> planner_message list" where
  "validate_enum_param rid s normalized param allowed =
     (case omap_get normalized param of
        None \<Rightarrow> []
      | Some (Ref _) \<Rightarrow> []
      | Some v \<Rightarrow>
          if is_some_and (literal_string (Some v)) (\<lambda>raw. raw \<in> set allowed) then []
          else [param_contract_message ''invalid_enum_value''
                  (on_step param ('' must be one of '' @ join '', '' allowed) s)
                  rid s param (jstrs allowed) (param_value_to_json v)])"

section \<open>Checks against the table of step types\<close>

definition validate_unknown_params :: "string \<Rightarrow> step \<Rightarrow> step_spec \<Rightarrow> planner_message list" where
  "validate_unknown_params rid s spec =
     map (\<lambda>param.
         param_contract_message ''unknown_param''
           (''Param '' @ quoted param @ '' is not supported for step type ''
            @ quoted (step_type_name s) @ ''.'')
           rid s param (expected_param_names spec)
           (unwrap_or (map_option param_value_to_json (omap_get (step_params s) param)) JNull))
       (sort (filter (\<lambda>param. param \<notin> set (omap_keys (spec_params spec))) (omap_keys (step_params s))))"

definition accepts_param_source :: "step_param \<Rightarrow> string \<Rightarrow> bool" where
  "accepts_param_source spec source = (source \<in> set (sp_accepted_sources spec))"

definition step_output_value_type :: "step \<Rightarrow> string \<Rightarrow> string option" where
  "step_output_value_type s field =
     Option.bind (step_spec_for (step_type_name s)) (\<lambda>spec.
       map_option out_value_type (find (\<lambda>out. out_name out = field) (spec_outputs spec)))"

definition primary_output_value_type :: "step \<Rightarrow> string option" where
  "primary_output_value_type s =
     Option.bind (step_spec_for (step_type_name s)) (\<lambda>spec.
       Option.bind (spec_primary_output_name spec) (\<lambda>primary.
         map_option out_value_type (find (\<lambda>out. out_name out = primary) (spec_outputs spec))))"

fun reference_value_type :: "recipe \<Rightarrow> runtime_ref \<Rightarrow> string option" where
  "reference_value_type r (RInput target_id) =
     map_option (\<lambda>d. input_value_type (input_type_name d) (input_multiple d))
       (omap_get (recipe_inputs r) target_id)"
| "reference_value_type r (RArtifactField target_id field) =
     (if omap_contains (recipe_artifacts r) target_id then artifact_field_value_type field else None)"
| "reference_value_type r (RStepShorthand target_id) =
     Option.bind (find (\<lambda>s. step_id s = target_id) (recipe_steps r)) primary_output_value_type"
| "reference_value_type r (RStepOutput target_id field) =
     Option.bind (find (\<lambda>s. step_id s = target_id) (recipe_steps r))
       (\<lambda>s. step_output_value_type s field)"

definition invalid_param_source ::
  "string \<Rightarrow> step \<Rightarrow> string \<Rightarrow> string \<Rightarrow> step_param \<Rightarrow> param_value \<Rightarrow> planner_message" where
  "invalid_param_source rid s param text spec v =
     param_contract_message ''invalid_param_source'' (on_step param ('' does not accept '' @ text) s)
       rid s param (jstrs (sp_accepted_sources spec)) (param_value_to_json v)"

definition validate_ref_param_contract ::
  "recipes \<Rightarrow> string \<Rightarrow> step \<Rightarrow> string \<Rightarrow> string \<Rightarrow> step_param \<Rightarrow> planner_message list" where
  "validate_ref_param_contract recipes rid s param ref_value spec =
     (case parse_reference ref_value of
        None \<Rightarrow> []
      | Some reference \<Rightarrow>
          let source = source_kind reference in
          if \<not> accepts_param_source spec source
          then [invalid_param_source rid s param (source @ '' values'') spec (Ref ref_value)]
          else
            (case Option.bind (fmlookup recipes rid) (\<lambda>r. reference_value_type r reference) of
               None \<Rightarrow> []
             | Some value_type \<Rightarrow>
                 if value_type \<in> set (sp_accepted_value_types spec) then []
                 else [param_contract_message ''invalid_param_value_type''
                         (on_step param ('' does not accept value type '' @ quoted value_type) s)
                         rid s param (jstrs (sp_accepted_value_types spec))
                         (JObject [(''ref'', JString ref_value),
                                   (''valueType'', JString value_type)])]))"

definition validate_spec_param ::
  "recipes \<Rightarrow> string \<Rightarrow> step \<Rightarrow> string \<Rightarrow> step_param \<Rightarrow> param_value \<Rightarrow> planner_message list" where
  "validate_spec_param recipes rid s param spec v =
     (case v of
        AppTarget _ \<Rightarrow>
          if accepts_param_source spec ''app_target'' then []
          else [invalid_param_source rid s param ''App Targets'' spec v]
      | Literal _ \<Rightarrow>
          if accepts_param_source spec ''literal'' then []
          else [invalid_param_source rid s param ''literal values'' spec v]
      | Ref ref_value \<Rightarrow> validate_ref_param_contract recipes rid s param ref_value spec)"

definition validate_spec_param_contracts ::
  "recipes \<Rightarrow> string \<Rightarrow> step \<Rightarrow> step_spec \<Rightarrow> param_value omap \<Rightarrow> planner_message list" where
  "validate_spec_param_contracts recipes rid s spec normalized =
     concat (map (\<lambda>(param, param_spec).
         case omap_get normalized param of
           None \<Rightarrow> []
         | Some v \<Rightarrow> validate_spec_param recipes rid s param param_spec v)
       (spec_params spec))"

section \<open>Checks of one step type\<close>

definition validate_copy_files_param_values ::
  "string \<Rightarrow> step \<Rightarrow> param_value omap \<Rightarrow> planner_message list" where
  "validate_copy_files_param_values rid s normalized =
     require_param rid s normalized ''source'' (jstrs [''input_ref'', ''artifact_ref'', ''step_output_ref''])
     @ require_param rid s normalized ''dest'' (jstrs [''literal'', ''input_ref''])
     @ validate_enum_param rid s normalized ''copy_policy'' [''merge'', ''replace'', ''sync'']"

definition normalized_artifact_selection_is_empty ::
  "recipes \<Rightarrow> string \<Rightarrow> param_value omap \<Rightarrow> bool" where
  "normalized_artifact_selection_is_empty recipes rid normalized =
     (let selected = string_list (omap_get normalized ''artifacts'');
          groups = string_list (omap_get normalized ''artifact_groups'')
      in (case fmlookup recipes rid of
            Some r \<Rightarrow> selected @ concat (map (\<lambda>group_id.
                case omap_get (recipe_artifact_groups r) group_id of
                  Some group_artifacts \<Rightarrow> group_artifacts | None \<Rightarrow> [group_id]) groups)
          | None \<Rightarrow> selected @ groups) = [])"

definition validate_extract_artifacts_param_values ::
  "recipes \<Rightarrow> string \<Rightarrow> step \<Rightarrow> param_value omap \<Rightarrow> planner_message list" where
  "validate_extract_artifacts_param_values recipes rid s normalized =
     (let errors = validate_literal_list_param rid s normalized ''artifacts''
            @ validate_literal_list_param rid s normalized ''artifact_groups''
            @ validate_enum_param rid s normalized ''extract_on'' [''host'', ''device'']
      in if errors = [] \<and> normalized_artifact_selection_is_empty recipes rid normalized
         then [param_contract_message ''missing_required_param''
                 (''Param '' @ quoted ''artifacts'' @ '' must select at least one artifact directly ''
                  @ ''or through artifact_groups.'')
                 rid s ''artifacts'' (JString ''literal list via artifacts or artifact_groups'') JNull]
         else errors)"

definition validate_extract_archive_param_values ::
  "string \<Rightarrow> step \<Rightarrow> param_value omap \<Rightarrow> planner_message list" where
  "validate_extract_archive_param_values rid s normalized =
     require_param rid s normalized ''archive'' (JString ''ref'')
     @ validate_enum_param rid s normalized ''extract_on'' [''host'', ''device'']
     @ validate_bool_param rid s normalized ''cleanup''
     @ (case literal_string (omap_get normalized ''extract_on'') of
          None \<Rightarrow> []
        | Some extract_on \<Rightarrow>
            if extract_on = ''device'' then
              require_param rid s normalized ''dest'' (JString ''literal when extract_on is device'')
              @ validate_literal_mode_if_present rid s normalized ''dest''
                  (JString ''literal when extract_on is device'')
              @ validate_literal_mode_if_present rid s normalized ''device_temp_path'' (JString ''literal'')
            else if extract_on = ''host'' then
              concat (map (\<lambda>param.
                  case omap_get (step_params s) param of
                    None \<Rightarrow> []
                  | Some v \<Rightarrow>
                      [param_contract_message ''invalid_param_value''
                         (''Param '' @ quoted param
                          @ '' is only valid when extract_archive.extract_on is '' @ quoted ''device'' @ ''.'')
                         rid s param (JString ''only valid when extract_on is device'')
                         (param_value_to_json v)])
                [''dest'', ''device_temp_path''])
            else [])"

definition validate_install_apk_param_values ::
  "string \<Rightarrow> step \<Rightarrow> param_value omap \<Rightarrow> planner_message list" where
  "validate_install_apk_param_values rid s normalized =
     require_param rid s normalized ''app'' (JString ''ref'')
     @ validate_bool_param rid s normalized ''replace_existing''"

definition validate_wait_param_values ::
  "string \<Rightarrow> step \<Rightarrow> param_value omap \<Rightarrow> planner_message list" where
  "validate_wait_param_values rid s normalized =
     require_param rid s normalized ''duration_ms'' (JString ''literal positive integer'')
     @ (case omap_get normalized ''duration_ms'' of
          None \<Rightarrow> []
        | Some v \<Rightarrow>
            (case v of
               Ref _ \<Rightarrow> []
             | _ \<Rightarrow>
                 if (case v of Literal j \<Rightarrow> is_positive_integer j | _ \<Rightarrow> False) then []
                 else [param_contract_message ''invalid_param_value''
                         (on_step ''duration_ms'' '' must be a positive integer'' s)
                         rid s ''duration_ms'' (JString ''literal positive integer'')
                         (param_value_to_json v)]))"

text \<open>The two parameters of a permission step; from \<open>app_permissions.rs\<close>.\<close>

definition validate_permission_set_param ::
  "string \<Rightarrow> step \<Rightarrow> param_value omap \<Rightarrow> planner_message list" where
  "validate_permission_set_param rid s normalized =
     (let expected = jstrs [''baseline'', ''elevated''];
          error = (\<lambda>code text actual. [param_contract_message code text rid s ''permission_set'' expected actual])
      in case omap_get normalized ''permission_set'' of
           None \<Rightarrow>
             error ''missing_required_param''
               (''Param '' @ quoted ''permission_set'' @ '' is required for app-aware step type ''
                @ quoted ''grant_permissions'' @ ''.'') JNull
         | Some actual \<Rightarrow>
             (case literal_string (Some actual) of
                Some name \<Rightarrow>
                  if name \<in> {''baseline'', ''elevated''} then []
                  else error ''invalid_enum_value''
                    (''Param '' @ quoted ''permission_set'' @ '' must be one of baseline, elevated for ''
                     @ ''step type '' @ quoted ''grant_permissions'' @ ''.'') (JString name)
              | None \<Rightarrow>
                  error ''invalid_param_value''
                    (''Param '' @ quoted ''permission_set'' @ '' must be a literal set name for step type ''
                     @ quoted ''grant_permissions'' @ ''.'') (param_value_to_json actual)))"

definition validate_permission_policy ::
  "string \<Rightarrow> step \<Rightarrow> json omap \<Rightarrow> planner_message list" where
  "validate_permission_policy rid s policy =
     map (\<lambda>field_name.
         param_contract_message ''invalid_param_value''
           (''Param '' @ quoted ''policy'' @ '' contains unsupported field '' @ quoted field_name
            @ '' for app-aware permission steps.'')
           rid s (''policy.'' @ field_name) (jstrs [''on_failure''])
           (unwrap_or (omap_get policy field_name) JNull))
       (sorted_unsupported_fields policy [''on_failure''])
     @ (let expected = jstrs [''warn'', ''fail''] in
        case omap_get policy ''on_failure'' of
          None \<Rightarrow>
            [param_contract_message ''missing_required_param''
               (''Param '' @ quoted ''policy.on_failure'' @ '' is required for app-aware step type ''
                @ quoted ''grant_permissions'' @ ''.'') rid s ''policy.on_failure'' expected JNull]
        | Some actual \<Rightarrow>
            if is_some_and (as_str actual) (\<lambda>name. name \<in> {''warn'', ''fail''}) then []
            else [param_contract_message ''invalid_enum_value''
                    (''Param '' @ quoted ''policy.on_failure'' @ '' must be one of warn, fail for step type ''
                     @ quoted ''grant_permissions'' @ ''.'') rid s ''policy.on_failure'' expected actual])"

definition validate_app_permission_param_values ::
  "string \<Rightarrow> step \<Rightarrow> param_value omap \<Rightarrow> planner_message list" where
  "validate_app_permission_param_values rid s normalized =
     validate_permission_set_param rid s normalized
     @ (let expected = JObject [(''on_failure'', jstrs [''warn'', ''fail''])] in
        case omap_get normalized ''policy'' of
          None \<Rightarrow>
            [param_contract_message ''missing_required_param''
               (''Param '' @ quoted ''policy'' @ '' is required for app-aware step type ''
                @ quoted ''grant_permissions'' @ ''.'') rid s ''policy'' expected JNull]
        | Some (Literal (JObject policy)) \<Rightarrow> validate_permission_policy rid s policy
        | Some v \<Rightarrow>
            [param_contract_message ''invalid_param_value''
               (''Param '' @ quoted ''policy'' @ '' must be an object for app-aware step type ''
                @ quoted ''grant_permissions'' @ ''.'') rid s ''policy'' expected (param_value_to_json v)])"

definition validate_focused_param_values ::
  "recipes \<Rightarrow> string \<Rightarrow> step \<Rightarrow> param_value omap \<Rightarrow> planner_message list" where
  "validate_focused_param_values recipes rid s normalized =
     (if step_type_name s = ''copy_files'' then validate_copy_files_param_values rid s normalized
      else if step_type_name s = ''extract_artifacts''
      then validate_extract_artifacts_param_values recipes rid s normalized
      else if step_type_name s = ''extract_archive''
      then validate_extract_archive_param_values rid s normalized
      else if step_type_name s = ''install_apk'' then validate_install_apk_param_values rid s normalized
      else if step_type_name s = ''grant_permissions''
      then validate_app_permission_param_values rid s normalized
      else if step_type_name s = ''wait'' then validate_wait_param_values rid s normalized
      else [])"

section \<open>All steps\<close>

definition validate_step_contract :: "recipes \<Rightarrow> string \<Rightarrow> step \<Rightarrow> planner_message list" where
  "validate_step_contract recipes rid s =
     (case authored_step_spec_for s of
        None \<Rightarrow> []
      | Some spec \<Rightarrow>
          let normalized = params_with_defaults s in
          validate_unknown_params rid s spec
          @ validate_spec_param_contracts recipes rid s spec normalized
          @ validate_focused_param_values recipes rid s normalized)"

definition validate_step_param_contracts :: "recipes \<Rightarrow> emitted list \<Rightarrow> planner_message list" where
  "validate_step_param_contracts recipes steps =
     concat (map (\<lambda>(_, rid, s).
         if is_emitted_step_type (step_type_name s) then validate_step_contract recipes rid s else [])
       steps)"

section \<open>What acceptance means\<close>

text \<open>A value fits a parameter of the table: its source is accepted, and a reference whose type
  is known has an accepted type.\<close>

definition ref_fits :: "recipes \<Rightarrow> string \<Rightarrow> step_param \<Rightarrow> string \<Rightarrow> bool" where
  "ref_fits recipes rid spec ref_value \<longleftrightarrow>
     (\<forall>reference. parse_reference ref_value = Some reference \<longrightarrow>
        source_kind reference \<in> set (sp_accepted_sources spec)
        \<and> (\<forall>r t. fmlookup recipes rid = Some r \<and> reference_value_type r reference = Some t \<longrightarrow>
             t \<in> set (sp_accepted_value_types spec)))"

fun value_fits :: "recipes \<Rightarrow> string \<Rightarrow> step_param \<Rightarrow> param_value \<Rightarrow> bool" where
  "value_fits recipes rid spec (AppTarget _) = (''app_target'' \<in> set (sp_accepted_sources spec))"
| "value_fits recipes rid spec (Literal _) = (''literal'' \<in> set (sp_accepted_sources spec))"
| "value_fits recipes rid spec (Ref ref_value) = ref_fits recipes rid spec ref_value"

text \<open>A literal for a parameter with enumerated values is one of them.\<close>

fun enum_fits :: "step_param \<Rightarrow> param_value \<Rightarrow> bool" where
  "enum_fits spec (Ref _) = True"
| "enum_fits spec v = (sp_enum_values spec = [] \<or>
     is_some_and (literal_string (Some v)) (\<lambda>raw. raw \<in> set (sp_enum_values spec)))"

definition fits_table :: "recipes \<Rightarrow> string \<Rightarrow> step_spec \<Rightarrow> param_value omap \<Rightarrow> bool" where
  "fits_table recipes rid spec params \<longleftrightarrow>
     set (omap_keys params) \<subseteq> set (omap_keys (spec_params spec))
     \<and> (\<forall>param p. (param, p) \<in> set (spec_params spec) \<longrightarrow>
          (sp_required p \<longrightarrow> param \<in> set (omap_keys params))
          \<and> (\<forall>v. omap_get params param = Some v \<longrightarrow> value_fits recipes rid p v \<and> enum_fits p v))"

lemma validate_unknown_params_Nil [simp]:
  "validate_unknown_params rid s spec = [] \<longleftrightarrow>
     set (omap_keys (step_params s)) \<subseteq> set (omap_keys (spec_params spec))"
proof -
  have sort_Nil: "sort xs = [] \<longleftrightarrow> xs = []" for xs :: "string list"
    by (metis set_empty set_sort)
  show ?thesis
    unfolding validate_unknown_params_def map_is_Nil_conv sort_Nil filter_empty_conv by blast
qed

lemma validate_ref_param_contract_Nil [simp]:
  "validate_ref_param_contract recipes rid s param ref_value spec = [] \<longleftrightarrow> ref_fits recipes rid spec ref_value"
  by (auto simp: validate_ref_param_contract_def ref_fits_def accepts_param_source_def Let_def
      split: option.splits bind_splits if_splits)

lemma validate_spec_param_Nil [simp]:
  "validate_spec_param recipes rid s param spec v = [] \<longleftrightarrow> value_fits recipes rid spec v"
  by (cases v) (simp_all add: validate_spec_param_def accepts_param_source_def)

lemma validate_spec_param_contracts_Nil:
  "validate_spec_param_contracts recipes rid s spec normalized = [] \<longleftrightarrow>
     (\<forall>(param, p) \<in> set (spec_params spec). \<forall>v.
        omap_get normalized param = Some v \<longrightarrow> value_fits recipes rid p v)"
  by (auto simp: validate_spec_param_contracts_def split: option.splits prod.splits)

lemma require_param_Nil [simp]:
  "require_param rid s normalized param e = [] \<longleftrightarrow> param \<in> set (omap_keys normalized)"
  by (simp add: require_param_def omap_contains_iff)

lemma validate_enum_param_Nil:
  "validate_enum_param rid s normalized param allowed = [] \<longleftrightarrow>
     (\<forall>v. omap_get normalized param = Some v \<longrightarrow>
        (\<exists>ref. v = Ref ref) \<or> (\<exists>raw \<in> set allowed. v = Literal (JString raw)))"
  by (auto simp: validate_enum_param_def literal_string_def is_some_and_iff
      split: option.splits param_value.splits json.splits)

lemma validate_permission_set_param_Nil:
  "validate_permission_set_param rid s normalized = [] \<longleftrightarrow>
     (\<exists>raw \<in> {''baseline'', ''elevated''}. omap_get normalized ''permission_set'' = Some (Literal (JString raw)))"
  by (auto simp: validate_permission_set_param_def literal_string_def Let_def
      split: option.splits param_value.splits json.splits)

lemma validate_app_permission_Nil:
  assumes "validate_app_permission_param_values rid s normalized = []"
  shows "\<exists>raw \<in> {''baseline'', ''elevated''}. omap_get normalized ''permission_set'' = Some (Literal (JString raw))"
    and "\<exists>policy raw. omap_get normalized ''policy'' = Some (Literal (JObject policy))
           \<and> omap_get policy ''on_failure'' = Some (JString raw) \<and> raw \<in> {''warn'', ''fail''}"
proof -
  show "\<exists>raw \<in> {''baseline'', ''elevated''}. omap_get normalized ''permission_set'' = Some (Literal (JString raw))"
    using assms unfolding validate_app_permission_param_values_def append_is_Nil_conv
      validate_permission_set_param_Nil by blast
  show "\<exists>policy raw. omap_get normalized ''policy'' = Some (Literal (JObject policy))
           \<and> omap_get policy ''on_failure'' = Some (JString raw) \<and> raw \<in> {''warn'', ''fail''}"
    using assms by (auto simp: validate_app_permission_param_values_def validate_permission_policy_def
        Let_def is_some_and_iff split: option.splits param_value.splits json.splits if_splits)
qed

text \<open>The defaults of a step type are parameters of it.\<close>

lemma spec_defaults_known:
  assumes "spec \<in> set step_specs_result"
  shows "set (omap_keys (spec_defaults spec)) \<subseteq> set (omap_keys (spec_params spec))"
  using assms by (auto simp: step_specs_result_def download_remote_file_spec_def resolve_artifacts_spec_def
      extract_artifacts_spec_def extract_archive_spec_def copy_files_spec_def install_apk_spec_def
      grant_permissions_spec_def launch_app_spec_def wait_spec_def force_stop_app_spec_def
      make_spec_def btree_collect_def)

lemma keys_params_with_defaults:
  assumes "step_spec_for (step_type_name s) = Some spec"
  shows "fst ` set (params_with_defaults s) = fst ` set (step_params s) \<union> fst ` set (spec_defaults spec)"
proof -
  have "fst ` set (fold (\<lambda>(name, d). omap_or_insert name (Literal d)) ds m) = fst ` set m \<union> fst ` set ds"
    for ds and m :: "param_value omap"
    by (induction ds arbitrary: m) (auto simp: omap_or_insert_def omap_contains_iff split: if_splits)
  with assms show ?thesis by (simp add: params_with_defaults_def)
qed

text \<open>Authored values are kept; a default is used only where the author gave none.\<close>

lemma omap_get_params_with_defaults:
  assumes "step_spec_for (step_type_name s) = Some spec"
  shows "omap_get (params_with_defaults s) param =
    (case omap_get (step_params s) param of
       Some v \<Rightarrow> Some v
     | None \<Rightarrow> map_option Literal (omap_get (spec_defaults spec) param))"
proof -
  have "omap_get (fold (\<lambda>(name, d). omap_or_insert name (Literal d)) ds m) param =
      (case omap_get m param of Some v \<Rightarrow> Some v | None \<Rightarrow> map_option Literal (omap_get ds param))"
    for ds and m :: "param_value omap"
    by (induction ds arbitrary: m) (auto simp: omap_get_or_insert split: option.splits)
  with assms show ?thesis by (simp add: params_with_defaults_def)
qed

text \<open>The parameters of the emitted step types, as the sorted tables they are.\<close>

lemma emitted_spec_params:
  "omap_keys (spec_params copy_files_spec) = [''copy_policy'', ''dest'', ''source'']"
  "omap_keys (spec_params extract_artifacts_spec) = [''artifact_groups'', ''artifacts'', ''extract_on'']"
  "omap_keys (spec_params extract_archive_spec) =
     [''archive'', ''cleanup'', ''dest'', ''device_temp_path'', ''extract_on'']"
  "omap_keys (spec_params install_apk_spec) = [''app'', ''replace_existing'']"
  "omap_keys (spec_params grant_permissions_spec) = [''permission_set'', ''policy'']"
  "omap_keys (spec_params wait_spec) = [''duration_ms'']"
  "spec_params launch_app_spec = []"
  "spec_params force_stop_app_spec = []"
  by (simp_all add: copy_files_spec_def extract_artifacts_spec_def extract_archive_spec_def
      install_apk_spec_def grant_permissions_spec_def wait_spec_def launch_app_spec_def
      force_stop_app_spec_def make_spec_def btree_collect_def)

definition required_names :: "step_spec \<Rightarrow> string list" where
  "required_names spec = omap_keys (filter (\<lambda>(_, p). sp_required p) (spec_params spec))"

definition enum_params :: "step_spec \<Rightarrow> (string \<times> string list) list" where
  "enum_params spec = filter (\<lambda>(_, vs). vs \<noteq> []) (map (\<lambda>(k, p). (k, sp_enum_values p)) (spec_params spec))"

lemma emitted_required_names:
  "required_names copy_files_spec = [''dest'', ''source'']"
  "required_names extract_artifacts_spec = []"
  "required_names extract_archive_spec = [''archive'']"
  "required_names install_apk_spec = [''app'']"
  "required_names grant_permissions_spec = [''permission_set'', ''policy'']"
  "required_names wait_spec = [''duration_ms'']"
  "required_names launch_app_spec = []"
  "required_names force_stop_app_spec = []"
  by (simp_all add: required_names_def copy_files_spec_def extract_artifacts_spec_def
      extract_archive_spec_def install_apk_spec_def grant_permissions_spec_def wait_spec_def
      launch_app_spec_def force_stop_app_spec_def make_spec_def make_param_def btree_collect_def)

lemma emitted_enum_params:
  "enum_params copy_files_spec = [(''copy_policy'', [''merge'', ''sync'', ''replace''])]"
  "enum_params extract_artifacts_spec = [(''extract_on'', [''host'', ''device''])]"
  "enum_params extract_archive_spec = [(''extract_on'', [''host'', ''device''])]"
  "enum_params install_apk_spec = []"
  "enum_params grant_permissions_spec = [(''permission_set'', [''baseline'', ''elevated''])]"
  "enum_params wait_spec = []"
  "enum_params launch_app_spec = []"
  "enum_params force_stop_app_spec = []"
  by (simp_all add: enum_params_def copy_files_spec_def extract_artifacts_spec_def
      extract_archive_spec_def install_apk_spec_def grant_permissions_spec_def wait_spec_def
      launch_app_spec_def force_stop_app_spec_def make_spec_def make_param_def btree_collect_def)

lemmas emitted_table = emitted_spec_params emitted_required_names emitted_enum_params

text \<open>The checks of one step type cover what the table says of it: the required parameters are
  present and literals of enumerated parameters are among the values.\<close>

lemma focused_checks_table:
  assumes "is_emitted_step_type (step_type_name s)"
    and "step_spec_for (step_type_name s) = Some spec"
    and "validate_focused_param_values recipes rid s normalized = []"
  shows "set (required_names spec) \<subseteq> set (omap_keys normalized)"
    and "\<forall>(param, vs) \<in> set (enum_params spec). \<forall>v. omap_get normalized param = Some v \<longrightarrow>
           (\<exists>ref. v = Ref ref) \<or> (\<exists>raw \<in> set vs. v = Literal (JString raw))"
proof -
  note focused = validate_copy_files_param_values_def validate_extract_artifacts_param_values_def
    validate_extract_archive_param_values_def validate_install_apk_param_values_def
    validate_wait_param_values_def validate_focused_param_values_def Let_def
  have key: "k \<in> set (omap_keys m)" if "omap_get m k = Some v" for m :: "param_value omap" and k v
    using that by (metis map_of_eq_None_iff option.distinct(1) set_map)
  consider "step_type_name s = ''copy_files''" | "step_type_name s = ''extract_artifacts''"
    | "step_type_name s = ''extract_archive''" | "step_type_name s = ''install_apk''"
    | "step_type_name s = ''wait''" | "step_type_name s = ''grant_permissions''"
    | "step_type_name s = ''launch_app''" | "step_type_name s = ''force_stop_app''"
    using assms(1) by (auto simp: is_emitted_step_type_def)
  note types = this
  from types show "set (required_names spec) \<subseteq> set (omap_keys normalized)"
  proof cases
    case 6
    with assms(3) have perm: "validate_app_permission_param_values rid s normalized = []"
      by (simp add: validate_focused_param_values_def)
    from 6 assms(2) validate_app_permission_Nil [OF perm] show ?thesis
      by (auto simp: emitted_required_names dest: key)
  qed (use assms(2,3) in \<open>auto simp: focused emitted_required_names\<close>)
  from types show "\<forall>(param, vs) \<in> set (enum_params spec). \<forall>v. omap_get normalized param = Some v \<longrightarrow>
           (\<exists>ref. v = Ref ref) \<or> (\<exists>raw \<in> set vs. v = Literal (JString raw))"
  proof cases
    case 6
    with assms(3) have perm: "validate_app_permission_param_values rid s normalized = []"
      by (simp add: validate_focused_param_values_def)
    from 6 assms(2) validate_app_permission_Nil(1) [OF perm] show ?thesis
      by (auto simp: emitted_enum_params)
  qed (use assms(2,3) in \<open>auto simp: focused emitted_enum_params validate_enum_param_Nil split: if_splits\<close>)
qed

lemma step_contract_fits:
  assumes "is_emitted_step_type (step_type_name s)"
    and "validate_step_contract recipes rid s = []"
  shows "\<exists>spec. step_spec_for (step_type_name s) = Some spec \<and> fits_table recipes rid spec (params_with_defaults s)"
proof -
  obtain spec where spec: "step_spec_for (step_type_name s) = Some spec"
    using assms(1) by (auto simp: is_emitted_step_type_def)
  let ?n = "params_with_defaults s"
  from assms(2) spec have known: "set (omap_keys (step_params s)) \<subseteq> set (omap_keys (spec_params spec))"
    and sources: "validate_spec_param_contracts recipes rid s spec ?n = []"
    and focused: "validate_focused_param_values recipes rid s ?n = []"
    by (simp_all add: validate_step_contract_def authored_step_spec_for_def Let_def)
  note table = focused_checks_table [OF assms(1) spec focused]
  have "set (omap_keys ?n) \<subseteq> set (omap_keys (spec_params spec))"
    using known spec_defaults_known [OF step_spec_for_cases(2) [OF spec]]
    by (simp add: keys_params_with_defaults [OF spec])
  moreover have "param \<in> set (omap_keys ?n)" if "(param, p) \<in> set (spec_params spec)" "sp_required p" for param p
    using table(1) that by (force simp: required_names_def)
  moreover have "value_fits recipes rid p v \<and> enum_fits p v"
    if "(param, p) \<in> set (spec_params spec)" "omap_get ?n param = Some v" for param p v
  proof
    show "value_fits recipes rid p v"
      using sources that by (auto simp: validate_spec_param_contracts_Nil)
    show "enum_fits p v"
    proof (cases "sp_enum_values p = []")
      case True
      then show ?thesis by (cases v) simp_all
    next
      case False
      with that(1) have "(param, sp_enum_values p) \<in> set (enum_params spec)"
        by (force simp: enum_params_def)
      with table(2) that(2) show ?thesis by (fastforce simp: literal_string_def)
    qed
  qed
  ultimately show ?thesis using spec by (auto simp: fits_table_def)
qed

section \<open>Properties\<close>



end
