(* ===== verification/Host_Paths.thy ===== *)
theory Host_Paths
  imports Authored_Syntax
begin

text \<open>
  Paths of the host, as \<open>std::path\<close> reads them on Unix, and the two functions of \<open>planner.rs\<close>
  that complete a path the user wrote: \<open>expand_user_path\<close> and \<open>normalize_path_string\<close>.
  A path that is not valid UTF-8 cannot occur: every path starts as a JSON string.
\<close>

definition is_absolute :: "string \<Rightarrow> bool" where
  "is_absolute p = starts_with p ''/''"

text \<open>\<open>Path::join\<close>: an absolute path replaces, and a separator is added when it is missing.\<close>

definition path_join :: "string \<Rightarrow> string \<Rightarrow> string" where
  "path_join base p =
     (if is_absolute p then p
      else if base = [] \<or> is_slash (last base) then base @ p
      else base @ ''/'' @ p)"

text \<open>\<open>Path::components\<close> without the root: empty segments are dropped, and \<open>.\<close> is kept only as
  the first segment of a relative path.\<close>

definition path_components :: "string \<Rightarrow> string list" where
  "path_components p =
     (let segments = split_on is_slash p;
          normal = filter (\<lambda>w. w \<noteq> [] \<and> w \<noteq> ''.'') segments
      in if hd segments = ''.'' then ''.'' # normal else normal)"

text \<open>Two paths are equal as \<open>PathBuf\<close>s when they have the same root and components.\<close>

definition path_key :: "string \<Rightarrow> bool \<times> string list" where
  "path_key p = (is_absolute p, path_components p)"

text \<open>\<open>Path::file_name\<close>: the last component, unless it is the root, \<open>.\<close> or \<open>..\<close>.\<close>

definition file_name :: "string \<Rightarrow> string option" where
  "file_name p =
     (let cs = path_components p in
      if cs = [] \<or> last cs \<in> {''.'', ''..''} then None else Some (last cs))"

text \<open>\<open>Path::extension\<close>: what follows the last dot of the file name, if something precedes it.\<close>

definition path_extension :: "string \<Rightarrow> string option" where
  "path_extension p =
     Option.bind (file_name p) (\<lambda>name.
       case rsplit_once ''.'' name of
         None \<Rightarrow> None
       | Some (before, after) \<Rightarrow> if before = [] then None else Some after)"

definition expand_user_path :: "host_env \<Rightarrow> string \<Rightarrow> string" where
  "expand_user_path env raw_value =
     (if raw_value = ''~'' then unwrap_or (env_home env) raw_value
      else (case strip_prefix ''~/'' raw_value of
              None \<Rightarrow> raw_value
            | Some rest \<Rightarrow>
                unwrap_or (map_option (\<lambda>home. path_join home rest) (env_home env)) raw_value))"

definition normalize_path_string :: "host_env \<Rightarrow> string \<Rightarrow> string" where
  "normalize_path_string env raw_value =
     (let expanded = expand_user_path env raw_value in
      if is_absolute expanded then expanded
      else unwrap_or (map_option (\<lambda>cwd. path_join cwd expanded) (env_current_dir env)) expanded)"

section \<open>Facts\<close>

lemma is_absolute_iff: "is_absolute p \<longleftrightarrow> (\<exists>q. p = CHR ''/'' # q)"
  by (auto simp: is_absolute_def starts_with_iff)

lemma is_absolute_path_join: "is_absolute base \<Longrightarrow> is_absolute (path_join base p)"
  by (auto simp: path_join_def is_absolute_iff)

text \<open>With an absolute current directory and home, the result is absolute.\<close>

lemma normalize_path_string_absolute:
  assumes "env_current_dir env = Some cwd" and "is_absolute cwd"
  shows "is_absolute (normalize_path_string env raw)"
  using assms by (simp add: normalize_path_string_def Let_def is_absolute_path_join)

lemma absolute_not_tilde:
  assumes "is_absolute p" shows "expand_user_path env p = p"
proof -
  from assms obtain q where "p = CHR ''/'' # q" by (auto simp: is_absolute_iff)
  then show ?thesis by (simp add: expand_user_path_def)
qed

lemma normalize_path_string_idem:
  assumes "env_current_dir env = Some cwd" and "is_absolute cwd"
  shows "normalize_path_string env (normalize_path_string env raw) = normalize_path_string env raw"
  using normalize_path_string_absolute [OF assms, of raw]
  by (simp add: normalize_path_string_def [of env "normalize_path_string env raw"] absolute_not_tilde)

end
