(* ===== verification/Bindings.thy ===== *)
theory Bindings
  imports Host_Paths Plan_Types Runtime_Refs Samples
begin

text \<open>
  Resolution of runtime inputs, \<open>planner.rs\<close>: the layers of bindings and their precedence
  (\<open>resolve_runtime_bindings\<close>), the validation of a bound value (\<open>validate_binding_value\<close>), the
  runtime values the plan carries (\<open>emit_execution_inputs\<close>) and the review snapshots
  (\<open>execution_review_snapshots\<close>).  What \<open>std::fs\<close> and the environment answer is the argument
  \<open>env\<close>; lower case is \<open>ext_lowercase\<close>.
\<close>

section \<open>Data\<close>

record resolved_input_binding =
  rib_key :: string
  rib_recipe_id :: string
  rib_input_id :: string
  rib_type_name :: string
  rib_value :: "json option"
  rib_source :: "binding_source option"

record binding_diagnostic =
  bd_code :: string
  bd_message :: string
  bd_key :: string
  bd_provenance :: "binding_source option"
  bd_details :: json
  bd_planner_message :: planner_message

record binding_resolution =
  br_resolved_inputs :: "resolved_input_binding list"
  br_diagnostics :: "binding_diagnostic list"

fun binding_source_name :: "binding_source \<Rightarrow> string" where
  "binding_source_name Explicit = ''explicit''"
| "binding_source_name UserConfiguration = ''user_configuration''"
| "binding_source_name DevicePlan = ''device_plan''"
| "binding_source_name RecipeDefault = ''recipe_default''"

definition split_binding_key :: "string \<Rightarrow> (string \<times> string) option" where
  "split_binding_key key =
     (case split_once ''/'' key of
        None \<Rightarrow> None
      | Some (rid, input_id) \<Rightarrow>
          if rid \<noteq> [] \<and> input_id \<noteq> [] \<and> CHR ''/'' \<notin> set input_id then Some (rid, input_id) else None)"

definition binding_diagnostic_of ::
  "planner_message \<Rightarrow> string \<Rightarrow> binding_source option \<Rightarrow> binding_diagnostic" where
  "binding_diagnostic_of m key provenance =
     \<lparr> bd_code = msg_code m, bd_message = msg_message m, bd_key = key, bd_provenance = provenance,
       bd_details =
         (case msg_details m of
            JObject details \<Rightarrow>
              JObject (omap_insert ''provenance'' (jopt (\<lambda>b. JString (binding_source_name b)) provenance)
                         (omap_insert ''key'' (JString key) details))
          | v \<Rightarrow> v),
       bd_planner_message = m \<rparr>"

section \<open>Validation of one value\<close>

definition input_uses_host_path :: "string \<Rightarrow> bool" where
  "input_uses_host_path type_name = (type_name \<in> {''file'', ''directory'', ''path'', ''path_list''})"

definition path_has_prefix :: "string \<Rightarrow> string \<Rightarrow> bool" where
  "path_has_prefix path prefix =
     (path = prefix \<or> is_some_and (strip_prefix prefix path) (\<lambda>suffix. starts_with suffix ''/''))"

definition normalize_allowed_extension :: "externals \<Rightarrow> string \<Rightarrow> string option" where
  "normalize_allowed_extension ext extension =
     (let normalized = ext_lowercase ext (trim extension) in
      if normalized = [] then None
      else if starts_with normalized ''.'' then Some normalized
      else Some (''.'' @ normalized))"

definition extension_is_disallowed :: "externals \<Rightarrow> string \<Rightarrow> string list \<Rightarrow> bool" where
  "extension_is_disallowed ext raw_path allowed_extensions =
     (case path_extension raw_path of
        None \<Rightarrow> False
      | Some extension \<Rightarrow>
          ''.'' @ ext_lowercase ext extension
            \<notin> set (List.map_filter (normalize_allowed_extension ext) allowed_extensions))"

definition binding_error :: "string \<Rightarrow> string \<Rightarrow> string \<Rightarrow> (string \<times> json) list \<Rightarrow> planner_message" where
  "binding_error code key text extra =
     msg code (''Input '' @ quoted key @ text) ((''input_id'', JString key) # extra)"

definition expected_path_kind :: "input_declaration \<Rightarrow> string option" where
  "expected_path_kind d =
     or_else (val_path_kind (input_validation d))
       (if input_type_name d = ''file'' then Some ''file''
        else if input_type_name d = ''directory'' then Some ''directory''
        else None)"

definition check_existing_path ::
  "host_env \<Rightarrow> string \<Rightarrow> input_declaration \<Rightarrow> nat \<Rightarrow> string \<Rightarrow> planner_message list" where
  "check_existing_path env key d entry_index raw_path =
     (if val_must_exist (input_validation d) \<and> input_uses_host_path (input_type_name d) then
        let expected = expected_path_kind d;
            error = (\<lambda>code. [binding_error code key
              ('' must reference an existing '' @ unwrap_or expected ''host path'' @ ''.'')
              [(''expected_path_kind'', jopt JString expected), (''entry_index'', jnat entry_index)]])
        in case env_metadata env raw_path of
             None \<Rightarrow> error ''binding_path_missing''
           | Some metadata \<Rightarrow>
               if (if expected = Some ''file'' then metadata = IsFile
                   else if expected = Some ''directory'' then metadata = IsDir
                   else True)
               then [] else error ''binding_path_kind_mismatch''
      else [])"

definition check_path_rules ::
  "externals \<Rightarrow> string \<Rightarrow> input_declaration \<Rightarrow> nat \<Rightarrow> string \<Rightarrow> planner_message list" where
  "check_path_rules ext key d entry_index raw_path =
     (let v = input_validation d in
      (if val_allowed_prefixes v \<noteq> [] \<and> \<not> list_ex (path_has_prefix raw_path) (val_allowed_prefixes v)
       then [binding_error ''binding_validation_failed'' key '' is outside its allowed path prefixes.''
               [(''allowed_prefixes'', jstrs (val_allowed_prefixes v)), (''entry_index'', jnat entry_index)]]
       else [])
      @ (if val_allowed_extensions v \<noteq> [] \<and> extension_is_disallowed ext raw_path (val_allowed_extensions v)
         then [binding_error ''binding_extension_unsupported'' key '' has an unsupported path extension.''
                 [(''allowed_extensions'', jstrs (val_allowed_extensions v)), (''entry_index'', jnat entry_index)]]
         else []))"

type_synonym path_identity = "bool \<times> string list"

definition path_identity_of :: "host_env \<Rightarrow> string \<Rightarrow> path_identity" where
  "path_identity_of env raw_path =
     path_key (unwrap_or (env_canonicalize env raw_path) (normalize_path_string env raw_path))"

definition declared_option :: "input_declaration \<Rightarrow> json \<Rightarrow> input_option option" where
  "declared_option d v = find (\<lambda>opt. json_eq (option_value opt) v) (input_options d)"

text \<open>The loop over the entries; \<open>canonical_paths\<close> maps an identity to its latest entry.\<close>

fun validate_binding_entries ::
  "externals \<Rightarrow> host_env \<Rightarrow> string \<Rightarrow> input_declaration \<Rightarrow> (path_identity, nat) fmap \<Rightarrow> nat
     \<Rightarrow> json list \<Rightarrow> planner_message list" where
  "validate_binding_entries ext env key d canonical_paths entry_index [] = []"
| "validate_binding_entries ext env key d canonical_paths entry_index (raw_value # rest) =
     (if input_type_name d = ''enum'' \<and> declared_option d raw_value = None
      then binding_error ''binding_validation_failed'' key '' must use a declared enum option.''
             [(''expected'', JArray (map option_value (input_options d)))]
           # validate_binding_entries ext env key d canonical_paths (entry_index + 1) rest
      else (case as_str raw_value of
              None \<Rightarrow> validate_binding_entries ext env key d canonical_paths (entry_index + 1) rest
            | Some raw_path \<Rightarrow>
                check_existing_path env key d entry_index raw_path
                @ check_path_rules ext key d entry_index raw_path
                @ (if input_uses_host_path (input_type_name d) then
                     (let identity = path_identity_of env raw_path in
                      (case fmlookup canonical_paths identity of
                         None \<Rightarrow> []
                       | Some first_entry_index \<Rightarrow>
                           [binding_error ''binding_duplicate_path'' key
                              '' contains the same path more than once.''
                              [(''entry_index'', jnat entry_index),
                               (''first_entry_index'', jnat first_entry_index)]])
                      @ validate_binding_entries ext env key d
                          (fmupd identity entry_index canonical_paths) (entry_index + 1) rest)
                   else validate_binding_entries ext env key d canonical_paths (entry_index + 1) rest)))"

definition validate_binding_value ::
  "externals \<Rightarrow> host_env \<Rightarrow> string \<Rightarrow> input_declaration \<Rightarrow> json \<Rightarrow> planner_message list" where
  "validate_binding_value ext env key d v =
     (if \<not> value_matches_type d v
      then [binding_error ''binding_validation_failed'' key
              ('' requires a value compatible with type '' @ quoted (input_type_name d) @ ''.'')
              [(''expected_type'', JString (input_type_name d))]]
      else
        let items = the (binding_items d v) in
        if input_required d \<and> items = []
        then [binding_error ''binding_validation_failed'' key '' requires at least one value.'' []]
        else validate_binding_entries ext env key d fmempty 0 items)"

section \<open>Effective values\<close>

definition normalize_item :: "host_env \<Rightarrow> json \<Rightarrow> json" where
  "normalize_item env v =
     (case v of JString path \<Rightarrow> JString (normalize_path_string env path) | other \<Rightarrow> other)"

definition normalize_binding_value :: "host_env \<Rightarrow> input_declaration \<Rightarrow> json \<Rightarrow> json" where
  "normalize_binding_value env d v =
     (if input_type_name d \<notin> {''file'', ''directory'', ''path''} then v
      else if input_multiple d
      then (case v of JArray items \<Rightarrow> JArray (map (normalize_item env) items) | other \<Rightarrow> other)
      else normalize_item env v)"

definition binding_value ::
  "host_env \<Rightarrow> input_declaration \<Rightarrow> string \<Rightarrow> json omap \<Rightarrow> json option" where
  "binding_value env d key input_bindings =
     map_option (normalize_binding_value env d)
       (or_else (omap_get input_bindings key)
          (if is_null (input_default d) then None else Some (input_default d)))"

definition binding_to_runtime_value :: "input_declaration \<Rightarrow> json \<Rightarrow> runtime_value" where
  "binding_to_runtime_value d v =
     (let t = input_type_name d;
          (type_name, location) =
            (if input_multiple d then
               (if t \<in> {''string'', ''enum''} then (''string_list'', None)
                else if t = ''device_path'' then (''path_list'', Some ''device'')
                else (''path_list'', Some ''host''))
             else
               (if t = ''file'' then (''file_path'', Some ''host'')
                else if t = ''directory'' then (''directory_path'', Some ''host'')
                else if t = ''path'' then (''path'', Some ''host'')
                else if t = ''device_path'' then (''device_path'', Some ''device'')
                else if t \<in> {''enum'', ''string''} then (''string'', None)
                else if t = ''integer'' then (''integer'', None)
                else if t = ''boolean'' then (''boolean'', None)
                else if t = ''string_list'' then (''string_list'', None)
                else if t = ''path_list'' then (''path_list'', Some ''host'')
                else if t = ''object'' then (''object'', None)
                else (''null'', None)))
      in \<lparr> rv_type_name = type_name, rv_value = v, rv_location = location \<rparr>)"

definition emit_execution_input ::
  "host_env \<Rightarrow> recipes \<Rightarrow> json omap \<Rightarrow> string \<Rightarrow> execution_input_value option" where
  "emit_execution_input env recipes input_bindings key =
     Option.bind (split_once ''/'' key) (\<lambda>(rid, local_input_id).
     Option.bind (fmlookup recipes rid) (\<lambda>r.
     Option.bind (omap_get (recipe_inputs r) local_input_id) (\<lambda>d.
     Option.bind (binding_value env d key input_bindings) (\<lambda>v.
       Some \<lparr> eiv_id = key, eiv_value = binding_to_runtime_value d v \<rparr>))))"

definition emit_execution_inputs ::
  "host_env \<Rightarrow> recipes \<Rightarrow> string list \<Rightarrow> json omap \<Rightarrow> execution_input_value list" where
  "emit_execution_inputs env recipes input_ids input_bindings =
     List.map_filter (emit_execution_input env recipes input_bindings) input_ids"

section \<open>Resolution\<close>

text \<open>The error of one key of a layer.\<close>

definition binding_key_error ::
  "recipes \<Rightarrow> string list \<Rightarrow> string \<Rightarrow> planner_message option" where
  "binding_key_error recipes expanded_recipe_refs key =
     (let error = (\<lambda>code text. Some (msg code (''Binding '' @ quoted key @ text)
                                        [(''input_id'', JString key)]))
      in case split_binding_key key of
           None \<Rightarrow> error ''unknown_binding'' '' is not a qualified recipe input key.''
         | Some (rid, input_id) \<Rightarrow>
             (case fmlookup recipes rid of
                None \<Rightarrow> error ''unknown_binding'' '' references an unknown recipe.''
              | Some r \<Rightarrow>
                  if \<not> omap_contains (recipe_inputs r) input_id
                  then error ''unknown_binding'' '' references an unknown input.''
                  else if rid \<notin> set expanded_recipe_refs
                  then error ''binding_recipe_not_selected''
                         '' is outside the selected recipe dependency set.''
                  else None))"

definition check_binding_layer ::
  "recipes \<Rightarrow> string list \<Rightarrow> binding_source \<times> json omap \<Rightarrow> binding_diagnostic list" where
  "check_binding_layer recipes expanded_recipe_refs layer =
     List.map_filter (\<lambda>key.
         map_option (\<lambda>m. binding_diagnostic_of m key (Some (fst layer)))
           (binding_key_error recipes expanded_recipe_refs key))
       (sort (omap_keys (snd layer)))"

type_synonym binding_layers = "(binding_source \<times> json omap) list"

definition effective_binding ::
  "binding_layers \<Rightarrow> input_declaration \<Rightarrow> string \<Rightarrow> (json \<times> binding_source) option" where
  "effective_binding layers d key =
     or_else
       (foldr (\<lambda>(source, bindings) rest.
            or_else (map_option (\<lambda>v. (v, source)) (omap_get bindings key)) rest) layers None)
       (if is_null (input_default d) then None else Some (input_default d, RecipeDefault))"

definition resolve_input ::
  "externals \<Rightarrow> host_env \<Rightarrow> binding_layers \<Rightarrow> string \<Rightarrow> string \<times> input_declaration
     \<Rightarrow> resolved_input_binding \<times> binding_diagnostic list" where
  "resolve_input ext env layers rid = (\<lambda>(input_id, d).
     let key = make_execution_input_id rid input_id;
         raw = effective_binding layers d key;
         source = map_option snd raw;
         effective = map_option (\<lambda>b. normalize_binding_value env d (fst b)) raw;
         diagnostics =
           (case effective of
              Some v \<Rightarrow> map (\<lambda>m. binding_diagnostic_of m key source) (validate_binding_value ext env key d v)
            | None \<Rightarrow>
                if input_required d
                then [binding_diagnostic_of
                        (msg ''binding_missing'' (''Required binding '' @ quoted key @ '' is missing.'')
                           [(''input_id'', JString key)]) key None]
                else [])
     in (\<lparr> rib_key = key, rib_recipe_id = rid, rib_input_id = input_id,
           rib_type_name = input_type_name d, rib_value = effective, rib_source = source \<rparr>,
         diagnostics))"

definition resolve_recipe_inputs ::
  "externals \<Rightarrow> host_env \<Rightarrow> binding_layers \<Rightarrow> recipes \<Rightarrow> string
     \<Rightarrow> (resolved_input_binding \<times> binding_diagnostic list) list" where
  "resolve_recipe_inputs ext env layers recipes rid =
     (case fmlookup recipes rid of
        None \<Rightarrow> []
      | Some r \<Rightarrow> map (resolve_input ext env layers rid) (recipe_inputs r))"

definition resolve_runtime_bindings ::
  "externals \<Rightarrow> host_env \<Rightarrow> recipes \<Rightarrow> string list \<Rightarrow> json omap \<Rightarrow> json omap \<Rightarrow> json omap
     \<Rightarrow> binding_resolution" where
  "resolve_runtime_bindings ext env recipes expanded_recipe_refs explicit_bindings
       user_configuration_bindings device_plan_bindings =
     (let layers = [(Explicit, explicit_bindings), (UserConfiguration, user_configuration_bindings),
                    (DevicePlan, device_plan_bindings)];
          inputs = concat (map (resolve_recipe_inputs ext env layers recipes) expanded_recipe_refs)
      in \<lparr> br_resolved_inputs = map fst inputs,
           br_diagnostics = concat (map (check_binding_layer recipes expanded_recipe_refs) layers)
                            @ concat (map snd inputs) \<rparr>)"

section \<open>Review snapshots\<close>

definition input_snapshot ::
  "recipes \<Rightarrow> resolved_input_binding \<Rightarrow> planner_message + execution_resolved_input_snapshot" where
  "input_snapshot recipes resolved =
     (case Option.bind (fmlookup recipes (rib_recipe_id resolved))
             (\<lambda>r. omap_get (recipe_inputs r) (rib_input_id resolved)) of
        None \<Rightarrow>
          Inl (msg ''review_input_snapshot_missing''
                 ''A resolved input could not be captured for plan review.''
                 [(''input_id'', JString (rib_key resolved))])
      | Some d \<Rightarrow>
          Inr \<lparr> ris_key = rib_key resolved, ris_recipe_id = rib_recipe_id resolved,
                ris_input_id = rib_input_id resolved, ris_type_name = rib_type_name resolved,
                ris_value = rib_value resolved, ris_source = rib_source resolved,
                ris_label = input_label d, ris_description = input_description d,
                ris_required = input_required d, ris_sensitive = input_sensitive d,
                ris_selected_enum_label =
                  (if input_type_name d = ''enum''
                   then Option.bind (rib_value resolved)
                          (\<lambda>v. map_option option_label (declared_option d v))
                   else None) \<rparr>)"

fun collect_results :: "('e + 'a) list \<Rightarrow> 'e + 'a list" where
  "collect_results [] = Inr []"
| "collect_results (Inl e # rest) = Inl e"
| "collect_results (Inr a # rest) =
     (case collect_results rest of Inl e \<Rightarrow> Inl e | Inr as \<Rightarrow> Inr (a # as))"

type_synonym execution_review_artifacts =
  "execution_device_plan_snapshot option \<times> execution_recipe_snapshot list
     \<times> execution_resolved_input_snapshot list"

definition recipe_snapshot :: "recipe \<Rightarrow> execution_recipe_snapshot" where
  "recipe_snapshot r =
     \<lparr> rs_id = recipe_id r, rs_name = recipe_name r, rs_description = recipe_description r \<rparr>"

definition execution_review_snapshots ::
  "bool \<Rightarrow> execution_device_plan_snapshot option \<Rightarrow> string list \<Rightarrow> recipes
     \<Rightarrow> resolved_input_binding list \<Rightarrow> planner_message + execution_review_artifacts" where
  "execution_review_snapshots emit_review_snapshots device_plan expanded_recipe_refs recipes
       resolved_inputs =
     (if \<not> emit_review_snapshots then Inr (None, [], [])
      else
        let selected = List.map_filter (fmlookup recipes) expanded_recipe_refs;
            expected_input_count = sum_list (map (\<lambda>r. length (recipe_inputs r)) selected)
        in if expected_input_count \<noteq> length resolved_inputs
           then Inl (msg ''review_input_snapshot_incomplete''
                       ''Resolved inputs could not be captured completely for plan review.''
                       [(''expected_count'', jnat expected_input_count),
                        (''resolved_count'', jnat (length resolved_inputs))])
           else (case collect_results (map (input_snapshot recipes) resolved_inputs) of
                   Inl e \<Rightarrow> Inl e
                 | Inr snapshots \<Rightarrow> Inr (device_plan, map recipe_snapshot selected, snapshots)))"

section \<open>Facts\<close>

lemma split_binding_key_Some:
  "split_binding_key key = Some (rid, iid) \<Longrightarrow> key = make_execution_input_id rid iid"
  by (auto simp: split_binding_key_def make_execution_input_id_def split_once_char_Some
      split: option.splits if_splits)

lemma binding_key_error_None:
  "binding_key_error recipes refs key = None \<Longrightarrow>
     \<exists>rid iid r. key = make_execution_input_id rid iid \<and> rid \<in> set refs
       \<and> fmlookup recipes rid = Some r \<and> iid \<in> fst ` set (recipe_inputs r)"
  by (auto simp: binding_key_error_def Let_def omap_contains_iff dest!: split_binding_key_Some
      split: option.splits if_splits) force

lemma map_filter_Nil_iff: "List.map_filter f xs = [] \<longleftrightarrow> (\<forall>x \<in> set xs. f x = None)"
  by (induction xs) (auto simp: List.map_filter_simps split: option.splits)

lemma check_binding_layer_Nil:
  "check_binding_layer recipes refs layer = [] \<longleftrightarrow>
     (\<forall>key \<in> set (omap_keys (snd layer)). binding_key_error recipes refs key = None)"
  by (simp add: check_binding_layer_def map_filter_Nil_iff)

text \<open>A value is acceptable for a declaration: it has the declared shape, a required input has
  an entry, and an enumerated entry is a declared option.\<close>

definition value_acceptable :: "input_declaration \<Rightarrow> json \<Rightarrow> bool" where
  "value_acceptable d v \<longleftrightarrow>
     value_matches_type d v
     \<and> (\<exists>items. binding_items d v = Some items
          \<and> (input_required d \<longrightarrow> items \<noteq> [])
          \<and> (input_type_name d = ''enum'' \<longrightarrow> (\<forall>item \<in> set items. declared_option d item \<noteq> None)))"

lemma validate_binding_entries_enum:
  "validate_binding_entries ext env key d paths i items = [] \<Longrightarrow> input_type_name d = ''enum'' \<Longrightarrow>
     item \<in> set items \<Longrightarrow> declared_option d item \<noteq> None"
  by (induction ext env key d paths i items rule: validate_binding_entries.induct)
     (auto simp: Let_def input_uses_host_path_def split: if_splits option.splits)

text \<open>No two entries of a host path input denote the same path.\<close>

lemma validate_binding_entries_distinct:
  assumes "validate_binding_entries ext env key d paths i items = []"
    and "input_uses_host_path (input_type_name d)"
  shows "distinct (map (path_identity_of env) (List.map_filter as_str items))
    \<and> fmdom' paths \<inter> path_identity_of env ` set (List.map_filter as_str items) = {}"
  using assms(1)
proof (induction items arbitrary: paths i)
  case Nil
  then show ?case by (simp add: List.map_filter_simps)
next
  case (Cons v rest)
  have no_enum: "input_type_name d \<noteq> ''enum''" using assms(2) by (auto simp: input_uses_host_path_def)
  show ?case
  proof (cases "as_str v")
    case None
    with Cons no_enum show ?thesis by (simp add: List.map_filter_simps)
  next
    case (Some p)
    with Cons.prems no_enum assms(2)
    have rest: "validate_binding_entries ext env key d (fmupd (path_identity_of env p) i paths) (i + 1) rest = []"
      and fresh: "fmlookup paths (path_identity_of env p) = None"
      by (simp_all add: Let_def split: option.splits)
    from Cons.IH [OF rest] fresh Some show ?thesis
      by (auto simp: List.map_filter_simps fmlookup_dom'_iff)
  qed
qed

lemma validate_binding_value_Nil:
  assumes "validate_binding_value ext env key d v = []"
  shows "value_acceptable d v"
proof -
  from assms have shape: "value_matches_type d v"
    by (auto simp: validate_binding_value_def split: if_splits)
  obtain items where items: "binding_items d v = Some items"
    using value_matches_type_items [OF shape] by blast
  from assms shape items have entries: "validate_binding_entries ext env key d fmempty 0 items = []"
    and "input_required d \<Longrightarrow> items \<noteq> []"
    by (auto simp: validate_binding_value_def split: if_splits)
  moreover have "declared_option d item \<noteq> None" if "input_type_name d = ''enum''" "item \<in> set items" for item
    using entries that by (rule validate_binding_entries_enum)
  ultimately show ?thesis using shape items by (auto simp: value_acceptable_def)
qed

definition paths_distinct :: "host_env \<Rightarrow> input_declaration \<Rightarrow> json \<Rightarrow> bool" where
  "paths_distinct env d v \<longleftrightarrow>
     (input_uses_host_path (input_type_name d) \<longrightarrow>
        distinct (map (path_identity_of env) (List.map_filter as_str (the (binding_items d v)))))"

lemma validate_binding_value_distinct:
  assumes "validate_binding_value ext env key d v = []"
  shows "paths_distinct env d v"
proof -
  have "validate_binding_entries ext env key d fmempty 0 (the (binding_items d v)) = []
      \<or> the (binding_items d v) = []"
    using assms by (auto simp: validate_binding_value_def Let_def split: if_splits)
  then show ?thesis
    using validate_binding_entries_distinct by (fastforce simp: paths_distinct_def List.map_filter_simps)
qed

text \<open>What a resolved input promises about its declaration.\<close>

definition input_resolved :: "host_env \<Rightarrow> recipes \<Rightarrow> resolved_input_binding \<Rightarrow> bool" where
  "input_resolved env recipes b \<longleftrightarrow>
     (\<exists>r d. fmlookup recipes (rib_recipe_id b) = Some r \<and> (rib_input_id b, d) \<in> set (recipe_inputs r)
        \<and> rib_key b = make_execution_input_id (rib_recipe_id b) (rib_input_id b)
        \<and> rib_type_name b = input_type_name d
        \<and> (input_required d \<longrightarrow> rib_value b \<noteq> None)
        \<and> (\<forall>v. rib_value b = Some v \<longrightarrow> value_acceptable d v \<and> paths_distinct env d v))"

lemma resolve_input_resolved:
  assumes "snd (resolve_input ext env layers rid (iid, d)) = []"
    and "fmlookup recipes rid = Some r" and "(iid, d) \<in> set (recipe_inputs r)"
  shows "input_resolved env recipes (fst (resolve_input ext env layers rid (iid, d)))"
proof -
  let ?b = "fst (resolve_input ext env layers rid (iid, d))"
  let ?key = "make_execution_input_id rid iid"
  have fields: "rib_recipe_id ?b = rid" "rib_input_id ?b = iid" "rib_key ?b = ?key"
    "rib_type_name ?b = input_type_name d"
    by (simp_all add: resolve_input_def Let_def)
  have checked: "validate_binding_value ext env ?key d v = []" if "rib_value ?b = Some v" for v
    using assms(1) that by (auto simp: resolve_input_def Let_def split: option.splits)
  have "input_required d \<longrightarrow> rib_value ?b \<noteq> None"
    using assms(1) by (auto simp: resolve_input_def Let_def split: option.splits if_splits)
  moreover have "value_acceptable d v \<and> paths_distinct env d v" if "rib_value ?b = Some v" for v
    using checked [OF that] validate_binding_value_Nil validate_binding_value_distinct by blast
  ultimately show ?thesis
    using assms(2,3) unfolding input_resolved_def fields(1-4) by blast
qed

lemma resolve_recipe_inputs_cases:
  assumes "x \<in> set (resolve_recipe_inputs ext env layers recipes rid)"
  obtains r iid d where "fmlookup recipes rid = Some r" "(iid, d) \<in> set (recipe_inputs r)"
    and "x = resolve_input ext env layers rid (iid, d)"
proof (cases "fmlookup recipes rid")
  case None
  with assms show ?thesis by (simp add: resolve_recipe_inputs_def)
next
  case (Some r)
  with assms obtain a where "a \<in> set (recipe_inputs r)" "x = resolve_input ext env layers rid a"
    by (auto simp: resolve_recipe_inputs_def)
  with Some that show ?thesis by (cases a) auto
qed

text \<open>The keys the recipes of the expansion declare.\<close>

definition declared_keys :: "recipes \<Rightarrow> string list \<Rightarrow> string set" where
  "declared_keys recipes refs =
     {make_execution_input_id rid iid | rid iid r.
        rid \<in> set refs \<and> fmlookup recipes rid = Some r \<and> iid \<in> fst ` set (recipe_inputs r)}"

definition resolution_sound ::
  "host_env \<Rightarrow> recipes \<Rightarrow> string list \<Rightarrow> json omap list \<Rightarrow> resolved_input_binding list \<Rightarrow> bool" where
  "resolution_sound env recipes refs layers bs \<longleftrightarrow>
     set bs \<subseteq> {b. input_resolved env recipes b}
     \<and> \<Union> (set ` set (map omap_keys layers)) \<subseteq> declared_keys recipes refs"

lemma resolution_sound_Nil:
  assumes "br_diagnostics (resolve_runtime_bindings ext env recipes refs e u p) = []"
  shows "resolution_sound env recipes refs [e, u, p]
           (br_resolved_inputs (resolve_runtime_bindings ext env recipes refs e u p))"
proof -
  let ?layers = "[(Explicit, e), (UserConfiguration, u), (DevicePlan, p)]"
  let ?inputs = "concat (map (resolve_recipe_inputs ext env ?layers recipes) refs)"
  from assms have layers: "\<forall>layer \<in> set ?layers. check_binding_layer recipes refs layer = []"
    and inputs: "\<forall>x \<in> set ?inputs. snd x = []"
    by (auto simp: resolve_runtime_bindings_def Let_def)
  have resolved: "input_resolved env recipes (fst x)" if x: "x \<in> set ?inputs" for x
  proof -
    from x obtain rid where "x \<in> set (resolve_recipe_inputs ext env ?layers recipes rid)" by auto
    then obtain r iid d where "fmlookup recipes rid = Some r" "(iid, d) \<in> set (recipe_inputs r)"
      and res: "x = resolve_input ext env ?layers rid (iid, d)"
      by (rule resolve_recipe_inputs_cases)
    moreover have "snd x = []" using inputs x by blast
    ultimately show ?thesis unfolding res by (intro resolve_input_resolved)
  qed
  have keys: "key \<in> declared_keys recipes refs"
    if "layer \<in> set ?layers" "key \<in> set (omap_keys (snd layer))" for layer key
  proof -
    have "binding_key_error recipes refs key = None"
      using layers that by (simp only: check_binding_layer_Nil)
    from binding_key_error_None [OF this] show ?thesis unfolding declared_keys_def by blast
  qed
  have "br_resolved_inputs (resolve_runtime_bindings ext env recipes refs e u p) = map fst ?inputs"
    by (simp add: resolve_runtime_bindings_def Let_def)
  moreover have "set (map fst ?inputs) \<subseteq> {b. input_resolved env recipes b}"
    using resolved by (simp only: set_map image_subset_iff mem_Collect_eq) blast
  moreover have "\<Union> (set ` set (map omap_keys [e, u, p])) \<subseteq> declared_keys recipes refs"
    using keys [of "(Explicit, e)"] keys [of "(UserConfiguration, u)"] keys [of "(DevicePlan, p)"]
    by (simp only: list.set list.map snd_conv image_insert image_empty) (auto simp only: insert_iff)
  ultimately show ?thesis
    unfolding resolution_sound_def by (simp only: simp_thms)
qed

text \<open>The precedence of the layers, as the value of the first layer that has the key.\<close>

lemma effective_binding_precedence:
  "effective_binding [(Explicit, e), (UserConfiguration, u), (DevicePlan, p)] d key =
     (case (omap_get e key, omap_get u key, omap_get p key) of
        (Some v, _, _) \<Rightarrow> Some (v, Explicit)
      | (None, Some v, _) \<Rightarrow> Some (v, UserConfiguration)
      | (None, None, Some v) \<Rightarrow> Some (v, DevicePlan)
      | (None, None, None) \<Rightarrow>
          if is_null (input_default d) then None else Some (input_default d, RecipeDefault))"
  by (simp add: effective_binding_def split: option.split)

text \<open>The snapshots always find what the resolver produced.\<close>

lemma resolved_input_declared:
  assumes "b \<in> set (br_resolved_inputs (resolve_runtime_bindings ext env recipes refs e u p))"
  shows "\<exists>r d. fmlookup recipes (rib_recipe_id b) = Some r \<and> omap_get (recipe_inputs r) (rib_input_id b) = Some d"
proof -
  let ?layers = "[(Explicit, e), (UserConfiguration, u), (DevicePlan, p)]"
  from assms obtain x rid where "x \<in> set (resolve_recipe_inputs ext env ?layers recipes rid)" and x: "b = fst x"
    by (auto simp: resolve_runtime_bindings_def Let_def)
  from this(1) obtain r iid d where r: "fmlookup recipes rid = Some r" and d: "(iid, d) \<in> set (recipe_inputs r)"
    and b: "x = resolve_input ext env ?layers rid (iid, d)"
    by (rule resolve_recipe_inputs_cases)
  from b x have "rib_recipe_id b = rid" "rib_input_id b = iid"
    by (simp_all add: resolve_input_def Let_def)
  moreover have "omap_get (recipe_inputs r) iid \<noteq> None"
    using weak_map_of_SomeI [OF d] by auto
  ultimately show ?thesis using r by auto
qed

lemma length_resolved_inputs:
  "length (br_resolved_inputs (resolve_runtime_bindings ext env recipes refs e u p)) =
     sum_list (map (\<lambda>r. length (recipe_inputs r)) (List.map_filter (fmlookup recipes) refs))"
  by (induction refs)
    (auto simp: resolve_runtime_bindings_def resolve_recipe_inputs_def Let_def List.map_filter_simps
      split: option.splits)

lemma collect_results_Inr:
  "\<forall>x \<in> set xs. \<exists>a. x = Inr a \<Longrightarrow> collect_results xs = Inr (map projr xs)"
  by (induction xs) auto

lemma input_snapshot_Inr:
  assumes "\<exists>r d. fmlookup recipes (rib_recipe_id b) = Some r \<and> omap_get (recipe_inputs r) (rib_input_id b) = Some d"
  shows "\<exists>a. input_snapshot recipes b = Inr a"
    and "ris_key (projr (input_snapshot recipes b)) = rib_key b
       \<and> ris_value (projr (input_snapshot recipes b)) = rib_value b
       \<and> ris_source (projr (input_snapshot recipes b)) = rib_source b"
  using assms by (auto simp: input_snapshot_def)

text \<open>The review snapshots of resolved inputs never fail: the resolver produces exactly the inputs
  the selected recipes declare, and each snapshot carries the key, the value and the source of
  the input it was taken from.\<close>

lemma execution_review_snapshots_complete:
  "\<exists>rs ss. execution_review_snapshots True dp refs recipes
       (br_resolved_inputs (resolve_runtime_bindings ext env recipes refs e u p)) = Inr (dp, rs, ss)
     \<and> map (\<lambda>s. (ris_key s, ris_value s, ris_source s)) ss
       = map (\<lambda>b. (rib_key b, rib_value b, rib_source b))
           (br_resolved_inputs (resolve_runtime_bindings ext env recipes refs e u p))"
proof -
  let ?bs = "br_resolved_inputs (resolve_runtime_bindings ext env recipes refs e u p)"
  have declared: "\<exists>r d. fmlookup recipes (rib_recipe_id b) = Some r \<and> omap_get (recipe_inputs r) (rib_input_id b) = Some d"
    if "b \<in> set ?bs" for b
    using that by (rule resolved_input_declared)
  then have "collect_results (map (input_snapshot recipes) ?bs) = Inr (map projr (map (input_snapshot recipes) ?bs))"
    by (intro collect_results_Inr) (auto intro: input_snapshot_Inr(1))
  moreover have "map (\<lambda>s. (ris_key s, ris_value s, ris_source s)) (map projr (map (input_snapshot recipes) ?bs))
      = map (\<lambda>b. (rib_key b, rib_value b, rib_source b)) ?bs"
    using input_snapshot_Inr(2) [OF declared] by simp
  ultimately show ?thesis
    using length_resolved_inputs [of ext env recipes refs e u p]
    by (simp add: execution_review_snapshots_def Let_def)
qed

section \<open>Properties\<close>


definition sample_input_recipes :: recipes where
  "sample_input_recipes = fmap_of_list
     [(''a'', sample_recipe ''a'' [] [(''mode'', sample_input ''string'' True JNull)] [])]"


text \<open>
  The layers have a precedence: the value of an input is that of the explicit bindings,
  else of the user configuration, else of the device plan, else a default that is not null, and
  its recorded source is the layer that supplied it.
\<close>

lemma resolve_input_precedence:
  "let key = make_execution_input_id rid iid;
       b = fst (resolve_input ext env [(Explicit, e), (UserConfiguration, u), (DevicePlan, p)] rid (iid, d))
   in rib_value b = map_option (normalize_binding_value env d)
        (or_else (omap_get e key) (or_else (omap_get u key) (or_else (omap_get p key)
           (opt_filter (\<lambda>v. v \<noteq> JNull) (Some (input_default d))))))
    \<and> rib_source b =
        (if key \<in> set (omap_keys e) then Some Explicit
         else if key \<in> set (omap_keys u) then Some UserConfiguration
         else if key \<in> set (omap_keys p) then Some DevicePlan
         else if input_default d = JNull then None else Some RecipeDefault)"
proof -
  have key: "k \<in> set (omap_keys m) \<longleftrightarrow> omap_get m k \<noteq> None" for m :: "json omap" and k
    by (simp add: map_of_eq_None_iff)
  show ?thesis
    unfolding resolve_input_def effective_binding_precedence Let_def key is_null_def
    by (auto split: option.split)
qed

end
