(* ===== verification/Step_Refs.thy ===== *)
theory Step_Refs
  imports Step_Contracts Authored_Syntax
begin

text \<open>
  References from one step to the outputs of another, \<open>planner.rs\<close>: their validation among the
  emitted steps (\<open>validate_step_refs\<close>) and their qualified form in the plan
  (\<open>normalize_ref_for_execution\<close>).
\<close>

section \<open>Validation\<close>

text \<open>One entry of the map the fold builds: the emitted steps of a recipe by identifier.\<close>

definition selected_steps_of :: "emitted list \<Rightarrow> string \<Rightarrow> (string, step) fmap" where
  "selected_steps_of steps rid =
     hash_collect (map (\<lambda>(_, _, s). (step_id s, s)) (filter (\<lambda>(_, r, _). r = rid) steps))"

definition step_ref_error ::
  "string \<Rightarrow> string \<Rightarrow> string \<Rightarrow> step \<Rightarrow> string \<Rightarrow> string \<Rightarrow> (string \<times> json) list \<Rightarrow> planner_message" where
  "step_ref_error code text rid s param ref_value extra =
     msg code (''Step '' @ quoted (step_id s) @ text)
       ([(''recipe_ref'', JString rid), (''step_id'', JString (step_id s)),
         (''param'', JString param), (''ref'', JString ref_value)] @ extra)"

definition unknown_step_ref_message ::
  "string \<Rightarrow> step \<Rightarrow> string \<Rightarrow> string \<Rightarrow> string \<Rightarrow> planner_message" where
  "unknown_step_ref_message rid s param ref_value target_id =
     step_ref_error ''unknown_step_ref'' ('' references unknown step '' @ quoted ref_value @ ''.'')
       rid s param ref_value [(''target_step_id'', JString target_id)]"

definition validate_step_ref ::
  "string \<Rightarrow> step \<Rightarrow> string \<Rightarrow> string \<Rightarrow> (string, step) fmap \<Rightarrow> planner_message list" where
  "validate_step_ref rid s param ref_value selected_steps =
     (case parse_reference ref_value of
        None \<Rightarrow>
          [step_ref_error ''invalid_ref_format''
             ('' param '' @ quoted param @ '' has invalid ref '' @ quoted ref_value @ ''.'')
             rid s param ref_value []]
      | Some (RStepShorthand target_id) \<Rightarrow>
          (case fmlookup selected_steps target_id of
             None \<Rightarrow> [unknown_step_ref_message rid s param ref_value target_id]
           | Some target_step \<Rightarrow>
               if Option.bind (step_spec_for (step_type_name target_step)) spec_primary_output_name = None
               then [step_ref_error ''step_ref_has_no_primary_output''
                       ('' uses shorthand ref '' @ quoted ref_value @ '', but target step ''
                        @ quoted target_id @ '' has no primary output.'')
                       rid s param ref_value [(''target_step_id'', JString target_id)]]
               else [])
      | Some (RStepOutput target_id field) \<Rightarrow>
          (case fmlookup selected_steps target_id of
             None \<Rightarrow> [unknown_step_ref_message rid s param ref_value target_id]
           | Some target_step \<Rightarrow>
               if is_some_and (step_spec_for (step_type_name target_step))
                    (\<lambda>spec. list_ex (\<lambda>out. out_name out = field) (spec_outputs spec))
               then []
               else [step_ref_error ''unknown_step_output''
                       ('' references unknown step output '' @ quoted ref_value @ ''.'')
                       rid s param ref_value
                       [(''target_step_id'', JString target_id), (''output_name'', JString field)]])
      | Some (RInput _) \<Rightarrow> []
      | Some (RArtifactField _ _) \<Rightarrow> [])"

definition validate_step_refs :: "emitted list \<Rightarrow> planner_message list" where
  "validate_step_refs steps =
     concat (map (\<lambda>(_, rid, s).
         concat (map (\<lambda>(param, v).
             case v of
               Ref ref_value \<Rightarrow>
                 if starts_with ref_value ''steps.''
                 then validate_step_ref rid s param ref_value (selected_steps_of steps rid)
                 else []
             | _ \<Rightarrow> [])
           (step_params s)))
       steps)"

section \<open>Qualified references\<close>

definition primary_output_of :: "recipe \<Rightarrow> string \<Rightarrow> string option" where
  "primary_output_of r target_id =
     Option.bind (find (\<lambda>s. step_id s = target_id) (recipe_steps r)) (\<lambda>s.
     Option.bind (step_spec_for (step_type_name s)) spec_primary_output_name)"

definition normalize_ref_for_execution :: "recipe \<Rightarrow> string \<Rightarrow> string" where
  "normalize_ref_for_execution r ref_value =
     (case parse_reference ref_value of
        None \<Rightarrow> ref_value
      | Some (RInput target_id) \<Rightarrow> ''inputs.'' @ make_execution_input_id (recipe_id r) target_id
      | Some (RArtifactField target_id field) \<Rightarrow>
          ''artifacts.'' @ make_execution_artifact_id (recipe_id r) target_id @ ''.'' @ field
      | Some (RStepShorthand target_id) \<Rightarrow>
          ''steps.'' @ make_execution_step_id (recipe_id r) target_id @ ''.outputs.''
            @ unwrap_or (primary_output_of r target_id) []
      | Some (RStepOutput target_id field) \<Rightarrow>
          ''steps.'' @ make_execution_step_id (recipe_id r) target_id @ ''.outputs.'' @ field)"

section \<open>What validation establishes\<close>

text \<open>The reference names an output of an emitted step of the recipe.\<close>

definition resolves_to_output :: "emitted list \<Rightarrow> string \<Rightarrow> string \<Rightarrow> bool" where
  "resolves_to_output steps rid ref_value \<longleftrightarrow>
     (\<exists>target_id field target spec.
        (parse_reference ref_value = Some (RStepOutput target_id field)
         \<or> parse_reference ref_value = Some (RStepShorthand target_id) \<and> spec_primary_output_name spec = Some field)
        \<and> (\<exists>eid. (eid, rid, target) \<in> set steps) \<and> step_id target = target_id
        \<and> step_spec_for (step_type_name target) = Some spec
        \<and> field \<in> out_name ` set (spec_outputs spec))"

lemma selected_steps_of_Some:
  assumes "fmlookup (selected_steps_of steps rid) target_id = Some target"
  shows "\<exists>eid. (eid, rid, target) \<in> set steps" and "step_id target = target_id"
  using hash_collect_Some [OF assms [unfolded selected_steps_of_def]] by auto

lemma spec_primary_output_listed:
  assumes "step_spec_for t = Some spec" and "spec_primary_output_name spec = Some field"
  shows "field \<in> out_name ` set (spec_outputs spec)"
  using spec_primary_output [OF step_spec_for_cases(2) [OF assms(1)] assms(2)]
  by (auto simp: find_Some_iff)

lemma validate_step_ref_Nil:
  assumes "validate_step_ref rid s param ref_value (selected_steps_of steps rid) = []"
    and "starts_with ref_value ''steps.''"
  shows "resolves_to_output steps rid ref_value"
proof -
  from assms(2) obtain body where body: "ref_value = ''steps.'' @ body" by (auto simp: starts_with_iff)
  from assms(1) obtain reference where parsed: "parse_reference ref_value = Some reference"
    by (auto simp: validate_step_ref_def split: option.splits)
  show ?thesis
  proof (cases reference)
    case (RInput t)
    with parsed parse_reference_sound [OF parsed] body show ?thesis by simp
  next
    case (RArtifactField t f)
    with parsed parse_reference_sound [OF parsed] body show ?thesis by simp
  next
    case (RStepShorthand t)
    with assms(1) parsed obtain target spec field where
        "fmlookup (selected_steps_of steps rid) t = Some target"
        "step_spec_for (step_type_name target) = Some spec" "spec_primary_output_name spec = Some field"
      by (auto simp: validate_step_ref_def bind_eq_None_conv split: option.splits if_splits)
    with selected_steps_of_Some [OF this(1)] spec_primary_output_listed [OF this(2,3)] RStepShorthand parsed
    show ?thesis unfolding resolves_to_output_def by blast
  next
    case (RStepOutput t f)
    with assms(1) parsed obtain target spec where
        "fmlookup (selected_steps_of steps rid) t = Some target"
        "step_spec_for (step_type_name target) = Some spec"
        "list_ex (\<lambda>out. out_name out = f) (spec_outputs spec)"
      by (auto simp: validate_step_ref_def is_some_and_iff split: option.splits if_splits)
    moreover from this(3) have "f \<in> out_name ` set (spec_outputs spec)"
      by (auto simp: list_ex_iff)
    ultimately show ?thesis
      using selected_steps_of_Some RStepOutput parsed unfolding resolves_to_output_def by blast
  qed
qed

lemma validate_step_refs_resolve:
  assumes "validate_step_refs steps = []" and "(eid, rid, s) \<in> set steps"
    and "(param, Ref ref_value) \<in> set (step_params s)" and "starts_with ref_value ''steps.''"
  shows "resolves_to_output steps rid ref_value"
proof -
  have "validate_step_ref rid s param ref_value (selected_steps_of steps rid) = []"
    using assms by (fastforce simp: validate_step_refs_def)
  then show ?thesis using assms(4) by (rule validate_step_ref_Nil)
qed

text \<open>The qualified reference is the text of the reference with a qualified target.\<close>

fun qualify :: "recipe \<Rightarrow> runtime_ref \<Rightarrow> runtime_ref" where
  "qualify r (RInput t) = RInput (recipe_id r @ ''/'' @ t)"
| "qualify r (RArtifactField t f) = RArtifactField (recipe_id r @ ''/'' @ t) f"
| "qualify r (RStepShorthand t) =
     RStepOutput (recipe_id r @ ''/'' @ t) (unwrap_or (primary_output_of r t) [])"
| "qualify r (RStepOutput t f) = RStepOutput (recipe_id r @ ''/'' @ t) f"

lemma normalize_ref_show:
  "parse_reference v = Some ref \<Longrightarrow> normalize_ref_for_execution r v = show_ref (qualify r ref)"
  by (cases ref) (simp_all add: normalize_ref_for_execution_def make_execution_input_id_def
      make_execution_artifact_id_def make_execution_step_id_def)

text \<open>A separator without the character \<open>c\<close> that does not occur in \<open>p\<close> is first found after
  \<open>p @ [c]\<close>.\<close>

lemma strip_prefix_past:
  assumes "c \<notin> set sep" and "strip_prefix sep (p @ c # s) \<noteq> None"
  shows "strip_prefix sep p \<noteq> None"
  using assms by (induction sep p rule: strip_prefix.induct) (auto split: if_splits)

lemma split_once_past:
  assumes "c \<notin> set sep" "sep \<noteq> []" and "\<not> contains_str p sep"
  shows "split_once sep (p @ c # s) = map_option (\<lambda>(a, b). (p @ c # a, b)) (split_once sep s)"
  using assms
proof (induction p)
  case Nil
  then have "strip_prefix sep (c # s) = None" by (cases sep) auto
  then show ?case by simp
next
  case (Cons d p)
  then have "strip_prefix sep (d # p @ c # s) = None"
    using strip_prefix_past [of c sep "d # p" s] by (metis append_Cons contains_str.simps(2))
  with Cons show ?case by (auto simp: option.map_comp comp_def case_prod_unfold)
qed

lemma wf_ref_qualified_output:
  assumes "wf_ref (RStepOutput t f)" and "\<not> contains_str rid ''.outputs.''"
  shows "wf_ref (RStepOutput (rid @ ''/'' @ t) f)"
proof -
  have "split_once ''.outputs.'' (rid @ CHR ''/'' # t @ ''.outputs.'' @ f) = Some (rid @ CHR ''/'' # t, f)"
    using split_once_past [of "CHR ''/''" "''.outputs.''" rid "t @ ''.outputs.'' @ f"] assms by simp
  with assms(1) show ?thesis by simp
qed

text \<open>A shorthand stands for the primary output of its target.\<close>

definition shorthand_named :: "recipe \<Rightarrow> runtime_ref \<Rightarrow> bool" where
  "shorthand_named r ref \<longleftrightarrow>
     (\<forall>t. ref = RStepShorthand t \<longrightarrow> wf_ref (RStepOutput t (unwrap_or (primary_output_of r t) [])))"

lemma wf_ref_qualify:
  assumes "wf_ref ref" and "\<not> contains_str (recipe_id r) ''.outputs.''" and "shorthand_named r ref"
  shows "wf_ref (qualify r ref)"
proof (cases ref)
  case (RStepShorthand t)
  with assms(3) have "wf_ref (RStepOutput t (unwrap_or (primary_output_of r t) []))"
    by (simp add: shorthand_named_def)
  from wf_ref_qualified_output [OF this assms(2)] RStepShorthand show ?thesis by simp
next
  case (RStepOutput t f)
  with assms(1) have "wf_ref (RStepOutput t f)" by simp
  from wf_ref_qualified_output [OF this assms(2)] RStepOutput show ?thesis by simp
qed (use assms(1) in simp_all)

section \<open>Properties\<close>

text \<open>
  When the references of the emitted steps pass validation, every parameter that refers to a
  step names an output, given or primary, which the type of an emitted step of the same recipe
  declares.
\<close>

lemma validate_step_refs_sound:
  assumes "validate_step_refs steps = []" and "(eid, rid, s) \<in> set steps"
    and "(param, Ref ref_value) \<in> set (step_params s)" and "starts_with ref_value ''steps.''"
  shows "resolves_to_output steps rid ref_value"
  using assms by (rule validate_step_refs_resolve)

theorem validate_step_refs_sound_witness:
  "resolves_to_output
     [(''r/c'', ''r'', sample_step ''c'' ''copy_files'' [] []),
      (''r/x'', ''r'', sample_step ''x'' ''copy_files'' [''c''] [(''source'', Ref ''steps.c'')])]
     ''r'' ''steps.c''"
proof (rule validate_step_refs_sound)
  show "validate_step_refs
     [(''r/c'', ''r'', sample_step ''c'' ''copy_files'' [] []),
      (''r/x'', ''r'', sample_step ''x'' ''copy_files'' [''c''] [(''source'', Ref ''steps.c'')])] = []"
    by code_simp
  show "(''r/x'', ''r'', sample_step ''x'' ''copy_files'' [''c''] [(''source'', Ref ''steps.c'')]) \<in> set
     [(''r/c'', ''r'', sample_step ''c'' ''copy_files'' [] []),
      (''r/x'', ''r'', sample_step ''x'' ''copy_files'' [''c''] [(''source'', Ref ''steps.c'')])]"
    by simp
qed (simp_all add: sample_step_def starts_with_iff)

text \<open>
  The reference written into the plan parses, with the syntax the executor uses, to the
  authored reference with its target qualified by the recipe, and a shorthand becomes the
  primary output of its step; this needs a recipe identifier without \<open>.outputs.\<close>.
\<close>

lemma normalize_ref_for_execution_parses:
  assumes "parse_reference v = Some ref" and "\<not> contains_str (recipe_id r) ''.outputs.''"
    and "shorthand_named r ref"
  shows "parse_reference (normalize_ref_for_execution r v) = Some (qualify r ref)"
proof -
  have "wf_ref ref" using parse_reference_sound [OF assms(1)] by simp
  from parse_show_ref [OF wf_ref_qualify [OF this assms(2,3)]] show ?thesis
    by (simp add: normalize_ref_show [OF assms(1)])
qed

theorem normalize_ref_for_execution_parses_witness:
  "parse_reference (normalize_ref_for_execution
       (sample_recipe ''r'' [] [] [sample_step ''c'' ''copy_files'' [] []]) ''steps.c'')
     = Some (RStepOutput ''r/c'' ''copied_paths'')"
proof -
  let ?r = "sample_recipe ''r'' [] [] [sample_step ''c'' ''copy_files'' [] []]"
  have primary: "primary_output_of ?r ''c'' = Some ''copied_paths''" by code_simp
  have "parse_reference (normalize_ref_for_execution ?r ''steps.c'') = Some (qualify ?r (RStepShorthand ''c''))"
  proof (rule normalize_ref_for_execution_parses)
    show "parse_reference ''steps.c'' = Some (RStepShorthand ''c'')" by code_simp
    show "\<not> contains_str (recipe_id ?r) ''.outputs.''" by code_simp
    show "shorthand_named ?r (RStepShorthand ''c'')" by (simp add: shorthand_named_def primary)
  qed
  moreover have "recipe_id ?r = ''r''" by code_simp
  ultimately show ?thesis by (simp add: primary)
qed


end
