(* ===== verification/App_Samples.thy ===== *)
theory App_Samples
  imports Samples
begin

text \<open>
  Authored values that involve an App Definition, at which properties are instantiated.
\<close>

definition sample_app ::
  "app_target omap \<Rightarrow> string option \<Rightarrow> app_permission_sets option \<Rightarrow> app_definition" where
  "sample_app targets launcher sets =
     \<lparr> app_schema_version = 1, app_kind = ''app_definition'', app_id = ''emu'', app_name = ''Emu'',
       app_description = None, app_category = None, app_package_id = ''org.emu'',
       app_artifacts = [], app_permission_sets = sets, app_targets = targets,
       app_configurations = [], app_launcher_activity = launcher, app_metadata = [] \<rparr>"

definition sample_target :: "app_target_kind \<Rightarrow> app_target_location \<Rightarrow> string \<Rightarrow> app_target" where
  "sample_target kind location path =
     \<lparr> target_kind = kind, target_location = location, target_path = path \<rparr>"

text \<open>The sample definition is valid when its targets and its launcher are.\<close>

lemma sample_app_valid:
  assumes "validate_targets targets = []" and "validate_launcher_activity launcher = []"
    and "validate_permission_sets sets = []"
  shows "validate_app_definition ext (sample_app targets launcher sets) = []"
proof -
  have "CHR ''E'' \<notin> set (concat white_space_encodings)"
    by (simp add: white_space_encodings_def char_of_def)
  then have "\<not> is_blank ''Emu''" using is_blank_chars [of "''Emu''"] by auto
  moreover have "is_valid_identifier ''emu''" "is_valid_package_id ''org.emu''"
    by code_simp+
  moreover note assms
  ultimately show ?thesis
    by (simp add: validate_app_definition_def sample_app_def validate_identity_def validate_nonblank_def
        validate_optional_nonblank_def validate_package_id_def validate_artifacts_def
        validate_configurations_def validate_metadata_def validate_ordered_map_keys_def)
qed

definition sample_emu :: app_definition where
  "sample_emu = sample_app [(''system'', sample_target TDirectory AppData ''files/system''),
                            (''roms'', sample_target TDirectory SharedStorage ''ROMs'')]
                  (Some ''org.emu.Main'') None"

lemma sample_emu_valid: "validate_app_definition ext sample_emu = []"
proof -
  have "validate_targets (app_targets sample_emu) = []" "validate_launcher_activity (Some ''org.emu.Main'') = []"
    "validate_permission_sets None = []"
    by code_simp+
  then show ?thesis unfolding sample_emu_def by (intro sample_app_valid) (simp_all add: sample_app_def)
qed

definition sample_apps :: apps where
  "sample_apps = fmap_of_list [(''emu'', sample_emu)]"

definition sample_app_step :: "string \<Rightarrow> string \<Rightarrow> string list \<Rightarrow> param_value omap \<Rightarrow> step" where
  "sample_app_step local_id type_name dependencies params =
     sample_step local_id type_name dependencies params \<lparr> step_app_ref := Some ''emu'' \<rparr>"

definition sample_copy :: "string \<Rightarrow> string \<Rightarrow> step" where
  "sample_copy local_id target_id =
     sample_app_step local_id ''copy_files'' []
       [(''source'', Ref ''inputs.dir''), (''dest'', AppTarget target_id)]"

definition sample_copy_recipe :: recipe where
  "sample_copy_recipe =
     sample_recipe ''r'' [] [(''dir'', sample_input ''directory'' True (JString ''/roms''))]
       [sample_copy ''one'' ''system'', sample_copy ''two'' ''roms'']"

definition sample_copy_recipes :: recipes where
  "sample_copy_recipes = fmap_of_list [(''r'', sample_copy_recipe)]"

end
