(* ===== verification/App_Targets.thy ===== *)
theory App_Targets
  imports Step_Contracts Host_Paths App_Samples
begin

text \<open>
  App Targets, \<open>planner/app_targets.rs\<close>: the named directories and files of an App Definition, the
  device paths they stand for (\<open>resolve_target\<close>), and the pass over every expanded step that
  resolves their uses, derives capabilities and rejects overlapping destinations
  (\<open>resolve_usage\<close>).  The loop over one step updates a \<open>usage_state\<close>.
\<close>

section \<open>Targets\<close>

record resolved_target =
  rt_path :: string
  rt_kind :: app_target_kind
  rt_capability :: "string option"

definition resolve_target :: "app_definition \<Rightarrow> string \<Rightarrow> resolved_target option" where
  "resolve_target app target_id =
     Option.bind (omap_get (app_targets app) target_id) (\<lambda>target.
       if \<not> is_valid_target_path (target_location target) (target_path target) then None
       else
         let (path, capability) =
           (case target_location target of
              AppData \<Rightarrow>
                (''/data/user/0/'' @ app_package_id app @ ''/'' @ target_path target,
                 Some ''app_data_write'')
            | ExternalAppData \<Rightarrow>
                (''/storage/emulated/0/Android/data/'' @ app_package_id app @ ''/'' @ target_path target,
                 Some ''app_data_write'')
            | SharedStorage \<Rightarrow>
                (''/storage/emulated/0/'' @ target_path target, Some ''shared_storage_write'')
            | AbsoluteDevicePath \<Rightarrow> (target_path target, None))
         in Some \<lparr> rt_path = path, rt_kind = target_kind target, rt_capability = capability \<rparr>)"

definition usage_message :: "string \<Rightarrow> string \<Rightarrow> step \<Rightarrow> planner_message" where
  "usage_message code rid s =
     msg code (''App-owned target use in step '' @ quoted (step_id s) @ '' is invalid ('' @ code @ '').'')
       [(''recipe_ref'', JString rid), (''step_id'', JString (step_id s))]"

definition resolve_step_target ::
  "externals \<Rightarrow> app_definition option \<Rightarrow> string \<Rightarrow> string \<Rightarrow> step \<Rightarrow> planner_message + resolved_target" where
  "resolve_step_target ext app target_id rid s =
     (if \<not> is_valid_identifier target_id then Inl (usage_message ''app_target_malformed'' rid s)
      else (case app of
              None \<Rightarrow>
                Inl (usage_message (if step_app_ref s \<noteq> None then ''app_definition_unknown''
                                    else ''app_context_required'') rid s)
            | Some a \<Rightarrow>
                if validate_app_definition ext a \<noteq> []
                then Inl (usage_message ''app_definition_invalid'' rid s)
                else ok_or (resolve_target a target_id) (usage_message ''app_target_unknown'' rid s)))"

definition add_capability :: "string list \<Rightarrow> string option \<Rightarrow> string list" where
  "add_capability capabilities capability =
     (case capability of None \<Rightarrow> capabilities | Some c \<Rightarrow> push_new capabilities c)"

section \<open>The App Artifacts a copy source comes from\<close>

definition param_refs :: "step \<Rightarrow> string list" where
  "param_refs s = List.map_filter (\<lambda>v. case v of Ref reference \<Rightarrow> Some reference | _ \<Rightarrow> None)
                    (omap_values (step_params s))"

definition app_artifact_app :: "recipe \<Rightarrow> string \<Rightarrow> string set" where
  "app_artifact_app r artifact_id =
     (case omap_get (recipe_artifacts r) artifact_id of
        Some (AppArtifact artifact) \<Rightarrow> {aref_app_ref artifact}
      | _ \<Rightarrow> {})"

definition extracted_apps :: "recipe \<Rightarrow> step \<Rightarrow> string set" where
  "extracted_apps r producer =
     (if step_type_name producer = ''extract_artifacts''
      then \<Union> (app_artifact_app r ` set (expand_artifact_selection r
              (omap_get (step_params producer) ''artifacts'')
              (omap_get (step_params producer) ''artifact_groups'')))
      else {})"

definition producer_of :: "recipe \<Rightarrow> string \<Rightarrow> step option" where
  "producer_of r target_id = find (\<lambda>s. step_id s = target_id) (recipe_steps r)"

definition referenced_step :: "string \<Rightarrow> string option" where
  "referenced_step reference =
     (case parse_reference reference of
        Some (RStepShorthand target_id) \<Rightarrow> Some target_id
      | Some (RStepOutput target_id _) \<Rightarrow> Some target_id
      | _ \<Rightarrow> None)"

definition referenced_artifact_app :: "recipe \<Rightarrow> string \<Rightarrow> string set" where
  "referenced_artifact_app r reference =
     (case parse_reference reference of
        Some (RArtifactField target_id _) \<Rightarrow> app_artifact_app r target_id
      | _ \<Rightarrow> {})"

text \<open>
  The recursion over the references of a producer shares the set of visited steps, which it
  returns.  A list of references stands for the \<open>flat_map\<close>; \<open>visited \<union> visited'\<close> is \<open>visited'\<close>
  (\<open>source_app_refs_visited\<close>) and shows that the recursion ends.
\<close>

function (sequential) source_app_refs_list ::
  "recipe \<Rightarrow> string list \<Rightarrow> string set \<Rightarrow> string set \<times> string set" where
  "source_app_refs_list r [] visited = ({}, visited)"
| "source_app_refs_list r (reference # rest) visited =
     (let (apps, visited') =
        (case referenced_step reference of
           None \<Rightarrow> (referenced_artifact_app r reference, visited)
         | Some target_id \<Rightarrow>
             if target_id \<in> visited then ({}, visited)
             else (case producer_of r target_id of
                     None \<Rightarrow> ({}, insert target_id visited)
                   | Some producer \<Rightarrow>
                       let (found, visited'') =
                         source_app_refs_list r (param_refs producer) (insert target_id visited)
                       in (found \<union> extracted_apps r producer, visited'')));
        (apps', visited_all) = source_app_refs_list r rest (visited \<union> visited')
      in (apps \<union> apps', visited_all))"
  by pat_completeness auto

definition unvisited :: "recipe \<Rightarrow> string set \<Rightarrow> nat" where
  "unvisited r visited = card (step_id ` set (recipe_steps r) - visited)"

lemma unvisited_insert:
  assumes "producer_of r t = Some producer" and "t \<notin> visited"
  shows "unvisited r (insert t visited) < unvisited r visited"
proof -
  have "t \<in> step_id ` set (recipe_steps r)"
    using assms(1) by (auto simp: producer_of_def find_Some_iff)
  with assms(2) show ?thesis
    unfolding unvisited_def by (intro psubset_card_mono) auto
qed

lemma unvisited_mono: "unvisited r (visited \<union> more') \<le> unvisited r visited"
  unfolding unvisited_def by (intro card_mono) auto

termination source_app_refs_list
proof (relation "(\<lambda>(r, refs, visited). unvisited r visited) <*mlex*>
    measure (\<lambda>(r, refs, visited). length refs)")
  show "wf ((\<lambda>(r, refs, visited). unvisited r visited) <*mlex*>
      measure (\<lambda>(r, refs, visited). length refs))"
    by (simp add: wf_mlex)
qed (auto intro: mlex_less mlex_leq simp: unvisited_insert unvisited_mono)

definition source_app_refs :: "recipe \<Rightarrow> string \<Rightarrow> string set" where
  "source_app_refs r reference = fst (source_app_refs_list r [reference] {})"

section \<open>Resolution of one step\<close>

record destination_target =
  dst_recipe :: string
  dst_target :: string
  dst_identity :: "(string \<times> string) option"
  dst_path :: string

record usage_state =
  ust_usage :: resolved_step_usage
  ust_consumed :: bool
  ust_destinations :: "destination_target list"
  ust_errors :: "planner_message list"

definition push_errors :: "planner_message list \<Rightarrow> usage_state \<Rightarrow> usage_state" where
  "push_errors errors st = st \<lparr> ust_errors := ust_errors st @ errors \<rparr>"

definition push_destination :: "destination_target \<Rightarrow> usage_state \<Rightarrow> usage_state" where
  "push_destination d st = st \<lparr> ust_destinations := ust_destinations st @ [d] \<rparr>"

definition consume :: "usage_state \<Rightarrow> usage_state" where
  "consume st = st \<lparr> ust_consumed := True \<rparr>"

definition set_usage :: "(resolved_step_usage \<Rightarrow> resolved_step_usage) \<Rightarrow> usage_state \<Rightarrow> usage_state" where
  "set_usage f st = st \<lparr> ust_usage := f (ust_usage st) \<rparr>"

definition step_app :: "apps \<Rightarrow> step \<Rightarrow> app_definition option" where
  "step_app apps s = Option.bind (step_app_ref s) (fmlookup apps)"

definition app_context_errors :: "externals \<Rightarrow> apps \<Rightarrow> string \<Rightarrow> step \<Rightarrow> planner_message list" where
  "app_context_errors ext apps rid s =
     (case step_app_ref s of
        None \<Rightarrow> []
      | Some aid \<Rightarrow>
          (if is_none_or (step_spec_for (step_type_name s)) (\<lambda>spec. spec_app_context spec = ContextNone)
           then [usage_message ''app_context_inapplicable'' rid s] else [])
          @ (if \<not> is_valid_identifier aid then [usage_message ''app_reference_invalid'' rid s]
             else (case step_app apps s of
                     None \<Rightarrow> [usage_message ''app_definition_unknown'' rid s]
                   | Some app \<Rightarrow>
                       if validate_app_definition ext app \<noteq> []
                       then [usage_message ''app_definition_invalid'' rid s] else [])))"

text \<open>The source apps are a \<open>HashSet\<close>; every element that differs pushes the same message.\<close>

definition check_copy_source :: "recipe \<Rightarrow> string \<Rightarrow> step \<Rightarrow> usage_state \<Rightarrow> usage_state" where
  "check_copy_source r rid s st =
     (if step_type_name s = ''copy_files''
      then (case omap_get (step_params s) ''source'' of
              Some (Ref source) \<Rightarrow>
                let source_apps = source_app_refs r source;
                    foreign = source_apps - set_option (step_app_ref s)
                in push_errors
                     (replicate (card foreign) (usage_message ''app_source_provenance_mismatch'' rid s))
                     (if source_apps = {} then st else consume st)
            | _ \<Rightarrow> st)
      else st)"

definition copy_policy_of :: "json omap option \<Rightarrow> string \<Rightarrow> step \<Rightarrow> string option" where
  "copy_policy_of bindings rid s =
     (case omap_get (step_params s) ''copy_policy'' of
        Some (Literal v) \<Rightarrow> as_str v
      | Some (Ref reference) \<Rightarrow>
          (case parse_reference reference of
             Some (RInput target_id) \<Rightarrow>
               Option.bind (Option.bind bindings (\<lambda>b. omap_get b (rid @ ''/'' @ target_id))) as_str
           | _ \<Rightarrow> None)
      | _ \<Rightarrow> Some ''merge'')"

definition check_copy_kind ::
  "recipe \<Rightarrow> step \<Rightarrow> json omap option \<Rightarrow> resolved_target \<Rightarrow> string \<Rightarrow> planner_message list" where
  "check_copy_kind r s bindings target rid =
     (if rt_kind target = TDirectory then []
      else
        let source_kind = (case omap_get (step_params s) ''source'' of
              Some (Ref source) \<Rightarrow> Option.bind (parse_reference source) (reference_value_type r)
            | _ \<Rightarrow> None);
            policy = copy_policy_of bindings rid s
        in (if source_kind \<noteq> Some ''file_path''
            then [usage_message ''app_target_kind_invalid'' rid s] else [])
           @ (if policy = Some ''sync''
              then [usage_message ''app_target_sync_requires_directory'' rid s]
              else if policy = None \<and> bindings \<noteq> None
              then [usage_message ''app_target_copy_policy_unresolved'' rid s]
              else []))"

definition use_param ::
  "externals \<Rightarrow> apps \<Rightarrow> recipe \<Rightarrow> json omap option \<Rightarrow> string \<Rightarrow> step \<Rightarrow> string \<times> param_value
     \<Rightarrow> usage_state \<Rightarrow> usage_state" where
  "use_param ext apps r bindings rid s = (\<lambda>(name, v) st.
     case v of
       AppTarget target_id \<Rightarrow>
         if step_type_name s \<noteq> ''copy_files'' \<or> name \<noteq> ''dest''
         then push_errors [usage_message ''app_target_inapplicable'' rid s] st
         else
           (case resolve_step_target ext (step_app apps s) target_id rid s of
              Inl error \<Rightarrow> push_errors [error] (consume st)
            | Inr target \<Rightarrow>
                push_destination
                  \<lparr> dst_recipe = rid, dst_target = target_id,
                    dst_identity = map_option (\<lambda>aid. (aid, target_id)) (step_app_ref s),
                    dst_path = rt_path target \<rparr>
                  (set_usage
                     (\<lambda>u. u \<lparr> usage_capabilities := add_capability (usage_capabilities u) (rt_capability target),
                              usage_dest_kind := Some (rt_kind target),
                              usage_dest := Some (rt_path target) \<rparr>)
                     (push_errors (check_copy_kind r s bindings target rid) (consume st))))
     | Literal (JObject object) \<Rightarrow>
         if omap_contains object ''app_target''
         then push_errors [usage_message ''app_target_malformed'' rid s] st else st
     | _ \<Rightarrow> st)"

definition use_literal_destination :: "string \<Rightarrow> step \<Rightarrow> usage_state \<Rightarrow> usage_state" where
  "use_literal_destination rid s st =
     (if step_type_name s = ''copy_files''
      then (case literal_string (omap_get (step_params s) ''dest'') of
              Some destination_path \<Rightarrow>
                push_destination \<lparr> dst_recipe = rid, dst_target = ''literal_destination'',
                                   dst_identity = None, dst_path = destination_path \<rparr> st
            | None \<Rightarrow> st)
      else st)"

text \<open>One parameter of a condition; the resolved path is threaded beside the state.\<close>

definition use_condition_param ::
  "externals \<Rightarrow> apps \<Rightarrow> string \<Rightarrow> step \<Rightarrow> step_condition \<Rightarrow> string \<times> json
     \<Rightarrow> usage_state \<times> string option \<Rightarrow> usage_state \<times> string option" where
  "use_condition_param ext apps rid s condition = (\<lambda>(name, v) (st, resolved_path).
     case Option.bind (as_object v) (\<lambda>object. map_option (\<lambda>t. (object, t)) (omap_get object ''app_target'')) of
       None \<Rightarrow> (st, resolved_path)
     | Some (object, target) \<Rightarrow>
         if name \<noteq> ''path'' \<or> cond_type_name condition \<notin> {''path_exists'', ''file_exists''}
         then (push_errors [usage_message ''app_target_inapplicable'' rid s] (consume st), resolved_path)
         else if length object \<noteq> 1 \<or> is_none_or (as_str target) (\<lambda>i. \<not> is_valid_identifier i)
         then (push_errors [usage_message ''app_target_malformed'' rid s] (consume st), resolved_path)
         else
           (case resolve_step_target ext (step_app apps s) (unwrap_or (as_str target) []) rid s of
              Inl error \<Rightarrow> (push_errors [error] (consume st), resolved_path)
            | Inr t \<Rightarrow>
                (set_usage (\<lambda>u. u \<lparr> usage_capabilities := add_capability (usage_capabilities u) (rt_capability t) \<rparr>)
                   (push_errors
                      (if cond_type_name condition = ''file_exists'' \<and> rt_kind t \<noteq> TFile
                       then [usage_message ''app_target_kind_invalid'' rid s] else [])
                      (consume st)),
                 Some (rt_path t))))"

definition use_condition ::
  "externals \<Rightarrow> apps \<Rightarrow> string \<Rightarrow> step \<Rightarrow> step_condition \<Rightarrow> usage_state \<Rightarrow> usage_state \<times> string option" where
  "use_condition ext apps rid s condition st =
     fold (use_condition_param ext apps rid s condition) (cond_params condition)
       (push_errors
          (if omap_contains (cond_params condition) ''app_ref''
           then [usage_message ''app_condition_context_inapplicable'' rid s] else []) st,
        None)"

definition use_skip_condition ::
  "externals \<Rightarrow> apps \<Rightarrow> string \<Rightarrow> step \<Rightarrow> step_condition \<Rightarrow> usage_state \<Rightarrow> usage_state" where
  "use_skip_condition ext apps rid s condition st =
     (let (st', path) = use_condition ext apps rid s condition st
      in set_usage (\<lambda>u. u \<lparr> usage_skip_if_paths := usage_skip_if_paths u @ [path] \<rparr>) st')"

definition use_verify_condition ::
  "externals \<Rightarrow> apps \<Rightarrow> string \<Rightarrow> step \<Rightarrow> step_condition \<Rightarrow> usage_state \<Rightarrow> usage_state" where
  "use_verify_condition ext apps rid s condition st =
     (let (st', path) = use_condition ext apps rid s condition st
      in set_usage (\<lambda>u. u \<lparr> usage_verify_paths := usage_verify_paths u @ [path] \<rparr>) st')"

definition initial_usage :: "step \<Rightarrow> usage_state" where
  "initial_usage s =
     \<lparr> ust_usage = \<lparr> usage_dest = None, usage_dest_kind = None, usage_skip_if_paths = [],
                     usage_verify_paths = [],
                     usage_capabilities = constraint_capabilities (step_constraints s) \<rparr>,
       ust_consumed = False, ust_destinations = [], ust_errors = [] \<rparr>"

definition resolve_step_usage ::
  "externals \<Rightarrow> apps \<Rightarrow> json omap option \<Rightarrow> recipe \<Rightarrow> string \<Rightarrow> step \<Rightarrow> usage_state" where
  "resolve_step_usage ext apps bindings r rid s =
     (let st0 = push_errors (app_context_errors ext apps rid s) (initial_usage s);
          st1 = check_copy_source r rid s st0;
          st2 = fold (use_param ext apps r bindings rid s) (step_params s) st1;
          st3 = use_literal_destination rid s st2;
          st4 = fold (use_skip_condition ext apps rid s) (step_skip_if s) st3;
          st5 = fold (use_verify_condition ext apps rid s) (step_verify s) st4
      in push_errors
           (if step_type_name s = ''copy_files'' \<and> step_app_ref s \<noteq> None \<and> \<not> ust_consumed st5
            then [usage_message ''app_context_inapplicable'' rid s] else [])
           st5)"

section \<open>Overlapping destinations\<close>

definition canonical_shared_storage_alias :: "string \<Rightarrow> string" where
  "canonical_shared_storage_alias path =
     (let canonical = ''/storage/emulated/0'';
          alias_of = (\<lambda>alias.
            if path = alias then Some canonical
            else map_option (\<lambda>suffix. canonical @ ''/'' @ suffix)
                   (Option.bind (strip_prefix alias path) (strip_prefix ''/'')))
      in unwrap_or (or_else (alias_of ''/sdcard'') (alias_of ''/storage/self/primary'')) path)"

text \<open>\<open>Path::starts_with\<close> compares whole components, the root among them.\<close>

definition path_parts :: "string \<Rightarrow> string list" where
  "path_parts p = (if is_absolute p then [''/''] else []) @ path_components p"

definition path_starts_with :: "string \<Rightarrow> string \<Rightarrow> bool" where
  "path_starts_with p base = (strip_prefix (path_parts base) (path_parts p) \<noteq> None)"

definition device_paths_overlap :: "string \<Rightarrow> string \<Rightarrow> bool" where
  "device_paths_overlap first second =
     (let a = canonical_shared_storage_alias first; b = canonical_shared_storage_alias second
      in path_starts_with a b \<or> path_starts_with b a)"

definition destination_target_overlap_message ::
  "destination_target \<Rightarrow> destination_target \<Rightarrow> planner_message" where
  "destination_target_overlap_message first second =
     msg ''app_target_destination_overlap''
       (''Selected destination targets '' @ quoted (dst_recipe first @ ''/'' @ dst_target first)
        @ '' and '' @ quoted (dst_recipe second @ ''/'' @ dst_target second) @ '' overlap.'')
       [(''first_recipe_ref'', JString (dst_recipe first)),
        (''first_target_id'', JString (dst_target first)),
        (''second_recipe_ref'', JString (dst_recipe second)),
        (''second_target_id'', JString (dst_target second))]"

fun overlap_errors :: "destination_target list \<Rightarrow> planner_message list" where
  "overlap_errors [] = []"
| "overlap_errors (first # rest) =
     map (destination_target_overlap_message first)
       (filter (\<lambda>second. device_paths_overlap (dst_path first) (dst_path second)) rest)
     @ overlap_errors rest"

section \<open>Resolution of all steps\<close>

definition resolve_recipe_usage ::
  "externals \<Rightarrow> recipes \<Rightarrow> apps \<Rightarrow> json omap option \<Rightarrow> string \<Rightarrow> (string \<times> usage_state) list" where
  "resolve_recipe_usage ext recipes apps bindings rid =
     (case fmlookup recipes rid of
        None \<Rightarrow> []
      | Some r \<Rightarrow>
          map (\<lambda>s. (make_execution_step_id rid (step_id s), resolve_step_usage ext apps bindings r rid s))
            (recipe_steps r))"

definition resolve_usage ::
  "externals \<Rightarrow> recipes \<Rightarrow> string list \<Rightarrow> apps \<Rightarrow> json omap option
     \<Rightarrow> planner_message list + target_usage" where
  "resolve_usage ext recipes expanded_recipe_refs apps bindings =
     (let resolved = concat (map (resolve_recipe_usage ext recipes apps bindings) expanded_recipe_refs);
          errors = concat (map (\<lambda>(_, st). ust_errors st) resolved)
                   @ overlap_errors (concat (map (\<lambda>(_, st). ust_destinations st) resolved))
      in if errors = [] then Inr (hash_collect (map (\<lambda>(sid, st). (sid, ust_usage st)) resolved))
         else Inl errors)"


section \<open>Where the bytes of a copy come from\<close>

text \<open>An app contributes to a reference when the reference names an artifact of the app, or a
  step that extracts one, or a step one of whose own references the app contributes to.\<close>

inductive contributes :: "recipe \<Rightarrow> string \<Rightarrow> string \<Rightarrow> bool" for r :: recipe where
  artifact: "a \<in> referenced_artifact_app r reference \<Longrightarrow> contributes r reference a"
| extracted: "referenced_step reference = Some t \<Longrightarrow> producer_of r t = Some p \<Longrightarrow>
    a \<in> extracted_apps r p \<Longrightarrow> contributes r reference a"
| produced: "referenced_step reference = Some t \<Longrightarrow> producer_of r t = Some p \<Longrightarrow>
    reference' \<in> set (param_refs p) \<Longrightarrow> contributes r reference' a \<Longrightarrow> contributes r reference a"

lemma referenced_step_artifact: "referenced_step reference = Some t \<Longrightarrow> referenced_artifact_app r reference = {}"
  by (auto simp: referenced_step_def referenced_artifact_app_def split: option.splits runtime_ref.splits)

definition covered :: "recipe \<Rightarrow> string set \<Rightarrow> string set \<Rightarrow> string \<Rightarrow> bool" where
  "covered r apps visited reference \<longleftrightarrow>
     referenced_artifact_app r reference \<subseteq> apps
     \<and> (\<forall>t. referenced_step reference = Some t \<longrightarrow> t \<in> visited)"

definition explored :: "recipe \<Rightarrow> string set \<Rightarrow> string set \<Rightarrow> string \<Rightarrow> bool" where
  "explored r apps visited t \<longleftrightarrow>
     (\<forall>p. producer_of r t = Some p \<longrightarrow>
        extracted_apps r p \<subseteq> apps \<and> (\<forall>reference \<in> set (param_refs p). covered r apps visited reference))"

lemma covered_mono: "covered r apps v reference \<Longrightarrow> apps \<subseteq> apps' \<Longrightarrow> v \<subseteq> v' \<Longrightarrow> covered r apps' v' reference"
  by (auto simp: covered_def)

lemma explored_mono: "explored r apps v t \<Longrightarrow> apps \<subseteq> apps' \<Longrightarrow> v \<subseteq> v' \<Longrightarrow> explored r apps' v' t"
  unfolding explored_def using covered_mono [of r apps v _ apps' v'] by blast

lemma explored_closed:
  assumes "contributes r reference a" and "covered r apps v reference" and "\<forall>t \<in> v. explored r apps v t"
  shows "a \<in> apps"
  using assms
proof (induction rule: contributes.induct)
  case (artifact a reference)
  then show ?case by (auto simp: covered_def)
next
  case (extracted reference t p a)
  then show ?case by (auto simp: covered_def explored_def)
next
  case (produced reference t p reference' a)
  then have "t \<in> v" and "explored r apps v t" by (simp_all add: covered_def)
  with produced have "covered r apps v reference'" by (simp add: explored_def)
  with produced show ?case by blast
qed

text \<open>The apps and the visited steps of the first reference of a list.\<close>

definition first_source :: "recipe \<Rightarrow> string \<Rightarrow> string set \<Rightarrow> string set \<times> string set" where
  "first_source r reference visited =
     (case referenced_step reference of
        None \<Rightarrow> (referenced_artifact_app r reference, visited)
      | Some t \<Rightarrow>
          if t \<in> visited then ({}, visited)
          else (case producer_of r t of
                  None \<Rightarrow> ({}, insert t visited)
                | Some producer \<Rightarrow>
                    let (found, visited'') = source_app_refs_list r (param_refs producer) (insert t visited)
                    in (found \<union> extracted_apps r producer, visited'')))"

lemma source_app_refs_list_first:
  "source_app_refs_list r (reference # rest) visited =
     (fst (first_source r reference visited)
        \<union> fst (source_app_refs_list r rest (visited \<union> snd (first_source r reference visited))),
      snd (source_app_refs_list r rest (visited \<union> snd (first_source r reference visited))))"
  by (simp add: first_source_def case_prod_unfold Let_def)

text \<open>What a call establishes for the references it was given.\<close>

definition source_spec ::
  "recipe \<Rightarrow> string list \<Rightarrow> string set \<Rightarrow> string set \<times> string set \<Rightarrow> bool" where
  "source_spec r refs visited result \<longleftrightarrow>
     visited \<subseteq> snd result \<and> finite (fst result)
     \<and> (\<forall>a \<in> fst result. \<exists>reference \<in> set refs. contributes r reference a)
     \<and> (\<forall>reference \<in> set refs. covered r (fst result) (snd result) reference)
     \<and> (\<forall>t \<in> snd result - visited. explored r (fst result) (snd result) t)"

lemma finite_referenced [simp]: "finite (referenced_artifact_app r reference)"
  by (auto simp: referenced_artifact_app_def app_artifact_app_def
      split: option.splits runtime_ref.splits recipe_artifact.splits)

lemma finite_extracted [simp]: "finite (extracted_apps r p)"
  by (auto simp: extracted_apps_def app_artifact_app_def split: option.splits recipe_artifact.splits)

lemma first_source_spec:
  assumes "\<And>t p. referenced_step reference = Some t \<Longrightarrow> t \<notin> visited \<Longrightarrow> producer_of r t = Some p \<Longrightarrow>
      source_spec r (param_refs p) (insert t visited) (source_app_refs_list r (param_refs p) (insert t visited))"
  shows "source_spec r [reference] visited (first_source r reference visited)"
proof (cases "referenced_step reference")
  case None
  then show ?thesis
    by (auto simp: first_source_def source_spec_def covered_def intro: contributes.artifact)
next
  case (Some t)
  note artifact = referenced_step_artifact [OF Some]
  consider "t \<in> visited" | "t \<notin> visited" "producer_of r t = None"
    | p where "t \<notin> visited" "producer_of r t = Some p" by (cases "producer_of r t") auto
  then show ?thesis
  proof cases
    case 1
    with Some artifact show ?thesis by (auto simp: first_source_def source_spec_def covered_def)
  next
    case 2
    with Some artifact show ?thesis
      by (auto simp: first_source_def source_spec_def covered_def explored_def)
  next
    case 3
    let ?c = "source_app_refs_list r (param_refs p) (insert t visited)"
    let ?f = "first_source r reference visited"
    have f: "?f = (fst ?c \<union> extracted_apps r p, snd ?c)"
      using Some 3 by (simp add: first_source_def case_prod_unfold Let_def)
    have spec: "source_spec r (param_refs p) (insert t visited) ?c" by (rule assms [OF Some 3])
    have "explored r (fst ?f) (snd ?f) u" if "u \<in> snd ?f - visited" for u
    proof (cases "u = t")
      case True
      with spec 3(2) show ?thesis
        unfolding f explored_def source_spec_def by (auto intro: covered_mono)
    next
      case False
      with spec that have "explored r (fst ?c) (snd ?c) u" by (auto simp: f source_spec_def)
      then show ?thesis unfolding f by (rule explored_mono) auto
    qed
    moreover have "contributes r reference a" if "a \<in> fst ?f" for a
      using that spec contributes.extracted [OF Some 3(2)] contributes.produced [OF Some 3(2)]
      by (auto simp: f source_spec_def)
    ultimately show ?thesis using spec Some artifact
      by (auto simp: f source_spec_def covered_def)
  qed
qed

lemma source_app_refs_list_spec: "source_spec r refs visited (source_app_refs_list r refs visited)"
proof (induction r refs visited rule: source_app_refs_list.induct)
  case (1 r visited)
  then show ?case by (simp add: source_spec_def)
next
  case (2 r reference rest visited)
  let ?f = "first_source r reference visited"
  let ?rest = "source_app_refs_list r rest (visited \<union> snd ?f)"
  have first: "source_spec r [reference] visited ?f"
    by (rule first_source_spec) (rule 2(1))
  have rest: "source_spec r rest (visited \<union> snd ?f) ?rest"
    by (rule 2(2) [of _ "fst ?f" "snd ?f"]) (simp_all add: first_source_def)
  from rest have sub: "snd ?f \<subseteq> snd ?rest" by (auto simp: source_spec_def)
  have "explored r (fst ?f \<union> fst ?rest) (snd ?rest) t" if "t \<in> snd ?rest - visited" for t
  proof (cases "t \<in> snd ?f")
    case True
    with first that have "explored r (fst ?f) (snd ?f) t" by (auto simp: source_spec_def)
    then show ?thesis by (rule explored_mono) (use sub in auto)
  next
    case False
    with rest that have "explored r (fst ?rest) (snd ?rest) t" by (auto simp: source_spec_def)
    then show ?thesis by (rule explored_mono) auto
  qed
  moreover have "covered r (fst ?f \<union> fst ?rest) (snd ?rest) ref" if "ref \<in> set (reference # rest)" for ref
    using that first rest sub by (auto simp: source_spec_def intro: covered_mono)
  ultimately show ?case
    using first rest unfolding source_app_refs_list_first source_spec_def by auto
qed

lemma source_app_refs_contributes: "source_app_refs r reference = {a. contributes r reference a}"
proof -
  let ?res = "source_app_refs_list r [reference] {}"
  have spec: "source_spec r [reference] {} ?res" by (rule source_app_refs_list_spec)
  then have "covered r (fst ?res) (snd ?res) reference" "\<forall>t \<in> snd ?res. explored r (fst ?res) (snd ?res) t"
    by (auto simp: source_spec_def)
  with spec explored_closed show ?thesis
    unfolding source_app_refs_def source_spec_def by fastforce
qed

lemma finite_source_app_refs: "finite (source_app_refs r reference)"
  using source_app_refs_list_spec [of r "[reference]" "{}"]
  by (simp add: source_app_refs_def source_spec_def)


section \<open>Where targets lie\<close>

text \<open>The directory a location stands for, and a path strictly inside a directory that has no
  empty, \<open>.\<close> or \<open>..\<close> segment below it.\<close>

fun target_root :: "app_target_location \<Rightarrow> string \<Rightarrow> string" where
  "target_root AppData package = ''/data/user/0/'' @ package @ ''/''"
| "target_root ExternalAppData package = ''/storage/emulated/0/Android/data/'' @ package @ ''/''"
| "target_root SharedStorage package = ''/storage/emulated/0/''"
| "target_root AbsoluteDevicePath package = ''/''"

definition inside :: "string \<Rightarrow> string \<Rightarrow> bool" where
  "inside base path \<longleftrightarrow>
     (\<exists>segments. path = base @ join ''/'' segments \<and> segments \<noteq> []
        \<and> list_all path_segment_ok segments \<and> (\<forall>w \<in> set segments. CHR ''/'' \<notin> set w))"

fun location_capability :: "app_target_location \<Rightarrow> string option" where
  "location_capability AppData = Some ''app_data_write''"
| "location_capability ExternalAppData = Some ''app_data_write''"
| "location_capability SharedStorage = Some ''shared_storage_write''"
| "location_capability AbsoluteDevicePath = None"

lemma inside_split:
  assumes "list_all path_segment_ok (split_on is_slash path)"
  shows "inside base (base @ path)"
proof -
  have slash: "is_slash = (\<lambda>x. x = CHR ''/'')" by (auto simp: is_slash_def)
  have "path = join ''/'' (split_on is_slash path)" unfolding slash by (simp add: join_split_on)
  moreover have "CHR ''/'' \<notin> set w" if "w \<in> set (split_on is_slash path)" for w
    using split_on_no_sep [OF that] by (auto simp: is_slash_def)
  ultimately show ?thesis unfolding inside_def using assms split_on_nonempty by blast
qed

definition target_resolved :: "app_definition \<Rightarrow> string \<Rightarrow> resolved_target \<Rightarrow> bool" where
  "target_resolved app target_id t \<longleftrightarrow>
     (\<exists>target. omap_get (app_targets app) target_id = Some target
        \<and> inside (target_root (target_location target) (app_package_id app)) (rt_path t)
        \<and> rt_kind t = target_kind target
        \<and> rt_capability t = location_capability (target_location target))"

lemma resolve_target_resolved:
  assumes "resolve_target app target_id = Some t"
  shows "target_resolved app target_id t"
proof -
  from assms obtain target where target: "omap_get (app_targets app) target_id = Some target"
    by (cases "omap_get (app_targets app) target_id") (auto simp: resolve_target_def)
  with assms have valid: "is_valid_target_path (target_location target) (target_path target)"
    by (auto simp: resolve_target_def split: if_splits)
  show ?thesis
  proof (cases "target_location target")
    case AbsoluteDevicePath
    with valid obtain p where "target_path target = CHR ''/'' # p" "list_all path_segment_ok (split_on is_slash p)"
      by (auto simp: is_valid_target_path_def Let_def starts_with_iff split: if_splits)
    with assms target valid AbsoluteDevicePath inside_split [of p "''/''"] show ?thesis
      by (auto simp: target_resolved_def resolve_target_def)
  next
    case AppData
    with valid have "list_all path_segment_ok (split_on is_slash (target_path target))"
      by (auto simp: is_valid_target_path_def Let_def split: if_splits)
    from inside_split [OF this, of "target_root AppData (app_package_id app)"] assms target valid AppData
    show ?thesis by (auto simp: target_resolved_def resolve_target_def)
  next
    case ExternalAppData
    with valid have "list_all path_segment_ok (split_on is_slash (target_path target))"
      by (auto simp: is_valid_target_path_def Let_def split: if_splits)
    from inside_split [OF this, of "target_root ExternalAppData (app_package_id app)"] assms target valid ExternalAppData
    show ?thesis by (auto simp: target_resolved_def resolve_target_def)
  next
    case SharedStorage
    with valid have "list_all path_segment_ok (split_on is_slash (target_path target))"
      by (auto simp: is_valid_target_path_def Let_def split: if_splits)
    from inside_split [OF this, of "target_root SharedStorage (app_package_id app)"] assms target valid SharedStorage
    show ?thesis by (auto simp: target_resolved_def resolve_target_def)
  qed
qed

section \<open>Invariant of the resolution of one step\<close>

lemma ust_simps [simp]:
  "ust_usage (push_errors es st) = ust_usage st" "ust_consumed (push_errors es st) = ust_consumed st"
  "ust_destinations (push_errors es st) = ust_destinations st" "ust_errors (push_errors es st) = ust_errors st @ es"
  "ust_usage (push_destination d st) = ust_usage st" "ust_consumed (push_destination d st) = ust_consumed st"
  "ust_destinations (push_destination d st) = ust_destinations st @ [d]"
  "ust_errors (push_destination d st) = ust_errors st"
  "ust_usage (consume st) = ust_usage st" "ust_consumed (consume st)"
  "ust_destinations (consume st) = ust_destinations st" "ust_errors (consume st) = ust_errors st"
  "ust_usage (set_usage f st) = f (ust_usage st)" "ust_consumed (set_usage f st) = ust_consumed st"
  "ust_destinations (set_usage f st) = ust_destinations st" "ust_errors (set_usage f st) = ust_errors st"
  by (simp_all add: push_errors_def push_destination_def consume_def set_usage_def)

lemma set_add_capability [simp]:
  "set (add_capability cs c) = set cs \<union> set_option c"
  by (auto simp: add_capability_def split: option.splits)

text \<open>The destination of the step is a resolved target of its app and one of the recorded
  destinations, the effective capabilities extend the authored ones, and there is a path, or
  none, for each condition that was processed.\<close>

definition dest_ok :: "externals \<Rightarrow> apps \<Rightarrow> step \<Rightarrow> usage_state \<Rightarrow> bool" where
  "dest_ok ext apps s st \<longleftrightarrow>
     (\<forall>p. usage_dest (ust_usage st) = Some p \<longrightarrow>
        p \<in> dst_path ` set (ust_destinations st)
        \<and> (\<exists>app target_id t. step_app apps s = Some app \<and> validate_app_definition ext app = []
             \<and> resolve_target app target_id = Some t \<and> p = rt_path t
             \<and> usage_dest_kind (ust_usage st) = Some (rt_kind t)
             \<and> set_option (rt_capability t) \<subseteq> set (usage_capabilities (ust_usage st))))"

definition usage_ok :: "externals \<Rightarrow> apps \<Rightarrow> step \<Rightarrow> nat \<Rightarrow> nat \<Rightarrow> usage_state \<Rightarrow> bool" where
  "usage_ok ext apps s i j st \<longleftrightarrow>
     dest_ok ext apps s st
     \<and> set (constraint_capabilities (step_constraints s)) \<subseteq> set (usage_capabilities (ust_usage st))
     \<and> length (usage_skip_if_paths (ust_usage st)) = i
     \<and> length (usage_verify_paths (ust_usage st)) = j"

lemma usage_ok_same [simp]:
  "usage_ok ext apps s i j (push_errors es st) = usage_ok ext apps s i j st"
  "usage_ok ext apps s i j (consume st) = usage_ok ext apps s i j st"
  by (simp_all add: usage_ok_def dest_ok_def)

lemma usage_ok_push_destination: "usage_ok ext apps s i j st \<Longrightarrow> usage_ok ext apps s i j (push_destination d st)"
  by (auto simp: usage_ok_def dest_ok_def)

lemma usage_ok_add_capability:
  "usage_ok ext apps s i j st \<Longrightarrow>
     usage_ok ext apps s i j (set_usage (\<lambda>u. u \<lparr> usage_capabilities := add_capability (usage_capabilities u) c \<rparr>) st)"
  by (fastforce simp: usage_ok_def dest_ok_def)

lemma resolve_step_target_Inr:
  "resolve_step_target ext app target_id rid s = Inr t \<Longrightarrow>
     \<exists>a. app = Some a \<and> validate_app_definition ext a = [] \<and> resolve_target a target_id = Some t"
  by (auto simp: resolve_step_target_def split: if_splits option.splits)

lemma usage_ok_set_dest:
  assumes "usage_ok ext apps s i j st"
    and "resolve_step_target ext (step_app apps s) target_id rid s = Inr t" and "dst_path d = rt_path t"
  shows "usage_ok ext apps s i j (push_destination d
           (set_usage (\<lambda>u. u \<lparr> usage_capabilities := add_capability (usage_capabilities u) (rt_capability t),
                              usage_dest_kind := Some (rt_kind t), usage_dest := Some (rt_path t) \<rparr>) st))"
proof -
  from resolve_step_target_Inr [OF assms(2)] obtain a where
    "step_app apps s = Some a" "validate_app_definition ext a = []" "resolve_target a target_id = Some t"
    by blast
  with assms(1,3) show ?thesis by (auto simp: usage_ok_def dest_ok_def)
qed

lemma usage_ok_use_param:
  assumes "usage_ok ext apps s i j st"
  shows "usage_ok ext apps s i j (use_param ext apps r b rid s x st)"
proof (cases x)
  case (Pair name v)
  show ?thesis
  proof (cases v)
    case (AppTarget target_id)
    with Pair assms show ?thesis
      by (cases "resolve_step_target ext (step_app apps s) target_id rid s")
        (auto simp: use_param_def intro!: usage_ok_set_dest)
  next
    case (Literal j)
    with Pair assms show ?thesis by (cases j) (auto simp: use_param_def)
  qed (use Pair assms in \<open>auto simp: use_param_def\<close>)
qed

lemma usage_ok_use_condition_param:
  "usage_ok ext apps s i j (fst st) \<Longrightarrow> usage_ok ext apps s i j (fst (use_condition_param ext apps rid s c x st))"
  unfolding use_condition_param_def
  by (cases x; cases st) (auto intro: usage_ok_add_capability split: option.splits sum.splits)

lemma usage_ok_use_condition:
  "usage_ok ext apps s i j st \<Longrightarrow> usage_ok ext apps s i j (fst (use_condition ext apps rid s c st))"
proof -
  have "usage_ok ext apps s i j (fst st) \<Longrightarrow>
      usage_ok ext apps s i j (fst (fold (use_condition_param ext apps rid s c) ps st))" for ps st
    by (induction ps arbitrary: st) (simp_all add: usage_ok_use_condition_param)
  moreover assume "usage_ok ext apps s i j st"
  ultimately show ?thesis by (simp add: use_condition_def)
qed

lemma usage_ok_conditions:
  "usage_ok ext apps s i j st \<Longrightarrow> usage_ok ext apps s (i + length cs) j (fold (use_skip_condition ext apps rid s) cs st)"
  "usage_ok ext apps s i j st \<Longrightarrow> usage_ok ext apps s i (j + length cs) (fold (use_verify_condition ext apps rid s) cs st)"
proof -
  have paths: "usage_ok ext apps s (Suc i) j (set_usage (\<lambda>u. u \<lparr> usage_skip_if_paths := usage_skip_if_paths u @ [p] \<rparr>) st)"
    "usage_ok ext apps s i (Suc j) (set_usage (\<lambda>u. u \<lparr> usage_verify_paths := usage_verify_paths u @ [p] \<rparr>) st)"
    if "usage_ok ext apps s i j st" for i j p st
    using that by (simp_all add: usage_ok_def dest_ok_def)
  have skip: "usage_ok ext apps s (Suc i) j (use_skip_condition ext apps rid s c st)"
    and verify: "usage_ok ext apps s i (Suc j) (use_verify_condition ext apps rid s c st)"
    if "usage_ok ext apps s i j st" for i j c st
    using paths [OF usage_ok_use_condition [OF that, of rid c]]
    by (simp_all add: use_skip_condition_def use_verify_condition_def case_prod_unfold Let_def)
  show "usage_ok ext apps s i j st \<Longrightarrow> usage_ok ext apps s (i + length cs) j (fold (use_skip_condition ext apps rid s) cs st)"
  proof (induction cs arbitrary: i st)
    case (Cons c cs)
    from Cons.IH [OF skip [OF Cons.prems, of c]] show ?case by simp
  qed simp
  show "usage_ok ext apps s i j st \<Longrightarrow> usage_ok ext apps s i (j + length cs) (fold (use_verify_condition ext apps rid s) cs st)"
  proof (induction cs arbitrary: j st)
    case (Cons c cs)
    from Cons.IH [OF verify [OF Cons.prems, of c]] show ?case by simp
  qed simp
qed

lemma usage_ok_resolve:
  "usage_ok ext apps s (length (step_skip_if s)) (length (step_verify s)) (resolve_step_usage ext apps b r rid s)"
proof -
  have "usage_ok ext apps s 0 0 (push_errors (app_context_errors ext apps rid s) (initial_usage s))"
    by (simp add: usage_ok_def dest_ok_def initial_usage_def)
  then have "usage_ok ext apps s 0 0 (check_copy_source r rid s
      (push_errors (app_context_errors ext apps rid s) (initial_usage s)))"
    by (auto simp: check_copy_source_def Let_def split: option.splits param_value.splits)
  moreover have "usage_ok ext apps s 0 0 st \<Longrightarrow> usage_ok ext apps s 0 0 (fold (use_param ext apps r b rid s) ps st)" for ps st
    by (induction ps arbitrary: st) (simp_all add: usage_ok_use_param)
  moreover have "usage_ok ext apps s 0 0 st \<Longrightarrow> usage_ok ext apps s 0 0 (use_literal_destination rid s st)" for st
    by (simp add: use_literal_destination_def usage_ok_push_destination split: option.splits)
  ultimately have "usage_ok ext apps s 0 0 (use_literal_destination rid s
      (fold (use_param ext apps r b rid s) (step_params s) (check_copy_source r rid s
        (push_errors (app_context_errors ext apps rid s) (initial_usage s)))))"
    by blast
  from usage_ok_conditions(2) [OF usage_ok_conditions(1) [OF this, of "step_skip_if s" rid], of "step_verify s" rid]
  show ?thesis unfolding resolve_step_usage_def Let_def usage_ok_same by simp
qed


section \<open>Errors are only added\<close>

definition adds_errors :: "(usage_state \<Rightarrow> usage_state) \<Rightarrow> bool" where
  "adds_errors f \<longleftrightarrow> (\<forall>st. set (ust_errors st) \<subseteq> set (ust_errors (f st)))"

lemma adds_errors_fold: "(\<And>x. adds_errors (f x)) \<Longrightarrow> adds_errors (fold f xs)"
proof (induction xs)
  case (Cons x xs)
  then have "adds_errors (f x)" "adds_errors (fold f xs)" by blast+
  then show ?case by (fastforce simp: adds_errors_def)
qed (simp add: adds_errors_def)

lemma adds_errors_use_param: "adds_errors (use_param ext apps r b rid s x)"
  unfolding adds_errors_def use_param_def
  by (cases x) (auto split: param_value.splits json.splits sum.splits)

lemma adds_errors_use_literal: "adds_errors (use_literal_destination rid s)"
  by (auto simp: adds_errors_def use_literal_destination_def split: option.splits)

lemma errors_use_condition: "set (ust_errors st) \<subseteq> set (ust_errors (fst (use_condition ext apps rid s c st)))"
proof -
  have step: "set (ust_errors (fst st)) \<subseteq> set (ust_errors (fst (use_condition_param ext apps rid s c p st)))" for p st
    unfolding use_condition_param_def by (cases p; cases st) (auto split: option.splits sum.splits)
  have "set (ust_errors (fst st)) \<subseteq> set (ust_errors (fst (fold (use_condition_param ext apps rid s c) ps st)))" for ps st
  proof (induction ps arbitrary: st)
    case (Cons p ps)
    with step [of st p] show ?case by (simp only: fold_simps) blast
  qed simp
  from this [of "(push_errors _ st, None)"] show ?thesis by (simp add: use_condition_def)
qed

lemma adds_errors_conditions: "adds_errors (use_skip_condition ext apps rid s c)"
  "adds_errors (use_verify_condition ext apps rid s c)"
  using errors_use_condition [of _ ext apps rid s c]
  by (auto simp: adds_errors_def use_skip_condition_def use_verify_condition_def case_prod_unfold Let_def)

lemma resolve_step_usage_errors:
  "set (ust_errors (check_copy_source r rid s (push_errors (app_context_errors ext apps rid s) (initial_usage s))))
     \<subseteq> set (ust_errors (resolve_step_usage ext apps b r rid s))"
proof -
  have "adds_errors (fold (use_param ext apps r b rid s) (step_params s))"
    by (rule adds_errors_fold) (rule adds_errors_use_param)
  moreover have "adds_errors (use_literal_destination rid s)" by (rule adds_errors_use_literal)
  moreover have "adds_errors (fold (use_skip_condition ext apps rid s) (step_skip_if s))"
    by (rule adds_errors_fold) (rule adds_errors_conditions)
  moreover have "adds_errors (fold (use_verify_condition ext apps rid s) (step_verify s))"
    by (rule adds_errors_fold) (rule adds_errors_conditions)
  ultimately have chain: "set (ust_errors st) \<subseteq> set (ust_errors (fold (use_verify_condition ext apps rid s) (step_verify s)
      (fold (use_skip_condition ext apps rid s) (step_skip_if s) (use_literal_destination rid s
        (fold (use_param ext apps r b rid s) (step_params s) st)))))" for st
    unfolding adds_errors_def by blast
  show ?thesis unfolding resolve_step_usage_def Let_def ust_simps set_append using chain by blast
qed

text \<open>A step without errors copies only what its own app contributes.\<close>

lemma resolve_step_usage_source:
  assumes "ust_errors (resolve_step_usage ext apps b r rid s) = []"
    and "step_type_name s = ''copy_files''" and "omap_get (step_params s) ''source'' = Some (Ref source)"
  shows "source_app_refs r source \<subseteq> set_option (step_app_ref s)"
proof -
  let ?foreign = "source_app_refs r source - set_option (step_app_ref s)"
  have "ust_errors (check_copy_source r rid s (push_errors (app_context_errors ext apps rid s) (initial_usage s))) = []"
    using resolve_step_usage_errors [of r rid s ext apps b] assms(1) by simp
  with assms(2,3) have "card ?foreign = 0"
    by (simp add: check_copy_source_def Let_def)
  moreover have "finite ?foreign" using finite_source_app_refs by blast
  ultimately have "?foreign = {}" by (simp only: card_0_eq)
  then show ?thesis by blast
qed

text \<open>A step without errors that names an app has a valid definition for it.\<close>

lemma resolve_step_usage_app:
  assumes "ust_errors (resolve_step_usage ext apps b r rid s) = []" and "step_app_ref s = Some aid"
  shows "\<exists>app. fmlookup apps aid = Some app \<and> validate_app_definition ext app = []"
proof -
  have "app_context_errors ext apps rid s = []"
    using resolve_step_usage_errors [of r rid s ext apps b] assms(1)
    by (auto simp: check_copy_source_def Let_def split: if_splits option.splits param_value.splits)
  with assms(2) show ?thesis
    by (auto simp: app_context_errors_def step_app_def split: if_splits option.splits)
qed

section \<open>Disjoint destinations\<close>

lemma overlap_errors_Nil:
  "overlap_errors ds = [] \<longleftrightarrow>
     sorted_wrt (\<lambda>a b. \<not> device_paths_overlap (dst_path a) (dst_path b)) ds"
  by (induction ds) (auto simp: filter_empty_conv)

lemma device_paths_overlap_sym: "device_paths_overlap p q = device_paths_overlap q p"
  by (auto simp: device_paths_overlap_def Let_def)

lemma device_paths_overlap_refl: "device_paths_overlap p p"
  by (simp add: device_paths_overlap_def path_starts_with_def)

text \<open>The device paths below a directory; a path shared by two directories makes them overlap.\<close>

definition below :: "string \<Rightarrow> string set" where
  "below base = {p. path_starts_with p (canonical_shared_storage_alias base)}"

lemma disjoint_below:
  assumes "\<not> device_paths_overlap p q" shows "below p \<inter> below q = {}"
proof (rule ccontr)
  assume "below p \<inter> below q \<noteq> {}"
  then obtain x where x: "x \<in> below p" "x \<in> below q" by blast
  let ?p = "path_parts (canonical_shared_storage_alias p)"
  let ?q = "path_parts (canonical_shared_storage_alias q)"
  from x obtain a b where "path_parts x = ?p @ a" "path_parts x = ?q @ b"
    by (auto simp: below_def path_starts_with_def strip_prefix_eq_Some)
  then have "?p @ a = ?q @ b" by simp
  then have "(\<exists>us. ?p = ?q @ us) \<or> (\<exists>us. ?q = ?p @ us)"
    unfolding append_eq_append_conv2 by metis
  then have "device_paths_overlap p q"
    by (auto simp: device_paths_overlap_def path_starts_with_def strip_prefix_eq_Some)
  with assms show False ..
qed

lemma sorted_wrt_pair:
  assumes "sorted_wrt R (concat (map f xs))" and "symp R"
    and "x \<in> set xs" "y \<in> set xs" "x \<noteq> y" "a \<in> set (f x)" "b \<in> set (f y)"
  shows "R a b"
  using assms(1,3-)
proof (induction xs)
  case (Cons z zs)
  then have tl: "sorted_wrt R (concat (map f zs))"
    and hd: "\<forall>a \<in> set (f z). \<forall>b \<in> set (concat (map f zs)). R a b"
    by (simp_all add: sorted_wrt_append)
  consider "x = z" "y \<in> set zs" | "y = z" "x \<in> set zs" | "x \<in> set zs" "y \<in> set zs"
    using Cons.prems by auto
  then show ?case
  proof cases
    case 1
    with hd Cons.prems show ?thesis by auto
  next
    case 2
    with hd Cons.prems have "R b a" by auto
    with assms(2) show ?thesis by (rule sympD)
  next
    case 3
    with Cons.IH [OF tl] Cons.prems show ?thesis by blast
  qed
qed simp

lemma resolve_usage_Inr:
  assumes "resolve_usage ext recipes refs apps b = Inr usage"
  shows "usage = hash_collect (map (\<lambda>(sid, st). (sid, ust_usage st)) (concat (map (resolve_recipe_usage ext recipes apps b) refs)))"
    and "\<forall>x \<in> set (concat (map (resolve_recipe_usage ext recipes apps b) refs)). ust_errors (snd x) = []"
    and "overlap_errors (concat (map (\<lambda>x. ust_destinations (snd x))
           (concat (map (resolve_recipe_usage ext recipes apps b) refs)))) = []"
  using assms by (auto simp: resolve_usage_def Let_def case_prod_unfold split: if_splits)

lemma resolve_recipe_usage_cases:
  assumes "x \<in> set (resolve_recipe_usage ext recipes apps b rid)"
  obtains r s where "fmlookup recipes rid = Some r" "s \<in> set (recipe_steps r)"
    and "x = (make_execution_step_id rid (step_id s), resolve_step_usage ext apps b r rid s)"
proof (cases "fmlookup recipes rid")
  case (Some r)
  with assms that show ?thesis by (auto simp: resolve_recipe_usage_def)
qed (use assms in \<open>simp add: resolve_recipe_usage_def\<close>)

lemma usage_lookup:
  assumes "resolve_usage ext recipes refs apps b = Inr usage" and "fmlookup usage sid = Some u"
  obtains st where "(sid, st) \<in> set (concat (map (resolve_recipe_usage ext recipes apps b) refs))"
    and "u = ust_usage st"
  using hash_collect_Some [OF assms(2) [unfolded resolve_usage_Inr(1) [OF assms(1)]]] by auto

lemma resolve_usage_disjoint_dests:
  assumes "resolve_usage ext recipes refs apps b = Inr usage"
    and "fmlookup usage i = Some u" "fmlookup usage j = Some v" "i \<noteq> j"
    and "usage_dest u = Some p" "usage_dest v = Some q"
  shows "\<not> device_paths_overlap p q"
proof -
  let ?all = "concat (map (resolve_recipe_usage ext recipes apps b) refs)"
  have in_dests: "\<exists>d \<in> set (ust_destinations st). dst_path d = p"
    if "(k, st) \<in> set ?all" "usage_dest (ust_usage st) = Some p" for k st p
  proof -
    from that(1) obtain rid where "(k, st) \<in> set (resolve_recipe_usage ext recipes apps b rid)" by auto
    then obtain r s where "st = resolve_step_usage ext apps b r rid s"
      by (rule resolve_recipe_usage_cases) simp
    with usage_ok_resolve [of ext apps s b r rid] that(2) show ?thesis
      by (auto simp: usage_ok_def dest_ok_def)
  qed
  obtain st where st: "(i, st) \<in> set ?all" "u = ust_usage st" using usage_lookup [OF assms(1,2)] by blast
  obtain st' where st': "(j, st') \<in> set ?all" "v = ust_usage st'" using usage_lookup [OF assms(1,3)] by blast
  from in_dests [OF st(1)] st(2) assms(5) obtain d where d: "d \<in> set (ust_destinations st)" "dst_path d = p" by blast
  from in_dests [OF st'(1)] st'(2) assms(6) obtain d' where d': "d' \<in> set (ust_destinations st')" "dst_path d' = q" by blast
  have "sorted_wrt (\<lambda>a b. \<not> device_paths_overlap (dst_path a) (dst_path b))
      (concat (map (\<lambda>x. ust_destinations (snd x)) ?all))"
    using resolve_usage_Inr(3) [OF assms(1)] by (simp only: overlap_errors_Nil)
  from sorted_wrt_pair [OF this _ st(1) st'(1), of d d'] d d' assms(4) show ?thesis
    by (auto simp: symp_def device_paths_overlap_sym)
qed


section \<open>A sample\<close>

lemma sample_resolve:
  "resolve_step_target ext (Some sample_emu) ''system'' rid s =
     Inr \<lparr> rt_path = ''/data/user/0/org.emu/files/system'', rt_kind = TDirectory, rt_capability = Some ''app_data_write'' \<rparr>"
  "resolve_step_target ext (Some sample_emu) ''roms'' rid s =
     Inr \<lparr> rt_path = ''/storage/emulated/0/ROMs'', rt_kind = TDirectory, rt_capability = Some ''shared_storage_write'' \<rparr>"
proof -
  have "is_valid_identifier ''system''" "is_valid_identifier ''roms''" by code_simp+
  moreover have "is_valid_target_path AppData ''files/system''" "is_valid_target_path SharedStorage ''ROMs''"
    by code_simp+
  ultimately show
  "resolve_step_target ext (Some sample_emu) ''system'' rid s =
     Inr \<lparr> rt_path = ''/data/user/0/org.emu/files/system'', rt_kind = TDirectory, rt_capability = Some ''app_data_write'' \<rparr>"
  "resolve_step_target ext (Some sample_emu) ''roms'' rid s =
     Inr \<lparr> rt_path = ''/storage/emulated/0/ROMs'', rt_kind = TDirectory, rt_capability = Some ''shared_storage_write'' \<rparr>"
    by (simp_all add: resolve_step_target_def sample_emu_valid) (simp_all add: resolve_target_def sample_emu_def sample_app_def sample_target_def)
qed

lemma sample_copy_usage:
  assumes "target_id = ''system'' \<and> path = ''/data/user/0/org.emu/files/system'' \<and> cap = ''app_data_write''
    \<or> target_id = ''roms'' \<and> path = ''/storage/emulated/0/ROMs'' \<and> cap = ''shared_storage_write''"
  shows "resolve_step_usage ext sample_apps b sample_copy_recipe ''r'' (sample_copy i target_id) =
    \<lparr> ust_usage = \<lparr> usage_dest = Some path, usage_dest_kind = Some TDirectory, usage_skip_if_paths = [],
        usage_verify_paths = [], usage_capabilities = [cap] \<rparr>,
      ust_consumed = True,
      ust_destinations = [\<lparr> dst_recipe = ''r'', dst_target = target_id,
         dst_identity = Some (''emu'', target_id), dst_path = path \<rparr>],
      ust_errors = [] \<rparr>"
proof -
  have ident: "is_valid_identifier ''emu''" by code_simp
  have src: "source_app_refs sample_copy_recipe ''inputs.dir'' = {}"
    by code_simp
  have spec: "spec_app_context copy_files_spec = ContextOptional" by (simp add: copy_files_spec_def make_spec_def)
  show ?thesis using assms
    by (elim disjE) (simp_all add: resolve_step_usage_def Let_def sample_copy_def sample_app_step_def sample_step_def
        app_context_errors_def ident step_app_def sample_apps_def sample_emu_valid initial_usage_def check_copy_source_def
        src use_param_def sample_resolve check_copy_kind_def use_literal_destination_def literal_string_def spec
        push_errors_def push_destination_def consume_def set_usage_def add_capability_def push_new_def)
qed

definition sample_target_usage :: target_usage where
  "sample_target_usage = hash_collect
     [(''r/one'', \<lparr> usage_dest = Some ''/data/user/0/org.emu/files/system'', usage_dest_kind = Some TDirectory,
         usage_skip_if_paths = [], usage_verify_paths = [], usage_capabilities = [''app_data_write''] \<rparr>),
      (''r/two'', \<lparr> usage_dest = Some ''/storage/emulated/0/ROMs'', usage_dest_kind = Some TDirectory,
         usage_skip_if_paths = [], usage_verify_paths = [], usage_capabilities = [''shared_storage_write''] \<rparr>)]"

lemma sample_resolve_usage:
  "resolve_usage ext sample_copy_recipes [''r''] sample_apps b = Inr sample_target_usage"
proof -
  have steps: "recipe_steps sample_copy_recipe = [sample_copy ''one'' ''system'', sample_copy ''two'' ''roms'']"
    by (simp add: sample_copy_recipe_def sample_recipe_def)
  have ids: "step_id (sample_copy i t) = i" for i t
    by (simp add: sample_copy_def sample_app_step_def sample_step_def)
  have "\<not> device_paths_overlap ''/data/user/0/org.emu/files/system'' ''/storage/emulated/0/ROMs''"
    by code_simp
  then show ?thesis
    by (simp add: resolve_usage_def resolve_recipe_usage_def sample_copy_recipes_def steps ids sample_target_usage_def
        make_execution_step_id_def
        sample_copy_usage [of "''system''" "''/data/user/0/org.emu/files/system''" "''app_data_write''"]
        sample_copy_usage [of "''roms''" "''/storage/emulated/0/ROMs''" "''shared_storage_write''"])
qed

section \<open>Properties\<close>

text \<open>
  A named target resolves to a path strictly inside the directory of its location, the app's
  own data directory for the two app locations, with no empty, \<open>.\<close> or \<open>..\<close> segment below it; its
  kind is the declared one and its capability is the one writing to that location takes.
\<close>

lemma resolve_target_inside:
  assumes "resolve_target app target_id = Some t"
  shows "target_resolved app target_id t"
  using assms by (rule resolve_target_resolved)

theorem resolve_target_inside_witness:
  "target_resolved sample_emu ''roms''
     \<lparr> rt_path = ''/storage/emulated/0/ROMs'', rt_kind = TDirectory, rt_capability = Some ''shared_storage_write'' \<rparr>"
proof (rule resolve_target_inside)
  have "is_valid_target_path SharedStorage ''ROMs''" by code_simp
  then show "resolve_target sample_emu ''roms'' = Some
     \<lparr> rt_path = ''/storage/emulated/0/ROMs'', rt_kind = TDirectory, rt_capability = Some ''shared_storage_write'' \<rparr>"
    by (simp add: resolve_target_def sample_emu_def sample_app_def sample_target_def)
qed

text \<open>
  When the target uses of the expanded steps are accepted, two steps never write to
  directories that share a path: no device path lies below the destinations of both, also when
  one of them is written through an alias of the shared storage.
\<close>

lemma resolve_usage_disjoint:
  assumes "resolve_usage ext recipes refs apps bindings = Inr usage"
    and "fmlookup usage i = Some u" "fmlookup usage j = Some v" "i \<noteq> j"
    and "usage_dest u = Some p" "usage_dest v = Some q"
  shows "below p \<inter> below q = {}"
  by (rule disjoint_below) (rule resolve_usage_disjoint_dests [OF assms])

theorem resolve_usage_disjoint_witness:
  "below ''/data/user/0/org.emu/files/system'' \<inter> below ''/storage/emulated/0/ROMs'' = {}"
proof (rule resolve_usage_disjoint [OF sample_resolve_usage [of ascii_externals None], of "''r/one''" _ "''r/two''"])
  show "fmlookup sample_target_usage ''r/one'' = Some
      \<lparr> usage_dest = Some ''/data/user/0/org.emu/files/system'', usage_dest_kind = Some TDirectory,
         usage_skip_if_paths = [], usage_verify_paths = [], usage_capabilities = [''app_data_write''] \<rparr>"
    "fmlookup sample_target_usage ''r/two'' = Some
      \<lparr> usage_dest = Some ''/storage/emulated/0/ROMs'', usage_dest_kind = Some TDirectory,
         usage_skip_if_paths = [], usage_verify_paths = [], usage_capabilities = [''shared_storage_write''] \<rparr>"
    by (simp_all add: sample_target_usage_def fmlookup_hash_collect)
qed simp_all

text \<open>
  An app-owned copy stays within its app: when the target uses are accepted, every app that
  contributes to the source of a copy step, directly or through the steps that produce it, is
  the app the step itself selects.
\<close>

lemma resolve_usage_provenance:
  assumes "resolve_usage ext recipes refs apps bindings = Inr usage"
    and "rid \<in> set refs" "fmlookup recipes rid = Some r" "s \<in> set (recipe_steps r)"
    and "step_type_name s = ''copy_files''" "omap_get (step_params s) ''source'' = Some (Ref source)"
  shows "{a. contributes r source a} \<subseteq> set_option (step_app_ref s)"
proof -
  let ?x = "(make_execution_step_id rid (step_id s), resolve_step_usage ext apps bindings r rid s)"
  have "?x \<in> set (concat (map (resolve_recipe_usage ext recipes apps bindings) refs))"
    using assms(2,3,4) by (force simp: resolve_recipe_usage_def)
  with resolve_usage_Inr(2) [OF assms(1)] have "ust_errors (resolve_step_usage ext apps bindings r rid s) = []"
    by fastforce
  from resolve_step_usage_source [OF this assms(5,6)] show ?thesis
    by (simp only: source_app_refs_contributes)
qed

theorem resolve_usage_provenance_witness:
  "{a. contributes sample_copy_recipe ''inputs.dir'' a} \<subseteq> set_option (step_app_ref (sample_copy ''one'' ''system''))"
  by (rule resolve_usage_provenance [OF sample_resolve_usage [of ascii_externals None], of "''r''"])
    (simp_all add: sample_copy_recipes_def sample_copy_recipe_def sample_recipe_def sample_copy_def
      sample_app_step_def sample_step_def)

text \<open>
  The provenance search computes exactly the apps that contribute to a reference: those whose
  artifact it names, and those that contribute to what the referenced step extracts or refers to.
\<close>

lemma source_app_refs_exact: "source_app_refs r reference = {a. contributes r reference a}"
  by (rule source_app_refs_contributes)


end
