(* ===== verification/App_Permissions.thy ===== *)
theory App_Permissions
  imports Step_Contracts App_Samples
begin

text \<open>
  Permission steps, \<open>planner/app_permissions.rs\<close>: the contracts of steps that grant the permission
  set of an App Definition, and the resolution of the selected set into an immutable plan whose
  actions are marked applicable or not at the API level of the device
  (\<open>resolve_app_permission_plans\<close>).
\<close>

section \<open>Authored form\<close>

definition add_derived_step_capability :: "string list \<Rightarrow> string \<Rightarrow> string list" where
  "add_derived_step_capability capabilities capability = push_new capabilities capability"

definition is_app_permission_step :: "step \<Rightarrow> bool" where
  "is_app_permission_step s =
     (step_type_name s = ''grant_permissions''
      \<and> (step_app_ref s \<noteq> None \<or> omap_contains (step_params s) ''permission_set''))"

definition app_permission_contract_errors :: "recipes \<Rightarrow> string \<Rightarrow> step \<Rightarrow> planner_message list" where
  "app_permission_contract_errors recipes rid s =
     (if \<not> is_app_permission_step s then []
      else
        (if step_app_ref s = None
         then [msg ''permission_app_ref_required''
                 (''App-aware permission step '' @ quoted (step_id s)
                  @ '' must select an App Definition with app_ref.'')
                 [(''recipe_ref'', JString rid), (''step_id'', JString (step_id s)),
                  (''param'', JString ''app_ref'')]]
         else [])
        @ validate_step_contract recipes rid s)"

definition validate_app_permission_step_contracts ::
  "recipes \<Rightarrow> string list \<Rightarrow> planner_message list" where
  "validate_app_permission_step_contracts recipes expanded_recipe_refs =
     concat (map (\<lambda>rid.
         case fmlookup recipes rid of
           None \<Rightarrow> []
         | Some r \<Rightarrow> concat (map (app_permission_contract_errors recipes rid) (recipe_steps r)))
       expanded_recipe_refs)"

section \<open>Applicability\<close>

text \<open>\<open>Err(())\<close>, when a bound cannot be checked because the level is unknown, is \<open>None\<close>.\<close>

definition permission_action_applicability ::
  "int option \<Rightarrow> int option \<Rightarrow> int option \<Rightarrow> permission_action_applicability option" where
  "permission_action_applicability android_api_level android_api_min android_api_max =
     (if android_api_min = None \<and> android_api_max = None then Some Applicable
      else (case android_api_level of
              None \<Rightarrow> None
            | Some actual \<Rightarrow>
                (case opt_filter (\<lambda>minimum. actual < minimum) android_api_min of
                   Some minimum \<Rightarrow> Some (NotApplicable (AndroidApiBelowMinimum actual minimum))
                 | None \<Rightarrow>
                     (case opt_filter (\<lambda>maximum. actual > maximum) android_api_max of
                        Some maximum \<Rightarrow> Some (NotApplicable (AndroidApiAboveMaximum actual maximum))
                      | None \<Rightarrow> Some Applicable))))"

definition within_bounds :: "int option \<Rightarrow> int option \<Rightarrow> int \<Rightarrow> bool" where
  "within_bounds minimum maximum level =
     (is_none_or minimum (\<lambda>a. a \<le> level) \<and> is_none_or maximum (\<lambda>b. level \<le> b))"

section \<open>Resolution\<close>

fun permission_set_name :: "permission_set_kind \<Rightarrow> string" where
  "permission_set_name Baseline = ''baseline''"
| "permission_set_name Elevated = ''elevated''"

definition permission_planning_message ::
  "string \<Rightarrow> string \<Rightarrow> string \<Rightarrow> step \<Rightarrow> json omap \<Rightarrow> planner_message" where
  "permission_planning_message code message rid s details =
     msg code message
       (omap_insert ''step_id'' (JString (step_id s)) (omap_insert ''recipe_ref'' (JString rid) details))"

definition permission_step_message ::
  "string \<Rightarrow> string \<Rightarrow> string \<Rightarrow> step \<Rightarrow> json omap \<Rightarrow> planner_message" where
  "permission_step_message code text rid s details =
     permission_planning_message code (''Permission step '' @ quoted (step_id s) @ text) rid s details"

definition selected_permission_set ::
  "string \<Rightarrow> step \<Rightarrow> planner_message + permission_set_kind" where
  "selected_permission_set rid s =
     (case literal_string (omap_get (step_params s) ''permission_set'') of
        Some name \<Rightarrow>
          if name = ''baseline'' then Inr Baseline
          else if name = ''elevated'' then Inr Elevated
          else Inl (permission_step_message ''permission_set_unknown''
                      ('' selects unknown set '' @ quoted name @ ''; choose baseline or elevated.'')
                      rid s [(''permission_set'', JString name)])
      | None \<Rightarrow>
          Inl (permission_step_message ''permission_set_required''
                 '' must select the literal set baseline or elevated.'' rid s
                 [(''param'', JString ''permission_set'')]))"

fun permission_set_of :: "app_permission_sets \<Rightarrow> permission_set_kind \<Rightarrow> app_permission_set option" where
  "permission_set_of sets Baseline = psets_baseline sets"
| "permission_set_of sets Elevated = psets_elevated sets"

definition app_permission_set_for ::
  "string \<Rightarrow> step \<Rightarrow> string \<Rightarrow> app_definition \<Rightarrow> permission_set_kind \<Rightarrow> planner_message + app_permission_set" where
  "app_permission_set_for rid s aid app kind =
     (let missing = (\<lambda>text. Inl (permission_planning_message ''permission_set_missing''
            (''App Definition '' @ quoted (app_id app) @ text) rid s
            [(''app_ref'', JString aid), (''permission_set'', JString (permission_set_name kind))]))
      in case app_permission_sets app of
           None \<Rightarrow>
             missing ('' does not define a permission set; add the selected set or choose an app ''
                      @ ''that provides it.'')
         | Some sets \<Rightarrow>
             (case permission_set_of sets kind of
                None \<Rightarrow>
                  missing ('' has no '' @ quoted (permission_set_name kind)
                           @ '' permission set; add it or select a set that exists.'')
              | Some selected \<Rightarrow> Inr selected))"

definition permission_failure_policy_of ::
  "string \<Rightarrow> step \<Rightarrow> planner_message + permission_failure_policy" where
  "permission_failure_policy_of rid s =
     (let error = Inl (permission_step_message ''permission_failure_policy_required''
            '' must set policy.on_failure to warn or fail.'' rid s
            [(''param'', JString ''policy.on_failure'')])
      in case omap_get (step_params s) ''policy'' of
           Some (Literal (JObject policy)) \<Rightarrow>
             (case Option.bind (omap_get policy ''on_failure'') as_str of
                Some name \<Rightarrow>
                  if name = ''warn'' then Inr WarnOnFailure
                  else if name = ''fail'' then Inr FailOnFailure
                  else error
              | None \<Rightarrow> error)
         | _ \<Rightarrow> error)"

definition api_level_unknown ::
  "string \<Rightarrow> step \<Rightarrow> string \<Rightarrow> permission_set_kind \<Rightarrow> string \<Rightarrow> string \<Rightarrow> nat \<Rightarrow> string \<Rightarrow> string
     \<Rightarrow> int option \<Rightarrow> int option \<Rightarrow> planner_message" where
  "api_level_unknown rid s aid kind what section_name index name_field name minimum maximum =
     permission_step_message ''permission_api_level_unknown''
       ('' cannot resolve '' @ what @ '' '' @ quoted name @ '' because the Android API level is unknown; ''
        @ ''provide the API level or remove the action's API bounds.'')
       rid s
       [(''app_ref'', JString aid), (''permission_set'', JString (permission_set_name kind)),
        (''source_section'', JString section_name), (''action_index'', jnat index),
        (name_field, JString name), (''android_api_min'', jopt jint minimum),
        (''android_api_max'', jopt jint maximum)]"

definition resolve_runtime_action ::
  "int option \<Rightarrow> string \<Rightarrow> step \<Rightarrow> string \<Rightarrow> app_definition \<Rightarrow> permission_set_kind
     \<Rightarrow> nat \<Rightarrow> runtime_permission_action \<Rightarrow> planner_message + permission_plan_action" where
  "resolve_runtime_action level rid s aid app kind index action =
     (case permission_action_applicability level (rpa_api_min action) (rpa_api_max action) of
        Some applicability \<Rightarrow>
          Inr (RuntimePermission (app_package_id app) (rpa_permission action)
                 (rpa_api_min action) (rpa_api_max action) applicability)
      | None \<Rightarrow>
          Inl (api_level_unknown rid s aid kind ''runtime action'' ''runtime'' index ''permission''
                 (rpa_permission action) (rpa_api_min action) (rpa_api_max action)))"

definition resolve_op_action ::
  "int option \<Rightarrow> string \<Rightarrow> step \<Rightarrow> string \<Rightarrow> app_definition \<Rightarrow> permission_set_kind
     \<Rightarrow> nat \<Rightarrow> app_op_action \<Rightarrow> planner_message + permission_plan_action" where
  "resolve_op_action level rid s aid app kind index action =
     (case permission_action_applicability level (aoa_api_min action) (aoa_api_max action) of
        Some applicability \<Rightarrow>
          Inr (AppOp (app_package_id app) (aoa_op action) (aoa_mode action)
                 (aoa_api_min action) (aoa_api_max action) applicability)
      | None \<Rightarrow>
          Inl (api_level_unknown rid s aid kind ''app-op'' ''app_ops'' index ''op''
                 (aoa_op action) (aoa_api_min action) (aoa_api_max action)))"

definition lefts :: "('e + 'a) list \<Rightarrow> 'e list" where
  "lefts xs = List.map_filter (\<lambda>x. case x of Inl e \<Rightarrow> Some e | Inr _ \<Rightarrow> None) xs"

definition rights :: "('e + 'a) list \<Rightarrow> 'a list" where
  "rights xs = List.map_filter (\<lambda>x. case x of Inl _ \<Rightarrow> None | Inr a \<Rightarrow> Some a) xs"

definition resolve_permission_actions ::
  "int option \<Rightarrow> string \<Rightarrow> step \<Rightarrow> string \<Rightarrow> app_definition \<Rightarrow> permission_set_kind \<Rightarrow> app_permission_set
     \<Rightarrow> planner_message list + permission_plan_action list" where
  "resolve_permission_actions level rid s aid app kind selected =
     (let results =
        map (case_prod (resolve_runtime_action level rid s aid app kind)) (enumerate 0 (pset_runtime selected))
        @ map (case_prod (resolve_op_action level rid s aid app kind)) (enumerate 0 (pset_app_ops selected))
      in if lefts results = [] then Inr (rights results) else Inl (lefts results))"

text \<open>One permission step whose app is known; the \<open>continue\<close>s are the left branches.\<close>

definition resolve_permission_plan ::
  "int option \<Rightarrow> string \<Rightarrow> step \<Rightarrow> string \<Rightarrow> app_definition \<Rightarrow> planner_message list + permission_plan" where
  "resolve_permission_plan level rid s aid app =
     (case selected_permission_set rid s of
        Inl e \<Rightarrow> Inl [e]
      | Inr kind \<Rightarrow>
     (case app_permission_set_for rid s aid app kind of
        Inl e \<Rightarrow> Inl [e]
      | Inr selected \<Rightarrow>
     (case permission_failure_policy_of rid s of
        Inl e \<Rightarrow> Inl [e]
      | Inr policy \<Rightarrow>
     (case resolve_permission_actions level rid s aid app kind selected of
        Inl es \<Rightarrow> Inl es
      | Inr actions \<Rightarrow>
          Inr \<lparr> pp_permission_set = kind, pp_on_failure = policy, pp_actions = actions \<rparr>))))"

definition resolve_permission_step ::
  "apps \<Rightarrow> int option \<Rightarrow> string \<Rightarrow> step \<Rightarrow> (planner_message list + string \<times> permission_plan) option" where
  "resolve_permission_step apps level rid s =
     (if \<not> is_app_permission_step s then None
      else Option.bind (step_app_ref s) (\<lambda>aid.
        map_option
          (\<lambda>app. map_sum id (Pair (make_execution_step_id rid (step_id s)))
                   (resolve_permission_plan level rid s aid app))
          (fmlookup apps aid)))"

definition resolve_recipe_permissions ::
  "recipes \<Rightarrow> apps \<Rightarrow> int option \<Rightarrow> string \<Rightarrow> (planner_message list + string \<times> permission_plan) list" where
  "resolve_recipe_permissions recipes apps level rid =
     (case fmlookup recipes rid of
        None \<Rightarrow> []
      | Some r \<Rightarrow> List.map_filter (resolve_permission_step apps level rid) (recipe_steps r))"

definition resolve_app_permission_plans ::
  "recipes \<Rightarrow> string list \<Rightarrow> apps \<Rightarrow> int option
     \<Rightarrow> planner_message list + (string, permission_plan) fmap" where
  "resolve_app_permission_plans recipes expanded_recipe_refs apps android_api_level =
     (let results = concat (map (resolve_recipe_permissions recipes apps android_api_level)
                              expanded_recipe_refs)
      in if concat (lefts results) = [] then Inr (hash_collect (rights results))
         else Inl (concat (lefts results)))"

section \<open>Facts\<close>

lemma set_rights [simp]: "a \<in> set (rights xs) \<longleftrightarrow> Inr a \<in> set xs"
  by (induction xs) (auto simp: rights_def List.map_filter_simps split: sum.splits)

lemma set_lefts [simp]: "e \<in> set (lefts xs) \<longleftrightarrow> Inl e \<in> set xs"
  by (induction xs) (auto simp: lefts_def List.map_filter_simps split: sum.splits)

lemma lefts_Nil: "lefts xs = [] \<longleftrightarrow> (\<forall>x \<in> set xs. \<exists>a. x = Inr a)"
  by (induction xs) (auto simp: lefts_def List.map_filter_simps split: sum.splits)

lemma permission_action_applicability_iff:
  "permission_action_applicability level minimum maximum = Some Applicable \<longleftrightarrow>
     minimum = None \<and> maximum = None \<or> (\<exists>l. level = Some l \<and> within_bounds minimum maximum l)"
  by (cases level; cases minimum; cases maximum)
    (auto simp: permission_action_applicability_def within_bounds_def)

lemma permission_action_applicability_None:
  "permission_action_applicability level minimum maximum = None \<longleftrightarrow>
     level = None \<and> (minimum \<noteq> None \<or> maximum \<noteq> None)"
  by (cases level; cases minimum; cases maximum)
    (auto simp: permission_action_applicability_def)


section \<open>Accepted permission sets\<close>

text \<open>The bounds of an action are positive and in order; its key is unique across the sets.\<close>

definition bounds_ok :: "int option \<Rightarrow> int option \<Rightarrow> bool" where
  "bounds_ok minimum maximum \<longleftrightarrow>
     (\<forall>a. minimum = Some a \<longrightarrow> 1 \<le> a) \<and> (\<forall>b. maximum = Some b \<longrightarrow> 1 \<le> b)
     \<and> (\<forall>a b. minimum = Some a \<and> maximum = Some b \<longrightarrow> a \<le> b)"

definition runtime_keys :: "runtime_permission_action list \<Rightarrow> string list" where
  "runtime_keys actions = map (\<lambda>a. ''runtime:'' @ rpa_permission a) actions"

definition op_keys :: "app_op_action list \<Rightarrow> string list" where
  "op_keys actions = map (\<lambda>a. ''app_op:'' @ aoa_op a) actions"

definition runtime_ok :: "runtime_permission_action \<Rightarrow> bool" where
  "runtime_ok a \<longleftrightarrow> \<not> is_blank (rpa_permission a) \<and> bounds_ok (rpa_api_min a) (rpa_api_max a)"

definition op_ok :: "app_op_action \<Rightarrow> bool" where
  "op_ok a \<longleftrightarrow> \<not> is_blank (aoa_op a) \<and> bounds_ok (aoa_api_min a) (aoa_api_max a)"

definition set_keys :: "app_permission_set option \<Rightarrow> string list" where
  "set_keys s = (case s of None \<Rightarrow> [] | Some p \<Rightarrow> runtime_keys (pset_runtime p) @ op_keys (pset_app_ops p))"

definition set_ok :: "app_permission_set \<Rightarrow> bool" where
  "set_ok p \<longleftrightarrow> (pset_runtime p \<noteq> [] \<or> pset_app_ops p \<noteq> [])
     \<and> list_all runtime_ok (pset_runtime p) \<and> list_all op_ok (pset_app_ops p)"

definition sets_ok :: "app_permission_sets \<Rightarrow> bool" where
  "sets_ok sets \<longleftrightarrow> (psets_baseline sets \<noteq> None \<or> psets_elevated sets \<noteq> None)
     \<and> pred_option set_ok (psets_baseline sets) \<and> pred_option set_ok (psets_elevated sets)
     \<and> distinct (set_keys (psets_baseline sets) @ set_keys (psets_elevated sets))"

lemma validate_api_bounds_Nil: "validate_api_bounds field minimum maximum = [] \<longleftrightarrow> bounds_ok minimum maximum"
  by (cases minimum; cases maximum) (auto simp: validate_api_bounds_def bounds_ok_def Let_def)

lemma check_action_facts:
  "fst (check_action field nf nm prefix name minimum maximum seen) = [] \<longleftrightarrow>
     \<not> is_blank name \<and> bounds_ok minimum maximum \<and> prefix @ name \<notin> seen"
  "\<not> is_blank name \<Longrightarrow> snd (check_action field nf nm prefix name minimum maximum seen) = insert (prefix @ name) seen"
  by (auto simp: check_action_def Let_def validate_nonblank_def validate_api_bounds_Nil)

lemma validate_runtime_actions_facts:
  "(fst (validate_runtime_actions f i actions seen) = [] \<longleftrightarrow>
      list_all runtime_ok actions \<and> distinct (runtime_keys actions) \<and> set (runtime_keys actions) \<inter> seen = {})
   \<and> (list_all runtime_ok actions \<longrightarrow>
        snd (validate_runtime_actions f i actions seen) = seen \<union> set (runtime_keys actions))"
proof (induction actions arbitrary: i seen)
  case (Cons a actions)
  let ?c = "check_action (f @ ''.runtime['' @ show_nat i @ '']'') ''.permission'' ''Permission names must not be empty.''
            ''runtime:'' (rpa_permission a) (rpa_api_min a) (rpa_api_max a) seen"
  note facts = check_action_facts(1) [of "f @ ''.runtime['' @ show_nat i @ '']''" "''.permission''"
      "''Permission names must not be empty.''" "''runtime:''" "rpa_permission a" "rpa_api_min a" "rpa_api_max a" seen]
  show ?case
  proof (cases "runtime_ok a")
    case True
    then have "snd ?c = insert (''runtime:'' @ rpa_permission a) seen"
      by (intro check_action_facts(2)) (simp add: runtime_ok_def)
    with True facts Cons.IH [of "Suc i" "insert (''runtime:'' @ rpa_permission a) seen"] show ?thesis
      by (auto simp: Let_def case_prod_unfold runtime_keys_def runtime_ok_def)
  next
    case False
    with facts have "fst ?c \<noteq> []" by (auto simp: runtime_ok_def)
    with False show ?thesis by (simp add: Let_def case_prod_unfold)
  qed
qed (simp add: runtime_keys_def)

lemma validate_op_actions_facts:
  "(fst (validate_op_actions f i actions seen) = [] \<longleftrightarrow>
      list_all op_ok actions \<and> distinct (op_keys actions) \<and> set (op_keys actions) \<inter> seen = {})
   \<and> (list_all op_ok actions \<longrightarrow>
        snd (validate_op_actions f i actions seen) = seen \<union> set (op_keys actions))"
proof (induction actions arbitrary: i seen)
  case (Cons a actions)
  let ?c = "check_action (f @ ''.app_ops['' @ show_nat i @ '']'') ''.op'' ''App-op names must not be empty.''
            ''app_op:'' (aoa_op a) (aoa_api_min a) (aoa_api_max a) seen"
  note facts = check_action_facts(1) [of "f @ ''.app_ops['' @ show_nat i @ '']''" "''.op''"
      "''App-op names must not be empty.''" "''app_op:''" "aoa_op a" "aoa_api_min a" "aoa_api_max a" seen]
  show ?case
  proof (cases "op_ok a")
    case True
    then have "snd ?c = insert (''app_op:'' @ aoa_op a) seen"
      by (intro check_action_facts(2)) (simp add: op_ok_def)
    with True facts Cons.IH [of "Suc i" "insert (''app_op:'' @ aoa_op a) seen"] show ?thesis
      by (auto simp: Let_def case_prod_unfold op_keys_def op_ok_def)
  next
    case False
    with facts have "fst ?c \<noteq> []" by (auto simp: op_ok_def)
    with False show ?thesis by (simp add: Let_def case_prod_unfold)
  qed
qed (simp add: op_keys_def)

lemma validate_permission_set_facts:
  "(fst (validate_permission_set name s seen) = [] \<longleftrightarrow>
      pred_option set_ok s \<and> distinct (set_keys s) \<and> set (set_keys s) \<inter> seen = {})
   \<and> (pred_option set_ok s \<longrightarrow> snd (validate_permission_set name s seen) = seen \<union> set (set_keys s))"
proof (cases s)
  case (Some p)
  let ?f = "''permission_sets.'' @ name"
  let ?R = "validate_runtime_actions ?f 0 (pset_runtime p) seen"
  let ?O = "validate_op_actions ?f 0 (pset_app_ops p) (snd ?R)"
  have fst_eq: "fst (validate_permission_set name s seen) = [] \<longleftrightarrow>
      (pset_runtime p \<noteq> [] \<or> pset_app_ops p \<noteq> []) \<and> fst ?R = [] \<and> fst ?O = []"
    and snd_eq: "snd (validate_permission_set name s seen) = snd ?O"
    using Some by (simp_all add: validate_permission_set_def Let_def case_prod_unfold)
  have R1: "fst ?R = [] \<longleftrightarrow> list_all runtime_ok (pset_runtime p) \<and> distinct (runtime_keys (pset_runtime p))
      \<and> set (runtime_keys (pset_runtime p)) \<inter> seen = {}"
    and R2: "list_all runtime_ok (pset_runtime p) \<Longrightarrow> snd ?R = seen \<union> set (runtime_keys (pset_runtime p))"
    using validate_runtime_actions_facts [of ?f 0 "pset_runtime p" seen] by blast+
  have O1: "fst ?O = [] \<longleftrightarrow> list_all op_ok (pset_app_ops p) \<and> distinct (op_keys (pset_app_ops p))
      \<and> set (op_keys (pset_app_ops p)) \<inter> snd ?R = {}"
    and O2: "list_all op_ok (pset_app_ops p) \<Longrightarrow> snd ?O = snd ?R \<union> set (op_keys (pset_app_ops p))"
    using validate_op_actions_facts [of ?f 0 "pset_app_ops p" "snd ?R"] by blast+
  have keys: "set_keys s = runtime_keys (pset_runtime p) @ op_keys (pset_app_ops p)"
    by (simp add: Some set_keys_def)
  show ?thesis
  proof (cases "list_all runtime_ok (pset_runtime p)")
    case True
    have "pred_option set_ok s \<longleftrightarrow> (pset_runtime p \<noteq> [] \<or> pset_app_ops p \<noteq> []) \<and> list_all op_ok (pset_app_ops p)"
      using True by (simp add: Some set_ok_def)
    moreover have "set (op_keys (pset_app_ops p)) \<inter> snd ?R = {} \<longleftrightarrow>
        set (op_keys (pset_app_ops p)) \<inter> seen = {} \<and>
        set (runtime_keys (pset_runtime p)) \<inter> set (op_keys (pset_app_ops p)) = {}"
      unfolding R2 [OF True] by blast
    moreover have "set (set_keys s) \<inter> seen = {} \<longleftrightarrow>
        set (runtime_keys (pset_runtime p)) \<inter> seen = {} \<and> set (op_keys (pset_app_ops p)) \<inter> seen = {}"
      unfolding keys set_append by blast
    ultimately have "fst (validate_permission_set name s seen) = [] \<longleftrightarrow>
        pred_option set_ok s \<and> distinct (set_keys s) \<and> set (set_keys s) \<inter> seen = {}"
      unfolding fst_eq R1 O1 by (simp only: keys distinct_append True simp_thms conj_ac)
    moreover have "snd (validate_permission_set name s seen) = seen \<union> set (set_keys s)" if "pred_option set_ok s"
    proof -
      from that have "list_all op_ok (pset_app_ops p)" by (simp add: Some set_ok_def)
      from O2 [OF this] R2 [OF True] show ?thesis by (simp only: snd_eq keys set_append Un_assoc)
    qed
    ultimately show ?thesis by blast
  next
    case False
    then have "\<not> pred_option set_ok s" by (simp add: Some set_ok_def)
    with False show ?thesis unfolding fst_eq R1 by blast
  qed
qed (simp add: validate_permission_set_def set_keys_def)

lemma validate_permission_sets_Nil:
  "validate_permission_sets sets_opt = [] \<longleftrightarrow> pred_option sets_ok sets_opt"
proof (cases sets_opt)
  case (Some sets)
  note b = validate_permission_set_facts [of "''baseline''" "psets_baseline sets" "{}"]
  note e = validate_permission_set_facts [of "''elevated''" "psets_elevated sets" "set (set_keys (psets_baseline sets))"]
  show ?thesis
  proof (cases "pred_option set_ok (psets_baseline sets)")
    case True
    with b have "snd (validate_permission_set ''baseline'' (psets_baseline sets) {}) = set (set_keys (psets_baseline sets))"
      by simp
    with Some True b e show ?thesis
      by (auto simp: validate_permission_sets_def Let_def case_prod_unfold sets_ok_def)
  next
    case False
    with Some b show ?thesis
      by (auto simp: validate_permission_sets_def Let_def case_prod_unfold sets_ok_def)
  qed
qed (simp add: validate_permission_sets_def)


section \<open>Resolved plans\<close>

text \<open>The plan action an authored action becomes, and the plan a selected set becomes.\<close>

definition applicability_for ::
  "int option \<Rightarrow> int option \<Rightarrow> int option \<Rightarrow> permission_action_applicability \<Rightarrow> bool" where
  "applicability_for level minimum maximum a \<longleftrightarrow>
     (minimum = None \<and> maximum = None \<or> level \<noteq> None)
     \<and> (a = Applicable \<longleftrightarrow> minimum = None \<and> maximum = None
          \<or> (\<exists>l. level = Some l \<and> within_bounds minimum maximum l))"

fun action_for ::
  "int option \<Rightarrow> app_definition \<Rightarrow> runtime_permission_action + app_op_action \<Rightarrow> permission_plan_action \<Rightarrow> bool" where
  "action_for level app (Inl r) action \<longleftrightarrow>
     (\<exists>a. action = RuntimePermission (app_package_id app) (rpa_permission r) (rpa_api_min r) (rpa_api_max r) a
        \<and> applicability_for level (rpa_api_min r) (rpa_api_max r) a)"
| "action_for level app (Inr q) action \<longleftrightarrow>
     (\<exists>a. action = AppOp (app_package_id app) (aoa_op q) (aoa_mode q) (aoa_api_min q) (aoa_api_max q) a
        \<and> applicability_for level (aoa_api_min q) (aoa_api_max q) a)"

definition authored_actions :: "app_permission_set \<Rightarrow> (runtime_permission_action + app_op_action) list" where
  "authored_actions p = map Inl (pset_runtime p) @ map Inr (pset_app_ops p)"

definition plan_for :: "int option \<Rightarrow> app_definition \<Rightarrow> step \<Rightarrow> permission_plan \<Rightarrow> bool" where
  "plan_for level app s plan \<longleftrightarrow>
     (\<exists>sets selected. app_permission_sets app = Some sets
        \<and> permission_set_of sets (pp_permission_set plan) = Some selected
        \<and> literal_string (omap_get (step_params s) ''permission_set'')
            = Some (permission_set_name (pp_permission_set plan))
        \<and> list_all2 (action_for level app) (authored_actions selected) (pp_actions plan))"

lemma rights_map_Inr: "lefts xs = [] \<Longrightarrow> xs = map Inr (rights xs)"
proof (induction xs)
  case (Cons x xs)
  then show ?case by (cases x) (auto simp: lefts_def rights_def List.map_filter_simps)
qed (simp add: rights_def List.map_filter_simps)

lemma applicability_for_resolved:
  "permission_action_applicability level minimum maximum = Some a \<Longrightarrow> applicability_for level minimum maximum a"
  using permission_action_applicability_iff [of level minimum maximum]
    permission_action_applicability_None [of level minimum maximum]
  by (auto simp: applicability_for_def)

lemma list_all2_results:
  assumes "map f xs = map Inr ys" and "\<And>x y. f x = Inr y \<Longrightarrow> R (g x) y"
  shows "list_all2 R (map g xs) ys"
  using assms(1) by (induction xs arbitrary: ys) (auto simp: Cons_eq_map_conv intro: assms(2))

lemma map_enumerate_snd: "map (\<lambda>x. f (snd x)) (enumerate n xs) = map f xs"
  by (induction xs arbitrary: n) simp_all

lemma resolve_permission_actions_Inr:
  assumes "resolve_permission_actions level rid s aid app kind selected = Inr actions"
  shows "list_all2 (action_for level app) (authored_actions selected) actions"
proof -
  let ?rs = "map (case_prod (resolve_runtime_action level rid s aid app kind)) (enumerate 0 (pset_runtime selected))"
  let ?os = "map (case_prod (resolve_op_action level rid s aid app kind)) (enumerate 0 (pset_app_ops selected))"
  from assms have "lefts (?rs @ ?os) = []" and actions: "actions = rights (?rs @ ?os)"
    by (auto simp: resolve_permission_actions_def Let_def split: if_splits)
  then have "?rs @ ?os = map Inr actions" using rights_map_Inr by blast
  then obtain ys zs where split: "actions = ys @ zs" "?rs = map Inr ys" "?os = map Inr zs"
    by (auto simp: append_eq_map_conv)
  have "list_all2 (action_for level app) (map (\<lambda>x. Inl (snd x)) (enumerate 0 (pset_runtime selected))) ys"
    by (rule list_all2_results [OF split(2)])
      (auto simp: resolve_runtime_action_def intro!: applicability_for_resolved split: option.splits)
  moreover have "list_all2 (action_for level app) (map (\<lambda>x. Inr (snd x)) (enumerate 0 (pset_app_ops selected))) zs"
    by (rule list_all2_results [OF split(3)])
      (auto simp: resolve_op_action_def intro!: applicability_for_resolved split: option.splits)
  ultimately show ?thesis
    unfolding map_enumerate_snd authored_actions_def split(1) by (rule list_all2_appendI)
qed

lemma selected_permission_set_Inr:
  "selected_permission_set rid s = Inr kind \<Longrightarrow>
     literal_string (omap_get (step_params s) ''permission_set'') = Some (permission_set_name kind)"
  by (auto simp: selected_permission_set_def split: option.splits if_splits)

lemma resolve_permission_plan_Inr:
  assumes "resolve_permission_plan level rid s aid app = Inr plan"
  shows "plan_for level app s plan"
proof -
  from assms obtain kind selected policy actions where
    kind: "selected_permission_set rid s = Inr kind"
    and selected: "app_permission_set_for rid s aid app kind = Inr selected"
    and actions: "resolve_permission_actions level rid s aid app kind selected = Inr actions"
    and plan: "plan = \<lparr> pp_permission_set = kind, pp_on_failure = policy, pp_actions = actions \<rparr>"
    by (auto simp: resolve_permission_plan_def split: sum.splits)
  from selected obtain sets where "app_permission_sets app = Some sets" "permission_set_of sets kind = Some selected"
    by (auto simp: app_permission_set_for_def Let_def split: option.splits)
  with selected_permission_set_Inr [OF kind] resolve_permission_actions_Inr [OF actions] plan
  show ?thesis by (auto simp: plan_for_def)
qed

lemma resolved_permission_plans:
  assumes "resolve_app_permission_plans recipes refs apps level = Inr plans" and "fmlookup plans sid = Some plan"
  shows "\<exists>rid r s aid app. rid \<in> set refs \<and> fmlookup recipes rid = Some r \<and> s \<in> set (recipe_steps r)
    \<and> sid = make_execution_step_id rid (step_id s) \<and> is_app_permission_step s \<and> step_app_ref s = Some aid
    \<and> fmlookup apps aid = Some app \<and> plan_for level app s plan"
proof -
  from assms(1) have "plans = hash_collect (rights (concat (map (resolve_recipe_permissions recipes apps level) refs)))"
    by (auto simp: resolve_app_permission_plans_def Let_def split: if_splits)
  with hash_collect_Some [of _ sid plan] assms(2) obtain rid where "rid \<in> set refs"
    and in_recipe: "Inr (sid, plan) \<in> set (resolve_recipe_permissions recipes apps level rid)"
    by fastforce
  from in_recipe obtain r where r: "fmlookup recipes rid = Some r"
    by (cases "fmlookup recipes rid") (auto simp: resolve_recipe_permissions_def)
  with in_recipe obtain s where "s \<in> set (recipe_steps r)"
    and step: "resolve_permission_step apps level rid s = Some (Inr (sid, plan))"
    by (auto simp: resolve_recipe_permissions_def List.map_filter_def)
  from step obtain aid app where "is_app_permission_step s" "step_app_ref s = Some aid" "fmlookup apps aid = Some app"
    and "map_sum id (Pair (make_execution_step_id rid (step_id s))) (resolve_permission_plan level rid s aid app) = Inr (sid, plan)"
    by (auto simp: resolve_permission_step_def bind_eq_Some_conv split: if_splits)
  moreover from this(4) have "sid = make_execution_step_id rid (step_id s)" "resolve_permission_plan level rid s aid app = Inr plan"
    by (cases "resolve_permission_plan level rid s aid app"; simp)+
  ultimately show ?thesis
    using \<open>rid \<in> set refs\<close> r \<open>s \<in> set (recipe_steps r)\<close> resolve_permission_plan_Inr
    by blast
qed

section \<open>A sample\<close>

definition sample_granting_app :: app_definition where
  "sample_granting_app = sample_app [] None (Some \<lparr> psets_baseline = Some
     \<lparr> pset_runtime = [\<lparr> rpa_permission = ''p'', rpa_api_min = Some 33, rpa_api_max = None \<rparr>], pset_app_ops = [] \<rparr>,
     psets_elevated = None \<rparr>)"

definition sample_grant :: step where
  "sample_grant = sample_app_step ''grant'' ''grant_permissions'' []
     [(''permission_set'', Literal (JString ''baseline'')),
      (''policy'', Literal (JObject [(''on_failure'', JString ''warn'')]))]"

section \<open>Properties\<close>

text \<open>
  The permission sets of an App Definition are accepted exactly when one of them is present,
  each present set has an action, every action has a name and positive API bounds in order, and
  no action occurs twice within or across the sets.
\<close>

lemma validate_permission_sets_iff:
  "validate_permission_sets sets_opt = [] \<longleftrightarrow> pred_option sets_ok sets_opt"
  by (rule validate_permission_sets_Nil)

text \<open>
  An action is applicable exactly when it has no API bounds or the level of the device is
  known and within them, and its applicability is unknown exactly when it has a bound and the
  level is not known.
\<close>

lemma permission_action_applicability_exact:
  "(permission_action_applicability level minimum maximum = Some Applicable \<longleftrightarrow>
      minimum = None \<and> maximum = None \<or> (\<exists>l. level = Some l \<and> within_bounds minimum maximum l))
   \<and> (permission_action_applicability level minimum maximum = None \<longleftrightarrow>
        level = None \<and> \<not> (minimum = None \<and> maximum = None))"
  unfolding de_Morgan_conj
  by (intro conjI permission_action_applicability_iff permission_action_applicability_None)

text \<open>
  C39: every resolved permission plan belongs to a permission step of a selected recipe and to
  the app that step names, and holds, in order, exactly the actions of the selected set of that
  app, on its package, with the applicability their bounds have at the level of the device.
\<close>

theorem resolve_app_permission_plans_sound:
  assumes "resolve_app_permission_plans recipes refs apps level = Inr plans" and "fmlookup plans sid = Some plan"
  shows "\<exists>rid r s aid app. rid \<in> set refs \<and> fmlookup recipes rid = Some r \<and> s \<in> set (recipe_steps r)
    \<and> sid = make_execution_step_id rid (step_id s) \<and> is_app_permission_step s \<and> step_app_ref s = Some aid
    \<and> fmlookup apps aid = Some app \<and> plan_for level app s plan"
  using assms by (rule resolved_permission_plans)

theorem resolve_app_permission_plans_sound_witness:
  "\<exists>rid r s aid app. rid \<in> set [''r''] \<and> fmlookup (fmap_of_list [(''r'', sample_recipe ''r'' [] [] [sample_grant])]) rid = Some r
    \<and> s \<in> set (recipe_steps r)
    \<and> ''r/grant'' = make_execution_step_id rid (step_id s) \<and> is_app_permission_step s \<and> step_app_ref s = Some aid
    \<and> fmlookup (fmap_of_list [(''emu'', sample_granting_app)]) aid = Some app
    \<and> plan_for (Some 30) app s \<lparr> pp_permission_set = Baseline, pp_on_failure = WarnOnFailure,
         pp_actions = [RuntimePermission ''org.emu'' ''p'' (Some 33) None
           (NotApplicable (AndroidApiBelowMinimum 30 33))] \<rparr>"
proof (rule resolve_app_permission_plans_sound)
  let ?plan = "\<lparr> pp_permission_set = Baseline, pp_on_failure = WarnOnFailure,
         pp_actions = [RuntimePermission ''org.emu'' ''p'' (Some 33) None
           (NotApplicable (AndroidApiBelowMinimum 30 33))] \<rparr>"
  have fields: "step_app_ref sample_grant = Some ''emu''" "is_app_permission_step sample_grant"
    "make_execution_step_id ''r'' (step_id sample_grant) = ''r/grant''"
    by (simp_all add: sample_grant_def sample_app_step_def sample_step_def is_app_permission_step_def
        make_execution_step_id_def)
  have kind: "selected_permission_set ''r'' sample_grant = Inr Baseline"
    and policy: "permission_failure_policy_of ''r'' sample_grant = Inr WarnOnFailure"
    by (simp_all add: selected_permission_set_def permission_failure_policy_of_def literal_string_def
        sample_grant_def sample_app_step_def sample_step_def Let_def)
  have set_for: "app_permission_set_for ''r'' sample_grant ''emu'' sample_granting_app Baseline = Inr
      \<lparr> pset_runtime = [\<lparr> rpa_permission = ''p'', rpa_api_min = Some 33, rpa_api_max = None \<rparr>], pset_app_ops = [] \<rparr>"
    and pkg: "app_package_id sample_granting_app = ''org.emu''"
    by (simp_all add: app_permission_set_for_def sample_granting_app_def sample_app_def Let_def)
  have "resolve_permission_plan (Some 30) ''r'' sample_grant ''emu'' sample_granting_app = Inr ?plan"
    by (simp add: resolve_permission_plan_def kind policy set_for resolve_permission_actions_def
        resolve_runtime_action_def permission_action_applicability_def pkg lefts_def rights_def
        List.map_filter_def Let_def)
  then have "resolve_permission_step (fmap_of_list [(''emu'', sample_granting_app)]) (Some 30) ''r'' sample_grant
      = Some (Inr (''r/grant'', ?plan))"
    by (simp add: resolve_permission_step_def fields)
  moreover have "recipe_steps (sample_recipe ''r'' [] [] [sample_grant]) = [sample_grant]"
    by (simp add: sample_recipe_def)
  ultimately show "resolve_app_permission_plans (fmap_of_list [(''r'', sample_recipe ''r'' [] [] [sample_grant])]) [''r'']
      (fmap_of_list [(''emu'', sample_granting_app)]) (Some 30) = Inr (hash_collect [(''r/grant'', ?plan)])"
    by (simp add: resolve_app_permission_plans_def resolve_recipe_permissions_def List.map_filter_def
        lefts_def rights_def Let_def)
  show "fmlookup (hash_collect [(''r/grant'', ?plan)]) ''r/grant'' = Some ?plan"
    by (simp add: fmlookup_hash_collect)
qed

end
