(* ===== verification/App_Authority.thy ===== *)
theory App_Authority
  imports App_Targets Bindings
begin

text \<open>
  App authority, \<open>planner/app_authority.rs\<close>: the checks that a recipe uses only what the App
  Definitions it names provide, and the projection of those definitions into the immutable
  snapshots, artifact sources and conditions of the plan.  \<open>validate_remote_release_policy\<close> is the
  policy check of \<open>remote_release_resolver.rs\<close>; \<open>Err(())\<close> and unread error texts are \<open>None\<close>.
\<close>

section \<open>Release policies\<close>

definition valid_repository_component :: "string \<Rightarrow> bool" where
  "valid_repository_component v =
     (v \<noteq> [] \<and> length v \<le> 100
      \<and> list_all (\<lambda>c. is_alpha c \<or> is_digit c \<or> c \<in> {CHR ''-'', CHR ''_'', CHR ''.''}) v)"

definition validate_gitlab_repository :: "string \<Rightarrow> string + unit" where
  "validate_gitlab_repository repository =
     (let parts = split_on is_slash repository in
      if 2 \<le> length parts \<and> length parts \<le> 20 \<and> list_all valid_repository_component parts
      then Inr () else Inl ''remote_repository_invalid: GitLab repository identity is invalid'')"

definition validate_repository :: "string \<Rightarrow> string + unit" where
  "validate_repository repository =
     (let parts = split_on is_slash repository in
      if length parts = 2 \<and> list_all valid_repository_component parts
      then Inr () else Inl ''remote_repository_invalid: GitHub repository identity is invalid'')"

definition compiled_asset_pattern :: "externals \<Rightarrow> string \<Rightarrow> string + unit" where
  "compiled_asset_pattern ext pattern =
     (if ext_regex_compiles ext pattern then Inr ()
      else Inl ''remote_asset_pattern_invalid: Asset filename pattern is invalid'')"

definition validate_remote_release_policy ::
  "externals \<Rightarrow> string \<Rightarrow> string \<Rightarrow> string \<Rightarrow> string \<Rightarrow> string option \<Rightarrow> bool \<Rightarrow> string + unit" where
  "validate_remote_release_policy ext provider service_origin repository kind asset_pattern
       invert_asset_pattern =
     (if provider \<notin> {''github'', ''gitlab'', ''forgejo''}
      then Inl ''remote_provider_invalid: Unsupported release provider''
      else if \<not> is_service_origin ext service_origin
      then Inl ''remote_base_url_invalid: Release service origin is invalid''
      else if kind \<notin> {''apk'', ''file''}
      then Inl ''app_artifact_kind_invalid: Release artifact kind is invalid''
      else if invert_asset_pattern \<and> asset_pattern = None
      then Inl ''remote_asset_pattern_invalid: Pattern inversion requires a filename pattern''
      else (case (case asset_pattern of None \<Rightarrow> Inr () | Some p \<Rightarrow> compiled_asset_pattern ext p) of
              Inl e \<Rightarrow> Inl e
            | Inr _ \<Rightarrow> if provider = ''gitlab'' then validate_gitlab_repository repository
                       else validate_repository repository))"

section \<open>Sources of app artifacts\<close>

fun provider_name :: "release_provider \<Rightarrow> string" where
  "provider_name Github = ''github''"
| "provider_name Gitlab = ''gitlab''"
| "provider_name Forgejo = ''forgejo''"

fun artifact_kind_name :: "app_artifact_kind \<Rightarrow> string" where
  "artifact_kind_name Apk = ''apk''"
| "artifact_kind_name AFile = ''file''"

text \<open>\<open>Err(())\<close> is \<open>None\<close>; a user-provided artifact has no source of its own.\<close>

definition execution_artifact_source ::
  "externals \<Rightarrow> app_artifact \<Rightarrow> execution_artifact_source option option" where
  "execution_artifact_source ext artifact =
     (case artifact_source artifact of
        UserProvided \<Rightarrow> Some None
      | DirectUrl url sha256 \<Rightarrow> Some (Some (SrcDirectUrl url sha256))
      | LatestRelease provider base_url repository asset_pattern invert_asset_pattern prerelease \<Rightarrow>
          if is_err (validate_remote_release_policy ext (provider_name provider) base_url repository
                       (artifact_kind_name (artifact_kind artifact)) asset_pattern
                       (invert_asset_pattern = Some True))
          then None
          else Some (Some (SrcRemoteRelease (provider_name provider) base_url repository prerelease
                             asset_pattern (invert_asset_pattern = Some True))))"

section \<open>Authority\<close>

definition app_authority_error :: "string \<Rightarrow> string \<Rightarrow> (string \<times> json) list \<Rightarrow> planner_message" where
  "app_authority_error code message details = msg code message details"

definition referenced_app_ids :: "recipes \<Rightarrow> string list \<Rightarrow> emitted list \<Rightarrow> string list" where
  "referenced_app_ids recipes expanded_recipe_refs ordered_steps =
     (let artifact_apps = concat (map (\<lambda>rid.
            case fmlookup recipes rid of
              None \<Rightarrow> []
            | Some r \<Rightarrow> List.map_filter (\<lambda>a. case a of AppArtifact reference \<Rightarrow> Some (aref_app_ref reference)
                                           | RemoteFile _ \<Rightarrow> None) (omap_values (recipe_artifacts r)))
            expanded_recipe_refs);
          step_apps = List.map_filter (\<lambda>(_, _, s). step_app_ref s) ordered_steps
      in fold (\<lambda>i ids. push_new ids i) (artifact_apps @ step_apps) [])"

definition artifact_error :: "string \<Rightarrow> string \<Rightarrow> string \<Rightarrow> string \<Rightarrow> planner_message" where
  "artifact_error code text rid artifact_id =
     app_authority_error code text
       [(''recipe_ref'', JString rid), (''artifact_id'', JString artifact_id)]"

definition step_error :: "string \<Rightarrow> string \<Rightarrow> string \<Rightarrow> step \<Rightarrow> planner_message" where
  "step_error code text rid s =
     app_authority_error code text [(''recipe_ref'', JString rid), (''step_id'', JString (step_id s))]"

definition definition_error :: "string \<Rightarrow> diagnostic list \<Rightarrow> planner_message" where
  "definition_error aid diagnostics =
     app_authority_error ''app_definition_invalid''
       ''A referenced App Definition does not satisfy its authored schema.''
       [(''app_id'', JString aid),
        (''diagnostics'', JArray (map (\<lambda>d. JObject [(''code'', JString (diag_code d)),
                                                    (''field'', JString (diag_field d))]) diagnostics))]"

definition invalid_app_ids :: "externals \<Rightarrow> apps \<Rightarrow> string list \<Rightarrow> string list" where
  "invalid_app_ids ext apps ids =
     filter (\<lambda>i. is_some_and (fmlookup apps i) (\<lambda>app. validate_app_definition ext app \<noteq> [])) ids"

definition definition_errors :: "externals \<Rightarrow> apps \<Rightarrow> string list \<Rightarrow> planner_message list" where
  "definition_errors ext apps ids =
     concat (map (\<lambda>i. case fmlookup apps i of
                        None \<Rightarrow> []
                      | Some app \<Rightarrow>
                          let diagnostics = validate_app_definition ext app in
                          if diagnostics = [] then [] else [definition_error i diagnostics]) ids)"

definition artifact_authority_errors ::
  "externals \<Rightarrow> apps \<Rightarrow> string set \<Rightarrow> string \<Rightarrow> string \<times> recipe_artifact \<Rightarrow> planner_message list" where
  "artifact_authority_errors ext apps invalid rid = (\<lambda>(artifact_id, artifact).
     case artifact of
       RemoteFile _ \<Rightarrow> []
     | AppArtifact reference \<Rightarrow>
         if \<not> is_valid_identifier (aref_app_ref reference)
         then [artifact_error ''app_reference_invalid''
                 ''A Recipe App Artifact must use a valid App Definition identifier.'' rid artifact_id]
         else (case fmlookup apps (aref_app_ref reference) of
                 None \<Rightarrow>
                   [artifact_error ''app_definition_unknown''
                      ''A recipe artifact refers to an App Definition that is not available.'' rid artifact_id]
               | Some app \<Rightarrow>
                   if aref_app_ref reference \<in> invalid then []
                   else (case omap_get (app_artifacts app) (aref_artifact reference) of
                           None \<Rightarrow>
                             [artifact_error ''app_artifact_unknown''
                                ''A recipe artifact refers to an unknown App Definition artifact.'' rid artifact_id]
                         | Some app_artifact \<Rightarrow>
                             (if execution_artifact_source ext app_artifact = None
                              then [artifact_error ''app_artifact_source_unsupported''
                                      (''The referenced App Definition artifact source is not supported ''
                                       @ ''by this execution path.'') rid artifact_id]
                              else [])
                             @ (if aref_cache reference \<notin> {''default'', ''none''}
                                then [artifact_error ''app_artifact_cache_unsupported''
                                        (''A Recipe App Artifact cache policy must be ''
                                         @ quoted ''default'' @ '' or '' @ quoted ''none'' @ ''.'')
                                        rid artifact_id]
                                else []))))"

section \<open>Installs\<close>

definition install_provenance_error :: "string \<Rightarrow> recipe \<Rightarrow> step \<Rightarrow> planner_message" where
  "install_provenance_error text r s =
     step_error ''app_install_artifact_provenance_invalid'' text (recipe_id r) s"

text \<open>\<open>strip_prefix\<close> and \<open>strip_suffix\<close> of the parameter \<open>app\<close>.\<close>

definition install_artifact :: "step \<Rightarrow> string option" where
  "install_artifact s =
     (case omap_get (step_params s) ''app'' of
        Some (Ref v) \<Rightarrow>
          Option.bind (strip_prefix ''artifacts.'' v) (\<lambda>rest.
            map_option rev (strip_prefix (rev ''.local_path'') (rev rest)))
      | _ \<Rightarrow> None)"

definition resolves_artifact :: "recipe \<Rightarrow> step \<Rightarrow> emitted list \<Rightarrow> string \<Rightarrow> bool" where
  "resolves_artifact r s selected_steps artifact_id =
     (let by_id = hash_collect (map (\<lambda>(_, _, c). (step_id c, c))
            (filter (\<lambda>(_, rid, _). rid = recipe_id r) selected_steps))
      in list_ex (\<lambda>(_, rid, candidate).
            rid = recipe_id r \<and> step_type_name candidate = ''resolve_artifacts''
            \<and> artifact_id \<in> set (expand_artifact_selection r
                  (omap_get (step_params candidate) ''artifacts'')
                  (omap_get (step_params candidate) ''artifact_groups''))
            \<and> has_dependency_ancestor s (step_id candidate) by_id)
          selected_steps)"

definition validate_app_install_binding ::
  "recipe \<Rightarrow> step \<Rightarrow> app_definition \<Rightarrow> emitted list \<Rightarrow> planner_message list" where
  "validate_app_install_binding r s app selected_steps =
     (let fields = filter (omap_contains (step_params s)) [''expected_package_name'', ''expected_sha256''];
          local_path = ''An app-context APK install must use the local path of its declared ''
                       @ ''App Definition artifact.''
      in if fields \<noteq> []
         then [app_authority_error ''app_install_authority_override''
                 (''An App Definition install must not duplicate package or checksum authority in ''
                  @ ''Recipe parameters.'')
                 [(''recipe_ref'', JString (recipe_id r)), (''step_id'', JString (step_id s)),
                  (''fields'', jstrs fields)]]
         else (case install_artifact s of
                 None \<Rightarrow> [install_provenance_error local_path r s]
               | Some artifact_id \<Rightarrow>
                   (case omap_get (recipe_artifacts r) artifact_id of
                      Some (AppArtifact reference) \<Rightarrow>
                        if aref_app_ref reference \<noteq> app_id app
                           \<or> is_none_or (omap_get (app_artifacts app) (aref_artifact reference))
                               (\<lambda>artifact. artifact_kind artifact \<noteq> Apk)
                        then [install_provenance_error
                                (''The APK install step and its artifact must identify the same App ''
                                 @ ''Definition and APK artifact.'') r s]
                        else if \<not> resolves_artifact r s selected_steps artifact_id
                        then [step_error ''app_install_resolution_dependency_missing''
                                (''An app-context APK install must have a dependency ancestor that ''
                                 @ ''resolves its App Definition artifact.'') (recipe_id r) s]
                        else []
                    | _ \<Rightarrow> [install_provenance_error local_path r s])))"


section \<open>Steps\<close>

definition package_condition :: "step_condition \<Rightarrow> bool" where
  "package_condition c = (cond_type_name c = ''package_installed'')"

definition step_conditions :: "step \<Rightarrow> step_condition list" where
  "step_conditions s = step_skip_if s @ step_verify s"

definition step_without_app_errors :: "string \<Rightarrow> step \<Rightarrow> planner_message list" where
  "step_without_app_errors rid s =
     (if is_some_and (step_spec_for (step_type_name s)) (\<lambda>spec. spec_app_context spec = ContextRequired)
      then [step_error ''app_context_required''
              ''This App Definition step form requires an app context.'' rid s] else [])
     @ (if list_ex package_condition (step_conditions s)
        then [step_error ''app_condition_context_required''
                ''A package_installed condition requires an app context on its step.'' rid s] else [])"

definition lifecycle_errors :: "string \<Rightarrow> step \<Rightarrow> string \<Rightarrow> app_definition \<Rightarrow> planner_message list" where
  "lifecycle_errors rid s aid app =
     (if step_type_name s \<in> {''launch_app'', ''force_stop_app''} then
        (if step_params s \<noteq> []
         then [step_error ''app_lifecycle_identity_override_forbidden''
                 (''An app-context lifecycle step inherits its package and launcher from its App ''
                  @ ''Definition and takes no authored parameters.'') rid s] else [])
        @ (if step_type_name s = ''launch_app'' \<and> app_launcher_activity app = None
           then [app_authority_error ''app_launcher_activity_required''
                   ''An app-context launch requires a launcher activity in its App Definition.''
                   [(''recipe_ref'', JString rid), (''step_id'', JString (step_id s)),
                    (''app_ref'', JString aid)]] else [])
      else [])"

definition condition_errors :: "string \<Rightarrow> step \<Rightarrow> planner_message list" where
  "condition_errors rid s =
     map (\<lambda>_. step_error ''app_condition_package_parameter_forbidden''
            (''An app-context package_installed condition inherits its package from the step and ''
             @ ''takes no parameters.'') rid s)
       (filter (\<lambda>c. package_condition c \<and> cond_params c \<noteq> []) (step_conditions s))"

definition step_authority_errors ::
  "recipes \<Rightarrow> emitted list \<Rightarrow> apps \<Rightarrow> string set \<Rightarrow> string \<Rightarrow> step \<Rightarrow> planner_message list" where
  "step_authority_errors recipes selected_steps apps invalid rid s =
     (let inapplicable = [step_error ''app_context_inapplicable''
            ''This step type does not support an App Definition context.'' rid s]
      in case step_app_ref s of
           None \<Rightarrow> step_without_app_errors rid s
         | Some aid \<Rightarrow>
             if \<not> is_valid_identifier aid
             then [step_error ''app_reference_invalid''
                     ''A step must use a valid App Definition identifier.'' rid s]
             else (case fmlookup apps aid of
                     None \<Rightarrow>
                       [step_error ''app_definition_unknown''
                          ''A step refers to an App Definition that is not available.'' rid s]
                   | Some app \<Rightarrow>
                       if aid \<in> invalid then []
                       else (case step_spec_for (step_type_name s) of
                               None \<Rightarrow> inapplicable
                             | Some spec \<Rightarrow>
                                 if spec_app_context spec = ContextNone then inapplicable
                                 else
                                   lifecycle_errors rid s aid app
                                   @ condition_errors rid s
                                   @ (if step_type_name s = ''install_apk''
                                      then (case fmlookup recipes rid of
                                              None \<Rightarrow> []
                                            | Some r \<Rightarrow> validate_app_install_binding r s app selected_steps)
                                      else []))))"

definition validate_app_authority ::
  "externals \<Rightarrow> recipes \<Rightarrow> string list \<Rightarrow> emitted list \<Rightarrow> apps \<Rightarrow> planner_message list" where
  "validate_app_authority ext recipes expanded_recipe_refs selected_steps apps =
     (let ids = referenced_app_ids recipes expanded_recipe_refs selected_steps;
          invalid = set (invalid_app_ids ext apps ids)
      in definition_errors ext apps ids
         @ concat (map (\<lambda>rid.
             case fmlookup recipes rid of
               None \<Rightarrow> []
             | Some r \<Rightarrow> concat (map (artifact_authority_errors ext apps invalid rid) (recipe_artifacts r)))
             expanded_recipe_refs)
         @ concat (map (\<lambda>(_, rid, s). step_authority_errors recipes selected_steps apps invalid rid s)
             selected_steps))"

section \<open>Inputs of user-provided artifacts\<close>

definition static_artifact_input_binding_errors ::
  "string \<Rightarrow> recipe \<Rightarrow> string \<Rightarrow> app_artifact_reference \<Rightarrow> app_artifact \<Rightarrow> planner_message list" where
  "static_artifact_input_binding_errors rid r artifact_id reference app_artifact =
     (if artifact_source app_artifact = UserProvided then
        (case aref_input reference of
           None \<Rightarrow>
             [artifact_error ''app_artifact_input_binding_required''
                ''A user-provided App Artifact must bind one Recipe file input.'' rid artifact_id]
         | Some binding \<Rightarrow>
             (case omap_get (recipe_inputs r) (binding_input_id binding) of
                None \<Rightarrow>
                  [artifact_error ''app_artifact_input_binding_invalid''
                     ''A user-provided App Artifact must bind an input declared by the same Recipe.''
                     rid artifact_id]
              | Some d \<Rightarrow>
                  if input_type_name d \<noteq> ''file'' \<or> input_multiple d
                  then [artifact_error ''app_artifact_input_binding_invalid''
                          ''A user-provided App Artifact must bind one single-file Recipe input.''
                          rid artifact_id]
                  else []))
      else if aref_input reference \<noteq> None
      then [artifact_error ''app_artifact_input_binding_unsupported''
              ''Only a user-provided App Artifact can bind a Recipe file input.'' rid artifact_id]
      else [])"

definition app_artifact_of :: "apps \<Rightarrow> app_artifact_reference \<Rightarrow> app_artifact option" where
  "app_artifact_of apps reference =
     Option.bind (fmlookup apps (aref_app_ref reference))
       (\<lambda>app. omap_get (app_artifacts app) (aref_artifact reference))"

definition validate_declared_artifact_input_bindings :: "recipe \<Rightarrow> apps \<Rightarrow> planner_message list" where
  "validate_declared_artifact_input_bindings r apps =
     concat (map (\<lambda>(artifact_id, artifact).
         case artifact of
           RemoteFile _ \<Rightarrow> []
         | AppArtifact reference \<Rightarrow>
             (case app_artifact_of apps reference of
                None \<Rightarrow> []
              | Some app_artifact \<Rightarrow>
                  static_artifact_input_binding_errors (recipe_id r) r artifact_id reference app_artifact))
       (recipe_artifacts r))"

definition selected_input_value_errors ::
  "host_env \<Rightarrow> string \<Rightarrow> recipe \<Rightarrow> string \<Rightarrow> app_artifact_reference \<Rightarrow> json omap \<Rightarrow> bool
     \<Rightarrow> planner_message list" where
  "selected_input_value_errors env rid r artifact_id reference effective_input_bindings allow_missing_value =
     (case aref_input reference of
        None \<Rightarrow> []
      | Some binding \<Rightarrow>
          (case omap_get (recipe_inputs r) (binding_input_id binding) of
             None \<Rightarrow> []
           | Some d \<Rightarrow>
               let v = binding_value env d (make_execution_input_id rid (binding_input_id binding))
                         effective_input_bindings
               in if v = None \<and> allow_missing_value then []
                  else if is_some_and (Option.bind v as_str) (\<lambda>path. \<not> is_blank path) then []
                  else [artifact_error ''app_artifact_input_binding_missing_value''
                          (''A selected user-provided App Artifact requires a value for its Recipe ''
                           @ ''file input.'') rid artifact_id]))"

definition selected_artifact_errors ::
  "host_env \<Rightarrow> recipes \<Rightarrow> apps \<Rightarrow> json omap \<Rightarrow> bool \<Rightarrow> string \<Rightarrow> planner_message list" where
  "selected_artifact_errors env recipes apps effective_input_bindings allow_missing_value selected_id =
     (case split_once ''/'' selected_id of
        None \<Rightarrow> []
      | Some (rid, artifact_id) \<Rightarrow>
          (case fmlookup recipes rid of
             None \<Rightarrow> []
           | Some r \<Rightarrow>
               (case omap_get (recipe_artifacts r) artifact_id of
                  Some (AppArtifact reference) \<Rightarrow>
                    (case app_artifact_of apps reference of
                       None \<Rightarrow> []
                     | Some app_artifact \<Rightarrow>
                         let errors = static_artifact_input_binding_errors rid r artifact_id reference app_artifact
                         in if errors \<noteq> [] then errors
                            else if artifact_source app_artifact \<noteq> UserProvided then []
                            else selected_input_value_errors env rid r artifact_id reference
                                   effective_input_bindings allow_missing_value)
                | _ \<Rightarrow> [])))"

text \<open>The source iterates a \<open>HashSet\<close>, whose order is unspecified; the list is that order.\<close>

definition validate_selected_user_provided_inputs ::
  "host_env \<Rightarrow> recipes \<Rightarrow> string list \<Rightarrow> apps \<Rightarrow> json omap \<Rightarrow> bool \<Rightarrow> planner_message list" where
  "validate_selected_user_provided_inputs env recipes selected_artifact_ids apps
       effective_input_bindings allow_missing_value =
     concat (map (selected_artifact_errors env recipes apps effective_input_bindings allow_missing_value)
       selected_artifact_ids)"

section \<open>Projection\<close>

definition app_snapshot :: "app_definition \<Rightarrow> execution_app_snapshot" where
  "app_snapshot app =
     \<lparr> apps_id = app_id app, apps_name = app_name app, apps_description = app_description app,
       apps_category = app_category app, apps_package_id = app_package_id app \<rparr>"

definition execution_app_snapshots ::
  "recipes \<Rightarrow> string list \<Rightarrow> emitted list \<Rightarrow> apps \<Rightarrow> execution_app_snapshot list" where
  "execution_app_snapshots recipes expanded_recipe_refs ordered_steps apps =
     map app_snapshot
       (List.map_filter (fmlookup apps) (referenced_app_ids recipes expanded_recipe_refs ordered_steps))"

definition execution_app_artifact_projection ::
  "externals \<Rightarrow> app_artifact_reference \<Rightarrow> string \<Rightarrow> apps
     \<Rightarrow> (execution_artifact_source \<times> execution_artifact_app_provenance) option" where
  "execution_app_artifact_projection ext reference rid apps =
     Option.bind (fmlookup apps (aref_app_ref reference)) (\<lambda>app.
     Option.bind (omap_get (app_artifacts app) (aref_artifact reference)) (\<lambda>app_artifact.
     Option.bind (execution_artifact_source ext app_artifact) (\<lambda>source_opt.
     Option.bind
       (case source_opt of
          Some source \<Rightarrow> Some source
        | None \<Rightarrow> map_option (\<lambda>binding. SrcLocalInput (make_execution_input_id rid (binding_input_id binding)))
                    (aref_input reference))
       (\<lambda>source.
          Some (source,
                \<lparr> prov_app_id = app_id app, prov_artifact_id = aref_artifact reference,
                  prov_kind = artifact_kind_name (artifact_kind app_artifact) \<rparr>)))))"

definition execution_condition ::
  "step_condition \<Rightarrow> string option \<Rightarrow> apps \<Rightarrow> execution_step_condition" where
  "execution_condition condition app_ref apps =
     \<lparr> econd_type_name = cond_type_name condition,
       econd_app_id =
         (if package_condition condition \<and> cond_params condition = []
          then map_option app_id (Option.bind app_ref (fmlookup apps)) else None),
       econd_params = cond_params condition \<rparr>"

section \<open>One recipe\<close>

definition validate_recipe_app_authority :: "externals \<Rightarrow> recipe \<Rightarrow> app_definition list \<Rightarrow> planner_message list" where
  "validate_recipe_app_authority ext r app_definitions =
     (let recipes = hash_collect [(recipe_id r, r)];
          selected_steps = map (\<lambda>s. (recipe_id r, recipe_id r, s)) (recipe_steps r);
          apps = hash_collect (map (\<lambda>app. (app_id app, app)) app_definitions)
      in validate_app_authority ext recipes [recipe_id r] selected_steps apps
         @ validate_declared_artifact_input_bindings r apps
         @ (case resolve_usage ext recipes [recipe_id r] apps None of Inl errors \<Rightarrow> errors | Inr _ \<Rightarrow> []))"

section \<open>Facts\<close>

lemma set_fold_push_new: "set (fold (\<lambda>i ids. push_new ids i) xs ys) = set ys \<union> set xs"
  by (induction xs arbitrary: ys) auto

lemma distinct_fold_push_new: "distinct ys \<Longrightarrow> distinct (fold (\<lambda>i ids. push_new ids i) xs ys)"
  by (induction xs arbitrary: ys) auto

lemma distinct_referenced_app_ids: "distinct (referenced_app_ids recipes refs steps)"
  by (simp add: referenced_app_ids_def distinct_fold_push_new)

lemma step_app_referenced:
  assumes "(eid, rid, s) \<in> set steps" and "step_app_ref s = Some aid"
  shows "aid \<in> set (referenced_app_ids recipes refs steps)"
proof -
  have "aid \<in> set (List.map_filter (\<lambda>(_, _, s). step_app_ref s) steps)"
    using assms by (force simp: List.map_filter_def)
  then show ?thesis by (simp add: referenced_app_ids_def set_fold_push_new)
qed

lemma definition_errors_Nil:
  "definition_errors ext apps ids = [] \<longleftrightarrow>
     (\<forall>i \<in> set ids. \<forall>app. fmlookup apps i = Some app \<longrightarrow> validate_app_definition ext app = [])"
  by (auto simp: definition_errors_def Let_def split: option.splits if_splits)

lemma invalid_app_ids_Nil:
  "definition_errors ext apps ids = [] \<Longrightarrow> invalid_app_ids ext apps ids = []"
  by (auto simp: definition_errors_Nil invalid_app_ids_def filter_empty_conv is_some_and_iff)

lemma validate_app_authority_step:
  assumes "validate_app_authority ext recipes refs steps apps = []" and "(eid, rid, s) \<in> set steps"
  shows "step_authority_errors recipes steps apps {} rid s = []"
proof -
  from assms(1) have "definition_errors ext apps (referenced_app_ids recipes refs steps) = []"
    and all: "\<forall>x \<in> set steps. (\<lambda>(_, rid, s). step_authority_errors recipes steps apps
        (set (invalid_app_ids ext apps (referenced_app_ids recipes refs steps))) rid s) x = []"
    by (simp_all add: validate_app_authority_def Let_def)
  from bspec [OF all assms(2)] invalid_app_ids_Nil [OF this(1)] show ?thesis by simp
qed

text \<open>A step with an app context that passes has a valid definition for it, and a launch has a
  launcher.\<close>

lemma authorised_app:
  assumes "validate_app_authority ext recipes refs steps apps = []" and "(eid, rid, s) \<in> set steps"
    and "step_app_ref s = Some aid"
  obtains app where "fmlookup apps aid = Some app" "validate_app_definition ext app = []"
    and "lifecycle_errors rid s aid app = []"
proof -
  from validate_app_authority_step [OF assms(1,2)] assms(3)
  obtain app where app: "fmlookup apps aid = Some app" and lifecycle: "lifecycle_errors rid s aid app = []"
    by (auto simp: step_authority_errors_def Let_def split: if_splits option.splits)
  have "definition_errors ext apps (referenced_app_ids recipes refs steps) = []"
    using assms(1) by (simp add: validate_app_authority_def Let_def)
  with step_app_referenced [OF assms(2,3)] app have "validate_app_definition ext app = []"
    by (auto simp: definition_errors_Nil)
  with app lifecycle that show ?thesis by blast
qed

lemma authorised_context:
  assumes "validate_app_authority ext recipes refs steps apps = []" and "(eid, rid, s) \<in> set steps"
    and "step_type_name s \<in> {''install_apk'', ''grant_permissions'', ''launch_app'', ''force_stop_app''}"
  shows "step_app_ref s \<noteq> None"
proof
  assume none: "step_app_ref s = None"
  obtain spec where "step_spec_for (step_type_name s) = Some spec" "spec_app_context spec = ContextRequired"
    using assms(3) by (auto simp: install_apk_spec_def grant_permissions_spec_def launch_app_spec_def
        force_stop_app_spec_def make_spec_def)
  with validate_app_authority_step [OF assms(1,2)] none show False
    by (simp add: step_authority_errors_def Let_def step_without_app_errors_def is_some_and_def)
qed


section \<open>Installs of an accepted recipe\<close>

text \<open>The step installs an APK artifact of the app it names, and a step of the recipe that it
  depends on, directly or not, resolves that artifact.\<close>

definition install_authorised :: "recipe \<Rightarrow> emitted list \<Rightarrow> apps \<Rightarrow> step \<Rightarrow> bool" where
  "install_authorised r steps apps s \<longleftrightarrow>
     (\<exists>aid app artifact_id reference artifact.
        step_app_ref s = Some aid \<and> fmlookup apps aid = Some app
        \<and> install_artifact s = Some artifact_id
        \<and> omap_get (recipe_artifacts r) artifact_id = Some (AppArtifact reference)
        \<and> aref_app_ref reference = app_id app
        \<and> omap_get (app_artifacts app) (aref_artifact reference) = Some artifact
        \<and> artifact_kind artifact = Apk
        \<and> (\<exists>eid candidate. (eid, recipe_id r, candidate) \<in> set steps
             \<and> step_type_name candidate = ''resolve_artifacts''
             \<and> artifact_id \<in> set (step_artifacts r candidate)
             \<and> step_id candidate \<in> reachable
                 (step_deps (hash_collect (map (\<lambda>(_, _, c). (step_id c, c))
                    (filter (\<lambda>(_, rid, _). rid = recipe_id r) steps))))
                 (set (step_dependencies s))))"

lemma validate_app_install_binding_Nil:
  assumes "validate_app_install_binding r s app steps = []"
    and "step_app_ref s = Some aid" "fmlookup apps aid = Some app"
  shows "install_authorised r steps apps s"
proof -
  from assms(1) obtain artifact_id where id: "install_artifact s = Some artifact_id"
    by (cases "install_artifact s") (auto simp: validate_app_install_binding_def Let_def split: if_splits)
  from assms(1) id obtain reference where ref: "omap_get (recipe_artifacts r) artifact_id = Some (AppArtifact reference)"
    by (auto simp: validate_app_install_binding_def Let_def split: if_splits option.splits recipe_artifact.splits)
  from assms(1) id ref have own: "aref_app_ref reference = app_id app"
    and kind: "\<not> is_none_or (omap_get (app_artifacts app) (aref_artifact reference)) (\<lambda>a. artifact_kind a \<noteq> Apk)"
    and res: "resolves_artifact r s steps artifact_id"
    by (auto simp: validate_app_install_binding_def Let_def split: if_splits)
  from kind obtain artifact where "omap_get (app_artifacts app) (aref_artifact reference) = Some artifact"
    "artifact_kind artifact = Apk"
    by (auto simp: is_none_or_iff)
  moreover from res obtain eid candidate where "(eid, recipe_id r, candidate) \<in> set steps"
    "step_type_name candidate = ''resolve_artifacts''" "artifact_id \<in> set (step_artifacts r candidate)"
    and anc: "has_dependency_ancestor s (step_id candidate) (hash_collect (map (\<lambda>(_, _, c). (step_id c, c))
                    (filter (\<lambda>(_, rid, _). rid = recipe_id r) steps)))"
    by (auto simp: resolves_artifact_def Let_def list_ex_iff step_artifacts_def)
  moreover note has_ancestor_among_sound [OF anc [unfolded has_dependency_ancestor_def]]
  ultimately show ?thesis
    unfolding install_authorised_def using assms(2,3) id ref own by blast
qed

lemma authorised_install:
  assumes "validate_app_authority ext recipes refs steps apps = []" and "(eid, rid, s) \<in> set steps"
    and "step_type_name s = ''install_apk''" and "fmlookup recipes rid = Some r"
  shows "install_authorised r steps apps s"
proof -
  from authorised_context [OF assms(1,2)] assms(3) obtain aid where aid: "step_app_ref s = Some aid" by auto
  from authorised_app [OF assms(1,2) aid] obtain app where app: "fmlookup apps aid = Some app" by blast
  from validate_app_authority_step [OF assms(1,2)] aid app assms(3,4)
  have "validate_app_install_binding r s app steps = []"
    by (auto simp: step_authority_errors_def Let_def install_apk_spec_def make_spec_def split: if_splits)
  with aid app show ?thesis by (intro validate_app_install_binding_Nil)
qed

section \<open>Release policies of accepted definitions\<close>

lemma valid_repository_components:
  "list_all is_valid_repository_component parts \<Longrightarrow> list_all valid_repository_component parts"
  by (auto simp: list_all_iff is_valid_repository_component_def valid_repository_component_def)

lemma validated_source_supported:
  assumes "validate_artifact_source ext field (artifact_source artifact) = []"
  shows "execution_artifact_source ext artifact \<noteq> None"
proof (cases "artifact_source artifact")
  case (LatestRelease provider base_url repository pattern invert prerelease)
  from assms LatestRelease have origin: "is_service_origin ext base_url"
    and repo: "is_valid_repository provider repository"
    and pat: "\<And>p. pattern = Some p \<Longrightarrow> ext_regex_compiles ext p"
    and inv: "pattern = None \<Longrightarrow> invert = None"
    by (auto simp: validate_artifact_source_def split: option.splits)
  have "list_all valid_repository_component (split_on is_slash repository)"
    using repo valid_repository_components by (auto simp: is_valid_repository_def Let_def)
  with repo have "(if provider = Gitlab then validate_gitlab_repository repository else validate_repository repository) = Inr ()"
    by (cases provider) (auto simp: is_valid_repository_def Let_def validate_gitlab_repository_def validate_repository_def)
  moreover have "artifact_kind_name k \<in> {''apk'', ''file''}" for k by (cases k) simp_all
  ultimately have "validate_remote_release_policy ext (provider_name provider) base_url repository
      (artifact_kind_name (artifact_kind artifact)) pattern (invert = Some True) = Inr ()"
    using origin pat inv
    by (cases provider; cases pattern) (simp_all add: validate_remote_release_policy_def compiled_asset_pattern_def)
  with LatestRelease show ?thesis by (simp add: execution_artifact_source_def)
qed (simp_all add: execution_artifact_source_def)

section \<open>A sample\<close>

definition sample_apk_app :: app_definition where
  "sample_apk_app = (sample_app [] None None)
     \<lparr> app_artifacts := [(''apk'', \<lparr> artifact_kind = Apk, artifact_name = None, artifact_description = None,
                                   artifact_source = UserProvided \<rparr>)] \<rparr>"

definition sample_install_steps :: "step list" where
  "sample_install_steps =
     [sample_step ''get'' ''resolve_artifacts'' [] [(''artifacts'', Literal (jstrs [''emu_apk'']))],
      sample_app_step ''put'' ''install_apk'' [''get''] [(''app'', Ref ''artifacts.emu_apk.local_path'')]]"

definition sample_install_recipe :: recipe where
  "sample_install_recipe = (sample_recipe ''r'' [] [(''file'', sample_input ''file'' True JNull)] sample_install_steps)
     \<lparr> recipe_artifacts := [(''emu_apk'', AppArtifact \<lparr> aref_app_ref = ''emu'', aref_artifact = ''apk'',
          aref_input = Some \<lparr> binding_input_id = ''file'' \<rparr>, aref_cache = ''default'' \<rparr>)] \<rparr>"

definition sample_install_emitted :: "emitted list" where
  "sample_install_emitted = map (\<lambda>s. (make_execution_step_id ''r'' (step_id s), ''r'', s)) sample_install_steps"

lemma sample_apk_app_valid: "validate_app_definition ext sample_apk_app = []"
proof -
  have base: "validate_app_definition ext (sample_app [] None None) = []"
    by (rule sample_app_valid) (simp_all add: validate_targets_def validate_launcher_activity_def validate_permission_sets_def)
  have "is_valid_identifier ''apk''" by code_simp
  then have "validate_artifacts ext (app_artifacts sample_apk_app) = []"
    by (simp add: sample_apk_app_def validate_artifacts_def validate_artifact_def validate_optional_nonblank_def
        validate_artifact_source_def Let_def)
  with base show ?thesis
    by (simp add: validate_app_definition_def sample_apk_app_def sample_app_def)
qed

lemma sample_install_authorised:
  "validate_app_authority ext (fmap_of_list [(''r'', sample_install_recipe)]) [''r''] sample_install_emitted
     (fmap_of_list [(''emu'', sample_apk_app)]) = []"
proof -
  have ids: "is_valid_identifier ''emu''" by code_simp
  have install: "validate_app_install_binding sample_install_recipe (sample_install_steps ! 1) sample_apk_app sample_install_emitted = []"
    by code_simp
  have app: "app_artifacts sample_apk_app = [(''apk'', \<lparr> artifact_kind = Apk, artifact_name = None,
      artifact_description = None, artifact_source = UserProvided \<rparr>)]"
    by (simp add: sample_apk_app_def)
  show ?thesis
    using install
    by (simp add: validate_app_authority_def referenced_app_ids_def sample_install_recipe_def sample_recipe_def
        List.map_filter_def sample_install_emitted_def sample_install_steps_def sample_app_step_def sample_step_def
        push_new_def definition_errors_def invalid_app_ids_def sample_apk_app_valid artifact_authority_errors_def ids
        app execution_artifact_source_def step_authority_errors_def step_without_app_errors_def step_conditions_def
        resolve_artifacts_spec_def install_apk_spec_def make_spec_def lifecycle_errors_def condition_errors_def Let_def)
qed

section \<open>Properties\<close>

text \<open>
  C35: when the app authority of a selection passes, every APK install installs an APK artifact of
  the very app its step names, and depends, directly or not, on a selected step that resolves
  that artifact.
\<close>

theorem validate_app_authority_install:
  assumes "validate_app_authority ext recipes refs steps apps = []" and "(eid, rid, s) \<in> set steps"
    and "step_type_name s = ''install_apk''" and "fmlookup recipes rid = Some r"
  shows "install_authorised r steps apps s"
  using assms by (rule authorised_install)

theorem validate_app_authority_install_witness:
  "install_authorised sample_install_recipe sample_install_emitted (fmap_of_list [(''emu'', sample_apk_app)])
     (sample_app_step ''put'' ''install_apk'' [''get''] [(''app'', Ref ''artifacts.emu_apk.local_path'')])"
  by (rule validate_app_authority_install [OF sample_install_authorised [of ascii_externals], of "''r/put''" "''r''"])
    (simp_all add: sample_install_emitted_def sample_install_steps_def sample_app_step_def sample_step_def
      make_execution_step_id_def)

text \<open>
  The artifact sources of a valid App Definition are always supported: the release policy
  check of the resolver accepts every release source that the authored validation accepts.
\<close>

lemma valid_definition_sources_supported:
  assumes "validate_app_definition ext app = []" and "(artifact_id, artifact) \<in> set (app_artifacts app)"
  shows "execution_artifact_source ext artifact \<noteq> None"
proof -
  from assms have "validate_artifact ext (artifact_id, artifact) = []"
    by (auto simp: validate_app_definition_def validate_artifacts_def)
  then have "validate_artifact_source ext (''artifacts['' @ artifact_id @ '']'') (artifact_source artifact) = []"
    by (simp add: validate_artifact_def Let_def)
  then show ?thesis by (rule validated_source_supported)
qed

theorem valid_definition_sources_supported_witness:
  "execution_artifact_source ascii_externals \<lparr> artifact_kind = Apk, artifact_name = None,
     artifact_description = None, artifact_source = UserProvided \<rparr> \<noteq> None"
  by (rule valid_definition_sources_supported [OF sample_apk_app_valid, of "''apk''"])
    (simp add: sample_apk_app_def)

end
