(* ===== verification/Planner.thy ===== *)
theory Planner
  imports Recipe_Graph Step_Sort Step_Selection Step_Refs App_Authority App_Permissions
begin

text \<open>
  Planning, \<open>plan_execution_with_app_definitions_inner\<close> of \<open>planner.rs\<close>: the stages in the order of
  the source, and the emission of the plan.  A result is \<open>None\<close> where the source would panic (an
  \<open>expect\<close> that fails, an index out of range, a recursion that does not end); the last section
  proves that this never happens.

  Two collections of the source have no order of their own.  The loop over the permission plans
  updates one entry of the usage per key and is written as a map over its entries.  The selected
  artifacts are handed to \<open>validate_selected_user_provided_inputs\<close> in the order of a \<open>HashSet\<close>;
  that order is the argument \<open>hash_order\<close>.
\<close>

section \<open>App Definitions by identifier\<close>

fun index_app_definitions_from :: "apps \<Rightarrow> app_definition list \<Rightarrow> planner_message list + apps" where
  "index_app_definitions_from apps [] = Inr apps"
| "index_app_definitions_from apps (app # rest) =
     (if fmlookup apps (app_id app) \<noteq> None
      then Inl [app_authority_error ''app_definition_ambiguous''
                  ''More than one App Definition has the same identity.''
                  [(''app_id'', JString (app_id app))]]
      else index_app_definitions_from (fmupd (app_id app) app apps) rest)"

definition index_app_definitions :: "app_definition list \<Rightarrow> planner_message list + apps" where
  "index_app_definitions app_definitions = index_app_definitions_from fmempty app_definitions"

section \<open>Static contracts of one recipe\<close>

text \<open>\<open>errors.contains\<close> compares messages with \<open>PartialEq\<close>.\<close>

definition push_unreported :: "planner_message list \<Rightarrow> planner_message \<Rightarrow> planner_message list" where
  "push_unreported errors e = (if list_ex (\<lambda>x. message_eq x e) errors then errors else errors @ [e])"

definition validate_recipe_static_contracts :: "recipe \<Rightarrow> planner_message list" where
  "validate_recipe_static_contracts r =
     (let recipes = hash_collect [(recipe_id r, r)];
          steps = map (\<lambda>s. (make_execution_step_id (recipe_id r) (step_id s), recipe_id r, s)) (recipe_steps r);
          errors = validate_artifact_selections recipes steps @ validate_step_param_contracts recipes steps
      in fold (\<lambda>e errors. push_unreported errors e)
           (validate_app_permission_step_contracts recipes [recipe_id r]) errors)"

section \<open>Emission\<close>

definition emit_execution_artifact ::
  "externals \<Rightarrow> apps \<Rightarrow> string set \<Rightarrow> string \<Rightarrow> string \<times> recipe_artifact \<Rightarrow> execution_artifact option" where
  "emit_execution_artifact ext apps selected_artifacts rid = (\<lambda>(artifact_id, artifact).
     let execution_id = make_execution_artifact_id rid artifact_id;
         emitted = (\<lambda>source provenance cache.
           Some \<lparr> ea_id = execution_id, ea_type_name = ''remote_file'', ea_source = source,
                  ea_cache = cache, ea_app_provenance = provenance \<rparr>)
     in case artifact of
          RemoteFile file \<Rightarrow> emitted (SrcRemoteFile (remote_url file)) None (remote_cache file)
        | AppArtifact reference \<Rightarrow>
            (case execution_app_artifact_projection ext reference rid apps of
               None \<Rightarrow> None
             | Some (source, provenance) \<Rightarrow>
                 if (case source of SrcLocalInput _ \<Rightarrow> True | _ \<Rightarrow> False)
                    \<and> execution_id \<notin> selected_artifacts
                 then None
                 else emitted source (Some provenance) (aref_cache reference)))"

definition emit_execution_artifacts ::
  "externals \<Rightarrow> recipes \<Rightarrow> string list \<Rightarrow> apps \<Rightarrow> string set \<Rightarrow> execution_artifact list" where
  "emit_execution_artifacts ext recipes expanded_recipe_refs apps selected_artifacts =
     concat (map (\<lambda>rid.
         case fmlookup recipes rid of
           None \<Rightarrow> []
         | Some r \<Rightarrow>
             List.map_filter (emit_execution_artifact ext apps selected_artifacts rid)
               (recipe_artifacts r))
       expanded_recipe_refs)"

definition execution_constraints ::
  "string list \<Rightarrow> step_constraints \<Rightarrow> string \<Rightarrow> execution_step_constraints" where
  "execution_constraints capabilities constraints rid =
     \<lparr> esc_capabilities = capabilities,
       esc_conflicts_with = map (make_execution_step_id rid) (constraint_conflicts_with constraints) \<rparr>"

text \<open>The parameters of a lifecycle step that names an app.\<close>

definition lifecycle_params ::
  "step \<Rightarrow> app_definition option \<Rightarrow> execution_param_value omap option" where
  "lifecycle_params s app =
     Option.bind app (\<lambda>a.
       let result = [(''package_name'', ParamLiteral (JString (app_package_id a)))] in
       if step_type_name s = ''launch_app''
       then map_option (\<lambda>activity. omap_insert ''activity'' (ParamLiteral (JString activity)) result)
              (app_launcher_activity a)
       else Some result)"

definition emitted_param :: "recipe \<Rightarrow> string option \<Rightarrow> param_value \<Rightarrow> execution_param_value option" where
  "emitted_param r resolved_dest v =
     (case v of
        Ref ref_value \<Rightarrow> Some (ParamRef (normalize_ref_for_execution r ref_value))
      | AppTarget _ \<Rightarrow> map_option (\<lambda>dest. ParamLiteral (JString dest)) resolved_dest
      | Literal j \<Rightarrow> Some (ParamLiteral j))"

fun emitted_params ::
  "recipe \<Rightarrow> string option \<Rightarrow> param_value omap \<Rightarrow> string list \<Rightarrow> execution_param_value omap
     \<Rightarrow> execution_param_value omap option" where
  "emitted_params r resolved_dest normalized [] result = Some result"
| "emitted_params r resolved_dest normalized (name # names) result =
     (case omap_get normalized name of
        None \<Rightarrow> emitted_params r resolved_dest normalized names result
      | Some v \<Rightarrow>
          Option.bind (emitted_param r resolved_dest v) (\<lambda>p.
            emitted_params r resolved_dest normalized names (omap_insert name p result)))"

fun target_kind_name :: "app_target_kind \<Rightarrow> string" where
  "target_kind_name TFile = ''file''"
| "target_kind_name TDirectory = ''directory''"

definition normalize_step_params_for_execution ::
  "recipe \<Rightarrow> step \<Rightarrow> apps \<Rightarrow> string option \<Rightarrow> app_target_kind option
     \<Rightarrow> execution_param_value omap option" where
  "normalize_step_params_for_execution r s apps resolved_dest resolved_dest_kind =
     (if is_app_permission_step s then Some []
      else if step_type_name s \<in> {''launch_app'', ''force_stop_app''} \<and> step_app_ref s \<noteq> None
      then lifecycle_params s (step_app apps s)
      else
        let normalized = params_with_defaults s in
        if step_type_name s \<in> {''resolve_artifacts'', ''extract_artifacts''}
        then Some (normalize_artifact_selection r normalized)
        else (case authored_step_spec_for s of
                None \<Rightarrow> Some []
              | Some spec \<Rightarrow>
                  map_option
                    (\<lambda>result. case resolved_dest_kind of
                        None \<Rightarrow> result
                      | Some kind \<Rightarrow>
                          omap_insert ''dest_kind'' (ParamLiteral (JString (target_kind_name kind))) result)
                    (emitted_params r resolved_dest normalized (omap_keys (spec_params spec)) [])))"

definition emitted_condition ::
  "step \<Rightarrow> apps \<Rightarrow> step_condition \<Rightarrow> string option \<Rightarrow> execution_step_condition" where
  "emitted_condition s apps condition path =
     (let resolved = execution_condition condition (step_app_ref s) apps in
      case path of
        None \<Rightarrow> resolved
      | Some p \<Rightarrow> resolved \<lparr> econd_params := omap_insert ''path'' (JString p) (econd_params resolved) \<rparr>)"

text \<open>\<open>paths[index]\<close> panics when there are fewer paths than conditions.\<close>

definition emitted_conditions ::
  "step \<Rightarrow> apps \<Rightarrow> step_condition list \<Rightarrow> string option list \<Rightarrow> execution_step_condition list option" where
  "emitted_conditions s apps conditions paths =
     (if length paths < length conditions then None
      else Some (map (\<lambda>(c, p). emitted_condition s apps c p) (zip conditions paths)))"

definition emit_step ::
  "externals \<Rightarrow> apps \<Rightarrow> target_usage \<Rightarrow> (string, permission_plan) fmap \<Rightarrow> bool \<Rightarrow> string \<Rightarrow> string
     \<Rightarrow> recipe \<Rightarrow> step \<Rightarrow> execution_step option" where
  "emit_step ext apps usage permission_plans emit_product_contract sid rid r s =
     Option.bind (fmlookup usage (make_execution_step_id (recipe_id r) (step_id s))) (\<lambda>u.
     Option.bind (normalize_step_params_for_execution r s apps (usage_dest u) (usage_dest_kind u)) (\<lambda>params.
     Option.bind (emitted_conditions s apps (step_skip_if s) (usage_skip_if_paths u)) (\<lambda>skip_if.
     Option.bind (emitted_conditions s apps (step_verify s) (usage_verify_paths u)) (\<lambda>verify.
       Some \<lparr> es_id = sid, es_recipe_ref = rid, es_app_id = map_option app_id (step_app apps s),
              es_type_name = step_type_name s, es_name = step_name s,
              es_note = (if emit_product_contract then normalized_progress_note ext s else []),
              es_dependencies = map (make_execution_step_id (recipe_id r)) (step_dependencies s),
              es_constraints = execution_constraints (usage_capabilities u) (step_constraints s) (recipe_id r),
              es_permission_plan = fmlookup permission_plans sid, es_params = params,
              es_skip_if = skip_if, es_verify = verify \<rparr>))))"

text \<open>The \<open>filter_map\<close> over the ordered steps skips a step whose recipe is unknown.\<close>

fun emit_steps ::
  "externals \<Rightarrow> recipes \<Rightarrow> apps \<Rightarrow> target_usage \<Rightarrow> (string, permission_plan) fmap \<Rightarrow> bool \<Rightarrow> emitted list
     \<Rightarrow> execution_step list option" where
  "emit_steps ext recipes apps usage permission_plans emit_product_contract [] = Some []"
| "emit_steps ext recipes apps usage permission_plans emit_product_contract ((sid, rid, s) # rest) =
     (case fmlookup recipes rid of
        None \<Rightarrow> emit_steps ext recipes apps usage permission_plans emit_product_contract rest
      | Some r \<Rightarrow>
          Option.bind (emit_step ext apps usage permission_plans emit_product_contract sid rid r s) (\<lambda>e.
            map_option (Cons e)
              (emit_steps ext recipes apps usage permission_plans emit_product_contract rest)))"

section \<open>Stages\<close>

definition observed_api_level :: "planner_input \<Rightarrow> int option" where
  "observed_api_level input =
     or_else (Option.bind (pin_target_device input) td_android_api_level)
       (dc_android_api_level (pin_device_context input))"

text \<open>The device context that planning and the plan use.\<close>

definition bound_device_context :: "planner_input \<Rightarrow> device_context" where
  "bound_device_context input =
     bind_verified_root_shell_mode
       ((pin_device_context input) \<lparr> dc_android_api_level := observed_api_level input \<rparr>)
       (rc_root_shell_route (pin_runtime_capabilities input))"

definition with_permission_capabilities :: "permission_plan \<Rightarrow> resolved_step_usage \<Rightarrow> resolved_step_usage" where
  "with_permission_capabilities plan u =
     (if \<not> has_applicable_actions plan then u
      else
        let capabilities = add_derived_step_capability (usage_capabilities u) ''shell_command''
        in u \<lparr> usage_capabilities :=
                 (if pp_permission_set plan = Elevated
                  then add_derived_step_capability capabilities ''root_shell'' else capabilities) \<rparr>)"

definition derive_permission_capabilities ::
  "(string, permission_plan) fmap \<Rightarrow> target_usage \<Rightarrow> target_usage" where
  "derive_permission_capabilities permission_plans usage =
     fmmap_keys (\<lambda>sid u. case fmlookup permission_plans sid of
         None \<Rightarrow> u | Some plan \<Rightarrow> with_permission_capabilities plan u) usage"

definition effective_bindings :: "resolved_input_binding list \<Rightarrow> json omap" where
  "effective_bindings resolved =
     omap_collect (List.map_filter (\<lambda>b. map_option (Pair (rib_key b)) (rib_value b)) resolved)"

text \<open>The checks of the authored steps, each of which ends planning with its errors.\<close>

fun first_errors :: "planner_message list list \<Rightarrow> planner_message list" where
  "first_errors [] = []"
| "first_errors (es # rest) = (if es \<noteq> [] then es else first_errors rest)"

definition authored_step_errors ::
  "externals \<Rightarrow> host_env \<Rightarrow> (string set \<Rightarrow> string list) \<Rightarrow> recipes \<Rightarrow> string list \<Rightarrow> apps \<Rightarrow> string set
     \<Rightarrow> json omap \<Rightarrow> bool \<Rightarrow> emitted list \<Rightarrow> planner_message list" where
  "authored_step_errors ext env hash_order recipes expanded apps selected_artifacts bindings
       ignore_binding_diagnostics steps =
     first_errors
       [validate_app_authority ext recipes expanded steps apps,
        validate_selected_user_provided_inputs env recipes (hash_order selected_artifacts) apps bindings
          ignore_binding_diagnostics,
        validate_step_param_contracts recipes steps,
        validate_emitted_step_dependencies steps,
        validate_artifact_selections recipes steps,
        validate_step_refs steps]"

text \<open>Everything after the selection: sorting and emission.\<close>

definition emit_plan ::
  "externals \<Rightarrow> host_env \<Rightarrow> planner_input \<Rightarrow> recipes \<Rightarrow> string list \<Rightarrow> apps \<Rightarrow> target_usage
     \<Rightarrow> (string, permission_plan) fmap \<Rightarrow> resolved_input_binding list \<Rightarrow> string set \<Rightarrow> string set
     \<Rightarrow> planner_message list \<Rightarrow> emitted list \<Rightarrow> planning_result option" where
  "emit_plan ext env input recipes expanded apps usage permission_plans resolved selected
       selected_artifacts warnings ordered =
     (let bindings = effective_bindings resolved;
          emit_product_contract = (pin_catalog_identity input \<noteq> None \<or> pin_target_device input \<noteq> None);
          emit_review_snapshots = (emit_product_contract \<or> pin_device_plan_presentation input \<noteq> None)
      in case execution_review_snapshots emit_review_snapshots (pin_device_plan_presentation input)
                expanded recipes resolved of
           Inl error \<Rightarrow> Some ((error_result [error]) \<lparr> res_warnings := warnings \<rparr>)
         | Inr (device_plan, recipe_snapshots, input_snapshots) \<Rightarrow>
             map_option (\<lambda>steps.
               \<lparr> res_status = PlanSuccess, res_warnings = warnings, res_errors = [],
                 res_execution_plan = Some
                   \<lparr> plan_id = pin_plan_id input,
                     plan_source =
                       \<lparr> src_device_profile_ref = pin_device_profile_ref input,
                         src_device_plan_ref = pin_device_plan_ref input,
                         src_selected_recipe_refs = pin_selected_recipe_refs input,
                         src_expanded_recipe_refs = expanded,
                         src_catalog = pin_catalog_identity input \<rparr>,
                     plan_device_plan = device_plan, plan_recipes = recipe_snapshots,
                     plan_apps = execution_app_snapshots recipes expanded ordered apps,
                     plan_resolved_inputs = input_snapshots, plan_copy_commit_snapshots = [],
                     plan_target_device = pin_target_device input,
                     plan_device_context = bound_device_context input,
                     plan_runtime_capabilities = pin_runtime_capabilities input,
                     plan_inputs = emit_execution_inputs env recipes
                       (selected_input_ids recipes expanded selected selected_artifacts) bindings,
                     plan_artifacts = emit_execution_artifacts ext recipes expanded apps selected_artifacts,
                     plan_steps = steps, plan_schema_version = 1, plan_kind = ''execution_plan'' \<rparr>,
                 res_schema_version = 1, res_kind = ''planning_result'' \<rparr>)
             (emit_steps ext recipes apps usage permission_plans emit_product_contract ordered))"

definition plan_selected ::
  "externals \<Rightarrow> host_env \<Rightarrow> (string set \<Rightarrow> string list) \<Rightarrow> planner_input \<Rightarrow> recipes \<Rightarrow> string list \<Rightarrow> apps
     \<Rightarrow> target_usage \<Rightarrow> (string, permission_plan) fmap \<Rightarrow> resolved_input_binding list \<Rightarrow> bool \<Rightarrow> string set
     \<Rightarrow> planner_message list \<Rightarrow> planning_result option" where
  "plan_selected ext env hash_order input recipes expanded apps usage permission_plans resolved
       ignore_binding_diagnostics selected warnings =
     (let selected_artifacts = selected_artifact_ids recipes expanded selected;
          steps = authored_steps recipes expanded selected;
          errors = authored_step_errors ext env hash_order recipes expanded apps selected_artifacts
                     (effective_bindings resolved) ignore_binding_diagnostics steps
      in if errors \<noteq> [] then Some (error_result errors)
         else
           let (ordered, step_errors) = topologically_sort_steps steps
           in if step_errors \<noteq> [] then Some (error_result step_errors)
              else if ordered = []
              then Some ((error_result
                     [msg ''empty_execution_plan'' ''Execution plan emission produced no runnable steps.''
                        [(''plan_id'', JString (pin_plan_id input))]]) \<lparr> res_warnings := warnings \<rparr>)
              else emit_plan ext env input recipes expanded apps usage permission_plans resolved
                     selected selected_artifacts warnings ordered)"

definition plan_execution_with_app_definitions_inner ::
  "externals \<Rightarrow> host_env \<Rightarrow> (string set \<Rightarrow> string list) \<Rightarrow> planner_input \<Rightarrow> app_definition list
     \<Rightarrow> bool \<Rightarrow> bool \<Rightarrow> bool \<Rightarrow> planning_result option" where
  "plan_execution_with_app_definitions_inner ext env hash_order input app_definitions
       ignore_binding_diagnostics assume_unrecognized_capabilities_available
       report_unrecognized_capability_warnings =
     (case index_app_definitions app_definitions of
        Inl errors \<Rightarrow> Some (error_result errors)
      | Inr apps \<Rightarrow>
     (let recipes = hash_collect (map (\<lambda>r. (recipe_id r, r)) (pin_recipes input));
          (expanded, dependency_errors) = expand_recipe_dependencies recipes (pin_selected_recipe_refs input)
      in if dependency_errors \<noteq> [] then Some (error_result dependency_errors)
         else
     (let resolution = resolve_runtime_bindings ext env recipes expanded
            (pin_explicit_input_bindings input) (pin_user_configuration_bindings input)
            (pin_device_plan_input_bindings input);
          resolved = br_resolved_inputs resolution
      in if br_diagnostics resolution \<noteq> [] \<and> \<not> ignore_binding_diagnostics
         then Some (error_result (map bd_planner_message (br_diagnostics resolution)))
         else
     (case resolve_usage ext recipes expanded apps (Some (effective_bindings resolved)) of
        Inl errors \<Rightarrow> Some (error_result errors)
      | Inr target_usage \<Rightarrow>
     (let form_errors = validate_app_permission_step_contracts recipes expanded
      in if form_errors \<noteq> [] then Some (error_result form_errors)
         else
     (case resolve_app_permission_plans recipes expanded apps (observed_api_level input) of
        Inl errors \<Rightarrow> Some (error_result errors)
      | Inr permission_plans \<Rightarrow>
     (let usage = derive_permission_capabilities permission_plans target_usage
      in Option.bind
           (selected_step_ids recipes expanded (effective_bindings resolved)
              (pin_runtime_capabilities input) usage assume_unrecognized_capabilities_available
              report_unrecognized_capability_warnings)
           (\<lambda>(selected, errors, warnings).
              if errors \<noteq> [] then Some ((error_result errors) \<lparr> res_warnings := warnings \<rparr>)
              else plan_selected ext env hash_order input recipes expanded apps usage permission_plans
                     resolved ignore_binding_diagnostics selected warnings))))))))"

definition plan_execution_with_app_definitions ::
  "externals \<Rightarrow> host_env \<Rightarrow> (string set \<Rightarrow> string list) \<Rightarrow> planner_input \<Rightarrow> app_definition list
     \<Rightarrow> planning_result option" where
  "plan_execution_with_app_definitions ext env hash_order input app_definitions =
     plan_execution_with_app_definitions_inner ext env hash_order input app_definitions False False False"

definition plan_execution_for_recipe_availability ::
  "externals \<Rightarrow> host_env \<Rightarrow> (string set \<Rightarrow> string list) \<Rightarrow> planner_input \<Rightarrow> app_definition list
     \<Rightarrow> planning_result option" where
  "plan_execution_for_recipe_availability ext env hash_order input app_definitions =
     plan_execution_with_app_definitions_inner ext env hash_order input app_definitions True False True"

definition plan_execution_for_recipe_availability_upper_bound ::
  "externals \<Rightarrow> host_env \<Rightarrow> (string set \<Rightarrow> string list) \<Rightarrow> planner_input \<Rightarrow> app_definition list
     \<Rightarrow> planning_result option" where
  "plan_execution_for_recipe_availability_upper_bound ext env hash_order input app_definitions =
     plan_execution_with_app_definitions_inner ext env hash_order input app_definitions True True False"

end
