(* ===== verification/Plan_Emission.thy ===== *)
theory Plan_Emission
  imports Planner
begin

text \<open>
  The emission of the plan succeeds: once every stage of the planner has passed, no \<open>expect\<close> and
  no index of the emission can fail, since an App Target is accepted only where it sets the
  destination, a lifecycle step has its app, and the usage of a sorted step is its own.  The
  lemmas \<open>planning_result_cases\<close> and \<open>ordered_step\<close> are what the properties of whole plans use.
\<close>

section \<open>The effective destination\<close>

definition keeps_dest :: "(usage_state \<Rightarrow> usage_state) \<Rightarrow> bool" where
  "keeps_dest f \<longleftrightarrow>
     (\<forall>st. usage_dest (ust_usage st) \<noteq> None \<longrightarrow> usage_dest (ust_usage (f st)) \<noteq> None)"

lemma adds_errors_Nil: "adds_errors f \<Longrightarrow> ust_errors (f st) = [] \<Longrightarrow> ust_errors st = []"
  unfolding adds_errors_def by (metis empty_set set_empty subset_empty)

lemma keeps_dest_fold: "(\<And>x. keeps_dest (f x)) \<Longrightarrow> keeps_dest (fold f xs)"
proof -
  assume step: "\<And>x. keeps_dest (f x)"
  have "usage_dest (ust_usage st) \<noteq> None \<longrightarrow> usage_dest (ust_usage (fold f xs st)) \<noteq> None" for st
    by (induction xs arbitrary: st) (use step in \<open>auto simp: keeps_dest_def\<close>)
  then show ?thesis by (simp add: keeps_dest_def)
qed

lemma keeps_dest_use_param: "keeps_dest (use_param ext apps r b rid s x)"
  unfolding keeps_dest_def use_param_def
  by (cases x) (auto split: param_value.split json.split sum.split)

lemma keeps_dest_use_literal: "keeps_dest (use_literal_destination rid s)"
  by (simp add: keeps_dest_def use_literal_destination_def split: option.split)

lemma dest_use_condition:
  "usage_dest (ust_usage (fst (use_condition ext apps rid s c st))) = usage_dest (ust_usage st)"
proof -
  have "usage_dest (ust_usage (fst (use_condition_param ext apps rid s c x st))) = usage_dest (ust_usage (fst st))" for x st
    unfolding use_condition_param_def by (cases x; cases st) (auto split: option.split sum.split)
  then have "usage_dest (ust_usage (fst (fold (use_condition_param ext apps rid s c) ps st)))
      = usage_dest (ust_usage (fst st))" for ps st
    by (induction ps arbitrary: st) simp_all
  then show ?thesis by (simp add: use_condition_def)
qed

lemma keeps_dest_conditions: "keeps_dest (use_skip_condition ext apps rid s c)"
  "keeps_dest (use_verify_condition ext apps rid s c)"
  using dest_use_condition [of ext apps rid s c]
  by (auto simp: keeps_dest_def use_skip_condition_def use_verify_condition_def case_prod_unfold Let_def)

text \<open>An App Target is accepted only as the destination of a copy, which it then resolves.\<close>

lemma use_param_target:
  assumes "ust_errors (use_param ext apps r b rid s (name, AppTarget t) st) = []"
  shows "step_type_name s = ''copy_files'' \<and> name = ''dest''
    \<and> usage_dest (ust_usage (use_param ext apps r b rid s (name, AppTarget t) st)) \<noteq> None"
  using assms by (auto simp: use_param_def split: if_splits sum.splits)

lemma fold_use_param_target:
  assumes "(name, AppTarget t) \<in> set ps" and "ust_errors (fold (use_param ext apps r b rid s) ps st) = []"
  shows "step_type_name s = ''copy_files'' \<and> name = ''dest''
    \<and> usage_dest (ust_usage (fold (use_param ext apps r b rid s) ps st)) \<noteq> None"
proof -
  from split_list [OF assms(1)] obtain xs ys where ps: "ps = xs @ (name, AppTarget t) # ys" by blast
  define st1 where "st1 = fold (use_param ext apps r b rid s) xs st"
  define st2 where "st2 = use_param ext apps r b rid s (name, AppTarget t) st1"
  have split: "fold (use_param ext apps r b rid s) ps st = fold (use_param ext apps r b rid s) ys st2"
    by (simp add: ps st1_def st2_def)
  have "adds_errors (fold (use_param ext apps r b rid s) ys)"
    by (rule adds_errors_fold) (rule adds_errors_use_param)
  from adds_errors_Nil [OF this assms(2) [unfolded split]] have "ust_errors st2 = []" .
  from use_param_target [OF this [unfolded st2_def]]
  have "step_type_name s = ''copy_files'' \<and> name = ''dest''" "usage_dest (ust_usage st2) \<noteq> None"
    by (auto simp: st2_def)
  moreover have "keeps_dest (fold (use_param ext apps r b rid s) ys)"
    by (rule keeps_dest_fold) (rule keeps_dest_use_param)
  ultimately show ?thesis unfolding split keeps_dest_def by blast
qed

lemma resolve_step_usage_target:
  assumes "ust_errors (resolve_step_usage ext apps b r rid s) = []" and "(name, AppTarget t) \<in> set (step_params s)"
  shows "step_type_name s = ''copy_files'' \<and> name = ''dest''
    \<and> usage_dest (ust_usage (resolve_step_usage ext apps b r rid s)) \<noteq> None"
proof -
  define st1 where "st1 = check_copy_source r rid s (push_errors (app_context_errors ext apps rid s) (initial_usage s))"
  define st2 where "st2 = fold (use_param ext apps r b rid s) (step_params s) st1"
  define later where "later = (\<lambda>st. fold (use_verify_condition ext apps rid s) (step_verify s)
      (fold (use_skip_condition ext apps rid s) (step_skip_if s) (use_literal_destination rid s st)))"
  have errs: "ust_errors (later st2) = []"
    and same: "ust_usage (resolve_step_usage ext apps b r rid s) = ust_usage (later st2)"
    using assms(1) by (simp_all add: resolve_step_usage_def Let_def st1_def st2_def later_def)
  have "adds_errors (use_literal_destination rid s)"
    "adds_errors (fold (use_skip_condition ext apps rid s) (step_skip_if s))"
    "adds_errors (fold (use_verify_condition ext apps rid s) (step_verify s))"
    by (intro adds_errors_use_literal adds_errors_fold adds_errors_conditions)+
  then have "adds_errors later" unfolding later_def adds_errors_def by blast
  from adds_errors_Nil [OF this errs] have "ust_errors st2 = []" .
  from fold_use_param_target [OF assms(2) this [unfolded st2_def]]
  have st2: "step_type_name s = ''copy_files'' \<and> name = ''dest''" "usage_dest (ust_usage st2) \<noteq> None"
    by (simp_all add: st2_def)
  have "keeps_dest (use_literal_destination rid s)"
    "keeps_dest (fold (use_skip_condition ext apps rid s) (step_skip_if s))"
    "keeps_dest (fold (use_verify_condition ext apps rid s) (step_verify s))"
    by (intro keeps_dest_use_literal keeps_dest_fold keeps_dest_conditions)+
  with st2(2) have "usage_dest (ust_usage (later st2)) \<noteq> None"
    unfolding later_def keeps_dest_def by blast
  with st2(1) same show ?thesis by simp
qed
section \<open>Emission of one step\<close>

text \<open>A usage fits a step when it has a path, or none, for each of its conditions and the
  destination of an App Target.\<close>

definition usage_fits :: "step \<Rightarrow> resolved_step_usage \<Rightarrow> bool" where
  "usage_fits s u \<longleftrightarrow>
     length (usage_skip_if_paths u) = length (step_skip_if s)
     \<and> length (usage_verify_paths u) = length (step_verify s)
     \<and> (usage_dest u = None \<longrightarrow> (\<forall>name t. (name, AppTarget t) \<notin> set (step_params s)))"

lemma usage_fits_resolve:
  assumes "ust_errors (resolve_step_usage ext apps b r rid s) = []"
  shows "usage_fits s (ust_usage (resolve_step_usage ext apps b r rid s))"
  using usage_ok_resolve [of ext apps s b r rid] resolve_step_usage_target [OF assms]
  by (auto simp: usage_ok_def usage_fits_def)

lemma usage_fits_permissions [simp]: "usage_fits s (with_permission_capabilities plan u) = usage_fits s u"
  by (simp add: usage_fits_def with_permission_capabilities_def Let_def)

lemma target_param_authored:
  assumes "omap_get (params_with_defaults s) name = Some (AppTarget t)"
  shows "(name, AppTarget t) \<in> set (step_params s)"
proof (cases "step_spec_for (step_type_name s)")
  case None
  with assms show ?thesis by (auto simp: params_with_defaults_def dest: map_of_SomeD)
next
  case (Some spec)
  with assms show ?thesis
    by (auto simp: omap_get_params_with_defaults [OF Some] dest: map_of_SomeD split: option.splits)
qed

lemma emitted_params_total:
  assumes "resolved_dest = None \<longrightarrow> (\<forall>name t. omap_get normalized name \<noteq> Some (AppTarget t))"
  shows "\<exists>result'. emitted_params r resolved_dest normalized names result = Some result'"
proof (induction names arbitrary: result)
  case (Cons name names)
  have "\<exists>p. emitted_param r resolved_dest v = Some p" if "omap_get normalized name = Some v" for v
    using assms that by (cases v; cases resolved_dest) (auto simp: emitted_param_def)
  with Cons.IH show ?case by (auto split: option.split)
qed simp

text \<open>A lifecycle step that names an app finds it, and a launch finds a launcher.\<close>

definition lifecycle_ready :: "apps \<Rightarrow> step \<Rightarrow> bool" where
  "lifecycle_ready apps s \<longleftrightarrow>
     (step_type_name s \<in> {''launch_app'', ''force_stop_app''} \<and> step_app_ref s \<noteq> None \<longrightarrow>
        (\<exists>app. step_app apps s = Some app
           \<and> (step_type_name s = ''launch_app'' \<longrightarrow> app_launcher_activity app \<noteq> None)))"

lemma lifecycle_ready_authorised:
  assumes "validate_app_authority ext recipes refs steps apps = []" and "(eid, rid, s) \<in> set steps"
  shows "lifecycle_ready apps s"
proof (cases "step_app_ref s")
  case (Some aid)
  from authorised_app [OF assms Some] obtain app where "fmlookup apps aid = Some app" "lifecycle_errors rid s aid app = []" .
  with Some show ?thesis by (auto simp: lifecycle_ready_def step_app_def lifecycle_errors_def split: if_splits)
qed (simp add: lifecycle_ready_def)

lemma normalize_step_params_total:
  assumes "lifecycle_ready apps s" and "usage_fits s u"
  shows "\<exists>ps. normalize_step_params_for_execution r s apps (usage_dest u) (usage_dest_kind u) = Some ps"
proof -
  have "usage_dest u = None \<longrightarrow> (\<forall>name t. omap_get (params_with_defaults s) name \<noteq> Some (AppTarget t))"
    using assms(2) target_param_authored [of s] by (auto simp: usage_fits_def)
  from emitted_params_total [OF this] have params: "\<exists>result'. emitted_params r (usage_dest u) (params_with_defaults s) names [] = Some result'" for names
    by blast
  show ?thesis
  proof (cases "step_type_name s \<in> {''launch_app'', ''force_stop_app''} \<and> step_app_ref s \<noteq> None")
    case True
    with assms(1) show ?thesis
      by (auto simp: normalize_step_params_for_execution_def lifecycle_ready_def lifecycle_params_def)
  next
    case False
    with params show ?thesis
      by (auto simp: normalize_step_params_for_execution_def Let_def split: option.split)
  qed
qed

lemma emit_step_total:
  assumes "fmlookup usage (make_execution_step_id (recipe_id r) (step_id s)) = Some u"
    and "lifecycle_ready apps s" and "usage_fits s u"
  shows "\<exists>e. emit_step ext apps usage plans contract sid rid r s = Some e"
  using normalize_step_params_total [OF assms(2,3), of r] assms(1,3)
  by (auto simp: emit_step_def emitted_conditions_def usage_fits_def)

lemma emit_steps_total:
  assumes "\<forall>(sid, rid, s) \<in> set ordered. \<exists>r e. fmlookup recipes rid = Some r
             \<and> emit_step ext apps usage plans contract sid rid r s = Some e"
  shows "\<exists>es. emit_steps ext recipes apps usage plans contract ordered = Some es
           \<and> list_all2 (\<lambda>(sid, rid, s) e. \<exists>r. fmlookup recipes rid = Some r
               \<and> emit_step ext apps usage plans contract sid rid r s = Some e) ordered es"
  using assms
proof (induction ordered)
  case (Cons x ordered)
  then obtain es where es: "emit_steps ext recipes apps usage plans contract ordered = Some es"
    "list_all2 (\<lambda>(sid, rid, s) e. \<exists>r. fmlookup recipes rid = Some r
               \<and> emit_step ext apps usage plans contract sid rid r s = Some e) ordered es" by auto
  obtain sid rid s where x: "x = (sid, rid, s)" by (cases x)
  from Cons.prems x obtain r e where "fmlookup recipes rid = Some r"
    "emit_step ext apps usage plans contract sid rid r s = Some e" by auto
  with es show ?case by (auto simp: x)
qed simp
section \<open>The usage of the sorted steps\<close>

text \<open>All steps of the expanded recipes, in order; the usage has one entry for each identifier
  among them, that of the last step that bears it, and so has the sort.\<close>

definition expanded_steps :: "recipes \<Rightarrow> string list \<Rightarrow> emitted list" where
  "expanded_steps recipes refs =
     concat (map (\<lambda>rid. case fmlookup recipes rid of
         None \<Rightarrow> []
       | Some r \<Rightarrow> map (\<lambda>s. (make_execution_step_id rid (step_id s), rid, s)) (recipe_steps r)) refs)"

lemma authored_steps_filter:
  "authored_steps recipes refs selected = filter (\<lambda>x. fst x \<in> selected) (expanded_steps recipes refs)"
  by (induction refs) (auto simp: authored_steps_def expanded_steps_def filter_map comp_def split: option.split)

lemma expanded_steps_cases:
  assumes "(sid, rid, s) \<in> set (expanded_steps recipes refs)"
  obtains r where "rid \<in> set refs" "fmlookup recipes rid = Some r" "s \<in> set (recipe_steps r)"
    and "sid = make_execution_step_id rid (step_id s)"
proof -
  from assms obtain rid' where "rid' \<in> set refs"
    "(sid, rid, s) \<in> set (case fmlookup recipes rid' of None \<Rightarrow> []
       | Some r \<Rightarrow> map (\<lambda>s. (make_execution_step_id rid' (step_id s), rid', s)) (recipe_steps r))"
    by (auto simp: expanded_steps_def)
  with that show ?thesis by (cases "fmlookup recipes rid'") auto
qed

lemma map_of_filter_fst: "P k \<Longrightarrow> map_of (filter (\<lambda>x. P (fst x)) xs) k = map_of xs k"
  by (induction xs) auto

lemma map_of_map_snd: "map_of (map (\<lambda>x. (fst x, f (snd x))) xs) k = map_option f (map_of xs k)"
  by (induction xs) auto

definition step_usage :: "externals \<Rightarrow> recipes \<Rightarrow> apps \<Rightarrow> json omap option \<Rightarrow> string \<times> step \<Rightarrow> resolved_step_usage" where
  "step_usage ext recipes apps b =
     (\<lambda>(rid, s). ust_usage (resolve_step_usage ext apps b (the (fmlookup recipes rid)) rid s))"

lemma usage_expanded:
  "map (\<lambda>(sid, st). (sid, ust_usage st)) (concat (map (resolve_recipe_usage ext recipes apps b) refs)) =
     map (\<lambda>x. (fst x, step_usage ext recipes apps b (snd x))) (expanded_steps recipes refs)"
  by (induction refs) (auto simp: resolve_recipe_usage_def expanded_steps_def step_usage_def split: option.split)

lemma last_expanded:
  assumes "fmlookup (step_by_id (authored_steps recipes refs selected)) sid = Some e"
  shows "map_of (rev (expanded_steps recipes refs)) sid = Some e"
proof -
  have "(sid, e) \<in> set (authored_steps recipes refs selected)"
    using assms unfolding step_by_id_def by (rule hash_collect_Some)
  then have "sid \<in> selected" by (simp add: authored_steps_filter)
  with assms map_of_filter_fst [of "\<lambda>i. i \<in> selected" sid "rev (expanded_steps recipes refs)"]
  show ?thesis by (simp add: step_by_id_def fmlookup_hash_collect authored_steps_filter rev_filter)
qed

lemma usage_of_last:
  assumes "resolve_usage ext recipes refs apps b = Inr usage"
    and "fmlookup (step_by_id (authored_steps recipes refs selected)) sid = Some (rid, s)"
  obtains r where "fmlookup recipes rid = Some r" "rid \<in> set refs" "s \<in> set (recipe_steps r)"
    and "sid = make_execution_step_id rid (step_id s)" "(sid, rid, s) \<in> set (authored_steps recipes refs selected)"
    and "fmlookup usage sid = Some (ust_usage (resolve_step_usage ext apps b r rid s))"
    and "ust_errors (resolve_step_usage ext apps b r rid s) = []"
proof -
  let ?all = "expanded_steps recipes refs"
  from assms(2) have mem: "(sid, rid, s) \<in> set (authored_steps recipes refs selected)"
    unfolding step_by_id_def by (rule hash_collect_Some)
  then have sid: "sid \<in> selected" and all: "(sid, rid, s) \<in> set ?all"
    by (simp_all add: authored_steps_filter)
  from all obtain r where r: "rid \<in> set refs" "fmlookup recipes rid = Some r" "s \<in> set (recipe_steps r)"
    "sid = make_execution_step_id rid (step_id s)" by (rule expanded_steps_cases)
  have "map_of (rev ?all) sid = Some (rid, s)" by (rule last_expanded [OF assms(2)])
  then have "fmlookup usage sid = Some (ust_usage (resolve_step_usage ext apps b r rid s))"
    using r(2) unfolding resolve_usage_Inr(1) [OF assms(1)] usage_expanded fmlookup_hash_collect rev_map map_of_map_snd
    by (simp add: step_usage_def)
  moreover have "(sid, resolve_step_usage ext apps b r rid s) \<in> set (concat (map (resolve_recipe_usage ext recipes apps b) refs))"
    using r by (force simp: resolve_recipe_usage_def)
  then have "ust_errors (resolve_step_usage ext apps b r rid s) = []"
    using resolve_usage_Inr(2) [OF assms(1)] by fastforce
  ultimately show ?thesis using that r mem by blast
qed

lemma sort_step_source:
  "set (ss_result (sort_step steps sid rest st))
     \<subseteq> set (ss_result st) \<union> {(i, e). fmlookup (step_by_id steps) i = Some e}"
  by (auto simp: sort_step_def Let_def split: option.splits prod.splits)

lemma sort_loop_source:
  "set (ss_result (sort_loop steps st))
     \<subseteq> set (ss_result st) \<union> {(i, e). fmlookup (step_by_id steps) i = Some e}"
proof (induction steps st rule: sort_loop.induct)
  case (1 steps st)
  show ?case
  proof (cases "ss_queue st")
    case Nil
    then show ?thesis by (simp add: sort_loop.simps [of steps st])
  next
    case (Cons sid rest)
    from "1.IH" [OF Cons] sort_step_source [of steps sid rest st] Cons show ?thesis
      by (simp add: sort_loop.simps [of steps st]) blast
  qed
qed

lemma sorted_source:
  assumes "topologically_sort_steps steps = (ordered, errors)" and "(sid, rid, s) \<in> set ordered"
  shows "fmlookup (step_by_id steps) sid = Some (rid, s)"
  using assms sort_loop_source [of steps "initial_sort_state steps"]
  by (auto simp: topologically_sort_steps_def initial_sort_state_def Let_def case_prod_unfold split: if_splits)
section \<open>Stages\<close>

text \<open>What has been computed when emission starts.\<close>

record planned =
  pl_apps :: apps
  pl_recipes :: recipes
  pl_expanded :: "string list"
  pl_resolved :: "resolved_input_binding list"
  pl_target_usage :: target_usage
  pl_permission_plans :: "(string, permission_plan) fmap"
  pl_selected :: "string set"
  pl_warnings :: "planner_message list"
  pl_ordered :: "emitted list"

definition pl_usage :: "planned \<Rightarrow> target_usage" where
  "pl_usage p = derive_permission_capabilities (pl_permission_plans p) (pl_target_usage p)"

definition pl_authored :: "planned \<Rightarrow> emitted list" where
  "pl_authored p = authored_steps (pl_recipes p) (pl_expanded p) (pl_selected p)"

definition pl_artifacts :: "planned \<Rightarrow> string set" where
  "pl_artifacts p = selected_artifact_ids (pl_recipes p) (pl_expanded p) (pl_selected p)"

definition pl_emit :: "externals \<Rightarrow> host_env \<Rightarrow> planner_input \<Rightarrow> planned \<Rightarrow> planning_result option" where
  "pl_emit ext env input p =
     emit_plan ext env input (pl_recipes p) (pl_expanded p) (pl_apps p) (pl_usage p) (pl_permission_plans p)
       (pl_resolved p) (pl_selected p) (pl_artifacts p) (pl_warnings p) (pl_ordered p)"

text \<open>Every stage before emission passed.\<close>

definition stages_pass ::
  "externals \<Rightarrow> host_env \<Rightarrow> (string set \<Rightarrow> string list) \<Rightarrow> planner_input \<Rightarrow> app_definition list
     \<Rightarrow> bool \<Rightarrow> bool \<Rightarrow> bool \<Rightarrow> planned \<Rightarrow> bool" where
  "stages_pass ext env hash_order input app_definitions ignore au report p \<longleftrightarrow>
     index_app_definitions app_definitions = Inr (pl_apps p)
     \<and> pl_recipes p = hash_collect (map (\<lambda>r. (recipe_id r, r)) (pin_recipes input))
     \<and> expand_recipe_dependencies (pl_recipes p) (pin_selected_recipe_refs input) = (pl_expanded p, [])
     \<and> (let resolution = resolve_runtime_bindings ext env (pl_recipes p) (pl_expanded p)
              (pin_explicit_input_bindings input) (pin_user_configuration_bindings input)
              (pin_device_plan_input_bindings input)
        in pl_resolved p = br_resolved_inputs resolution \<and> (ignore \<or> br_diagnostics resolution = []))
     \<and> resolve_usage ext (pl_recipes p) (pl_expanded p) (pl_apps p) (Some (effective_bindings (pl_resolved p)))
         = Inr (pl_target_usage p)
     \<and> validate_app_permission_step_contracts (pl_recipes p) (pl_expanded p) = []
     \<and> resolve_app_permission_plans (pl_recipes p) (pl_expanded p) (pl_apps p) (observed_api_level input)
         = Inr (pl_permission_plans p)
     \<and> selected_step_ids (pl_recipes p) (pl_expanded p) (effective_bindings (pl_resolved p))
         (pin_runtime_capabilities input) (pl_usage p) au report = Some (pl_selected p, [], pl_warnings p)
     \<and> authored_step_errors ext env hash_order (pl_recipes p) (pl_expanded p) (pl_apps p) (pl_artifacts p)
         (effective_bindings (pl_resolved p)) ignore (pl_authored p) = []
     \<and> topologically_sort_steps (pl_authored p) = (pl_ordered p, [])
     \<and> pl_ordered p \<noteq> []"

lemma stages_passD:
  assumes "stages_pass ext env hash_order input app_definitions ignore au report p"
  shows "index_app_definitions app_definitions = Inr (pl_apps p)"
    "pl_recipes p = hash_collect (map (\<lambda>r. (recipe_id r, r)) (pin_recipes input))"
    "expand_recipe_dependencies (pl_recipes p) (pin_selected_recipe_refs input) = (pl_expanded p, [])"
    "pl_resolved p = br_resolved_inputs (resolve_runtime_bindings ext env (pl_recipes p) (pl_expanded p)
       (pin_explicit_input_bindings input) (pin_user_configuration_bindings input)
       (pin_device_plan_input_bindings input))"
    "resolve_usage ext (pl_recipes p) (pl_expanded p) (pl_apps p) (Some (effective_bindings (pl_resolved p)))
       = Inr (pl_target_usage p)"
    "validate_app_permission_step_contracts (pl_recipes p) (pl_expanded p) = []"
    "resolve_app_permission_plans (pl_recipes p) (pl_expanded p) (pl_apps p) (observed_api_level input)
       = Inr (pl_permission_plans p)"
    "selected_step_ids (pl_recipes p) (pl_expanded p) (effective_bindings (pl_resolved p))
       (pin_runtime_capabilities input) (pl_usage p) au report = Some (pl_selected p, [], pl_warnings p)"
    "topologically_sort_steps (pl_authored p) = (pl_ordered p, [])" "pl_ordered p \<noteq> []"
  using assms unfolding stages_pass_def Let_def by - (elim conjE, assumption)+

lemma first_errors_Nil: "first_errors ess = [] \<longleftrightarrow> (\<forall>es \<in> set ess. es = [])"
  by (induction ess) auto

lemma stages_pass_checks:
  assumes "stages_pass ext env hash_order input app_definitions ignore au report p"
  shows "validate_app_authority ext (pl_recipes p) (pl_expanded p) (pl_authored p) (pl_apps p) = []"
    "validate_selected_user_provided_inputs env (pl_recipes p) (hash_order (pl_artifacts p)) (pl_apps p)
       (effective_bindings (pl_resolved p)) ignore = []"
    "validate_step_param_contracts (pl_recipes p) (pl_authored p) = []"
    "validate_emitted_step_dependencies (pl_authored p) = []"
    "validate_artifact_selections (pl_recipes p) (pl_authored p) = []"
    "validate_step_refs (pl_authored p) = []"
proof -
  from assms have "authored_step_errors ext env hash_order (pl_recipes p) (pl_expanded p) (pl_apps p) (pl_artifacts p)
      (effective_bindings (pl_resolved p)) ignore (pl_authored p) = []"
    unfolding stages_pass_def by (elim conjE)
  then show "validate_app_authority ext (pl_recipes p) (pl_expanded p) (pl_authored p) (pl_apps p) = []"
    "validate_selected_user_provided_inputs env (pl_recipes p) (hash_order (pl_artifacts p)) (pl_apps p)
       (effective_bindings (pl_resolved p)) ignore = []"
    "validate_step_param_contracts (pl_recipes p) (pl_authored p) = []"
    "validate_emitted_step_dependencies (pl_authored p) = []"
    "validate_artifact_selections (pl_recipes p) (pl_authored p) = []"
    "validate_step_refs (pl_authored p) = []"
    by (simp_all add: authored_step_errors_def first_errors_Nil del: first_errors.simps)
qed

text \<open>Planning fails with errors and no plan, or reaches emission.\<close>

definition failed :: "planning_result \<Rightarrow> bool" where
  "failed res \<longleftrightarrow> res_status res = PlanError \<and> res_errors res \<noteq> [] \<and> res_execution_plan res = None"

lemma failed_error_result [simp]:
  "failed (error_result es) = (es \<noteq> [])" "failed (error_result es \<lparr> res_warnings := ws \<rparr>) = (es \<noteq> [])"
  by (simp_all add: failed_def error_result_def)

lemma index_app_definitions_Inl: "index_app_definitions_from apps defs = Inl es \<Longrightarrow> es \<noteq> []"
  by (induction apps defs rule: index_app_definitions_from.induct) (auto split: if_splits)

lemma resolve_usage_Inl: "resolve_usage ext recipes refs apps b = Inl es \<Longrightarrow> es \<noteq> []"
  by (auto simp only: resolve_usage_def Let_def split: if_splits)

lemma permission_plans_Inl: "resolve_app_permission_plans recipes refs apps level = Inl es \<Longrightarrow> es \<noteq> []"
  by (auto simp only: resolve_app_permission_plans_def Let_def split: if_splits)

lemma plan_selected_cases:
  "(\<exists>res. plan_selected ext env hash_order input recipes expanded apps usage plans resolved ignore selected warnings = Some res
      \<and> failed res)
   \<or> (let artifacts = selected_artifact_ids recipes expanded selected;
          steps = authored_steps recipes expanded selected;
          ordered = fst (topologically_sort_steps steps)
      in authored_step_errors ext env hash_order recipes expanded apps artifacts (effective_bindings resolved) ignore steps = []
         \<and> topologically_sort_steps steps = (ordered, []) \<and> ordered \<noteq> []
         \<and> plan_selected ext env hash_order input recipes expanded apps usage plans resolved ignore selected warnings
             = emit_plan ext env input recipes expanded apps usage plans resolved selected artifacts warnings ordered)"
  by (cases "topologically_sort_steps (authored_steps recipes expanded selected)")
    (auto simp: plan_selected_def Let_def)

lemma planning_cases:
  "(\<exists>res. plan_execution_with_app_definitions_inner ext env hash_order input defs ignore au report = Some res \<and> failed res)
   \<or> (\<exists>p. stages_pass ext env hash_order input defs ignore au report p
        \<and> plan_execution_with_app_definitions_inner ext env hash_order input defs ignore au report = pl_emit ext env input p)"
  (is "?failed \<or> ?passed")
proof (cases "index_app_definitions defs")
  case (Inl es)
  with index_app_definitions_Inl [of fmempty defs es] show ?thesis
    by (simp add: plan_execution_with_app_definitions_inner_def index_app_definitions_def)
next
  case apps: (Inr apps)
  define recipes where "recipes = hash_collect (map (\<lambda>r. (recipe_id r, r)) (pin_recipes input))"
  obtain expanded derrors where expand: "expand_recipe_dependencies recipes (pin_selected_recipe_refs input) = (expanded, derrors)"
    by fastforce
  define resolution where "resolution = resolve_runtime_bindings ext env recipes expanded
      (pin_explicit_input_bindings input) (pin_user_configuration_bindings input) (pin_device_plan_input_bindings input)"
  define bindings where "bindings = effective_bindings (br_resolved_inputs resolution)"
  note inner = plan_execution_with_app_definitions_inner_def apps recipes_def [symmetric] expand resolution_def [symmetric]
    bindings_def [symmetric] Let_def
  show ?thesis
  proof (cases "derrors = [] \<and> (ignore \<or> br_diagnostics resolution = [])")
    case False
    then have ?failed by (auto simp: inner)
    then show ?thesis ..
  next
    case early: True
    show ?thesis
    proof (cases "resolve_usage ext recipes expanded apps (Some bindings)")
      case (Inl es)
      with early resolve_usage_Inl [OF Inl] have ?failed by (auto simp: inner)
      then show ?thesis ..
    next
      case tusage: (Inr tusage)
      show ?thesis
      proof (cases "resolve_app_permission_plans recipes expanded apps (observed_api_level input)")
        case (Inl es)
        with early tusage permission_plans_Inl [OF Inl] have ?failed by (auto simp: inner)
        then show ?thesis ..
      next
        case plans: (Inr plans)
        define usage where "usage = derive_permission_capabilities plans tusage"
        obtain selected errors warnings where sel: "selected_step_ids recipes expanded bindings
            (pin_runtime_capabilities input) usage au report = Some (selected, errors, warnings)"
          using selected_step_ids_run by blast
        note late = inner tusage plans usage_def [symmetric] sel
        show ?thesis
        proof (cases "validate_app_permission_step_contracts recipes expanded = [] \<and> errors = []")
          case False
          with early have ?failed by (auto simp: late)
          then show ?thesis ..
        next
          case pass: True
          define ordered where "ordered = fst (topologically_sort_steps (authored_steps recipes expanded selected))"
          define p where "p = \<lparr> pl_apps = apps, pl_recipes = recipes, pl_expanded = expanded,
            pl_resolved = br_resolved_inputs resolution, pl_target_usage = tusage, pl_permission_plans = plans,
            pl_selected = selected, pl_warnings = warnings, pl_ordered = ordered \<rparr>"
          from pass early have inner_eq: "plan_execution_with_app_definitions_inner ext env hash_order input defs ignore au report
              = plan_selected ext env hash_order input recipes expanded apps usage plans (br_resolved_inputs resolution)
                  ignore selected warnings"
            by (auto simp: late)
          have "stages_pass ext env hash_order input defs ignore au report p \<and> pl_emit ext env input p
              = plan_selected ext env hash_order input recipes expanded apps usage plans (br_resolved_inputs resolution)
                  ignore selected warnings"
            if "\<not> (\<exists>res. plan_selected ext env hash_order input recipes expanded apps usage plans
                (br_resolved_inputs resolution) ignore selected warnings = Some res \<and> failed res)"
            using plan_selected_cases [of ext env hash_order input recipes expanded apps usage plans
                "br_resolved_inputs resolution" ignore selected warnings] that pass early apps expand tusage plans sel
            by (simp add: stages_pass_def pl_emit_def p_def pl_usage_def pl_authored_def pl_artifacts_def Let_def
                recipes_def [symmetric] resolution_def [symmetric] bindings_def [symmetric] usage_def [symmetric]
                ordered_def [symmetric])
          with inner_eq show ?thesis by metis
        qed
      qed
    qed
  qed
qed
section \<open>Emission succeeds\<close>

definition pl_contract :: "planner_input \<Rightarrow> bool" where
  "pl_contract input \<longleftrightarrow> pin_catalog_identity input \<noteq> None \<or> pin_target_device input \<noteq> None"

text \<open>The usage of a step with the capabilities its permission plan needs.\<close>

definition effective_usage :: "planned \<Rightarrow> string \<Rightarrow> resolved_step_usage \<Rightarrow> resolved_step_usage" where
  "effective_usage p sid u =
     (case fmlookup (pl_permission_plans p) sid of
        None \<Rightarrow> u | Some plan \<Rightarrow> with_permission_capabilities plan u)"

lemma lookup_pl_usage:
  "fmlookup (pl_usage p) sid = map_option (effective_usage p sid) (fmlookup (pl_target_usage p) sid)"
  by (cases "fmlookup (pl_target_usage p) sid")
    (simp_all add: pl_usage_def derive_permission_capabilities_def effective_usage_def)

lemma usage_fits_effective [simp]: "usage_fits s (effective_usage p sid u) = usage_fits s u"
  by (simp add: effective_usage_def split: option.split)

lemma recipe_id_of_lookup:
  assumes "stages_pass ext env hash_order input defs ignore au report p" and "fmlookup (pl_recipes p) rid = Some r"
  shows "recipe_id r = rid"
  using hash_collect_Some [OF assms(2) [unfolded stages_passD(2) [OF assms(1)]]] by auto

text \<open>Everything known of a step of the plan.\<close>

lemma ordered_step:
  assumes "stages_pass ext env hash_order input defs ignore au report p" and "(sid, rid, s) \<in> set (pl_ordered p)"
  obtains r u e where "fmlookup (pl_recipes p) rid = Some r" "recipe_id r = rid" "rid \<in> set (pl_expanded p)"
    and "s \<in> set (recipe_steps r)" "sid = make_execution_step_id rid (step_id s)" "(sid, rid, s) \<in> set (pl_authored p)"
    and "u = ust_usage (resolve_step_usage ext (pl_apps p) (Some (effective_bindings (pl_resolved p))) r rid s)"
    and "ust_errors (resolve_step_usage ext (pl_apps p) (Some (effective_bindings (pl_resolved p))) r rid s) = []"
    and "fmlookup (pl_usage p) sid = Some (effective_usage p sid u)"
    and "emit_step ext (pl_apps p) (pl_usage p) (pl_permission_plans p) (pl_contract input) sid rid r s = Some e"
proof -
  note stage = stages_passD [OF assms(1)]
  have "fmlookup (step_by_id (authored_steps (pl_recipes p) (pl_expanded p) (pl_selected p))) sid = Some (rid, s)"
    using sorted_source [OF stage(9) assms(2)] by (simp add: pl_authored_def)
  from usage_of_last [OF stage(5) this] obtain r where r: "fmlookup (pl_recipes p) rid = Some r"
    "rid \<in> set (pl_expanded p)" "s \<in> set (recipe_steps r)" "sid = make_execution_step_id rid (step_id s)"
    "(sid, rid, s) \<in> set (pl_authored p)"
    and usage: "fmlookup (pl_target_usage p) sid
      = Some (ust_usage (resolve_step_usage ext (pl_apps p) (Some (effective_bindings (pl_resolved p))) r rid s))"
    and errors: "ust_errors (resolve_step_usage ext (pl_apps p) (Some (effective_bindings (pl_resolved p))) r rid s) = []"
    by (auto simp: pl_authored_def)
  have rid: "recipe_id r = rid" by (rule recipe_id_of_lookup [OF assms(1) r(1)])
  have "lifecycle_ready (pl_apps p) s"
    by (rule lifecycle_ready_authorised [OF stages_pass_checks(1) [OF assms(1)] r(5)])
  moreover from usage have eff: "fmlookup (pl_usage p) sid = Some (effective_usage p sid
      (ust_usage (resolve_step_usage ext (pl_apps p) (Some (effective_bindings (pl_resolved p))) r rid s)))"
    by (simp add: lookup_pl_usage)
  ultimately obtain e where "emit_step ext (pl_apps p) (pl_usage p) (pl_permission_plans p) (pl_contract input) sid rid r s = Some e"
    using emit_step_total [of "pl_usage p" r s] usage_fits_resolve [OF errors] r(4) rid by fastforce
  with that r rid eff errors show ?thesis by blast
qed

definition emits :: "externals \<Rightarrow> planner_input \<Rightarrow> planned \<Rightarrow> emitted \<Rightarrow> execution_step \<Rightarrow> bool" where
  "emits ext input p = (\<lambda>(sid, rid, s) e. \<exists>r. fmlookup (pl_recipes p) rid = Some r
     \<and> emit_step ext (pl_apps p) (pl_usage p) (pl_permission_plans p) (pl_contract input) sid rid r s = Some e)"

definition succeeded :: "planning_result \<Rightarrow> execution_plan \<Rightarrow> bool" where
  "succeeded res plan \<longleftrightarrow>
     res_status res = PlanSuccess \<and> res_errors res = [] \<and> res_execution_plan res = Some plan"

text \<open>What the plan holds, in terms of the stages.\<close>

definition plan_of :: "externals \<Rightarrow> host_env \<Rightarrow> planner_input \<Rightarrow> planned \<Rightarrow> execution_plan \<Rightarrow> bool" where
  "plan_of ext env input p plan \<longleftrightarrow>
     list_all2 (emits ext input p) (pl_ordered p) (plan_steps plan)
     \<and> plan_copy_commit_snapshots plan = []
     \<and> plan_target_device plan = pin_target_device input
     \<and> plan_device_context plan = bound_device_context input
     \<and> plan_runtime_capabilities plan = pin_runtime_capabilities input
     \<and> src_expanded_recipe_refs (plan_source plan) = pl_expanded p
     \<and> plan_apps plan = execution_app_snapshots (pl_recipes p) (pl_expanded p) (pl_ordered p) (pl_apps p)
     \<and> plan_inputs plan = emit_execution_inputs env (pl_recipes p)
         (selected_input_ids (pl_recipes p) (pl_expanded p) (pl_selected p) (pl_artifacts p))
         (effective_bindings (pl_resolved p))
     \<and> plan_artifacts plan = emit_execution_artifacts ext (pl_recipes p) (pl_expanded p) (pl_apps p) (pl_artifacts p)"

lemma emission_succeeds:
  assumes "stages_pass ext env hash_order input defs ignore au report p"
  shows "\<exists>res plan. pl_emit ext env input p = Some res \<and> succeeded res plan \<and> plan_of ext env input p plan
    \<and> res_warnings res = pl_warnings p"
proof -
  let ?review = "pl_contract input \<or> pin_device_plan_presentation input \<noteq> None"
  obtain dp rs ss where review: "execution_review_snapshots ?review (pin_device_plan_presentation input)
      (pl_expanded p) (pl_recipes p) (pl_resolved p) = Inr (dp, rs, ss)"
  proof (cases ?review)
    case True
    with execution_review_snapshots_complete [of "pin_device_plan_presentation input" "pl_expanded p" "pl_recipes p"
        ext env "pin_explicit_input_bindings input" "pin_user_configuration_bindings input"
        "pin_device_plan_input_bindings input"] that stages_passD(4) [OF assms]
    show ?thesis by auto
  qed (use that in \<open>simp add: execution_review_snapshots_def\<close>)
  have "\<forall>(sid, rid, s) \<in> set (pl_ordered p). \<exists>r e. fmlookup (pl_recipes p) rid = Some r
      \<and> emit_step ext (pl_apps p) (pl_usage p) (pl_permission_plans p) (pl_contract input) sid rid r s = Some e"
    using ordered_step [OF assms] by blast
  from emit_steps_total [OF this] obtain es where es:
    "emit_steps ext (pl_recipes p) (pl_apps p) (pl_usage p) (pl_permission_plans p) (pl_contract input) (pl_ordered p) = Some es"
    "list_all2 (emits ext input p) (pl_ordered p) es"
    by (auto simp: emits_def)
  with review show ?thesis
    by (simp add: pl_emit_def emit_plan_def Let_def pl_contract_def succeeded_def plan_of_def)
qed

lemma planning_result_cases:
  obtains (failed) res where
      "plan_execution_with_app_definitions_inner ext env hash_order input defs ignore au report = Some res" "failed res"
  | (succeeded) res p plan where
      "plan_execution_with_app_definitions_inner ext env hash_order input defs ignore au report = Some res"
      "succeeded res plan" "stages_pass ext env hash_order input defs ignore au report p"
      "plan_of ext env input p plan" "plan_steps plan \<noteq> []"
proof (cases "\<exists>res. plan_execution_with_app_definitions_inner ext env hash_order input defs ignore au report = Some res \<and> failed res")
  case False
  with planning_cases [of ext env hash_order input defs ignore au report] obtain p where
    p: "stages_pass ext env hash_order input defs ignore au report p"
    "plan_execution_with_app_definitions_inner ext env hash_order input defs ignore au report = pl_emit ext env input p"
    by blast
  from emission_succeeds [OF p(1)] obtain res plan where res: "pl_emit ext env input p = Some res" "succeeded res plan"
    "plan_of ext env input p plan" by blast
  from res(3) stages_passD(10) [OF p(1)] have "plan_steps plan \<noteq> []" by (auto simp: plan_of_def)
  with p res succeeded show ?thesis by simp
qed (use failed in blast)

end
