(* ===== verification/Plan_Guards.thy ===== *)
theory Plan_Guards
  imports Plan_Emission
begin

text \<open>
  The checks of \<open>planner.rs\<close> that the executor and the review make on a plan without the catalog:
  \<open>validated_plan_lifecycle_target\<close>, \<open>validated_plan_permission_plan\<close> and
  \<open>validate_execution_plan_local_input_bindings\<close>.  Every plan the planner emits passes them.
\<close>

section \<open>The guards\<close>

text \<open>The app snapshot with the identity of the step; an ambiguous plan is refused.\<close>

definition plan_app :: "execution_plan \<Rightarrow> execution_step \<Rightarrow> string + execution_app_snapshot" where
  "plan_app plan step =
     (case es_app_id step of
        None \<Rightarrow> Inl ''app identity is missing''
      | Some aid \<Rightarrow>
          (case filter (\<lambda>app. apps_id app = aid) (plan_apps plan) of
             [] \<Rightarrow> Inl ''app snapshot is missing''
           | [app] \<Rightarrow> Inr app
           | _ \<Rightarrow> Inl ''app snapshot is ambiguous''))"

definition literal_param :: "execution_step \<Rightarrow> string \<Rightarrow> string option" where
  "literal_param step name =
     (case omap_get (es_params step) name of Some (ParamLiteral (JString v)) \<Rightarrow> Some v | _ \<Rightarrow> None)"

definition validated_plan_lifecycle_target ::
  "execution_plan \<Rightarrow> execution_step \<Rightarrow> string + string \<times> string option" where
  "validated_plan_lifecycle_target plan step =
     (case plan_app plan step of
        Inl error \<Rightarrow> Inl error
      | Inr app \<Rightarrow>
          if \<not> is_valid_package_id (apps_package_id app) then Inl ''app snapshot package is invalid''
          else (case literal_param step ''package_name'' of
                  None \<Rightarrow> Inl ''concrete package is missing''
                | Some package_name \<Rightarrow>
                    if package_name \<noteq> apps_package_id app
                    then Inl ''concrete package differs from the app snapshot''
                    else if es_type_name step = ''launch_app'' then
                      (if length (es_params step) \<noteq> 2 then Inl ''app launch has unexpected parameters''
                       else (case literal_param step ''activity'' of
                               None \<Rightarrow> Inl ''concrete launcher activity is missing''
                             | Some activity \<Rightarrow>
                                 if \<not> is_valid_concrete_launcher_activity activity
                                 then Inl ''concrete launcher activity is invalid''
                                 else Inr (package_name, Some activity)))
                    else if es_type_name step = ''force_stop_app'' then
                      (if length (es_params step) \<noteq> 1 then Inl ''app force-stop has unexpected parameters''
                       else Inr (package_name, None))
                    else Inl ''step is not an app lifecycle operation''))"

definition permission_action_error :: "execution_app_snapshot \<Rightarrow> permission_plan_action \<Rightarrow> string option" where
  "permission_action_error app action =
     (if ppa_package_name action \<noteq> apps_package_id app \<or> \<not> is_valid_package_id (ppa_package_name action)
      then Some ''permission action package differs from the app snapshot''
      else (case action of
              RuntimePermission _ permission _ _ _ \<Rightarrow>
                if is_blank permission then Some ''runtime permission identity is empty'' else None
            | AppOp _ op _ _ _ _ \<Rightarrow>
                if is_blank op then Some ''app-op identity is empty'' else None))"

definition validated_plan_permission_plan ::
  "execution_plan \<Rightarrow> execution_step \<Rightarrow> string + execution_app_snapshot \<times> permission_plan" where
  "validated_plan_permission_plan plan step =
     (if es_type_name step \<noteq> ''grant_permissions'' then Inl ''step is not a permission operation''
      else (case es_permission_plan step of
              None \<Rightarrow> Inl ''permission plan is missing''
            | Some permission_plan \<Rightarrow>
                if es_params step \<noteq> [] then Inl ''permission step contains parameters outside its plan''
                else if pp_actions permission_plan = []
                then Inl ''permission plan contains no App Definition actions''
                else (case plan_app plan step of
                        Inl error \<Rightarrow> Inl error
                      | Inr app \<Rightarrow>
                          if \<not> is_valid_identifier (apps_id app) \<or> \<not> is_valid_package_id (apps_package_id app)
                          then Inl ''app snapshot identity is invalid''
                          else (case first_some (map (permission_action_error app) (pp_actions permission_plan)) of
                                  Some error \<Rightarrow> Inl error
                                | None \<Rightarrow> Inr (app, permission_plan)))))"

definition validated_local_input_path :: "execution_plan \<Rightarrow> string \<Rightarrow> string + string" where
  "validated_local_input_path plan input_id =
     (let invalid = (\<lambda>text. Inl (''app_artifact_input_binding_invalid: '' @ text))
      in case filter (\<lambda>v. eiv_id v = input_id) (plan_inputs plan) of
           [v] \<Rightarrow>
             if rv_type_name (eiv_value v) \<noteq> ''file_path'' \<or> rv_location (eiv_value v) \<noteq> Some ''host''
             then invalid ''Local input binding must reference one host file input.''
             else (case opt_filter (\<lambda>path. path \<noteq> []) (as_str (rv_value (eiv_value v))) of
                     Some path \<Rightarrow> Inr path
                   | None \<Rightarrow> invalid ''Local input path is missing.'')
         | _ \<Rightarrow> invalid ''Local input binding is missing or duplicated.'')"

definition qualified_recipe :: "string \<Rightarrow> string option" where
  "qualified_recipe qualified_id =
     Option.bind (split_once ''/'' qualified_id) (\<lambda>(rid, local_id).
       if rid \<noteq> [] \<and> local_id \<noteq> [] then Some rid else None)"

definition local_input_binding_matches_recipe :: "string \<Rightarrow> string \<Rightarrow> bool" where
  "local_input_binding_matches_recipe artifact_id input_id =
     (qualified_recipe artifact_id \<noteq> None \<and> qualified_recipe artifact_id = qualified_recipe input_id)"

definition local_input_ok :: "execution_plan \<Rightarrow> execution_artifact \<Rightarrow> bool" where
  "local_input_ok plan artifact =
     (case ea_source artifact of
        SrcLocalInput input_id \<Rightarrow>
          local_input_binding_matches_recipe (ea_id artifact) input_id
          \<and> (case validated_local_input_path plan input_id of Inl _ \<Rightarrow> False | Inr _ \<Rightarrow> True)
      | _ \<Rightarrow> True)"

definition validate_execution_plan_local_input_bindings :: "execution_plan \<Rightarrow> string + unit" where
  "validate_execution_plan_local_input_bindings plan =
     (if list_all (local_input_ok plan) (plan_artifacts plan) then Inr ()
      else Inl ''app_artifact_input_binding_invalid'')"

section \<open>Emitted steps pass the guards\<close>

lemma index_from_keys:
  assumes "index_app_definitions_from apps defs = Inr apps'" and "\<forall>i a. fmlookup apps i = Some a \<longrightarrow> app_id a = i"
  shows "\<forall>i a. fmlookup apps' i = Some a \<longrightarrow> app_id a = i"
  using assms
proof (induction apps defs rule: index_app_definitions_from.induct)
  case (2 apps app rest)
  from "2.prems"(1) have fresh: "fmlookup apps (app_id app) = None"
    and rest: "index_app_definitions_from (fmupd (app_id app) app apps) rest = Inr apps'"
    by (simp_all split: if_splits)
  from "2.prems"(2) have "\<forall>i a. fmlookup (fmupd (app_id app) app apps) i = Some a \<longrightarrow> app_id a = i"
    by (metis fmupd_lookup option.inject)
  with "2.IH" [OF _ rest] fresh show ?case by blast
qed simp

lemma stage_app_id:
  "stages_pass ext env hash_order input defs ignore au report p \<Longrightarrow> fmlookup (pl_apps p) i = Some a \<Longrightarrow> app_id a = i"
  using index_from_keys [of fmempty defs "pl_apps p"] by (auto dest: stages_passD(1) simp: index_app_definitions_def)

text \<open>A collection made from distinct keys has one element with a given key.\<close>

lemma filter_key_unique:
  assumes "distinct ks" "k \<in> set ks" "f k = Some a" "\<And>i b. f i = Some b \<Longrightarrow> key b = i"
  shows "filter (\<lambda>x. key x = k) (List.map_filter f ks) = [a]"
proof -
  have absent: "filter (\<lambda>x. key x = k) (List.map_filter f js) = []" if "k \<notin> set js" for js
    using that assms(4) by (auto simp: filter_empty_conv List.map_filter_def)
  show ?thesis
    using assms(1,2)
  proof (induction ks)
    case (Cons i ks)
    show ?case
    proof (cases "i = k")
      case True
      with Cons.prems absent [of ks] assms(3) assms(4) [OF assms(3)] show ?thesis
        by (simp add: List.map_filter_simps)
    next
      case False
      with Cons assms(4) [of i] show ?thesis by (auto simp: List.map_filter_simps split: option.split)
    qed
  qed simp
qed

lemma map_map_filter: "map g (List.map_filter f xs) = List.map_filter (\<lambda>x. map_option g (f x)) xs"
  by (induction xs) (auto simp: List.map_filter_simps split: option.split)

lemma emitted_app:
  assumes "stages_pass ext env hash_order input defs ignore au report p" and "plan_of ext env input p plan"
    and "(sid, rid, s) \<in> set (pl_ordered p)" and "emits ext input p (sid, rid, s) e" and "step_app_ref s = Some aid"
  obtains app where "fmlookup (pl_apps p) aid = Some app" "validate_app_definition ext app = []"
    and "plan_app plan e = Inr (app_snapshot app)"
proof -
  from ordered_step [OF assms(1,3)] have authored: "(sid, rid, s) \<in> set (pl_authored p)" by blast
  from authorised_app [OF stages_pass_checks(1) [OF assms(1)] authored assms(5)] obtain app where
    app: "fmlookup (pl_apps p) aid = Some app" "validate_app_definition ext app = []" by blast
  have "filter (\<lambda>x. apps_id x = aid) (List.map_filter (\<lambda>i. map_option app_snapshot (fmlookup (pl_apps p) i))
      (referenced_app_ids (pl_recipes p) (pl_expanded p) (pl_ordered p))) = [app_snapshot app]"
  proof (rule filter_key_unique [OF distinct_referenced_app_ids step_app_referenced [OF assms(3,5)]])
    fix i b assume "map_option app_snapshot (fmlookup (pl_apps p) i) = Some b"
    then obtain a where "fmlookup (pl_apps p) i = Some a" "b = app_snapshot a" by auto
    with stage_app_id [OF assms(1) this(1)] show "apps_id b = i" by (simp add: app_snapshot_def)
  qed (simp add: app(1))
  then have "filter (\<lambda>x. apps_id x = aid) (plan_apps plan) = [app_snapshot app]"
    using assms(2) by (simp add: plan_of_def execution_app_snapshots_def map_map_filter)
  moreover have "es_app_id e = Some aid"
    using assms(4,5) app(1) stage_app_id [OF assms(1) app(1)]
    by (auto simp: emits_def emit_step_def step_app_def bind_eq_Some_conv)
  ultimately have "plan_app plan e = Inr (app_snapshot app)" by (simp add: plan_app_def)
  with app that show ?thesis by blast
qed

lemma list_all2_related: "list_all2 R xs ys \<Longrightarrow> y \<in> set ys \<Longrightarrow> \<exists>x \<in> set xs. R x y"
  by (induction rule: list_all2_induct) auto

lemma emitted_step_of:
  assumes "plan_of ext env input p plan" and "e \<in> set (plan_steps plan)"
  obtains sid rid s where "(sid, rid, s) \<in> set (pl_ordered p)" "emits ext input p (sid, rid, s) e"
proof -
  have "list_all2 (emits ext input p) (pl_ordered p) (plan_steps plan)" using assms(1) by (simp add: plan_of_def)
  from list_all2_related [OF this assms(2)] obtain x where "x \<in> set (pl_ordered p)" "emits ext input p x e" ..
  with that show ?thesis by (cases x) blast
qed

lemma emits_fields:
  assumes "emits ext input p (sid, rid, s) e"
  shows "es_type_name e = step_type_name s" "es_id e = sid" "es_recipe_ref e = rid"
    "es_permission_plan e = fmlookup (pl_permission_plans p) sid"
  using assms by (auto simp: emits_def emit_step_def bind_eq_Some_conv)

lemma emitted_lifecycle:
  assumes "stages_pass ext env hash_order input defs ignore au report p" and "plan_of ext env input p plan"
    and "(sid, rid, s) \<in> set (pl_ordered p)" and "emits ext input p (sid, rid, s) e"
    and "es_type_name e \<in> {''launch_app'', ''force_stop_app''}"
  shows "\<exists>app. fmlookup (pl_apps p) (the (step_app_ref s)) = Some app \<and> es_app_id e = step_app_ref s
    \<and> validated_plan_lifecycle_target plan e = Inr (app_package_id app,
        if es_type_name e = ''launch_app'' then app_launcher_activity app else None)"
proof -
  from ordered_step [OF assms(1,3)] have authored: "(sid, rid, s) \<in> set (pl_authored p)" by blast
  have type: "step_type_name s \<in> {''launch_app'', ''force_stop_app''}" using assms(5) emits_fields [OF assms(4)] by simp
  with authorised_context [OF stages_pass_checks(1) [OF assms(1)] authored] obtain aid where
    aid: "step_app_ref s = Some aid" by auto
  from emitted_app [OF assms(1-4) aid] obtain app where app: "fmlookup (pl_apps p) aid = Some app"
    "validate_app_definition ext app = []" "plan_app plan e = Inr (app_snapshot app)" .
  have sapp: "step_app (pl_apps p) s = Some app" using app aid by (simp add: step_app_def)
  have launcher: "pred_option (\<lambda>a. is_valid_concrete_launcher_activity a) (app_launcher_activity app)"
    using app(2) by (cases "app_launcher_activity app")
      (auto simp: validate_app_definition_def validate_launcher_activity_def is_some_and_def split: if_splits)
  have "\<not> is_app_permission_step s" using type by (auto simp: is_app_permission_step_def)
  then have "Some (es_params e) = lifecycle_params s (Some app)" and eid: "es_app_id e = Some (app_id app)"
    using assms(4) type aid sapp
    by (auto simp: emits_def emit_step_def bind_eq_Some_conv normalize_step_params_for_execution_def)
  with launcher app aid type emits_fields [OF assms(4)] valid_app_package [OF app(2)] stage_app_id [OF assms(1) app(1)]
  show ?thesis
    by (cases "app_launcher_activity app")
      (auto simp: validated_plan_lifecycle_target_def literal_param_def lifecycle_params_def app_snapshot_def Let_def)
qed

section \<open>Permission plans of emitted steps\<close>

lemma map_of_map_filter:
  assumes "\<And>x y. f x = Some y \<Longrightarrow> fst y = fst x" and "map_of xs k = Some v" and "f (k, v) = Some (k, w)"
  shows "map_of (List.map_filter f xs) k = Some w"
  using assms(2)
proof (induction xs)
  case (Cons x xs)
  show ?case
  proof (cases "fst x = k")
    case True
    with Cons.prems assms(3) show ?thesis by (cases x) (auto simp: List.map_filter_simps)
  next
    case False
    with Cons assms(1) [of x] show ?thesis by (cases x) (auto simp: List.map_filter_simps split: option.split)
  qed
qed simp

lemma rev_map_filter: "rev (List.map_filter f xs) = List.map_filter f (rev xs)"
  by (simp add: List.map_filter_def rev_map rev_filter)

definition permission_entry :: "apps \<Rightarrow> int option \<Rightarrow> emitted \<Rightarrow> (string \<times> permission_plan) option" where
  "permission_entry apps level = (\<lambda>(sid, rid, s).
     case resolve_permission_step apps level rid s of Some (Inr entry) \<Rightarrow> Some (sid, snd entry) | _ \<Rightarrow> None)"

lemma rights_permissions:
  "rights (concat (map (resolve_recipe_permissions recipes apps level) refs)) =
     List.map_filter (permission_entry apps level) (expanded_steps recipes refs)"
proof -
  have steps: "rights (List.map_filter (resolve_permission_step apps level rid) ss) =
      List.map_filter (permission_entry apps level) (map (\<lambda>s. (make_execution_step_id rid (step_id s), rid, s)) ss)" for rid ss
  proof (induction ss)
    case (Cons s ss)
    have "fst entry = make_execution_step_id rid (step_id s)"
      if "resolve_permission_step apps level rid s = Some (Inr entry)" for entry
    proof -
      from that obtain aid app where
        "map_sum id (Pair (make_execution_step_id rid (step_id s))) (resolve_permission_plan level rid s aid app) = Inr entry"
        by (auto simp: resolve_permission_step_def bind_eq_Some_conv split: if_splits)
      then show ?thesis by (cases "resolve_permission_plan level rid s aid app") auto
    qed
    with Cons show ?case
      by (auto simp: rights_def List.map_filter_simps permission_entry_def split: option.split sum.split)
  qed (simp add: rights_def List.map_filter_simps)
  have app: "List.map_filter f (xs @ ys) = List.map_filter f xs @ List.map_filter f ys" for f :: "'x \<Rightarrow> 'y option" and xs ys
    by (simp add: List.map_filter_def)
  have rapp: "rights (xs @ ys) = rights xs @ rights ys" for xs ys :: "('e + 'a) list"
    by (simp add: rights_def List.map_filter_def)
  show ?thesis
  proof (induction refs)
    case (Cons rid refs)
    then show ?case
      by (cases "fmlookup recipes rid") (simp_all add: resolve_recipe_permissions_def expanded_steps_def app rapp steps)
  qed (simp add: rights_def expanded_steps_def List.map_filter_simps)
qed

lemma permission_plan_of:
  assumes "resolve_app_permission_plans recipes refs apps level = Inr plans"
    and "map_of (rev (expanded_steps recipes refs)) sid = Some (rid, s)"
    and "is_app_permission_step s" "step_app_ref s = Some aid" "fmlookup apps aid = Some app"
  shows "\<exists>plan. fmlookup plans sid = Some plan \<and> plan_for level app s plan"
proof -
  let ?results = "concat (map (resolve_recipe_permissions recipes apps level) refs)"
  from assms(1) have plans: "plans = hash_collect (rights ?results)" and lefts: "concat (lefts ?results) = []"
    by (auto simp: resolve_app_permission_plans_def Let_def split: if_splits)
  from assms(2) have "(sid, rid, s) \<in> set (expanded_steps recipes refs)" by (auto dest: map_of_SomeD)
  then obtain r where r: "rid \<in> set refs" "fmlookup recipes rid = Some r" "s \<in> set (recipe_steps r)"
    and sid: "sid = make_execution_step_id rid (step_id s)" by (rule expanded_steps_cases)
  let ?res = "resolve_permission_plan level rid s aid app"
  have step: "resolve_permission_step apps level rid s = Some (map_sum id (Pair sid) ?res)"
    using assms(3-5) sid by (simp add: resolve_permission_step_def)
  have "?res \<noteq> Inl es" if "es \<noteq> []" for es
  proof
    assume "?res = Inl es"
    with step r have "Inl es \<in> set ?results"
      by (force simp: resolve_recipe_permissions_def List.map_filter_def)
    with lefts that show False by simp
  qed
  moreover have "?res \<noteq> Inl []"
    by (auto simp: resolve_permission_plan_def resolve_permission_actions_def Let_def split: sum.splits if_splits)
  ultimately obtain plan where plan: "?res = Inr plan" by (cases ?res) auto
  have "map_of (rev (List.map_filter (permission_entry apps level) (expanded_steps recipes refs))) sid = Some plan"
    unfolding rev_map_filter
  proof (rule map_of_map_filter [OF _ assms(2)])
    show "permission_entry apps level (sid, rid, s) = Some (sid, plan)"
      using step plan by (simp add: permission_entry_def)
    fix x y
    assume "permission_entry apps level x = Some y"
    then show "fst y = fst x" by (cases x) (auto simp: permission_entry_def split: option.splits sum.splits)
  qed
  with plans resolve_permission_plan_Inr [OF plan] show ?thesis
    by (simp add: fmlookup_hash_collect rights_permissions)
qed

lemma plan_for_accepted:
  assumes "plan_for level app s plan" and "validate_app_definition ext app = []"
  shows "pp_actions plan \<noteq> []" "first_some (map (permission_action_error (app_snapshot app)) (pp_actions plan)) = None"
proof -
  from assms(1) obtain sets selected where sets: "app_permission_sets app = Some sets"
    and selected: "permission_set_of sets (pp_permission_set plan) = Some selected"
    and actions: "list_all2 (action_for level app) (authored_actions selected) (pp_actions plan)"
    by (auto simp: plan_for_def)
  have "validate_permission_sets (app_permission_sets app) = []" using assms(2) by (simp add: validate_app_definition_def)
  with sets have "sets_ok sets" by (simp add: validate_permission_sets_Nil)
  with selected have ok: "set_ok selected"
    by (cases "pp_permission_set plan") (auto simp: sets_ok_def)
  then have "authored_actions selected \<noteq> []" by (auto simp: set_ok_def authored_actions_def)
  with actions show "pp_actions plan \<noteq> []" by auto
  have "permission_action_error (app_snapshot app) action = None" if action: "action \<in> set (pp_actions plan)" for action
  proof -
    from list_all2_related [OF actions action] obtain x where x: "x \<in> set (authored_actions selected)" "action_for level app x action" ..
    then show ?thesis
      using ok valid_app_package [OF assms(2)]
      by - (cases x; auto simp: set_ok_def authored_actions_def permission_action_error_def app_snapshot_def
          list_all_iff runtime_ok_def op_ok_def)
  qed
  then show "first_some (map (permission_action_error (app_snapshot app)) (pp_actions plan)) = None"
    by (simp add: first_some_def filter_empty_conv split: list.split)
qed

lemma emitted_permission:
  assumes "stages_pass ext env hash_order input defs ignore au report p" and "plan_of ext env input p plan"
    and "(sid, rid, s) \<in> set (pl_ordered p)" and "emits ext input p (sid, rid, s) e"
    and "es_type_name e = ''grant_permissions''"
  shows "\<exists>app permission_plan. fmlookup (pl_apps p) (the (step_app_ref s)) = Some app \<and> es_app_id e = step_app_ref s
    \<and> es_permission_plan e = Some permission_plan \<and> plan_for (observed_api_level input) app s permission_plan
    \<and> validated_plan_permission_plan plan e = Inr (app_snapshot app, permission_plan)"
proof -
  note stage = stages_passD [OF assms(1)]
  from ordered_step [OF assms(1,3)] have authored: "(sid, rid, s) \<in> set (pl_authored p)" by blast
  have type: "step_type_name s = ''grant_permissions''" using assms(5) emits_fields [OF assms(4)] by simp
  with authorised_context [OF stages_pass_checks(1) [OF assms(1)] authored] obtain aid where
    aid: "step_app_ref s = Some aid" by auto
  with type have granting: "is_app_permission_step s" by (simp add: is_app_permission_step_def)
  from emitted_app [OF assms(1-4) aid] obtain app where app: "fmlookup (pl_apps p) aid = Some app"
    "validate_app_definition ext app = []" "plan_app plan e = Inr (app_snapshot app)" .
  have "map_of (rev (expanded_steps (pl_recipes p) (pl_expanded p))) sid = Some (rid, s)"
    using sorted_source [OF stage(9) assms(3)] unfolding pl_authored_def by (rule last_expanded)
  from permission_plan_of [OF stage(7) this granting aid app(1)] obtain permission_plan where
    plan: "fmlookup (pl_permission_plans p) sid = Some permission_plan"
      "plan_for (observed_api_level input) app s permission_plan" by blast
  have "es_params e = []" "es_app_id e = Some aid"
    using assms(4) granting aid app(1) stage_app_id [OF assms(1) app(1)]
    by (auto simp: emits_def emit_step_def bind_eq_Some_conv normalize_step_params_for_execution_def step_app_def)
  then show ?thesis
    using plan plan_for_accepted [OF plan(2) app(2)] app aid emits_fields [OF assms(4)] assms(5)
      valid_app_package [OF app(2)] valid_app_id [OF app(2)]
    by (simp add: validated_plan_permission_plan_def app_snapshot_def)
qed

section \<open>Local inputs of emitted artifacts\<close>

text \<open>What the loaders guarantee of a recipe: no slash in its identifier, identifiers that are
  not empty and no key twice.\<close>

definition wf_recipe :: "recipe \<Rightarrow> bool" where
  "wf_recipe r \<longleftrightarrow>
     recipe_id r \<noteq> [] \<and> CHR ''/'' \<notin> set (recipe_id r)
     \<and> distinct (map step_id (recipe_steps r))
     \<and> distinct (omap_keys (recipe_artifacts r)) \<and> [] \<notin> set (omap_keys (recipe_artifacts r))
     \<and> [] \<notin> set (omap_keys (recipe_inputs r))"

lemma stage_wf_recipe:
  assumes "stages_pass ext env hash_order input defs ignore au report p" and "list_all wf_recipe (pin_recipes input)"
    and "fmlookup (pl_recipes p) rid = Some r"
  shows "wf_recipe r" "recipe_id r = rid"
  using hash_collect_Some [OF assms(3) [unfolded stages_passD(2) [OF assms(1)]]] assms(2)
  by (auto simp: list_all_iff)

lemma fold_mono:
  assumes "\<And>x ys. set ys \<subseteq> set (f x ys)" shows "set ys \<subseteq> set (fold f xs ys)"
  using assms by (induction xs arbitrary: ys) fastforce+

lemma fold_member:
  assumes "\<And>x ys. set ys \<subseteq> set (f x ys)" and "x \<in> set xs" and "\<And>ys. k \<in> set (f x ys)"
  shows "k \<in> set (fold f xs ys)"
proof -
  from split_list [OF assms(2)] obtain as bs where "xs = as @ x # bs" by blast
  with assms(3) [of "fold f as ys"] fold_mono [of f "f x (fold f as ys)" bs, OF assms(1)] show ?thesis by auto
qed

lemma fold_distinct:
  assumes "\<And>x ys. distinct ys \<Longrightarrow> distinct (f x ys)" and "distinct ys" shows "distinct (fold f xs ys)"
  using assms by (induction xs arbitrary: ys) auto

definition push_step_inputs :: "string set \<Rightarrow> string \<Rightarrow> step \<Rightarrow> string list \<Rightarrow> string list" where
  "push_step_inputs selected rid s ids =
     (if make_execution_step_id rid (step_id s) \<notin> selected then ids
      else fold (\<lambda>input_id ids. push_new ids input_id) (referenced_input_ids rid s) ids)"

definition push_artifact_input :: "string set \<Rightarrow> string \<Rightarrow> string \<times> recipe_artifact \<Rightarrow> string list \<Rightarrow> string list" where
  "push_artifact_input selected_artifacts rid = (\<lambda>(artifact_id, artifact) ids.
     if make_execution_artifact_id rid artifact_id \<notin> selected_artifacts then ids
     else case artifact of
            AppArtifact reference \<Rightarrow>
              (case aref_input reference of
                 Some binding \<Rightarrow> push_new ids (make_execution_input_id rid (binding_input_id binding))
               | None \<Rightarrow> ids)
          | RemoteFile _ \<Rightarrow> ids)"

definition push_recipe_inputs :: "recipes \<Rightarrow> string set \<Rightarrow> string set \<Rightarrow> string \<Rightarrow> string list \<Rightarrow> string list" where
  "push_recipe_inputs recipes selected selected_artifacts rid ids =
     (case fmlookup recipes rid of
        None \<Rightarrow> ids
      | Some r \<Rightarrow> fold (push_artifact_input selected_artifacts rid) (recipe_artifacts r)
                    (fold (push_step_inputs selected rid) (recipe_steps r) ids))"

lemma selected_input_ids_fold:
  "selected_input_ids recipes expanded selected selected_artifacts =
     fold (push_recipe_inputs recipes selected selected_artifacts) expanded []"
  unfolding selected_input_ids_def push_recipe_inputs_def [abs_def] push_step_inputs_def [abs_def]
    push_artifact_input_def [abs_def] Let_def by (rule refl)

lemma push_inputs_facts:
  "set ids \<subseteq> set (push_step_inputs selected rid s ids)" "distinct ids \<Longrightarrow> distinct (push_step_inputs selected rid s ids)"
  "set ids \<subseteq> set (push_artifact_input arts rid x ids)" "distinct ids \<Longrightarrow> distinct (push_artifact_input arts rid x ids)"
  by (auto simp: push_step_inputs_def push_artifact_input_def set_fold_push_new distinct_fold_push_new
      split: prod.split recipe_artifact.split option.split)

lemma push_recipe_inputs_facts:
  "set ids \<subseteq> set (push_recipe_inputs recipes selected arts rid ids)"
  "distinct ids \<Longrightarrow> distinct (push_recipe_inputs recipes selected arts rid ids)"
proof -
  have "set ids \<subseteq> set (fold (push_artifact_input arts rid) as (fold (push_step_inputs selected rid) ss ids))" for as ss
    by (rule order_trans [OF fold_mono fold_mono]) (rule push_inputs_facts)+
  then show "set ids \<subseteq> set (push_recipe_inputs recipes selected arts rid ids)"
    by (simp add: push_recipe_inputs_def split: option.split)
  show "distinct ids \<Longrightarrow> distinct (push_recipe_inputs recipes selected arts rid ids)"
    by (simp add: push_recipe_inputs_def fold_distinct push_inputs_facts split: option.split)
qed

lemma distinct_selected_input_ids: "distinct (selected_input_ids recipes expanded selected arts)"
  unfolding selected_input_ids_fold by (rule fold_distinct) (simp_all add: push_recipe_inputs_facts)

lemma artifact_input_selected:
  assumes "rid \<in> set expanded" "fmlookup recipes rid = Some r"
    and "(artifact_id, AppArtifact reference) \<in> set (recipe_artifacts r)" "aref_input reference = Some binding"
    and "make_execution_artifact_id rid artifact_id \<in> arts"
  shows "make_execution_input_id rid (binding_input_id binding) \<in> set (selected_input_ids recipes expanded selected arts)"
  unfolding selected_input_ids_fold
proof (rule fold_member [OF push_recipe_inputs_facts(1) assms(1)])
  fix ids
  have "make_execution_input_id rid (binding_input_id binding)
      \<in> set (fold (push_artifact_input arts rid) (recipe_artifacts r) (fold (push_step_inputs selected rid) (recipe_steps r) ids))"
    by (rule fold_member [OF push_inputs_facts(3) assms(3)]) (simp add: push_artifact_input_def assms(4,5))
  with assms(2) show "make_execution_input_id rid (binding_input_id binding)
      \<in> set (push_recipe_inputs recipes selected arts rid ids)"
    by (simp add: push_recipe_inputs_def)
qed

text \<open>The value of the input a selected user-provided artifact binds.\<close>

lemma selected_local_input:
  assumes "stages_pass ext env hash_order input defs False au report p" and "list_all wf_recipe (pin_recipes input)"
    and "set (hash_order (pl_artifacts p)) = pl_artifacts p"
    and "fmlookup (pl_recipes p) rid = Some r" "omap_get (recipe_artifacts r) artifact_id = Some (AppArtifact reference)"
    and "make_execution_artifact_id rid artifact_id \<in> pl_artifacts p"
    and "app_artifact_of (pl_apps p) reference = Some app_artifact" "artifact_source app_artifact = UserProvided"
  obtains binding d path where "aref_input reference = Some binding" "omap_get (recipe_inputs r) (binding_input_id binding) = Some d"
    and "input_type_name d = ''file''" "\<not> input_multiple d"
    and "Option.bind (binding_value env d (make_execution_input_id rid (binding_input_id binding))
           (effective_bindings (pl_resolved p))) as_str = Some path" "\<not> is_blank path"
proof -
  have "selected_artifact_errors env (pl_recipes p) (pl_apps p) (effective_bindings (pl_resolved p)) False
      (make_execution_artifact_id rid artifact_id) = []"
    using stages_pass_checks(2) [OF assms(1)] assms(3,6) by (simp add: validate_selected_user_provided_inputs_def)
  moreover have "split_once ''/'' (make_execution_artifact_id rid artifact_id) = Some (rid, artifact_id)"
    using stage_wf_recipe [OF assms(1,2,4)] by (simp add: make_execution_artifact_id_def wf_recipe_def split_once_char_at)
  ultimately have errors: "static_artifact_input_binding_errors rid r artifact_id reference app_artifact = []"
    "selected_input_value_errors env rid r artifact_id reference (effective_bindings (pl_resolved p)) False = []"
    using assms(4,5,7,8) by (auto simp: selected_artifact_errors_def Let_def split: if_splits)
  from errors(1) assms(8) obtain binding d where d: "aref_input reference = Some binding"
    "omap_get (recipe_inputs r) (binding_input_id binding) = Some d" "input_type_name d = ''file''" "\<not> input_multiple d"
    by (auto simp: static_artifact_input_binding_errors_def split: option.splits if_splits)
  from errors(2) d(1,2) have "is_some_and (Option.bind (binding_value env d (make_execution_input_id rid (binding_input_id binding))
      (effective_bindings (pl_resolved p))) as_str) (\<lambda>path. \<not> is_blank path)"
    by (simp add: selected_input_value_errors_def Let_def split: if_splits)
  with d that show ?thesis by (auto simp: is_some_and_iff)
qed

lemma emit_execution_artifacts_cases:
  assumes "x \<in> set (emit_execution_artifacts ext recipes expanded apps arts)"
  obtains rid r artifact_id decl where "rid \<in> set expanded" "fmlookup recipes rid = Some r"
    and "(artifact_id, decl) \<in> set (recipe_artifacts r)"
    and "emit_execution_artifact ext apps arts rid (artifact_id, decl) = Some x"
proof -
  from assms obtain rid where rid: "rid \<in> set expanded"
    and x: "x \<in> set (case fmlookup recipes rid of None \<Rightarrow> []
      | Some r \<Rightarrow> List.map_filter (emit_execution_artifact ext apps arts rid) (recipe_artifacts r))"
    by (auto simp: emit_execution_artifacts_def)
  then show ?thesis
  proof (cases "fmlookup recipes rid")
    case (Some r)
    with x obtain y where "y \<in> set (recipe_artifacts r)" "emit_execution_artifact ext apps arts rid y = Some x"
      by (auto simp: List.map_filter_def)
    with Some rid that show ?thesis by (cases y) blast
  qed simp
qed

lemma emitted_local_inputs:
  assumes "stages_pass ext env hash_order input defs False au report p" and "plan_of ext env input p plan"
    and "list_all wf_recipe (pin_recipes input)" and "set (hash_order (pl_artifacts p)) = pl_artifacts p"
    and "artifact \<in> set (plan_artifacts plan)"
  shows "local_input_ok plan artifact"
proof (cases "ea_source artifact")
  case (SrcLocalInput input_id)
  let ?arts = "pl_artifacts p" and ?b = "effective_bindings (pl_resolved p)"
  let ?ids = "selected_input_ids (pl_recipes p) (pl_expanded p) (pl_selected p) ?arts"
  from assms(2,5) have "artifact \<in> set (emit_execution_artifacts ext (pl_recipes p) (pl_expanded p) (pl_apps p) ?arts)"
    by (simp add: plan_of_def)
  then obtain rid r artifact_id decl where rid: "rid \<in> set (pl_expanded p)" and r: "fmlookup (pl_recipes p) rid = Some r"
    and decl: "(artifact_id, decl) \<in> set (recipe_artifacts r)"
    and emitted: "emit_execution_artifact ext (pl_apps p) ?arts rid (artifact_id, decl) = Some artifact"
    by (rule emit_execution_artifacts_cases)
  from stage_wf_recipe [OF assms(1,3) r] have wf: "wf_recipe r" "recipe_id r = rid" .
  from emitted SrcLocalInput obtain reference provenance where ref: "decl = AppArtifact reference"
    and proj: "execution_app_artifact_projection ext reference rid (pl_apps p) = Some (SrcLocalInput input_id, provenance)"
    and sel: "make_execution_artifact_id rid artifact_id \<in> ?arts"
    and aid: "ea_id artifact = make_execution_artifact_id rid artifact_id"
    by (auto simp: emit_execution_artifact_def Let_def split: recipe_artifact.splits option.splits if_splits)
  have get: "omap_get (recipe_artifacts r) artifact_id = Some (AppArtifact reference)"
    using wf(1) decl ref by (auto simp: wf_recipe_def intro: map_of_is_SomeI)
  from proj obtain app_artifact where app_artifact: "app_artifact_of (pl_apps p) reference = Some app_artifact"
    and user: "artifact_source app_artifact = UserProvided"
    and input_id: "\<exists>binding. aref_input reference = Some binding \<and> input_id = make_execution_input_id rid (binding_input_id binding)"
    by (auto simp: execution_app_artifact_projection_def app_artifact_of_def bind_eq_Some_conv execution_artifact_source_def
        split: option.splits app_artifact_source.splits if_splits sum.splits)
  from selected_local_input [OF assms(1,3,4) r get sel app_artifact user] obtain binding d path where
    binding: "aref_input reference = Some binding" and d: "omap_get (recipe_inputs r) (binding_input_id binding) = Some d"
    "input_type_name d = ''file''" "\<not> input_multiple d"
    and path: "Option.bind (binding_value env d (make_execution_input_id rid (binding_input_id binding)) ?b) as_str = Some path"
    "\<not> is_blank path" .
  have key: "input_id = rid @ ''/'' @ binding_input_id binding"
    using input_id binding by (simp add: make_execution_input_id_def)
  have slash: "CHR ''/'' \<notin> set rid" "rid \<noteq> []" "artifact_id \<noteq> []" "binding_input_id binding \<noteq> []"
    using wf decl d(1) by (force simp: wf_recipe_def dest: map_of_SomeD)+
  from path(1) obtain v where v: "binding_value env d input_id ?b = Some v" "as_str v = Some path"
    using input_id binding by (auto simp: bind_eq_Some_conv)
  have bound: "emit_execution_input env (pl_recipes p) ?b input_id
      = Some \<lparr> eiv_id = input_id, eiv_value = \<lparr> rv_type_name = ''file_path'', rv_value = v, rv_location = Some ''host'' \<rparr> \<rparr>"
    using v(1) r d slash(1) by (simp add: emit_execution_input_def key split_once_char_at binding_to_runtime_value_def)
  have "filter (\<lambda>x. eiv_id x = input_id) (plan_inputs plan)
      = [\<lparr> eiv_id = input_id, eiv_value = \<lparr> rv_type_name = ''file_path'', rv_value = v, rv_location = Some ''host'' \<rparr> \<rparr>]"
  proof -
    have "input_id \<in> set ?ids"
      using artifact_input_selected [OF rid r _ binding sel] decl ref input_id binding by auto
    moreover have "eiv_id b = i" if "emit_execution_input env (pl_recipes p) ?b i = Some b" for i b
      using that by (auto simp: emit_execution_input_def bind_eq_Some_conv)
    ultimately show ?thesis
      using filter_key_unique [OF distinct_selected_input_ids, of input_id "pl_recipes p" "pl_expanded p" "pl_selected p" ?arts
          "emit_execution_input env (pl_recipes p) ?b" _ eiv_id] bound assms(2)
      by (simp add: plan_of_def emit_execution_inputs_def)
  qed
  moreover have "path \<noteq> []" using path(2) by (rule trim_nonempty)
  moreover have "local_input_binding_matches_recipe (ea_id artifact) input_id"
    using slash by (simp add: local_input_binding_matches_recipe_def qualified_recipe_def aid key
        make_execution_artifact_id_def split_once_char_at)
  ultimately show ?thesis
    using v(2) SrcLocalInput by (simp add: local_input_ok_def validated_local_input_path_def)
qed (simp_all add: local_input_ok_def)

end
