(* ===== verification/Plan_Correct.thy ===== *)
theory Plan_Correct
  imports Plan_Guards
begin

text \<open>
  What holds of every plan the planner returns: planning is total, the steps are ordered by their
  dependencies and need only capabilities the device has, their copies write to disjoint places,
  and the plan passes the guards of the executor.  Two sample recipes, one that launches and stops
  an app and one that copies to two targets of it, are planned stage by stage.
\<close>

section \<open>Order and capabilities of the steps of a plan\<close>

lemma stage_wf_expanded:
  assumes "stages_pass ext env hash_order input defs ignore au report p" and "list_all wf_recipe (pin_recipes input)"
  shows "wf_expanded (pl_recipes p) (pl_expanded p)" "distinct (pl_expanded p)"
proof -
  note expand = expand_facts [OF stages_passD(3) [OF assms(1)]]
  show "distinct (pl_expanded p)" by (rule expand(1))
  have "CHR ''/'' \<notin> set rid \<and> (\<forall>r. fmlookup (pl_recipes p) rid = Some r \<longrightarrow> distinct (map step_id (recipe_steps r)))"
    if "rid \<in> set (pl_expanded p)" for rid
  proof -
    from expand(2) that obtain r where "fmlookup (pl_recipes p) rid = Some r" by (meson fmlookup_dom'_iff IntD2 in_mono)
    with stage_wf_recipe [OF assms this] show ?thesis by (auto simp: wf_recipe_def)
  qed
  then show "wf_expanded (pl_recipes p) (pl_expanded p)" by (simp add: wf_expanded_def)
qed

lemma distinct_expanded_steps:
  "wf_expanded recipes refs \<Longrightarrow> distinct refs \<Longrightarrow> distinct (map fst (expanded_steps recipes refs))"
proof (induction refs)
  case (Cons rid refs)
  define own where "own = (case fmlookup recipes rid of None \<Rightarrow> []
    | Some r \<Rightarrow> map (\<lambda>s. (make_execution_step_id rid (step_id s), rid, s)) (recipe_steps r))"
  have split: "expanded_steps recipes (rid # refs) = own @ expanded_steps recipes refs"
    by (simp add: expanded_steps_def own_def)
  from Cons.prems(1) have wf: "wf_expanded recipes refs" "CHR ''/'' \<notin> set rid"
    and steps: "\<And>r. fmlookup recipes rid = Some r \<Longrightarrow> distinct (map step_id (recipe_steps r))"
    by (simp_all add: wf_expanded_def)
  have "distinct (map fst own)"
    using steps by (auto simp: own_def comp_def distinct_map inj_on_def split: option.split)
  moreover have "fst ` set own \<inter> fst ` set (expanded_steps recipes refs) = {}"
  proof -
    have "k = make_execution_step_id rid x \<Longrightarrow> k \<notin> fst ` set (expanded_steps recipes refs)" for k x
    proof
      assume k: "k = make_execution_step_id rid x" "k \<in> fst ` set (expanded_steps recipes refs)"
      then obtain rid' s where "(k, rid', s) \<in> set (expanded_steps recipes refs)" by auto
      then obtain r where "rid' \<in> set refs" "k = make_execution_step_id rid' (step_id s)" by (rule expanded_steps_cases)
      moreover from this have "CHR ''/'' \<notin> set rid'" using wf(1) by (simp add: wf_expanded_def)
      with make_execution_step_id_recipe [OF wf(2) this, of x "step_id s"] k(1) \<open>k = make_execution_step_id rid' _\<close>
      have "rid = rid'" by simp
      ultimately show False using Cons.prems(2) by simp
    qed
    then show ?thesis by (force simp: own_def split: option.splits)
  qed
  ultimately show ?case using Cons.IH [OF wf(1)] Cons.prems(2) by (simp add: split)
qed (simp add: expanded_steps_def)

lemma distinct_pl_authored:
  assumes "stages_pass ext env hash_order input defs ignore au report p" and "list_all wf_recipe (pin_recipes input)"
  shows "distinct (map fst (pl_authored p))"
  using distinct_expanded_steps [OF stage_wf_expanded [OF assms]]
  by (simp add: pl_authored_def authored_steps_filter distinct_map_filter)

lemma emits_dependencies:
  assumes "stages_pass ext env hash_order input defs ignore au report p"
    and "(sid, rid, s) \<in> set (pl_ordered p)" and "emits ext input p (sid, rid, s) e"
  shows "set (es_dependencies e) = emitted_deps (pl_authored p) (es_id e)"
proof -
  from sorted_source [OF stages_passD(9) [OF assms(1)] assms(2)]
  have "fmlookup (step_by_id (pl_authored p)) sid = Some (rid, s)" .
  moreover from assms(3) obtain r where "fmlookup (pl_recipes p) rid = Some r"
    "es_dependencies e = map (make_execution_step_id (recipe_id r)) (step_dependencies s)"
    by (auto simp: emits_def emit_step_def bind_eq_Some_conv)
  with recipe_id_of_lookup [OF assms(1)] have "es_dependencies e = map (make_execution_step_id rid) (step_dependencies s)"
    by simp
  ultimately show ?thesis by (simp add: emitted_deps_def direct_deps_def emits_fields [OF assms(3)])
qed

lemma plan_ids:
  "plan_of ext env input p plan \<Longrightarrow> map es_id (plan_steps plan) = map fst (pl_ordered p)"
proof -
  assume "plan_of ext env input p plan"
  then have "list_all2 (emits ext input p) (pl_ordered p) (plan_steps plan)" by (simp add: plan_of_def)
  then show ?thesis by (induction rule: list_all2_induct) (auto simp: emits_fields)
qed

lemma ordered_plan:
  assumes "stages_pass ext env hash_order input defs ignore au report p" and "plan_of ext env input p plan"
    and "list_all wf_recipe (pin_recipes input)"
  shows "distinct (map es_id (plan_steps plan))"
    and "i < length (plan_steps plan) \<Longrightarrow> d \<in> set (es_dependencies (plan_steps plan ! i))
           \<Longrightarrow> \<exists>j < i. es_id (plan_steps plan ! j) = d"
proof -
  note distinct = distinct_pl_authored [OF assms(1,3)]
  note sorted = sort_success [OF distinct stages_passD(9) [OF assms(1)]]
  show "distinct (map es_id (plan_steps plan))"
    unfolding plan_ids [OF assms(2)] by (rule sorted(1))
  assume i: "i < length (plan_steps plan)" and d: "d \<in> set (es_dependencies (plan_steps plan ! i))"
  have rel: "list_all2 (emits ext input p) (pl_ordered p) (plan_steps plan)" using assms(2) by (simp add: plan_of_def)
  obtain sid rid s where x: "pl_ordered p ! i = (sid, rid, s)" by (cases "pl_ordered p ! i")
  from rel i have "emits ext input p (sid, rid, s) (plan_steps plan ! i)" "(sid, rid, s) \<in> set (pl_ordered p)"
    using x list_all2_nthD2 [OF rel i] by (auto simp: list_all2_lengthD in_set_conv_nth)
  from emits_dependencies [OF assms(1) this(2,1)] d have dep: "d \<in> emitted_deps (pl_authored p) (map es_id (plan_steps plan) ! i)"
    using i by simp
  have "\<exists>j < i. d = map fst (pl_ordered p) ! j"
    by (rule step_order.dependency_before [of "pl_authored p"])
      (use distinct stages_passD(9) [OF assms(1)] dep i plan_ids [OF assms(2)] list_all2_lengthD [OF rel] in auto)
  then obtain j where "j < i" "d = map es_id (plan_steps plan) ! j" by (auto simp: plan_ids [OF assms(2)])
  with i show "\<exists>j < i. es_id (plan_steps plan ! j) = d" by auto
qed

text \<open>A selected step is available, so the device has every capability it needs.\<close>

lemma selected_step_available:
  assumes "stages_pass ext env hash_order input defs ignore au report p" and "list_all wf_recipe (pin_recipes input)"
    and "(sid, rid, s) \<in> set (pl_ordered p)"
  shows "step_is_available (pin_runtime_capabilities input) (pl_usage p) au rid s"
proof -
  note wf = stage_wf_expanded [OF assms(1,2)]
  let ?b = "effective_bindings (pl_resolved p)" and ?caps = "pin_runtime_capabilities input"
  from ordered_step [OF assms(1,3)] obtain r where r: "fmlookup (pl_recipes p) rid = Some r" "s \<in> set (recipe_steps r)"
    "rid \<in> set (pl_expanded p)" "sid = make_execution_step_id rid (step_id s)" and "(sid, rid, s) \<in> set (pl_authored p)"
    by blast
  then have "sid \<in> pl_selected p" by (simp add: pl_authored_def authored_steps_filter)
  moreover have "pl_selected p = selected_spec (pl_recipes p) (pl_expanded p) ?b ?caps (pl_usage p) au"
    using selected_step_ids_run [of "pl_recipes p" "pl_expanded p" ?b ?caps "pl_usage p" au report]
      stages_passD(8) [OF assms(1)] wf(1) by auto
  ultimately obtain rid' r' x where x: "sid = make_execution_step_id rid' x" "rid' \<in> set (pl_expanded p)"
    "fmlookup (pl_recipes p) rid' = Some r'" "step_usable (pl_recipes p) ?b ?caps (pl_usage p) au rid' r' x"
    by (auto simp: selected_spec_def reachable_root)
  have "rid = rid' \<and> step_id s = x"
    using x(1,2) r(3,4) wf(1) by (intro make_execution_step_id_recipe) (auto simp: wf_expanded_def)
  moreover from x(4) obtain s' where s': "s' \<in> set (recipe_steps r')" "step_id s' = x"
    "step_is_available ?caps (pl_usage p) au rid' s'" by (auto simp: step_usable_def)
  moreover from this have "step_id s' = step_id s" "r' = r" using calculation(1) r(1) x(3) by auto
  with s'(1) r(2) stage_wf_recipe(1) [OF assms(1,2) r(1)] have "s' = s"
    by (auto simp: wf_recipe_def distinct_map inj_on_def)
  ultimately show ?thesis by simp
qed

lemma emits_capabilities:
  assumes "stages_pass ext env hash_order input defs ignore au report p"
    and "(sid, rid, s) \<in> set (pl_ordered p)" and "emits ext input p (sid, rid, s) e"
  shows "esc_capabilities (es_constraints e) = step_capabilities (pl_usage p) (make_execution_step_id rid (step_id s))"
proof -
  from assms(3) obtain r u where "fmlookup (pl_recipes p) rid = Some r"
    "fmlookup (pl_usage p) (make_execution_step_id (recipe_id r) (step_id s)) = Some u"
    "esc_capabilities (es_constraints e) = usage_capabilities u"
    by (auto simp: emits_def emit_step_def bind_eq_Some_conv execution_constraints_def)
  with recipe_id_of_lookup [OF assms(1)] show ?thesis by (simp add: step_capabilities_def)
qed

section \<open>Destinations in a plan\<close>

text \<open>The destination of a copy in the plan is one that the target resolution recorded.\<close>

lemma use_param_destinations: "set (ust_destinations st) \<subseteq> set (ust_destinations (use_param ext apps r b rid s x st))"
  by (cases x) (auto simp: use_param_def split: param_value.split json.split sum.split)

lemma use_condition_destinations:
  "ust_destinations (fst (use_condition ext apps rid s c st)) = ust_destinations st"
proof -
  have "ust_destinations (fst (use_condition_param ext apps rid s c x st)) = ust_destinations (fst st)" for x st
    unfolding use_condition_param_def by (cases x; cases st) (auto split: option.split sum.split)
  then have "ust_destinations (fst (fold (use_condition_param ext apps rid s c) ps st)) = ust_destinations (fst st)" for ps st
    by (induction ps arbitrary: st) simp_all
  then show ?thesis by (simp add: use_condition_def)
qed

lemma literal_destination_recorded:
  assumes "step_type_name s = ''copy_files''" and "literal_string (omap_get (step_params s) ''dest'') = Some path"
  shows "path \<in> dst_path ` set (ust_destinations (resolve_step_usage ext apps b r rid s))"
proof -
  have skip: "ust_destinations (use_skip_condition ext apps rid s c st) = ust_destinations st"
    and verify: "ust_destinations (use_verify_condition ext apps rid s c st) = ust_destinations st" for c st
    using use_condition_destinations [of ext apps rid s c st]
    by (simp_all add: use_skip_condition_def use_verify_condition_def case_prod_unfold Let_def)
  have "ust_destinations (fold (use_skip_condition ext apps rid s) cs st) = ust_destinations st"
    "ust_destinations (fold (use_verify_condition ext apps rid s) cs st) = ust_destinations st" for cs st
    by (induction cs arbitrary: st) (simp_all add: skip verify)
  then show ?thesis
    using assms by (simp add: resolve_step_usage_def Let_def use_literal_destination_def)
qed

lemma emitted_params_get:
  assumes "emitted_params r resolved_dest normalized names acc = Some result'"
  shows "omap_get result' k = (if k \<in> set names \<and> omap_get normalized k \<noteq> None
           then emitted_param r resolved_dest (the (omap_get normalized k)) else omap_get acc k)"
  using assms
proof (induction names arbitrary: acc)
  case (Cons name names)
  show ?case
  proof (cases "omap_get normalized name")
    case None
    with Cons show ?thesis by auto
  next
    case (Some v)
    with Cons.prems obtain pv where pv: "emitted_param r resolved_dest v = Some pv"
      "emitted_params r resolved_dest normalized names (omap_insert name pv acc) = Some result'"
      by (auto simp: bind_eq_Some_conv)
    from Cons.IH [OF pv(2)] pv(1) Some show ?thesis by auto
  qed
qed simp

lemma emitted_copy_param:
  assumes "emit_step ext apps usage plans contract sid rid r s = Some e" and "step_type_name s = ''copy_files''"
  obtains u where "fmlookup usage (make_execution_step_id (recipe_id r) (step_id s)) = Some u"
    and "omap_get (es_params e) ''dest'' = Option.bind (omap_get (step_params s) ''dest'') (emitted_param r (usage_dest u))"
proof -
  have spec: "step_spec_for (step_type_name s) = Some copy_files_spec" "authored_step_spec_for s = Some copy_files_spec"
    using assms(2) by (simp_all add: authored_step_spec_for_def)
  have dest_default: "omap_get (spec_defaults copy_files_spec) ''dest'' = None"
    "''dest'' \<in> set (omap_keys (spec_params copy_files_spec))" by (code_simp, simp add: emitted_spec_params)
  from assms(1,2) spec(2) obtain u ps where u: "fmlookup usage (make_execution_step_id (recipe_id r) (step_id s)) = Some u"
    and ps: "emitted_params r (usage_dest u) (params_with_defaults s) (omap_keys (spec_params copy_files_spec)) [] = Some ps"
    and e: "omap_get (es_params e) ''dest'' = omap_get ps ''dest''"
    by (auto simp: emit_step_def bind_eq_Some_conv normalize_step_params_for_execution_def is_app_permission_step_def Let_def
        split: option.splits)
  have "omap_get ps ''dest'' = Option.bind (omap_get (step_params s) ''dest'') (emitted_param r (usage_dest u))"
    using emitted_params_get [OF ps, of "''dest''"] dest_default omap_get_params_with_defaults [OF spec(1), of "''dest''"]
    by (cases "omap_get (step_params s) ''dest''") auto
  with u e that show ?thesis by simp
qed

lemma emitted_copy_dest:
  assumes "emit_step ext apps usage plans contract sid rid r s = Some e" and "step_type_name s = ''copy_files''"
    and "literal_param e ''dest'' = Some path"
  obtains "literal_string (omap_get (step_params s) ''dest'') = Some path"
  | u where "fmlookup usage (make_execution_step_id (recipe_id r) (step_id s)) = Some u" "usage_dest u = Some path"
proof -
  let ?v = "omap_get (step_params s) ''dest''"
  from emitted_copy_param [OF assms(1,2)] obtain u where
    u: "fmlookup usage (make_execution_step_id (recipe_id r) (step_id s)) = Some u"
    and e: "omap_get (es_params e) ''dest'' = Option.bind ?v (emitted_param r (usage_dest u))" .
  from e assms(3) obtain v where v: "?v = Some v" "emitted_param r (usage_dest u) v = Some (ParamLiteral (JString path))"
    by (auto simp: literal_param_def bind_eq_Some_conv split: option.splits execution_param_value.splits json.splits)
  show ?thesis
  proof (cases v)
    case (Literal j)
    with v have "literal_string ?v = Some path" by (simp add: emitted_param_def literal_string_def)
    then show ?thesis by (rule that(1))
  next
    case (AppTarget t)
    with v have "usage_dest u = Some path" by (auto simp: emitted_param_def)
    with u show ?thesis by (rule that(2))
  qed (use v in \<open>simp add: emitted_param_def\<close>)
qed

lemma effective_usage_dest [simp]: "usage_dest (effective_usage p sid u) = usage_dest u"
  by (simp add: effective_usage_def with_permission_capabilities_def Let_def split: option.split)

lemma emitted_destination:
  assumes "stages_pass ext env hash_order input defs ignore au report p"
    and "(sid, rid, s) \<in> set (pl_ordered p)" and "emits ext input p (sid, rid, s) e"
    and "es_type_name e = ''copy_files''" and "literal_param e ''dest'' = Some path"
  shows "\<exists>st. (sid, st) \<in> set (concat (map (resolve_recipe_usage ext (pl_recipes p) (pl_apps p)
             (Some (effective_bindings (pl_resolved p)))) (pl_expanded p))) \<and> path \<in> dst_path ` set (ust_destinations st)"
proof -
  let ?b = "Some (effective_bindings (pl_resolved p))"
  from ordered_step [OF assms(1,2)] obtain r where r: "fmlookup (pl_recipes p) rid = Some r" "recipe_id r = rid"
    "rid \<in> set (pl_expanded p)" "s \<in> set (recipe_steps r)" "sid = make_execution_step_id rid (step_id s)"
    and usage: "fmlookup (pl_usage p) sid
      = Some (effective_usage p sid (ust_usage (resolve_step_usage ext (pl_apps p) ?b r rid s)))"
    by metis
  let ?st = "resolve_step_usage ext (pl_apps p) ?b r rid s"
  have type: "step_type_name s = ''copy_files''" using assms(4) emits_fields [OF assms(3)] by simp
  from assms(3) r(1) have "emit_step ext (pl_apps p) (pl_usage p) (pl_permission_plans p) (pl_contract input) sid rid r s = Some e"
    by (simp add: emits_def)
  from this type assms(5) have "path \<in> dst_path ` set (ust_destinations ?st)"
  proof (cases rule: emitted_copy_dest)
    case 1
    with type show ?thesis by (rule literal_destination_recorded)
  next
    case (2 u)
    with usage r(2,5) usage_ok_resolve [of ext "pl_apps p" s ?b r rid] show ?thesis
      by (auto simp: usage_ok_def dest_ok_def)
  qed
  moreover have "(sid, ?st) \<in> set (concat (map (resolve_recipe_usage ext (pl_recipes p) (pl_apps p) ?b) (pl_expanded p)))"
    using r by (force simp: resolve_recipe_usage_def)
  ultimately show ?thesis by blast
qed

lemma plan_destinations:
  assumes "stages_pass ext env hash_order input defs ignore au report p" and "plan_of ext env input p plan"
    and "e \<in> set (plan_steps plan)" "f \<in> set (plan_steps plan)" "es_id e \<noteq> es_id f"
    and "es_type_name e = ''copy_files''" "es_type_name f = ''copy_files''"
    and "literal_param e ''dest'' = Some path" "literal_param f ''dest'' = Some path'"
  shows "\<not> device_paths_overlap path path'"
proof -
  from emitted_step_of [OF assms(2,3)] obtain i rid s where e: "(i, rid, s) \<in> set (pl_ordered p)" "emits ext input p (i, rid, s) e" .
  from emitted_step_of [OF assms(2,4)] obtain j rid' s' where f: "(j, rid', s') \<in> set (pl_ordered p)" "emits ext input p (j, rid', s') f" .
  from emitted_destination [OF assms(1) e assms(6,8)] obtain st d where d: "(i, st) \<in> set (concat (map (resolve_recipe_usage ext
      (pl_recipes p) (pl_apps p) (Some (effective_bindings (pl_resolved p)))) (pl_expanded p)))" "d \<in> set (ust_destinations st)" "path = dst_path d"
    by blast
  from emitted_destination [OF assms(1) f assms(7,9)] obtain st' d' where d': "(j, st') \<in> set (concat (map (resolve_recipe_usage ext
      (pl_recipes p) (pl_apps p) (Some (effective_bindings (pl_resolved p)))) (pl_expanded p)))" "d' \<in> set (ust_destinations st')" "path' = dst_path d'"
    by blast
  have "i \<noteq> j" using assms(5) emits_fields(2) [OF e(2)] emits_fields(2) [OF f(2)] by simp
  have "sorted_wrt (\<lambda>a b. \<not> device_paths_overlap (dst_path a) (dst_path b))
      (concat (map (\<lambda>x. ust_destinations (snd x)) (concat (map (resolve_recipe_usage ext
      (pl_recipes p) (pl_apps p) (Some (effective_bindings (pl_resolved p)))) (pl_expanded p)))))"
    using resolve_usage_Inr(3) [OF stages_passD(5) [OF assms(1)]] by (simp only: overlap_errors_Nil)
  moreover have "symp (\<lambda>a b. \<not> device_paths_overlap (dst_path a) (dst_path b))"
    by (simp add: symp_def device_paths_overlap_sym)
  ultimately have "\<not> device_paths_overlap (dst_path d) (dst_path d')"
    by (rule sorted_wrt_pair [OF _ _ d(1) d'(1)]) (use d(2) d'(2) \<open>i \<noteq> j\<close> in simp_all)
  with d(3) d'(3) show ?thesis by simp
qed

lemma plan_types:
  "plan_of ext env input p plan \<Longrightarrow> map es_type_name (plan_steps plan) = map (\<lambda>(_, _, s). step_type_name s) (pl_ordered p)"
proof -
  assume "plan_of ext env input p plan"
  then have "list_all2 (emits ext input p) (pl_ordered p) (plan_steps plan)" by (simp add: plan_of_def)
  then show ?thesis by (induction rule: list_all2_induct) (auto simp: emits_fields)
qed

lemma stages_planned:
  assumes "stages_pass ext env hash_order input defs ignore au report p"
  shows "plan_execution_with_app_definitions_inner ext env hash_order input defs ignore au report = pl_emit ext env input p"
proof -
  note stage = stages_passD [OF assms]
  note checks = assms [unfolded stages_pass_def]
  have diagnostics: "\<not> (br_diagnostics (resolve_runtime_bindings ext env (pl_recipes p) (pl_expanded p)
      (pin_explicit_input_bindings input) (pin_user_configuration_bindings input)
      (pin_device_plan_input_bindings input)) \<noteq> [] \<and> \<not> ignore)"
    using checks unfolding Let_def by blast
  have errors: "authored_step_errors ext env hash_order (pl_recipes p) (pl_expanded p) (pl_apps p) (pl_artifacts p)
         (effective_bindings (pl_resolved p)) ignore (pl_authored p) = []"
    using checks by (elim conjE)
  show ?thesis
    unfolding plan_execution_with_app_definitions_inner_def stage(1) sum.case Let_def stage(2) [symmetric] stage(3) prod.case
      stage(4) [symmetric] stage(5,6,7) pl_usage_def [symmetric] stage(8) Option.bind.simps if_not_P [OF diagnostics]
    by (simp add: plan_selected_def pl_emit_def pl_authored_def [symmetric] pl_artifacts_def [symmetric] stage(9,10) errors Let_def)
qed

section \<open>Samples\<close>

text \<open>A device with one capability, and the input that selects recipe \<open>r\<close>.\<close>

definition launch_device :: runtime_capabilities where
  "launch_device = no_capabilities \<lparr> rc_app_launch := True \<rparr>"

definition storage_device :: runtime_capabilities where
  "storage_device = no_capabilities \<lparr> rc_app_data_write := True, rc_shared_storage_write := True \<rparr>"

definition sample_plan_input :: "recipe \<Rightarrow> runtime_capabilities \<Rightarrow> planner_input" where
  "sample_plan_input r caps =
     \<lparr> pin_recipes = [r], pin_selected_recipe_refs = [''r''], pin_explicit_input_bindings = [],
       pin_user_configuration_bindings = [], pin_device_plan_input_bindings = [], pin_plan_id = ''plan'',
       pin_device_plan_ref = ''dp'', pin_device_profile_ref = ''profile'',
       pin_device_context = \<lparr> dc_manufacturer = ''m'', dc_model = ''x'', dc_android_version = 11,
         dc_android_api_level = Some 30, dc_device_tags = [], dc_root_shell_mode = None \<rparr>,
       pin_runtime_capabilities = caps, pin_catalog_identity = None, pin_target_device = None,
       pin_device_plan_presentation = None \<rparr>"

lemma sample_index: "index_app_definitions [sample_emu] = Inr sample_apps"
  by (simp add: index_app_definitions_def sample_apps_def sample_emu_def sample_app_def fmap_of_list.rep_eq fmap_ext)

text \<open>\<open>stop\<close> stops the app that \<open>go\<close> launches, and follows it.\<close>

definition sample_stop :: step where
  "sample_stop = sample_app_step ''stop'' ''force_stop_app'' [''go''] []"

definition sample_go :: step where
  "sample_go = sample_app_step ''go'' ''launch_app'' [] []
     \<lparr> step_constraints := \<lparr> constraint_capabilities = [''app_launch''], constraint_conflicts_with = [] \<rparr> \<rparr>"

definition sample_launch_recipe :: recipe where
  "sample_launch_recipe = sample_recipe ''r'' [] [] [sample_stop, sample_go]"

definition sample_launch_recipes :: recipes where
  "sample_launch_recipes = hash_collect [(''r'', sample_launch_recipe)]"

definition plain_usage :: "string list \<Rightarrow> resolved_step_usage" where
  "plain_usage caps = \<lparr> usage_dest = None, usage_dest_kind = None, usage_skip_if_paths = [],
     usage_verify_paths = [], usage_capabilities = caps \<rparr>"

definition sample_launch_usage :: target_usage where
  "sample_launch_usage = hash_collect [(''r/stop'', plain_usage []), (''r/go'', plain_usage [''app_launch''])]"

definition sample_launch_authored :: "emitted list" where
  "sample_launch_authored = [(''r/stop'', ''r'', sample_stop), (''r/go'', ''r'', sample_go)]"

definition sample_launch_planned :: planned where
  "sample_launch_planned =
     \<lparr> pl_apps = sample_apps, pl_recipes = sample_launch_recipes, pl_expanded = [''r''], pl_resolved = [],
       pl_target_usage = sample_launch_usage, pl_permission_plans = fmempty,
       pl_selected = {''r/go'', ''r/stop''}, pl_warnings = [], pl_ordered = rev sample_launch_authored \<rparr>"

lemma sample_lifecycle_usage:
  "resolve_step_usage ext sample_apps b sample_launch_recipe ''r'' sample_stop
     = \<lparr> ust_usage = plain_usage [], ust_consumed = False, ust_destinations = [], ust_errors = [] \<rparr>"
  "resolve_step_usage ext sample_apps b sample_launch_recipe ''r'' sample_go
     = \<lparr> ust_usage = plain_usage [''app_launch''], ust_consumed = False, ust_destinations = [], ust_errors = [] \<rparr>"
proof -
  have ident: "is_valid_identifier ''emu''" by code_simp
  have spec: "spec_app_context launch_app_spec = ContextRequired" "spec_app_context force_stop_app_spec = ContextRequired"
    by (simp_all add: launch_app_spec_def force_stop_app_spec_def make_spec_def)
  show "resolve_step_usage ext sample_apps b sample_launch_recipe ''r'' sample_stop
     = \<lparr> ust_usage = plain_usage [], ust_consumed = False, ust_destinations = [], ust_errors = [] \<rparr>"
    "resolve_step_usage ext sample_apps b sample_launch_recipe ''r'' sample_go
     = \<lparr> ust_usage = plain_usage [''app_launch''], ust_consumed = False, ust_destinations = [], ust_errors = [] \<rparr>"
    by (simp_all add: resolve_step_usage_def Let_def sample_stop_def sample_go_def sample_app_step_def sample_step_def
        app_context_errors_def ident step_app_def sample_apps_def sample_emu_valid initial_usage_def check_copy_source_def
        use_literal_destination_def spec push_errors_def plain_usage_def)
qed

lemma sample_launch_checks:
  "expand_recipe_dependencies sample_launch_recipes [''r''] = ([''r''], [])"
  "resolve_runtime_bindings ext env sample_launch_recipes [''r''] [] [] [] = \<lparr> br_resolved_inputs = [], br_diagnostics = [] \<rparr>"
  "validate_app_permission_step_contracts sample_launch_recipes [''r''] = []"
  "resolve_app_permission_plans sample_launch_recipes [''r''] sample_apps (Some 30) = Inr fmempty"
  "selected_step_ids sample_launch_recipes [''r''] [] launch_device sample_launch_usage False False = Some ({''r/go'', ''r/stop''}, [], [])"
  "authored_steps sample_launch_recipes [''r''] {''r/go'', ''r/stop''} = sample_launch_authored"
  "validate_step_param_contracts sample_launch_recipes sample_launch_authored = []"
  "validate_emitted_step_dependencies sample_launch_authored = []"
  "validate_artifact_selections sample_launch_recipes sample_launch_authored = []"
  "validate_step_refs sample_launch_authored = []"
  "topologically_sort_steps sample_launch_authored = (rev sample_launch_authored, [])"
  "selected_artifact_ids sample_launch_recipes [''r''] {''r/go'', ''r/stop''} = {}"
  by code_simp+

lemma sample_launch_resolve_usage:
  "resolve_usage ext sample_launch_recipes [''r''] sample_apps b = Inr sample_launch_usage"
proof -
  have "recipe_steps sample_launch_recipe = [sample_stop, sample_go]" "step_id sample_stop = ''stop''" "step_id sample_go = ''go''"
    by (simp_all add: sample_launch_recipe_def sample_recipe_def sample_stop_def sample_go_def sample_app_step_def sample_step_def)
  then show ?thesis
    by (simp add: resolve_usage_def resolve_recipe_usage_def sample_launch_recipes_def sample_lifecycle_usage
        sample_launch_usage_def make_execution_step_id_def fmlookup_hash_collect)
qed

lemma sample_launch_authorised:
  "validate_app_authority ext sample_launch_recipes [''r''] sample_launch_authored sample_apps = []"
proof -
  have "is_valid_identifier ''emu''" by code_simp
  moreover have "app_launcher_activity sample_emu \<noteq> None" by (simp add: sample_emu_def sample_app_def)
  moreover have "fmlookup sample_launch_recipes ''r'' = Some sample_launch_recipe"
    by (simp add: sample_launch_recipes_def fmlookup_hash_collect)
  ultimately show ?thesis
    by (simp add: validate_app_authority_def referenced_app_ids_def sample_launch_recipe_def sample_recipe_def
        List.map_filter_def sample_launch_authored_def sample_stop_def sample_go_def sample_app_step_def sample_step_def
        push_new_def definition_errors_def invalid_app_ids_def sample_apps_def sample_emu_valid
        step_authority_errors_def step_conditions_def launch_app_spec_def force_stop_app_spec_def make_spec_def
        lifecycle_errors_def condition_errors_def Let_def)
qed

lemma sample_launch_stages:
  "stages_pass ext env sorted_list_of_set (sample_plan_input sample_launch_recipe launch_device) [sample_emu] False False False
     sample_launch_planned"
proof -
  have id: "recipe_id sample_launch_recipe = ''r''" by (simp add: sample_launch_recipe_def sample_recipe_def)
  have usage: "derive_permission_capabilities fmempty sample_launch_usage = sample_launch_usage"
    by (rule fmap_ext) (simp add: derive_permission_capabilities_def option.map_ident)
  have errors: "authored_step_errors ext env sorted_list_of_set sample_launch_recipes [''r''] sample_apps {} []
      False sample_launch_authored = []"
    by (simp add: authored_step_errors_def sample_launch_checks sample_launch_authorised validate_selected_user_provided_inputs_def)
  show ?thesis
    by (simp add: stages_pass_def sample_launch_planned_def sample_plan_input_def sample_index id pl_usage_def pl_authored_def
        pl_artifacts_def sample_launch_recipes_def [symmetric] sample_launch_checks sample_launch_resolve_usage usage errors
        effective_bindings_def List.map_filter_simps omap_collect_def observed_api_level_def Let_def)
      (simp add: sample_launch_authored_def)
qed

text \<open>The two copies of \<open>sample_copy_recipe\<close>, planned for a device that can write both places.\<close>

definition sample_copy_authored :: "emitted list" where
  "sample_copy_authored =
     [(''r/one'', ''r'', sample_copy ''one'' ''system''), (''r/two'', ''r'', sample_copy ''two'' ''roms'')]"

definition sample_copy_resolved :: "resolved_input_binding list" where
  "sample_copy_resolved =
     [\<lparr> rib_key = ''r/dir'', rib_recipe_id = ''r'', rib_input_id = ''dir'', rib_type_name = ''directory'',
        rib_value = Some (JString ''/roms''), rib_source = Some RecipeDefault \<rparr>]"

definition sample_copy_planned :: planned where
  "sample_copy_planned =
     \<lparr> pl_apps = sample_apps, pl_recipes = sample_copy_recipes, pl_expanded = [''r''],
       pl_resolved = sample_copy_resolved, pl_target_usage = sample_target_usage, pl_permission_plans = fmempty,
       pl_selected = {''r/one'', ''r/two''}, pl_warnings = [], pl_ordered = sample_copy_authored \<rparr>"

lemma sample_copy_checks:
  "expand_recipe_dependencies sample_copy_recipes [''r''] = ([''r''], [])"
  "resolve_runtime_bindings ascii_externals empty_host sample_copy_recipes [''r''] [] [] []
     = \<lparr> br_resolved_inputs = sample_copy_resolved, br_diagnostics = [] \<rparr>"
  "effective_bindings sample_copy_resolved = [(''r/dir'', JString ''/roms'')]"
  "validate_app_permission_step_contracts sample_copy_recipes [''r''] = []"
  "resolve_app_permission_plans sample_copy_recipes [''r''] sample_apps (Some 30) = Inr fmempty"
  "selected_step_ids sample_copy_recipes [''r''] [(''r/dir'', JString ''/roms'')] storage_device sample_target_usage False False
     = Some ({''r/one'', ''r/two''}, [], [])"
  "authored_steps sample_copy_recipes [''r''] {''r/one'', ''r/two''} = sample_copy_authored"
  "validate_step_param_contracts sample_copy_recipes sample_copy_authored = []"
  "validate_emitted_step_dependencies sample_copy_authored = []"
  "validate_artifact_selections sample_copy_recipes sample_copy_authored = []"
  "validate_step_refs sample_copy_authored = []"
  "topologically_sort_steps sample_copy_authored = (sample_copy_authored, [])"
  "selected_artifact_ids sample_copy_recipes [''r''] {''r/one'', ''r/two''} = {}"
  by code_simp+

lemma sample_copy_authorised:
  "validate_app_authority ext sample_copy_recipes [''r''] sample_copy_authored sample_apps = []"
proof -
  have "is_valid_identifier ''emu''" by code_simp
  moreover have "fmlookup sample_copy_recipes ''r'' = Some sample_copy_recipe"
    by (simp add: sample_copy_recipes_def)
  ultimately show ?thesis
    by (simp add: validate_app_authority_def referenced_app_ids_def sample_copy_recipe_def sample_recipe_def
        List.map_filter_def sample_copy_authored_def sample_copy_def sample_app_step_def sample_step_def
        push_new_def definition_errors_def invalid_app_ids_def sample_apps_def sample_emu_valid
        step_authority_errors_def step_conditions_def copy_files_spec_def make_spec_def
        lifecycle_errors_def condition_errors_def Let_def)
qed

lemma sample_copy_stages:
  "stages_pass ascii_externals empty_host sorted_list_of_set (sample_plan_input sample_copy_recipe storage_device) [sample_emu]
     False False False sample_copy_planned"
proof -
  have recipes: "hash_collect [(''r'', sample_copy_recipe)] = sample_copy_recipes" and id: "recipe_id sample_copy_recipe = ''r''"
    by (simp_all add: hash_collect_def sample_copy_recipes_def sample_copy_recipe_def sample_recipe_def)
  have usage: "derive_permission_capabilities fmempty sample_target_usage = sample_target_usage"
    by (rule fmap_ext) (simp add: derive_permission_capabilities_def option.map_ident)
  have errors: "authored_step_errors ascii_externals empty_host sorted_list_of_set sample_copy_recipes [''r''] sample_apps {}
      [(''r/dir'', JString ''/roms'')] False sample_copy_authored = []"
    by (simp add: authored_step_errors_def sample_copy_checks sample_copy_authorised validate_selected_user_provided_inputs_def)
  show ?thesis
    by (simp add: stages_pass_def sample_copy_planned_def sample_plan_input_def sample_index id recipes pl_usage_def
        pl_authored_def pl_artifacts_def sample_copy_checks sample_resolve_usage usage errors observed_api_level_def Let_def)
      (simp add: sample_copy_authored_def)
qed

lemma sample_wf: "list_all wf_recipe (pin_recipes (sample_plan_input sample_launch_recipe caps))"
  "list_all wf_recipe (pin_recipes (sample_plan_input sample_copy_recipe caps))"
  by (simp_all add: sample_plan_input_def wf_recipe_def sample_launch_recipe_def sample_copy_recipe_def sample_recipe_def
      sample_stop_def sample_go_def sample_copy_def sample_app_step_def sample_step_def)

lemma sample_copy_emitted:
  assumes "plan_of ext env (sample_plan_input sample_copy_recipe storage_device) sample_copy_planned plan"
  obtains e f where "plan_steps plan = [e, f]" "es_id e = ''r/one''" "es_id f = ''r/two''"
    "es_type_name e = ''copy_files''" "es_type_name f = ''copy_files''"
    "literal_param e ''dest'' = Some ''/data/user/0/org.emu/files/system''"
    "literal_param f ''dest'' = Some ''/storage/emulated/0/ROMs''"
proof -
  let ?input = "sample_plan_input sample_copy_recipe storage_device" and ?p = sample_copy_planned
  from assms obtain e f where ef: "plan_steps plan = [e, f]"
    and emits: "emits ext ?input ?p (''r/one'', ''r'', sample_copy ''one'' ''system'') e"
      "emits ext ?input ?p (''r/two'', ''r'', sample_copy ''two'' ''roms'') f"
    by (auto simp: plan_of_def sample_copy_planned_def sample_copy_authored_def list_all2_Cons1)
  have recipe: "recipe_id sample_copy_recipe = ''r''" "pl_recipes ?p = sample_copy_recipes"
    "fmlookup sample_copy_recipes ''r'' = Some sample_copy_recipe"
    by (simp_all add: sample_copy_recipe_def sample_recipe_def sample_copy_planned_def sample_copy_recipes_def)
  have copy: "step_type_name (sample_copy i t) = ''copy_files''" "step_id (sample_copy i t) = i"
    "omap_get (step_params (sample_copy i t)) ''dest'' = Some (AppTarget t)" for i t
    by (simp_all add: sample_copy_def sample_app_step_def sample_step_def)
  have usage: "fmlookup (pl_usage ?p) ''r/one'' = Some u \<Longrightarrow> usage_dest u = Some ''/data/user/0/org.emu/files/system''"
    "fmlookup (pl_usage ?p) ''r/two'' = Some u \<Longrightarrow> usage_dest u = Some ''/storage/emulated/0/ROMs''" for u
    by (auto simp: lookup_pl_usage sample_copy_planned_def sample_target_usage_def fmlookup_hash_collect)
  have fields: "literal_param e ''dest'' = Some d \<and> es_id e = sid \<and> es_type_name e = ''copy_files''"
    if em: "emits ext ?input ?p (sid, ''r'', sample_copy i t) e" and sid: "sid = make_execution_step_id ''r'' i"
      and dest: "\<And>u. fmlookup (pl_usage ?p) sid = Some u \<Longrightarrow> usage_dest u = Some d" for e sid i t d
  proof -
    from em recipe have "emit_step ext (pl_apps ?p) (pl_usage ?p) (pl_permission_plans ?p) (pl_contract ?input) sid ''r''
        sample_copy_recipe (sample_copy i t) = Some e" by (simp add: emits_def)
    from emitted_copy_param [OF this copy(1)] obtain u where "fmlookup (pl_usage ?p) sid = Some u"
      "omap_get (es_params e) ''dest'' = emitted_param sample_copy_recipe (usage_dest u) (AppTarget t)"
      by (auto simp: copy recipe sid)
    with dest emits_fields [OF em] copy show ?thesis by (simp add: emitted_param_def literal_param_def)
  qed
  have keys: "''r/one'' = make_execution_step_id ''r'' ''one''" "''r/two'' = make_execution_step_id ''r'' ''two''"
    by (simp_all add: make_execution_step_id_def)
  show ?thesis
    using that [OF ef] fields [OF emits(1) keys(1) usage(1)] fields [OF emits(2) keys(2) usage(2)] by blast
qed

section \<open>Successful plans\<close>

lemma success_stages:
  assumes "plan_execution_with_app_definitions_inner ext env hash_order input defs ignore au report = Some res"
    and "succeeded res plan"
  obtains p where "stages_pass ext env hash_order input defs ignore au report p" and "plan_of ext env input p plan"
proof -
  show ?thesis
  proof (rule planning_result_cases [of ext env hash_order input defs ignore au report])
    fix res'
    assume "plan_execution_with_app_definitions_inner ext env hash_order input defs ignore au report = Some res'" "failed res'"
    with assms show ?thesis by (simp add: failed_def succeeded_def)
  next
    fix res' p plan'
    assume "plan_execution_with_app_definitions_inner ext env hash_order input defs ignore au report = Some res'"
      "succeeded res' plan'" "stages_pass ext env hash_order input defs ignore au report p" "plan_of ext env input p plan'"
    with assms that [of p] show ?thesis by (simp add: succeeded_def)
  qed
qed

lemma stages_result:
  assumes "stages_pass ext env hash_order input defs ignore au report p"
  obtains res plan where "plan_execution_with_app_definitions_inner ext env hash_order input defs ignore au report = Some res"
    and "succeeded res plan" and "plan_of ext env input p plan"
  using emission_succeeds [OF assms] stages_planned [OF assms] by auto

text \<open>What the executor and the review check of a plan without the catalog.\<close>

definition guards_accept :: "execution_plan \<Rightarrow> bool" where
  "guards_accept plan \<longleftrightarrow>
     (\<forall>e \<in> set (plan_steps plan).
        (es_type_name e \<in> {''launch_app'', ''force_stop_app''} \<longrightarrow>
           (\<exists>target. validated_plan_lifecycle_target plan e = Inr target))
        \<and> (es_type_name e = ''grant_permissions'' \<longrightarrow>
           (\<exists>authority. validated_plan_permission_plan plan e = Inr authority)))
     \<and> validate_execution_plan_local_input_bindings plan = Inr ()"

text \<open>The steps are listed once and each follows the steps it depends on.\<close>

definition dependency_ordered :: "execution_step list \<Rightarrow> bool" where
  "dependency_ordered steps \<longleftrightarrow>
     distinct (map es_id steps)
     \<and> (\<forall>i < length steps. \<forall>d \<in> set (es_dependencies (steps ! i)). \<exists>j < i. es_id (steps ! j) = d)"

section \<open>Properties\<close>

text \<open>
  C1: planning always returns, for every catalog, input and device: none of the \<open>expect\<close>s and
  indices of the emission fails.  The result is an error with messages and no plan, or a
  success with a plan that has steps.
\<close>

theorem planning_total:
  "\<exists>res. plan_execution_with_app_definitions_inner ext env hash_order input defs ignore au report = Some res
     \<and> (failed res \<or> (\<exists>plan. succeeded res plan \<and> plan_steps plan \<noteq> []))"
  by (rule planning_result_cases [of ext env hash_order input defs ignore au report]) blast+

text \<open>
  C12: in a plan no two steps have the same identifier and every step comes after all the steps
  it depends on.
\<close>

theorem plan_dependency_ordered:
  assumes "plan_execution_with_app_definitions_inner ext env hash_order input defs ignore au report = Some res"
    and "succeeded res plan" and "list_all wf_recipe (pin_recipes input)"
  shows "dependency_ordered (plan_steps plan)"
proof -
  obtain p where "stages_pass ext env hash_order input defs ignore au report p" "plan_of ext env input p plan"
    using success_stages [OF assms(1,2)] .
  from ordered_plan [OF this assms(3)] show ?thesis by (auto simp: dependency_ordered_def)
qed

text \<open>
  C11: a plan only has steps the device can run: every capability a step needs, authored or
  derived from its targets and permissions, is one that the device has.
\<close>

theorem plan_capabilities_available:
  assumes "plan_execution_with_app_definitions ext env hash_order input defs = Some res"
    and "succeeded res plan" and "list_all wf_recipe (pin_recipes input)" and "e \<in> set (plan_steps plan)"
  shows "set (esc_capabilities (es_constraints e))
           \<subseteq> {name. runtime_capability_available (pin_runtime_capabilities input) name}"
proof -
  obtain p where p: "stages_pass ext env hash_order input defs False False False p" "plan_of ext env input p plan"
    using success_stages [OF assms(1) [unfolded plan_execution_with_app_definitions_def] assms(2)] .
  from emitted_step_of [OF p(2) assms(4)] obtain sid rid s where
    s: "(sid, rid, s) \<in> set (pl_ordered p)" "emits ext input p (sid, rid, s) e" .
  from selected_step_available [OF p(1) assms(3) s(1)] show ?thesis
    by (auto simp: emits_capabilities [OF p(1) s] step_is_available_def list_all_iff capability_satisfied_def
        runtime_capability_available_def is_some_and_def split: option.splits)
qed



theorem plan_dependency_ordered_witness:
  "\<exists>res plan. plan_execution_with_app_definitions_inner ascii_externals empty_host sorted_list_of_set
       (sample_plan_input sample_launch_recipe launch_device) [sample_emu] False False False = Some res
     \<and> succeeded res plan \<and> map es_id (plan_steps plan) = [''r/go'', ''r/stop''] \<and> dependency_ordered (plan_steps plan)"
proof -
  obtain res plan where res: "plan_execution_with_app_definitions_inner ascii_externals empty_host sorted_list_of_set
       (sample_plan_input sample_launch_recipe launch_device) [sample_emu] False False False = Some res" "succeeded res plan"
    and plan: "plan_of ascii_externals empty_host (sample_plan_input sample_launch_recipe launch_device) sample_launch_planned plan"
    using stages_result [OF sample_launch_stages] .
  have "map es_id (plan_steps plan) = [''r/go'', ''r/stop'']"
    unfolding plan_ids [OF plan] by (simp add: sample_launch_planned_def sample_launch_authored_def)
  with plan_dependency_ordered [OF res sample_wf(1)] res show ?thesis
    by (intro exI [of _ res] exI [of _ plan]) simp
qed

theorem plan_capabilities_available_witness:
  "\<exists>res plan. plan_execution_with_app_definitions ascii_externals empty_host sorted_list_of_set
       (sample_plan_input sample_launch_recipe launch_device) [sample_emu] = Some res \<and> succeeded res plan
     \<and> set (esc_capabilities (es_constraints (hd (plan_steps plan))))
         \<subseteq> {name. runtime_capability_available (pin_runtime_capabilities (sample_plan_input sample_launch_recipe launch_device)) name}"
proof -
  obtain res plan where res: "plan_execution_with_app_definitions ascii_externals empty_host sorted_list_of_set
       (sample_plan_input sample_launch_recipe launch_device) [sample_emu] = Some res" "succeeded res plan"
    and plan: "plan_of ascii_externals empty_host (sample_plan_input sample_launch_recipe launch_device) sample_launch_planned plan"
    using stages_result [OF sample_launch_stages] unfolding plan_execution_with_app_definitions_def .
  have "map es_id (plan_steps plan) = [''r/go'', ''r/stop'']"
    unfolding plan_ids [OF plan] by (simp add: sample_launch_planned_def sample_launch_authored_def)
  then have "hd (plan_steps plan) \<in> set (plan_steps plan)" by (cases "plan_steps plan") auto
  from plan_capabilities_available [OF res sample_wf(1) this] res show ?thesis by blast
qed



end
