(* ===== verification/Exec_Types.thy ===== *)
theory Exec_Types
  imports Plan_Types
begin

text \<open>
  The data of the executor (\<open>executor.rs\<close>, \<open>executor/identity.rs\<close>, \<open>owned_process.rs\<close>): typed
  device failures and the failures of a step, records and progress events of a run, the result
  of a run, and the closed permission operations of the device boundary.
\<close>

section \<open>Failures\<close>

datatype identity_check_phase = PreOperation | PostOperation
datatype process_cleanup = CleanupNotRequired | CleanupConfirmed | CleanupUncertain

datatype step_failure_kind =
    OperationTimedOut
  | OperationCommandFailed
  | OperationProcessFailed
  | DeviceOffline
  | DeviceUnauthorized
  | DeviceDisconnected
  | DeviceStorageExhausted
  | AdbServerUnavailable
  | TransportReset
  | TransportFailure
  | DeviceIdentityChanged identity_check_phase
  | DeviceIdentityUnverified identity_check_phase
  | RootAuthorityRevoked
  | RootAuthorityUnverified
  | RootDenied
  | RootUnavailable
  | InstallSigningRejected
  | InstallVersionRejected
  | InstallRejected
  | OperationFailed

fun requires_device_fail_stop :: "step_failure_kind \<Rightarrow> bool" where
  "requires_device_fail_stop OperationTimedOut = True"
| "requires_device_fail_stop DeviceOffline = True"
| "requires_device_fail_stop DeviceUnauthorized = True"
| "requires_device_fail_stop DeviceDisconnected = True"
| "requires_device_fail_stop DeviceStorageExhausted = True"
| "requires_device_fail_stop AdbServerUnavailable = True"
| "requires_device_fail_stop TransportReset = True"
| "requires_device_fail_stop TransportFailure = True"
| "requires_device_fail_stop (DeviceIdentityChanged _) = True"
| "requires_device_fail_stop (DeviceIdentityUnverified _) = True"
| "requires_device_fail_stop RootAuthorityRevoked = True"
| "requires_device_fail_stop RootAuthorityUnverified = True"
| "requires_device_fail_stop _ = False"

text \<open>\<open>DeviceOperationKind\<close>, the classification at the device boundary; its constructors carry
  the prefix \<open>Dev\<close> because the names are those of \<open>StepFailureKind\<close>.\<close>

datatype device_operation_kind =
    DevTimedOut
  | DevCommandFailed
  | DevProcessFailed
  | DevOffline
  | DevUnauthorized
  | DevDisconnected
  | DevStorageExhausted
  | DevAdbServerUnavailable
  | DevTransportReset
  | DevTransportFailure
  | DevIdentityChanged identity_check_phase
  | DevIdentityUnverified identity_check_phase
  | DevRootAuthorityRevoked
  | DevRootAuthorityUnverified
  | DevRootDenied
  | DevRootUnavailable
  | DevInstallSigningRejected
  | DevInstallVersionRejected
  | DevInstallRejected
  | DevOther

fun kind_requires_device_fail_stop :: "device_operation_kind \<Rightarrow> bool" where
  "kind_requires_device_fail_stop DevTimedOut = True"
| "kind_requires_device_fail_stop DevOffline = True"
| "kind_requires_device_fail_stop DevUnauthorized = True"
| "kind_requires_device_fail_stop DevDisconnected = True"
| "kind_requires_device_fail_stop DevStorageExhausted = True"
| "kind_requires_device_fail_stop DevAdbServerUnavailable = True"
| "kind_requires_device_fail_stop DevTransportReset = True"
| "kind_requires_device_fail_stop DevTransportFailure = True"
| "kind_requires_device_fail_stop (DevIdentityChanged _) = True"
| "kind_requires_device_fail_stop (DevIdentityUnverified _) = True"
| "kind_requires_device_fail_stop DevRootAuthorityRevoked = True"
| "kind_requires_device_fail_stop DevRootAuthorityUnverified = True"
| "kind_requires_device_fail_stop _ = False"

record device_operation_error =
  doe_kind :: device_operation_kind
  doe_message :: string
  doe_cleanup :: "process_cleanup option"

definition device_error_other :: "string \<Rightarrow> device_operation_error" where
  "device_error_other message = \<lparr> doe_kind = DevOther, doe_message = message, doe_cleanup = None \<rparr>"

definition device_error_timed_out :: "process_cleanup \<Rightarrow> device_operation_error" where
  "device_error_timed_out cleanup =
     \<lparr> doe_kind = DevTimedOut, doe_message = ''The device operation timed out.'', doe_cleanup = Some cleanup \<rparr>"

definition device_error_storage_exhausted :: device_operation_error where
  "device_error_storage_exhausted =
     \<lparr> doe_kind = DevStorageExhausted,
       doe_message = ''The device ran out of storage during execution.'', doe_cleanup = None \<rparr>"

record step_failure =
  sf_message :: string
  sf_outputs :: "runtime_value omap"
  sf_failure_kind :: "step_failure_kind option"
  sf_cleanup :: "process_cleanup option"

text \<open>\<open>StepFailure::new\<close>.\<close>

definition step_failure :: "string \<Rightarrow> step_failure" where
  "step_failure message =
     \<lparr> sf_message = message, sf_outputs = [], sf_failure_kind = None, sf_cleanup = None \<rparr>"

fun failure_kind_of :: "device_operation_kind \<Rightarrow> step_failure_kind" where
  "failure_kind_of DevTimedOut = OperationTimedOut"
| "failure_kind_of DevCommandFailed = OperationCommandFailed"
| "failure_kind_of DevProcessFailed = OperationProcessFailed"
| "failure_kind_of DevOffline = DeviceOffline"
| "failure_kind_of DevUnauthorized = DeviceUnauthorized"
| "failure_kind_of DevDisconnected = DeviceDisconnected"
| "failure_kind_of DevStorageExhausted = DeviceStorageExhausted"
| "failure_kind_of DevAdbServerUnavailable = AdbServerUnavailable"
| "failure_kind_of DevTransportReset = TransportReset"
| "failure_kind_of DevTransportFailure = TransportFailure"
| "failure_kind_of (DevIdentityChanged phase) = DeviceIdentityChanged phase"
| "failure_kind_of (DevIdentityUnverified phase) = DeviceIdentityUnverified phase"
| "failure_kind_of DevRootAuthorityRevoked = RootAuthorityRevoked"
| "failure_kind_of DevRootAuthorityUnverified = RootAuthorityUnverified"
| "failure_kind_of DevRootDenied = RootDenied"
| "failure_kind_of DevRootUnavailable = RootUnavailable"
| "failure_kind_of DevInstallSigningRejected = InstallSigningRejected"
| "failure_kind_of DevInstallVersionRejected = InstallVersionRejected"
| "failure_kind_of DevInstallRejected = InstallRejected"
| "failure_kind_of DevOther = OperationFailed"

text \<open>\<open>StepFailure::from(DeviceOperationError)\<close>.\<close>

definition step_failure_from :: "device_operation_error \<Rightarrow> step_failure" where
  "step_failure_from error =
     \<lparr> sf_message = doe_message error, sf_outputs = [],
       sf_failure_kind = Some (failure_kind_of (doe_kind error)), sf_cleanup = doe_cleanup error \<rparr>"

definition step_failure_with_outputs ::
  "device_operation_error \<Rightarrow> runtime_value omap \<Rightarrow> step_failure" where
  "step_failure_with_outputs error outputs = (step_failure_from error) \<lparr> sf_outputs := outputs \<rparr>"

text \<open>The test the run loop makes on every failure.\<close>

definition device_fail_stop :: "step_failure \<Rightarrow> bool" where
  "device_fail_stop failure = is_some_and (sf_failure_kind failure) requires_device_fail_stop"

lemma step_failure_simps [simp]:
  "sf_message (step_failure m) = m" "sf_outputs (step_failure m) = []"
  "sf_failure_kind (step_failure m) = None" "sf_cleanup (step_failure m) = None"
  "\<not> device_fail_stop (step_failure m)"
  by (simp_all add: step_failure_def device_fail_stop_def)

lemma requires_fail_stop_kind [simp]:
  "requires_device_fail_stop (failure_kind_of k) = kind_requires_device_fail_stop k"
  by (cases k) simp_all

lemma device_fail_stop_from [simp]:
  "device_fail_stop (step_failure_from e) = kind_requires_device_fail_stop (doe_kind e)"
  by (simp add: device_fail_stop_def step_failure_from_def)

lemma device_fail_stop_with_outputs [simp]:
  "device_fail_stop (step_failure_with_outputs e outs) = kind_requires_device_fail_stop (doe_kind e)"
  by (simp add: device_fail_stop_def step_failure_with_outputs_def step_failure_from_def)

section \<open>Records of a run\<close>

datatype step_run_status = Executed | Skipped | Blocked | Failed | Cancelled

datatype progress_phase = CheckingSkipConditions | Executing | Verifying | Finished

datatype progress_status =
  ProgressSkipped | ProgressBlocked | ProgressSucceeded | ProgressFailed | ProgressCancelled

record step_run_record =
  srr_step_id :: string
  srr_status :: step_run_status
  srr_message :: "string option"
  srr_outputs :: "runtime_value omap"
  srr_failure_kind :: "step_failure_kind option"
  srr_cleanup :: "process_cleanup option"

record execution_progress_event =
  pe_step_index :: nat
  pe_total_steps :: nat
  pe_step_id :: string
  pe_recipe_ref :: string
  pe_step_name :: string
  pe_note :: string
  pe_phase :: progress_phase
  pe_status :: "progress_status option"
  pe_message :: "string option"

record execution_resolved_release =
  err_recipe_artifact_id :: string
  err_provider :: string
  err_app_id :: string
  err_artifact_id :: string
  err_kind :: string
  err_release_tag :: string
  err_asset_name :: string
  err_published_at :: "string option"
  err_created_at :: "string option"
  err_timestamp_source :: string
  err_size :: "u64 option"
  err_calculated_sha256 :: string
  err_cache_hit :: bool
  err_redacted_final_url :: "string option"

record execution_resolved_artifact =
  era_recipe_artifact_id :: string
  era_app_id :: string
  era_app_artifact_id :: string
  era_filename :: string
  era_calculated_sha256 :: string
  era_cache_hit :: bool
  era_redacted_final_url :: "string option"

record execution_run_result =
  run_success :: bool
  run_cancelled :: bool
  run_total_steps :: nat
  run_steps :: "step_run_record list"
  run_resolved_releases :: "execution_resolved_release list"
  run_resolved_artifacts :: "execution_resolved_artifact list"

text \<open>\<open>record\<close> and \<open>record_with_failure\<close>.\<close>

definition record_with_failure ::
  "execution_step \<Rightarrow> step_run_status \<Rightarrow> string option \<Rightarrow> runtime_value omap \<Rightarrow> step_failure_kind option
     \<Rightarrow> process_cleanup option \<Rightarrow> step_run_record" where
  "record_with_failure step status message outputs failure_kind cleanup =
     \<lparr> srr_step_id = es_id step, srr_status = status, srr_message = message, srr_outputs = outputs,
       srr_failure_kind = failure_kind, srr_cleanup = cleanup \<rparr>"

definition run_record ::
  "execution_step \<Rightarrow> step_run_status \<Rightarrow> string option \<Rightarrow> runtime_value omap \<Rightarrow> step_run_record" where
  "run_record step status message outputs = record_with_failure step status message outputs None None"

lemma record_with_failure_simps [simp]:
  "srr_step_id (record_with_failure st s m o' k c) = es_id st"
  "srr_status (record_with_failure st s m o' k c) = s"
  "srr_message (record_with_failure st s m o' k c) = m"
  "srr_outputs (record_with_failure st s m o' k c) = o'"
  "srr_failure_kind (record_with_failure st s m o' k c) = k"
  by (simp_all add: record_with_failure_def)

lemma run_record_simps [simp]:
  "srr_step_id (run_record st s m o') = es_id st"
  "srr_status (run_record st s m o') = s"
  "srr_message (run_record st s m o') = m"
  "srr_outputs (run_record st s m o') = o'"
  "srr_failure_kind (run_record st s m o') = None"
  by (simp_all add: run_record_def)

text \<open>\<open>Iterator::position\<close>.\<close>

fun position :: "('a \<Rightarrow> bool) \<Rightarrow> 'a list \<Rightarrow> nat option" where
  "position P [] = None"
| "position P (x # xs) = (if P x then Some 0 else map_option Suc (position P xs))"

definition progress_event ::
  "externals \<Rightarrow> execution_step \<Rightarrow> nat \<Rightarrow> execution_plan \<Rightarrow> progress_phase \<Rightarrow> progress_status option
     \<Rightarrow> string option \<Rightarrow> execution_progress_event" where
  "progress_event ext step total_steps plan phase status message =
     \<lparr> pe_step_index = unwrap_or (map_option Suc
         (position (\<lambda>candidate. es_id candidate = es_id step) (plan_steps plan))) 0,
       pe_total_steps = total_steps, pe_step_id = es_id step, pe_recipe_ref = es_recipe_ref step,
       pe_step_name = es_name step,
       pe_note = normalized_plan_step_note ext (Some (es_note step)) (es_name step) (es_type_name step) (es_id step),
       pe_phase = phase, pe_status = status, pe_message = message \<rparr>"

lemma progress_event_simps [simp]:
  "pe_step_id (progress_event ext s n plan ph st m) = es_id s"
  "pe_recipe_ref (progress_event ext s n plan ph st m) = es_recipe_ref s"
  "pe_phase (progress_event ext s n plan ph st m) = ph"
  "pe_status (progress_event ext s n plan ph st m) = st"
  "pe_message (progress_event ext s n plan ph st m) = m"
  by (simp_all add: progress_event_def)

section \<open>Permission operations\<close>

datatype permission_operation =
    GrantRuntimePermission (po_package_name: string) string (po_permission_set: permission_set_kind)
  | AllowAppOp (po_package_name: string) string (po_permission_set: permission_set_kind)

definition is_elevated :: "permission_operation \<Rightarrow> bool" where
  "is_elevated op = (po_permission_set op = Elevated)"

fun adb_shell_arguments :: "permission_operation \<Rightarrow> string list" where
  "adb_shell_arguments (GrantRuntimePermission package permission _) = [''pm'', ''grant'', package, permission]"
| "adb_shell_arguments (AllowAppOp package operation _) = [''appops'', ''set'', package, operation, ''allow'']"

fun permission_operation_of :: "permission_set_kind \<Rightarrow> permission_plan_action \<Rightarrow> permission_operation" where
  "permission_operation_of permission_set (RuntimePermission package permission _ _ _) =
     GrantRuntimePermission package permission permission_set"
| "permission_operation_of permission_set (AppOp package op _ _ _ _) = AllowAppOp package op permission_set"

end
