(* ===== verification/Runtime_State.thy ===== *)
theory Runtime_State
  imports Exec_Types
begin

text \<open>
  The state the executor keeps during a run, and the references it resolves in it
  (\<open>executor.rs\<close>: \<open>ExecutionState\<close>, \<open>resolve_step_params\<close>, \<open>resolve_runtime_ref\<close>,
  \<open>project_runtime_value\<close>, \<open>blocking_dependencies\<close>, \<open>missing_capabilities_message\<close>).
  A parameter that refers to a step resolves only when that step has succeeded.
\<close>

section \<open>State\<close>

datatype step_runtime_status = RtSkipped | RtBlocked | RtSucceeded | RtFailed

datatype artifact_runtime_status = ArtPending | ArtResolved | ArtFailed

fun as_status_value :: "artifact_runtime_status \<Rightarrow> string" where
  "as_status_value ArtPending = ''pending''"
| "as_status_value ArtResolved = ''resolved''"
| "as_status_value ArtFailed = ''failed''"

record step_runtime_state =
  srs_status :: step_runtime_status
  srs_outputs :: "runtime_value omap"

text \<open>The guard that keeps a verified temporary file alive is its path.\<close>

record artifact_runtime_state =
  ars_status :: artifact_runtime_status
  ars_local_path :: "string option"
  ars_resolved_url :: "string option"
  ars_filename :: "string option"
  ars_cache_hit :: bool
  ars_error :: "string option"
  ars_resolved_release :: "execution_resolved_release option"
  ars_resolved_artifact :: "execution_resolved_artifact option"
  ars_verified_path_guard :: "string option"

definition pending_artifact :: artifact_runtime_state where
  "pending_artifact =
     \<lparr> ars_status = ArtPending, ars_local_path = None, ars_resolved_url = None, ars_filename = None,
       ars_cache_hit = False, ars_error = None, ars_resolved_release = None,
       ars_resolved_artifact = None, ars_verified_path_guard = None \<rparr>"

record runtime_state =
  rts_steps :: "(string, step_runtime_state) fmap"
  rts_artifacts :: "(string, artifact_runtime_state) fmap"
  rts_inputs :: "(string, runtime_value) fmap"

definition from_plan :: "execution_plan \<Rightarrow> runtime_state" where
  "from_plan plan =
     \<lparr> rts_steps = fmempty,
       rts_artifacts = hash_collect (map (\<lambda>artifact. (ea_id artifact, pending_artifact)) (plan_artifacts plan)),
       rts_inputs = hash_collect (map (\<lambda>input. (eiv_id input, eiv_value input)) (plan_inputs plan)) \<rparr>"

definition set_step_state ::
  "string \<Rightarrow> step_runtime_status \<Rightarrow> runtime_value omap \<Rightarrow> runtime_state \<Rightarrow> runtime_state" where
  "set_step_state sid status outputs state =
     state \<lparr> rts_steps := fmupd sid \<lparr> srs_status = status, srs_outputs = outputs \<rparr> (rts_steps state) \<rparr>"

section \<open>References\<close>

text \<open>\<open>serde_json::to_value\<close> of a \<open>RuntimeValue\<close>: an absent location is \<open>null\<close>.\<close>

definition runtime_value_json :: "runtime_value \<Rightarrow> json" where
  "runtime_value_json v =
     JObject [(''type'', JString (rv_type_name v)), (''value'', rv_value v),
              (''location'', jopt JString (rv_location v))]"

definition path_types :: "string list" where
  "path_types = [''file_path'', ''directory_path'', ''path_list'']"

definition project_runtime_value :: "runtime_value \<Rightarrow> json" where
  "project_runtime_value v =
     (if rv_type_name v \<in> set path_types then runtime_value_json v else rv_value v)"

definition artifact_field_value :: "artifact_runtime_state \<Rightarrow> string \<Rightarrow> runtime_value option" where
  "artifact_field_value artifact field =
     (let plain = (\<lambda>type v. Some \<lparr> rv_type_name = type, rv_value = v, rv_location = None \<rparr>)
      in if field = ''status'' then plain ''string'' (JString (as_status_value (ars_status artifact)))
         else if field = ''local_path'' then
           Some \<lparr> rv_type_name = ''file_path'', rv_value = jopt JString (ars_local_path artifact),
                  rv_location = Some ''host'' \<rparr>
         else if field = ''filename'' then plain ''string'' (jopt JString (ars_filename artifact))
         else if field = ''resolved_url'' then plain ''string'' (jopt JString (ars_resolved_url artifact))
         else if field = ''cache_hit'' then plain ''boolean'' (JBool (ars_cache_hit artifact))
         else if field = ''error'' then plain ''string'' (JString (unwrap_or (ars_error artifact) []))
         else None)"

text \<open>The three families of references, in the order \<open>resolve_runtime_ref\<close> tries them.\<close>

definition resolve_input_ref :: "externals \<Rightarrow> runtime_state \<Rightarrow> string \<Rightarrow> string \<Rightarrow> step_failure + json" where
  "resolve_input_ref ext state ref_value input_ref =
     (case fmlookup (rts_inputs state) input_ref of
        None \<Rightarrow> Inl (step_failure (''unknown_input_ref: Unknown input ref: '' @ ext_str_debug ext ref_value @ ''.''))
      | Some v \<Rightarrow> Inr (project_runtime_value v))"

definition resolve_artifact_ref :: "externals \<Rightarrow> runtime_state \<Rightarrow> string \<Rightarrow> string \<Rightarrow> step_failure + json" where
  "resolve_artifact_ref ext state ref_value artifact_ref =
     (let fail = (\<lambda>text. Inl (step_failure (text @ ext_str_debug ext ref_value @ ''.'')))
      in case rsplit_once ''.'' artifact_ref of
           None \<Rightarrow> fail ''invalid_ref_format: Invalid runtime ref: ''
         | Some (artifact_id, field) \<Rightarrow>
             (case fmlookup (rts_artifacts state) artifact_id of
                None \<Rightarrow> fail ''unknown_artifact_ref: Unknown artifact ref: ''
              | Some artifact \<Rightarrow>
                  if ars_status artifact \<noteq> ArtResolved
                  then fail ''artifact_not_resolved: Artifact is not resolved: ''
                  else (case artifact_field_value artifact field of
                          None \<Rightarrow> fail ''unknown_artifact_field: Unknown artifact field in ref: ''
                        | Some v \<Rightarrow> Inr (project_runtime_value v))))"

definition resolve_step_ref :: "externals \<Rightarrow> runtime_state \<Rightarrow> string \<Rightarrow> string \<Rightarrow> step_failure + json" where
  "resolve_step_ref ext state ref_value step_ref =
     (let fail = (\<lambda>text. Inl (step_failure (text @ ext_str_debug ext ref_value @ ''.'')))
      in case split_once ''.outputs.'' step_ref of
           None \<Rightarrow> fail ''invalid_ref_format: Invalid runtime ref: ''
         | Some (sid, output_name) \<Rightarrow>
             (case fmlookup (rts_steps state) sid of
                None \<Rightarrow> fail ''unknown_step_ref: Unknown step ref: ''
              | Some step_state \<Rightarrow>
                  if srs_status step_state \<noteq> RtSucceeded
                  then Inl (step_failure (''step_output_unavailable: Step output is unavailable because step ''
                         @ ext_str_debug ext sid @ '' did not succeed.''))
                  else (case omap_get (srs_outputs step_state) output_name of
                          None \<Rightarrow> fail ''unknown_step_output: Unknown step output in ref: ''
                        | Some v \<Rightarrow> Inr (project_runtime_value v))))"

definition resolve_runtime_ref :: "externals \<Rightarrow> runtime_state \<Rightarrow> string \<Rightarrow> step_failure + json" where
  "resolve_runtime_ref ext state ref_value =
     (case strip_prefix ''inputs.'' ref_value of
        Some input_ref \<Rightarrow> resolve_input_ref ext state ref_value input_ref
      | None \<Rightarrow>
          (case strip_prefix ''artifacts.'' ref_value of
             Some artifact_ref \<Rightarrow> resolve_artifact_ref ext state ref_value artifact_ref
           | None \<Rightarrow>
               (case strip_prefix ''steps.'' ref_value of
                  Some step_ref \<Rightarrow> resolve_step_ref ext state ref_value step_ref
                | None \<Rightarrow> Inl (step_failure (''invalid_ref_format: Invalid runtime ref: ''
                            @ ext_str_debug ext ref_value @ ''.'')))))"

fun resolve_params_from ::
  "externals \<Rightarrow> runtime_state \<Rightarrow> json omap \<Rightarrow> execution_param_value omap \<Rightarrow> step_failure + json omap" where
  "resolve_params_from ext state resolved [] = Inr resolved"
| "resolve_params_from ext state resolved ((name, ParamLiteral v) # params) =
     resolve_params_from ext state (omap_insert name v resolved) params"
| "resolve_params_from ext state resolved ((name, ParamRef ref_value) # params) =
     (case resolve_runtime_ref ext state ref_value of
        Inl failure \<Rightarrow> Inl failure
      | Inr v \<Rightarrow> resolve_params_from ext state (omap_insert name v resolved) params)"

definition resolve_step_params ::
  "externals \<Rightarrow> runtime_state \<Rightarrow> execution_param_value omap \<Rightarrow> step_failure + json omap" where
  "resolve_step_params ext state params = resolve_params_from ext state [] params"

section \<open>Reading parameters\<close>

definition string_list_param :: "json option \<Rightarrow> string list" where
  "string_list_param v =
     (case Option.bind v as_array of None \<Rightarrow> [] | Some vs \<Rightarrow> List.map_filter as_str vs)"

definition runtime_value_param :: "json omap \<Rightarrow> string \<Rightarrow> step_failure + runtime_value" where
  "runtime_value_param params name =
     (case omap_get params name of
        Some (JObject v) \<Rightarrow>
          Inr \<lparr> rv_type_name = unwrap_or (Option.bind (omap_get v ''type'') as_str) [],
                rv_value = unwrap_or (omap_get v ''value'') JNull,
                rv_location = Option.bind (omap_get v ''location'') as_str \<rparr>
      | _ \<Rightarrow> Inl (step_failure (name @ '' must be a runtime value object'')))"

definition source_path_from_value :: "runtime_value \<Rightarrow> step_failure + string" where
  "source_path_from_value source =
     ok_or (as_str (rv_value source))
       (step_failure ''copy_files source runtime value must contain a string path'')"

definition py_bool :: "bool \<Rightarrow> string" where
  "py_bool b = (if b then ''True'' else ''False'')"

fun value_is_truthy :: "json \<Rightarrow> bool" where
  "value_is_truthy JNull = False"
| "value_is_truthy (JBool b) = b"
| "value_is_truthy (JNumber (PosInt n)) = (n \<noteq> 0)"
| "value_is_truthy (JNumber (NegInt n)) = (n \<noteq> 0)"
| "value_is_truthy (JNumber (Float bits)) = (\<not> f64_eq bits 0)"
| "value_is_truthy (JString s) = (s \<noteq> [])"
| "value_is_truthy (JArray vs) = (vs \<noteq> [])"
| "value_is_truthy (JObject m) = (m \<noteq> [])"

text \<open>The text of numbers, arrays and objects is that of \<open>serde_json\<close>.\<close>

fun value_to_string :: "externals \<Rightarrow> json \<Rightarrow> string" where
  "value_to_string ext JNull = ''None''"
| "value_to_string ext (JBool b) = py_bool b"
| "value_to_string ext (JString s) = s"
| "value_to_string ext v = ext_json_text ext v"

fun stable_repr :: "externals \<Rightarrow> json \<Rightarrow> string" where
  "stable_repr ext JNull = ''None''"
| "stable_repr ext (JBool b) = py_bool b"
| "stable_repr ext (JString s) = map (\<lambda>c. if c = CHR 0x22 then CHR 0x27 else c) (ext_str_debug ext s)"
| "stable_repr ext v = ext_json_text ext v"

definition required_string_param :: "externals \<Rightarrow> execution_step_condition \<Rightarrow> string \<Rightarrow> string + string" where
  "required_string_param ext condition name =
     ok_or (map_option (value_to_string ext) (omap_get (econd_params condition) name))
       (''Unsupported condition params for '' @ econd_type_name condition)"

section \<open>Admission of one step\<close>

definition blocking_dependencies :: "runtime_state \<Rightarrow> string list \<Rightarrow> string list" where
  "blocking_dependencies state dependencies =
     filter (\<lambda>d. is_some_and (fmlookup (rts_steps state) d)
                   (\<lambda>s. srs_status s = RtFailed \<or> srs_status s = RtBlocked)) dependencies"

definition runtime_capability_enabled :: "execution_plan \<Rightarrow> string \<Rightarrow> bool" where
  "runtime_capability_enabled plan capability =
     (let rc = plan_runtime_capabilities plan
      in if capability = ''adb_available'' then rc_adb_available rc
         else if capability = ''apk_install'' then rc_apk_install rc
         else if capability = ''shared_storage_write'' then rc_shared_storage_write rc
         else if capability = ''app_launch'' then rc_app_launch rc
         else if capability = ''shell_command'' then rc_shell_command rc
         else if capability = ''package_remove_for_user'' then rc_package_remove_for_user rc
         else if capability = ''root_shell'' then rc_root_shell rc
         else if capability = ''app_data_write'' then rc_app_data_write rc
         else False)"

definition missing_capabilities_message :: "execution_plan \<Rightarrow> execution_step \<Rightarrow> string option" where
  "missing_capabilities_message plan step =
     (let missing = filter (\<lambda>c. \<not> runtime_capability_enabled plan c) (esc_capabilities (es_constraints step))
      in if missing = [] then None
         else Some (''missing required capabilities: '' @ join '', '' missing))"

text \<open>The executor reads the capabilities of the plan as the planner reads those of the device.\<close>

lemma runtime_capability_enabled_eq:
  "runtime_capability_enabled plan c = runtime_capability_available (plan_runtime_capabilities plan) c"
  by (simp add: runtime_capability_enabled_def runtime_capability_available_def capability_from_name_def Let_def)

lemma missing_capabilities_None:
  "missing_capabilities_message plan step = None \<longleftrightarrow>
     (\<forall>c \<in> set (esc_capabilities (es_constraints step)).
        runtime_capability_available (plan_runtime_capabilities plan) c)"
  by (auto simp: missing_capabilities_message_def Let_def filter_empty_conv runtime_capability_enabled_eq)

end
