(* ===== verification/Copy_Admission.thy ===== *)
theory Copy_Admission
  imports Runtime_State Host_Paths
begin

text \<open>
  What the executor decides about a plan before it runs it (\<open>executor.rs\<close>,
  \<open>executor/root_requirements.rs\<close>): which copies commit a reviewed directory tree, which copies
  are refused, whether each reviewed copy has exactly one snapshot, and which steps need root.
  Whether a host path is a directory is a question to the host: the argument \<open>is_dir\<close>.
\<close>

section \<open>Paths that need root\<close>

definition is_app_private_path :: "string \<Rightarrow> bool" where
  "is_app_private_path path = (starts_with path ''/data/user/'' \<or> starts_with path ''/data/data/'')"

definition is_reviewable_shared_device_path :: "string \<Rightarrow> bool" where
  "is_reviewable_shared_device_path destination =
     (is_absolute destination \<and> destination \<noteq> ''/'' \<and> \<not> contains_str ''//'' destination
      \<and> \<not> ends_with destination ''/''
      \<and> list_all (\<lambda>c. c \<noteq> CHR ''|'' \<and> c \<noteq> CHR 0x0A \<and> c \<noteq> CHR 0x0D) destination
      \<and> list_all (\<lambda>segment. segment \<noteq> ''..'') (path_components destination))"

section \<open>Directory copies\<close>

definition from_legacy_directory_policy :: "externals \<Rightarrow> string \<Rightarrow> string + copy_commit_operation" where
  "from_legacy_directory_policy ext policy =
     (if policy = ''merge'' then Inr AddUpdate
      else if policy = ''replace'' then Inr ReplaceTree
      else if policy = ''sync'' then Inr MirrorTree
      else Inl (''copy commit rejected: unsupported directory copy policy '' @ ext_str_debug ext policy))"

definition refers_to_step :: "execution_param_value \<Rightarrow> bool" where
  "refers_to_step param = (case param of ParamRef ref_value \<Rightarrow> starts_with ref_value ''steps.'' | _ \<Rightarrow> False)"

definition has_runtime_output_reference :: "execution_step \<Rightarrow> bool" where
  "has_runtime_output_reference step = list_ex refers_to_step (omap_values (es_params step))"

definition has_runtime_source_output_reference :: "execution_step \<Rightarrow> bool" where
  "has_runtime_source_output_reference step =
     is_some_and (omap_get (es_params step) ''source'') refers_to_step"

definition str_param :: "json omap \<Rightarrow> string \<Rightarrow> string option" where
  "str_param params name = Option.bind (omap_get params name) as_str"

definition copy_commit_destination_kind ::
  "(string \<Rightarrow> bool) \<Rightarrow> execution_step \<Rightarrow> json omap \<Rightarrow> string + copy_commit_destination_kind option" where
  "copy_commit_destination_kind is_dir step params =
     (if is_some_and (str_param params ''dest_kind'') (\<lambda>kind. kind \<noteq> ''directory'') then Inr None
      else (case runtime_value_param params ''source'' of
              Inl _ \<Rightarrow> Inr None
            | Inr source \<Rightarrow>
                if rv_type_name source \<noteq> ''directory_path'' \<or> rv_location source \<noteq> Some ''host'' then Inr None
                else (case str_param params ''dest'' of
                        None \<Rightarrow> Inr None
                      | Some destination \<Rightarrow>
                          let commit = (\<lambda>kind. case source_path_from_value source of
                                 Inl failure \<Rightarrow> Inl (sf_message failure)
                               | Inr path \<Rightarrow>
                                   if is_dir path then Inr (Some kind)
                                   else Inl (''copy_files step '' @ es_id step
                                     @ '' selected destination source must be one existing host directory''))
                          in if is_app_private_path destination then
                               (if es_app_id step = None
                                then Inl (''copy_files step '' @ es_id step
                                  @ '' app-private destination requires an authored App Target'')
                                else commit AppTargetDest)
                             else if is_reviewable_shared_device_path destination
                             then commit SharedDevicePathDest
                             else Inr None)))"

definition is_selected_directory_step ::
  "(string \<Rightarrow> bool) \<Rightarrow> execution_step \<Rightarrow> json omap \<Rightarrow> string + bool" where
  "is_selected_directory_step is_dir step params =
     map_sum id (\<lambda>kind. kind \<noteq> None) (copy_commit_destination_kind is_dir step params)"

definition copy_steps :: "execution_plan \<Rightarrow> execution_step list" where
  "copy_steps plan = filter (\<lambda>step. es_type_name step = ''copy_files'') (plan_steps plan)"

section \<open>Copies that are refused\<close>

definition effective_copy_policy :: "json omap \<Rightarrow> string" where
  "effective_copy_policy params = unwrap_or (str_param params ''copy_policy'') ''merge''"

text \<open>The errors of a copy whose operands are known, in the order the code finds them.\<close>

definition unselected_copy_error :: "externals \<Rightarrow> json omap \<Rightarrow> runtime_value \<Rightarrow> string option" where
  "unselected_copy_error ext params source =
     (let copy_policy = effective_copy_policy params in
      if rv_type_name source = ''path'' then Some ''source type 'path' has no copy policy''
      else if rv_type_name source = ''path_list''
           \<and> \<not> is_some_and (as_array (rv_value source)) (list_all is_string)
      then Some ''path_list source must contain string paths''
      else if rv_type_name source = ''directory_path'' \<and> rv_location source \<noteq> Some ''host''
      then Some ''directory sources must be host paths''
      else if rv_type_name source = ''directory_path'' \<and> str_param params ''dest_kind'' = Some ''file''
      then Some ''a directory source cannot target one file''
      else if rv_type_name source = ''directory_path'' \<and> (copy_policy = ''replace'' \<or> copy_policy = ''sync'')
      then Some (''destructive directory policy '' @ ext_str_debug ext copy_policy
             @ '' requires a statically resolved selected App Target directory'')
      else if rv_type_name source = ''path_list'' \<and> copy_policy = ''replace''
      then Some ''replacing a path list would delete the destination tree''
      else None)"

definition static_copy_error ::
  "externals \<Rightarrow> (string \<Rightarrow> bool) \<Rightarrow> runtime_state \<Rightarrow> execution_step \<Rightarrow> string option" where
  "static_copy_error ext is_dir state step =
     (let name = ''copy_files step '' @ es_id step in
      case resolve_step_params ext state (es_params step) of
        Inl error \<Rightarrow> Some (name @ '' has invalid static operands ('' @ sf_message error @ '')'')
      | Inr params \<Rightarrow>
          (case runtime_value_param params ''source'' of
             Inl error \<Rightarrow> Some (name @ '' has invalid source ('' @ sf_message error @ '')'')
           | Inr source \<Rightarrow>
               if rv_type_name source = ''path_list'' \<and> effective_copy_policy params = ''sync''
               then Some (name @ '' is unsupported: sync path_list has no single reviewed source boundary'')
               else (case is_selected_directory_step is_dir step params of
                       Inl error \<Rightarrow> Some error
                     | Inr True \<Rightarrow>
                         (case from_legacy_directory_policy ext (effective_copy_policy params) of
                            Inl error \<Rightarrow> Some error
                          | Inr _ \<Rightarrow> None)
                     | Inr False \<Rightarrow>
                         map_option (\<lambda>reason. name @ '' is unsupported: '' @ reason)
                           (unselected_copy_error ext params source))))"

definition copy_step_error ::
  "externals \<Rightarrow> (string \<Rightarrow> bool) \<Rightarrow> runtime_state \<Rightarrow> execution_step \<Rightarrow> string option" where
  "copy_step_error ext is_dir state step =
     (if has_runtime_output_reference step then
        (if has_runtime_source_output_reference step \<and> es_app_id step \<noteq> None
         then Some (''copy_files step '' @ es_id step
           @ '' is unsupported: App Target sources from runtime step outputs cannot be reviewed before execution'')
         else None)
      else static_copy_error ext is_dir state step)"

definition validate_supported_copy_plan :: "externals \<Rightarrow> (string \<Rightarrow> bool) \<Rightarrow> execution_plan \<Rightarrow> string + unit" where
  "validate_supported_copy_plan ext is_dir plan =
     (case first_some (map (copy_step_error ext is_dir (from_plan plan)) (copy_steps plan)) of
        Some error \<Rightarrow> Inl error
      | None \<Rightarrow> Inr ())"

section \<open>Snapshot coverage\<close>

definition copy_snapshot_error ::
  "externals \<Rightarrow> (string \<Rightarrow> bool) \<Rightarrow> execution_plan \<Rightarrow> execution_step \<Rightarrow> string option" where
  "copy_snapshot_error ext is_dir plan step =
     (if has_runtime_output_reference step then None
      else (case resolve_step_params ext (from_plan plan) (es_params step) of
              Inl error \<Rightarrow> Some (sf_message error)
            | Inr params \<Rightarrow>
                (case is_selected_directory_step is_dir step params of
                   Inl error \<Rightarrow> Some error
                 | Inr False \<Rightarrow> None
                 | Inr True \<Rightarrow>
                     (case length (filter (\<lambda>s. ccs_step_id s = es_id step) (plan_copy_commit_snapshots plan)) of
                        0 \<Rightarrow> Some (''copy_files step '' @ es_id step @ '' requires a pre-review copy snapshot'')
                      | Suc 0 \<Rightarrow> None
                      | _ \<Rightarrow> Some (''copy_files step '' @ es_id step
                               @ '' has duplicate pre-review copy snapshots'')))))"

definition validate_copy_commit_snapshot_coverage ::
  "externals \<Rightarrow> (string \<Rightarrow> bool) \<Rightarrow> execution_plan \<Rightarrow> string + unit" where
  "validate_copy_commit_snapshot_coverage ext is_dir plan =
     (case first_some (map (copy_snapshot_error ext is_dir plan) (copy_steps plan)) of
        Some error \<Rightarrow> Inl error
      | None \<Rightarrow>
          if list_ex (\<lambda>snapshot. \<not> list_ex (\<lambda>step. es_id step = ccs_step_id snapshot) (copy_steps plan))
               (plan_copy_commit_snapshots plan)
          then Inl ''execution plan contains an orphaned copy snapshot''
          else Inr ())"

definition plan_requires_copy_commit_preparation ::
  "externals \<Rightarrow> (string \<Rightarrow> bool) \<Rightarrow> execution_plan \<Rightarrow> bool" where
  "plan_requires_copy_commit_preparation ext is_dir plan =
     (is_err (validate_supported_copy_plan ext is_dir plan)
      \<or> list_ex (\<lambda>step. \<not> has_runtime_output_reference step
          \<and> (case resolve_step_params ext (from_plan plan) (es_params step) of
               Inl _ \<Rightarrow> False
             | Inr params \<Rightarrow> is_selected_directory_step is_dir step params = Inr True)) (copy_steps plan))"

end
