(* ===== verification/Root_Requirements.thy ===== *)
theory Root_Requirements
  imports Copy_Admission
begin

text \<open>
  Which steps of a reviewed plan need root (\<open>executor/root_requirements.rs\<close>, and its typed callers
  in \<open>executor.rs\<close>: \<open>plan_step_root_requirements\<close>, \<open>reviewed_plan_requires_root\<close>,
  \<open>reviewed_root_authorized\<close>).
\<close>

section \<open>Classification of normalized facts\<close>

record root_requirements =
  rr_root_shell :: bool
  rr_app_data_write :: bool

definition no_root :: root_requirements where
  "no_root = \<lparr> rr_root_shell = False, rr_app_data_write = False \<rparr>"

definition requires_any :: "root_requirements \<Rightarrow> bool" where
  "requires_any r = (rr_root_shell r \<or> rr_app_data_write r)"

definition merge_requirements :: "root_requirements \<Rightarrow> root_requirements \<Rightarrow> root_requirements" where
  "merge_requirements a b =
     \<lparr> rr_root_shell = (rr_root_shell a \<or> rr_root_shell b),
       rr_app_data_write = (rr_app_data_write a \<or> rr_app_data_write b) \<rparr>"

datatype root_work_operation = CopyFilesWork | ExtractArchiveWork | GrantPermissionsWork | OtherWork

definition root_work_operation_of :: "string \<Rightarrow> root_work_operation" where
  "root_work_operation_of step_type =
     (if step_type = ''copy_files'' then CopyFilesWork
      else if step_type = ''extract_archive'' then ExtractArchiveWork
      else if step_type = ''grant_permissions'' then GrantPermissionsWork
      else OtherWork)"

definition root_requirement_constraints :: "string list \<Rightarrow> bool \<times> bool" where
  "root_requirement_constraints capabilities =
     fold (\<lambda>capability (root_shell, app_data_write).
             (root_shell \<or> capability = ''root_shell'', app_data_write \<or> capability = ''app_data_write''))
       capabilities (False, False)"

text \<open>\<open>condition_requires_root\<close> of the shared module.\<close>

definition path_condition_requires_root :: "string \<Rightarrow> string option \<Rightarrow> bool" where
  "path_condition_requires_root condition_type path =
     ((condition_type = ''path_exists'' \<or> condition_type = ''file_exists'')
      \<and> is_some_and path is_app_private_path)"

record root_requirement_step =
  rrs_operation :: root_work_operation
  rrs_root_shell_constraint :: bool
  rrs_app_data_write_constraint :: bool
  rrs_permission_plan_requires_root :: bool
  rrs_condition_requires_root :: bool
  rrs_source_requires_root :: bool
  rrs_destination_requires_root :: bool
  rrs_extracts_to_device :: bool

text \<open>The assignments of \<open>classify_root_requirement_step\<close>, in order.\<close>

definition classify_root_requirement_step :: "root_requirement_step \<Rightarrow> root_requirements" where
  "classify_root_requirement_step step =
     (let r = no_root;
          r = (if rrs_operation step \<noteq> GrantPermissionsWork then
                 (let r = (if rrs_root_shell_constraint step \<or> rrs_app_data_write_constraint step
                           then r \<lparr> rr_root_shell := True \<rparr> else r)
                  in if rrs_app_data_write_constraint step then r \<lparr> rr_app_data_write := True \<rparr> else r)
               else r);
          r = (if rrs_condition_requires_root step then r \<lparr> rr_root_shell := True \<rparr> else r);
          r = (if rrs_permission_plan_requires_root step then r \<lparr> rr_root_shell := True \<rparr> else r)
      in case rrs_operation step of
           CopyFilesWork \<Rightarrow>
             (let r = (if rrs_source_requires_root step then r \<lparr> rr_root_shell := True \<rparr> else r)
              in if rrs_destination_requires_root step
                 then r \<lparr> rr_root_shell := True, rr_app_data_write := True \<rparr> else r)
         | ExtractArchiveWork \<Rightarrow>
             (if rrs_extracts_to_device step \<and> rrs_destination_requires_root step
              then r \<lparr> rr_root_shell := True, rr_app_data_write := True \<rparr> else r)
         | GrantPermissionsWork \<Rightarrow> r
         | OtherWork \<Rightarrow> r)"

section \<open>The facts of a typed step\<close>

definition input_runtime_value :: "execution_plan \<Rightarrow> string \<Rightarrow> runtime_value option" where
  "input_runtime_value plan ref_value =
     Option.bind (strip_prefix ''inputs.'' ref_value) (\<lambda>input_id.
       if input_id = [] then None
       else map_option eiv_value (find (\<lambda>input. eiv_id input = input_id) (plan_inputs plan)))"

fun private_path_value :: "json \<Rightarrow> bool" where
  "private_path_value (JString path) = is_app_private_path path"
| "private_path_value (JArray paths) = list_ex is_app_private_path (List.map_filter as_str paths)"
| "private_path_value _ = False"

definition runtime_value_device_value_requires_root :: "runtime_value \<Rightarrow> bool" where
  "runtime_value_device_value_requires_root v =
     (rv_location v = Some ''device'' \<and> private_path_value (rv_value v))"

definition runtime_value_device_path_requires_root :: "runtime_value \<Rightarrow> bool" where
  "runtime_value_device_path_requires_root v =
     (rv_location v = Some ''device'' \<and> is_some_and (as_str (rv_value v)) is_app_private_path)"

definition runtime_value_json_is_app_private_device_path :: "json \<Rightarrow> bool" where
  "runtime_value_json_is_app_private_device_path v =
     (case as_object v of
        None \<Rightarrow> False
      | Some object \<Rightarrow>
          Option.bind (omap_get object ''location'') as_str = Some ''device''
          \<and> is_some_and (omap_get object ''value'') private_path_value)"

definition execution_param_runtime_value_requires_root :: "execution_plan \<Rightarrow> execution_param_value \<Rightarrow> bool" where
  "execution_param_runtime_value_requires_root plan param =
     (case param of
        ParamLiteral v \<Rightarrow> runtime_value_json_is_app_private_device_path v
      | ParamRef ref_value \<Rightarrow>
          is_some_and (input_runtime_value plan ref_value) runtime_value_device_value_requires_root)"

definition execution_param_destination_requires_root :: "execution_plan \<Rightarrow> execution_param_value \<Rightarrow> bool" where
  "execution_param_destination_requires_root plan param =
     (case param of
        ParamLiteral v \<Rightarrow> is_some_and (as_str v) is_app_private_path
      | ParamRef ref_value \<Rightarrow>
          is_some_and (input_runtime_value plan ref_value) runtime_value_device_path_requires_root)"

definition execution_param_is_string :: "execution_plan \<Rightarrow> execution_param_value \<Rightarrow> string \<Rightarrow> bool" where
  "execution_param_is_string plan param expected =
     (case param of
        ParamLiteral v \<Rightarrow> as_str v = Some expected
      | ParamRef ref_value \<Rightarrow>
          Option.bind (input_runtime_value plan ref_value) (\<lambda>v. as_str (rv_value v)) = Some expected)"

definition condition_requires_root :: "execution_step_condition \<Rightarrow> bool" where
  "condition_requires_root condition =
     path_condition_requires_root (econd_type_name condition)
       (Option.bind (omap_get (econd_params condition) ''path'') as_str)"

text \<open>A copy into shared device storage that commits a directory tree.\<close>

definition shared_destination ::
  "externals \<Rightarrow> (string \<Rightarrow> bool) \<Rightarrow> execution_plan \<Rightarrow> execution_step \<Rightarrow> bool" where
  "shared_destination ext is_dir plan step =
     (case resolve_step_params ext (from_plan plan) (es_params step) of
        Inl _ \<Rightarrow> False
      | Inr params \<Rightarrow> copy_commit_destination_kind is_dir step params = Inr (Some SharedDevicePathDest))"

definition permission_plan_requires_root :: "permission_plan \<Rightarrow> bool" where
  "permission_plan_requires_root plan =
     (pp_permission_set plan = Elevated \<and> (pp_actions plan = [] \<or> has_applicable_actions plan))"

definition plan_step_root_requirements ::
  "externals \<Rightarrow> (string \<Rightarrow> bool) \<Rightarrow> execution_plan \<Rightarrow> execution_step \<Rightarrow> root_requirements" where
  "plan_step_root_requirements ext is_dir plan step =
     (let (root_shell, app_data_write) = root_requirement_constraints (esc_capabilities (es_constraints step));
          root_shell = (root_shell \<or> es_type_name step = ''copy_files'' \<and> shared_destination ext is_dir plan step)
      in classify_root_requirement_step
           \<lparr> rrs_operation = root_work_operation_of (es_type_name step),
             rrs_root_shell_constraint = root_shell,
             rrs_app_data_write_constraint = app_data_write,
             rrs_permission_plan_requires_root =
               is_some_and (es_permission_plan step) permission_plan_requires_root,
             rrs_condition_requires_root = list_ex condition_requires_root (es_skip_if step @ es_verify step),
             rrs_source_requires_root =
               is_some_and (omap_get (es_params step) ''source'') (execution_param_runtime_value_requires_root plan),
             rrs_destination_requires_root =
               is_some_and (omap_get (es_params step) ''dest'') (execution_param_destination_requires_root plan),
             rrs_extracts_to_device =
               is_some_and (omap_get (es_params step) ''extract_on'')
                 (\<lambda>param. execution_param_is_string plan param ''device'') \<rparr>)"

definition reviewed_plan_requires_root :: "externals \<Rightarrow> (string \<Rightarrow> bool) \<Rightarrow> execution_plan \<Rightarrow> bool" where
  "reviewed_plan_requires_root ext is_dir plan =
     list_ex (\<lambda>step. requires_any (plan_step_root_requirements ext is_dir plan step)) (plan_steps plan)"

definition plan_root_requirements :: "externals \<Rightarrow> (string \<Rightarrow> bool) \<Rightarrow> execution_plan \<Rightarrow> root_requirements" where
  "plan_root_requirements ext is_dir plan =
     fold (\<lambda>step all. merge_requirements all (plan_step_root_requirements ext is_dir plan step))
       (plan_steps plan) no_root"

definition reviewed_root_authorized :: "externals \<Rightarrow> (string \<Rightarrow> bool) \<Rightarrow> execution_plan \<Rightarrow> bool" where
  "reviewed_root_authorized ext is_dir plan =
     (if \<not> reviewed_plan_requires_root ext is_dir plan then False
      else let requirements = plan_root_requirements ext is_dir plan;
               capabilities = plan_runtime_capabilities plan
           in requires_any requirements
              \<and> (\<not> rr_root_shell requirements \<or> rc_root_shell capabilities)
              \<and> (\<not> rr_app_data_write requirements \<or> rc_app_data_write capabilities))"

section \<open>The classifier against its specification\<close>

lemma root_requirement_constraints_iff:
  "root_requirement_constraints cs = (''root_shell'' \<in> set cs, ''app_data_write'' \<in> set cs)"
proof -
  have "fold (\<lambda>c (r, a). (r \<or> c = ''root_shell'', a \<or> c = ''app_data_write'')) cs (r0, a0)
      = (r0 \<or> ''root_shell'' \<in> set cs, a0 \<or> ''app_data_write'' \<in> set cs)" for r0 a0
    by (induction cs arbitrary: r0 a0) auto
  then show ?thesis by (simp add: root_requirement_constraints_def)
qed

text \<open>Root is never needed for application data alone: the shell comes with it.\<close>

lemma classify_data_needs_shell:
  "rr_app_data_write (classify_root_requirement_step f) \<Longrightarrow> rr_root_shell (classify_root_requirement_step f)"
  by (cases "rrs_operation f")
    (auto simp: classify_root_requirement_step_def no_root_def Let_def split: if_splits)

lemma rr_root_shell_classify:
  "rr_root_shell (classify_root_requirement_step f) \<longleftrightarrow>
     rrs_operation f \<noteq> GrantPermissionsWork \<and> (rrs_root_shell_constraint f \<or> rrs_app_data_write_constraint f)
     \<or> rrs_condition_requires_root f \<or> rrs_permission_plan_requires_root f
     \<or> rrs_operation f = CopyFilesWork \<and> (rrs_source_requires_root f \<or> rrs_destination_requires_root f)
     \<or> rrs_operation f = ExtractArchiveWork \<and> rrs_extracts_to_device f \<and> rrs_destination_requires_root f"
  by (cases "rrs_operation f") (auto simp: classify_root_requirement_step_def no_root_def Let_def)

lemma rr_app_data_write_classify:
  "rr_app_data_write (classify_root_requirement_step f) \<longleftrightarrow>
     rrs_operation f \<noteq> GrantPermissionsWork \<and> rrs_app_data_write_constraint f
     \<or> rrs_operation f = CopyFilesWork \<and> rrs_destination_requires_root f
     \<or> rrs_operation f = ExtractArchiveWork \<and> rrs_extracts_to_device f \<and> rrs_destination_requires_root f"
  by (cases "rrs_operation f") (auto simp: classify_root_requirement_step_def no_root_def Let_def)

lemma plan_root_requirements_iff:
  "rr_root_shell (plan_root_requirements ext is_dir plan) \<longleftrightarrow>
     (\<exists>step \<in> set (plan_steps plan). rr_root_shell (plan_step_root_requirements ext is_dir plan step))"
  "rr_app_data_write (plan_root_requirements ext is_dir plan) \<longleftrightarrow>
     (\<exists>step \<in> set (plan_steps plan). rr_app_data_write (plan_step_root_requirements ext is_dir plan step))"
proof -
  have "rr_root_shell (fold (\<lambda>x all. merge_requirements all (f x)) xs all) \<longleftrightarrow>
        rr_root_shell all \<or> (\<exists>x \<in> set xs. rr_root_shell (f x))"
    "rr_app_data_write (fold (\<lambda>x all. merge_requirements all (f x)) xs all) \<longleftrightarrow>
        rr_app_data_write all \<or> (\<exists>x \<in> set xs. rr_app_data_write (f x))"
    for f and xs :: "execution_step list" and all
    by (induction xs arbitrary: all) (auto simp: merge_requirements_def)
  then show "rr_root_shell (plan_root_requirements ext is_dir plan) \<longleftrightarrow>
     (\<exists>step \<in> set (plan_steps plan). rr_root_shell (plan_step_root_requirements ext is_dir plan step))"
    "rr_app_data_write (plan_root_requirements ext is_dir plan) \<longleftrightarrow>
     (\<exists>step \<in> set (plan_steps plan). rr_app_data_write (plan_step_root_requirements ext is_dir plan step))"
    by (simp_all add: plan_root_requirements_def no_root_def)
qed

lemma step_data_needs_shell:
  "rr_app_data_write (plan_step_root_requirements ext is_dir plan step) \<Longrightarrow>
   rr_root_shell (plan_step_root_requirements ext is_dir plan step)"
  using classify_data_needs_shell
  by (auto simp: plan_step_root_requirements_def Let_def split: prod.splits)

text \<open>
  A reviewed plan is authorised for root exactly when some step needs a root shell, the device
  of the review has one, and it can write application data if any step needs that: the fold over
  the steps decides the existence statement.\<close>

lemma reviewed_root_authorized_iff:
  "reviewed_root_authorized ext is_dir plan \<longleftrightarrow>
     list_ex (\<lambda>step. rr_root_shell (plan_step_root_requirements ext is_dir plan step)) (plan_steps plan)
     \<and> rc_root_shell (plan_runtime_capabilities plan)
     \<and> \<not> (list_ex (\<lambda>step. rr_app_data_write (plan_step_root_requirements ext is_dir plan step)) (plan_steps plan)
          \<and> \<not> rc_app_data_write (plan_runtime_capabilities plan))"
proof -
  have any: "requires_any (plan_step_root_requirements ext is_dir plan step) \<longleftrightarrow>
      rr_root_shell (plan_step_root_requirements ext is_dir plan step)" for step
    using step_data_needs_shell by (auto simp: requires_any_def)
  show ?thesis
    by (auto simp: reviewed_root_authorized_def reviewed_plan_requires_root_def any list_ex_iff Let_def
        plan_root_requirements_iff requires_any_def dest: step_data_needs_shell)
qed

end
