(* ===== verification/Exec_Device.thy ===== *)
theory Exec_Device
  imports Exec_Types Root_Requirements
begin

text \<open>
  The device boundary of the executor (\<open>executor.rs\<close>).  The trait \<open>ExecutorDevice\<close> is a record of
  operations on the state \<open>'w\<close> of everything outside the process: the device and the file system of
  the host.  An operation returns its result and the new state.  \<open>dev_host_metadata\<close> is
  \<open>std::fs::metadata\<close> on that state.  The device of a dry run, \<open>FakeDryRunDevice\<close>, is an instance of the record.
\<close>

type_synonym ('w, 'a) device_action = "'w \<Rightarrow> (device_operation_error + 'a) \<times> 'w"

record 'w executor_device =
  dev_configure_identity_guard :: "target_device_binding option \<Rightarrow> 'w \<Rightarrow> 'w"
  dev_configure_root_authority :: "bool \<Rightarrow> 'w \<Rightarrow> 'w"
  dev_configure_root_shell_route :: "root_shell_route option \<Rightarrow> 'w \<Rightarrow> 'w"
  dev_owns_per_command_root_authority :: "'w \<Rightarrow> bool"
  dev_revalidate_root :: "('w, unit) device_action"
  dev_uses_fake_device_filesystem :: "'w \<Rightarrow> bool"
  dev_uses_fake_copy_commit_adapter :: "'w \<Rightarrow> bool"
  dev_install_apk :: "string \<Rightarrow> bool \<Rightarrow> ('w, unit) device_action"
  dev_record_installed_package :: "string \<Rightarrow> 'w \<Rightarrow> 'w"
  dev_push :: "string \<Rightarrow> string \<Rightarrow> bool \<Rightarrow> ('w, unit) device_action"
  dev_mkdir_p :: "string \<Rightarrow> ('w, unit) device_action"
  dev_remove_file :: "string \<Rightarrow> ('w, unit) device_action"
  dev_remove_tree :: "string \<Rightarrow> ('w, unit) device_action"
  dev_copy_on_device :: "string \<Rightarrow> string \<Rightarrow> bool \<Rightarrow> bool \<Rightarrow> ('w, unit) device_action"
  dev_package_installed :: "string \<Rightarrow> ('w, bool) device_action"
  dev_path_exists :: "string \<Rightarrow> ('w, bool) device_action"
  dev_path_is_dir :: "string \<Rightarrow> ('w, bool) device_action"
  dev_apply_permission_operation :: "permission_operation \<Rightarrow> ('w, unit) device_action"
  dev_launch_app :: "string \<Rightarrow> string option \<Rightarrow> ('w, unit) device_action"
  dev_force_stop_app :: "string \<Rightarrow> ('w, unit) device_action"
  dev_host_metadata :: "'w \<Rightarrow> string \<Rightarrow> path_metadata option"

definition host_is_dir :: "'w executor_device \<Rightarrow> 'w \<Rightarrow> string \<Rightarrow> bool" where
  "host_is_dir dev w path = (dev_host_metadata dev w path = Some IsDir)"

section \<open>The device of a dry run\<close>

text \<open>\<open>FakeDryRunDevice\<close> outside tests, with the host file system it runs on.  The counter
  \<open>root_preflight_calls\<close> saturates at the largest \<open>usize\<close>.\<close>

record fake_device =
  fd_installed_packages :: "string set"
  fd_remote_paths :: "string set"
  fd_remote_dirs :: "string set"
  fd_commands :: "string list list"
  fd_permission_failures :: "(permission_operation, string) fmap"
  fd_install_failures :: "(string \<times> bool, string) fmap"
  fd_launch_failures :: "(string \<times> string, string) fmap"
  fd_force_stop_failures :: "(string, string) fmap"
  fd_root_preflight_result :: "(string + unit) option"
  fd_root_preflight_calls :: u64
  fd_host_metadata :: "string \<Rightarrow> path_metadata option"

definition new_fake_device :: fake_device where
  "new_fake_device =
     \<lparr> fd_installed_packages = {}, fd_remote_paths = {}, fd_remote_dirs = {}, fd_commands = [],
       fd_permission_failures = fmempty, fd_install_failures = fmempty, fd_launch_failures = fmempty,
       fd_force_stop_failures = fmempty, fd_root_preflight_result = None, fd_root_preflight_calls = 0,
       fd_host_metadata = (\<lambda>_. None) \<rparr>"

definition log_command :: "string list \<Rightarrow> fake_device \<Rightarrow> fake_device" where
  "log_command command fd = fd \<lparr> fd_commands := fd_commands fd @ [command] \<rparr>"

definition injected :: "string option \<Rightarrow> device_operation_error + unit" where
  "injected failure = (case failure of Some message \<Rightarrow> Inl (device_error_other message) | None \<Rightarrow> Inr ())"

definition saturating_increment :: "u64 \<Rightarrow> u64" where
  "saturating_increment n = (if n = - 1 then n else n + 1)"

definition fake_revalidate_root :: "(fake_device, unit) device_action" where
  "fake_revalidate_root fd =
     (map_sum device_error_other id (unwrap_or (fd_root_preflight_result fd) (Inr ())),
      log_command [''root_preflight'']
        (fd \<lparr> fd_root_preflight_calls := saturating_increment (fd_root_preflight_calls fd) \<rparr>))"

definition fake_install_apk :: "string \<Rightarrow> bool \<Rightarrow> (fake_device, unit) device_action" where
  "fake_install_apk apk_path replace_existing fd =
     (injected (fmlookup (fd_install_failures fd) (apk_path, replace_existing)),
      log_command [''install_apk'', apk_path, py_bool replace_existing] fd)"

definition fake_record_installed_package :: "string \<Rightarrow> fake_device \<Rightarrow> fake_device" where
  "fake_record_installed_package package_name fd =
     fd \<lparr> fd_installed_packages := insert package_name (fd_installed_packages fd) \<rparr>"

definition fake_push :: "string \<Rightarrow> string \<Rightarrow> bool \<Rightarrow> (fake_device, unit) device_action" where
  "fake_push source dest sync fd =
     (Inr (), (log_command [if sync then ''push_sync'' else ''push'', source, dest] fd)
        \<lparr> fd_remote_paths := insert dest (fd_remote_paths fd),
          fd_remote_dirs := (if fd_host_metadata fd source = Some IsDir
                             then insert dest (fd_remote_dirs fd) else fd_remote_dirs fd) \<rparr>)"

definition fake_mkdir_p :: "string \<Rightarrow> (fake_device, unit) device_action" where
  "fake_mkdir_p path fd =
     (Inr (), (log_command [''mkdir_p'', path] fd)
        \<lparr> fd_remote_paths := insert path (fd_remote_paths fd),
          fd_remote_dirs := insert path (fd_remote_dirs fd) \<rparr>)"

definition fake_remove_file :: "string \<Rightarrow> (fake_device, unit) device_action" where
  "fake_remove_file path fd =
     (Inr (), (log_command [''remove_file'', path] fd)
        \<lparr> fd_remote_paths := fd_remote_paths fd - {path}, fd_remote_dirs := fd_remote_dirs fd - {path} \<rparr>)"

definition trim_end_slashes :: "string \<Rightarrow> string" where
  "trim_end_slashes path = rev (dropWhile (\<lambda>c. c = CHR ''/'') (rev path))"

definition in_tree :: "string \<Rightarrow> string \<Rightarrow> bool" where
  "in_tree path candidate = (candidate = path \<or> starts_with candidate (trim_end_slashes path @ ''/''))"

definition fake_remove_tree :: "string \<Rightarrow> (fake_device, unit) device_action" where
  "fake_remove_tree path fd =
     (Inr (), (log_command [''remove_tree'', path] fd)
        \<lparr> fd_remote_paths := Set.filter (\<lambda>c. \<not> in_tree path c) (fd_remote_paths fd),
          fd_remote_dirs := Set.filter (\<lambda>c. \<not> in_tree path c) (fd_remote_dirs fd) \<rparr>)"

definition fake_copy_on_device ::
  "string \<Rightarrow> string \<Rightarrow> bool \<Rightarrow> bool \<Rightarrow> (fake_device, unit) device_action" where
  "fake_copy_on_device source dest recursive privileged fd =
     (Inr (), (log_command [''copy_on_device'', source, dest, py_bool recursive, py_bool privileged] fd)
        \<lparr> fd_remote_paths := insert dest (fd_remote_paths fd),
          fd_remote_dirs := (if recursive then insert dest (fd_remote_dirs fd) else fd_remote_dirs fd) \<rparr>)"

definition fake_package_installed :: "string \<Rightarrow> (fake_device, bool) device_action" where
  "fake_package_installed package_name fd =
     (Inr (package_name \<in> fd_installed_packages fd), log_command [''package_installed'', package_name] fd)"

definition fake_path_exists :: "string \<Rightarrow> (fake_device, bool) device_action" where
  "fake_path_exists path fd =
     (Inr (path \<in> fd_remote_paths fd),
      log_command [''path_exists'', path, py_bool (is_app_private_path path)] fd)"

definition fake_path_is_dir :: "string \<Rightarrow> (fake_device, bool) device_action" where
  "fake_path_is_dir path fd =
     (Inr (path \<in> fd_remote_dirs fd),
      log_command [''path_is_dir'', path, py_bool (is_app_private_path path)] fd)"

fun permission_set_name :: "permission_set_kind \<Rightarrow> string" where
  "permission_set_name Baseline = ''baseline''"
| "permission_set_name Elevated = ''elevated''"

definition fake_apply_permission_operation :: "permission_operation \<Rightarrow> (fake_device, unit) device_action" where
  "fake_apply_permission_operation operation fd =
     (injected (fmlookup (fd_permission_failures fd) operation),
      log_command ([''permission_operation'', permission_set_name (po_permission_set operation)]
        @ adb_shell_arguments operation) fd)"

definition fake_launch_app :: "string \<Rightarrow> string option \<Rightarrow> (fake_device, unit) device_action" where
  "fake_launch_app package_name activity fd =
     (injected (fmlookup (fd_launch_failures fd) (package_name, unwrap_or activity [])),
      log_command [''launch_app'', package_name, unwrap_or activity []] fd)"

definition fake_force_stop_app :: "string \<Rightarrow> (fake_device, unit) device_action" where
  "fake_force_stop_app package_name fd =
     (injected (fmlookup (fd_force_stop_failures fd) package_name),
      log_command [''force_stop_app'', package_name] fd)"

definition fake_dry_run_device :: "fake_device executor_device" where
  "fake_dry_run_device =
     \<lparr> dev_configure_identity_guard = (\<lambda>_ fd. fd), dev_configure_root_authority = (\<lambda>_ fd. fd),
       dev_configure_root_shell_route = (\<lambda>_ fd. fd), dev_owns_per_command_root_authority = (\<lambda>_. False),
       dev_revalidate_root = fake_revalidate_root, dev_uses_fake_device_filesystem = (\<lambda>_. True),
       dev_uses_fake_copy_commit_adapter = (\<lambda>_. True), dev_install_apk = fake_install_apk,
       dev_record_installed_package = fake_record_installed_package, dev_push = fake_push,
       dev_mkdir_p = fake_mkdir_p, dev_remove_file = fake_remove_file, dev_remove_tree = fake_remove_tree,
       dev_copy_on_device = fake_copy_on_device, dev_package_installed = fake_package_installed,
       dev_path_exists = fake_path_exists, dev_path_is_dir = fake_path_is_dir,
       dev_apply_permission_operation = fake_apply_permission_operation,
       dev_launch_app = fake_launch_app, dev_force_stop_app = fake_force_stop_app,
       dev_host_metadata = fd_host_metadata \<rparr>"

end
