(* ===== verification/Sandbox_Paths.thy ===== *)
theory Sandbox_Paths
  imports Exec_Types Host_Paths
begin

text \<open>
  The sandbox of the executor (\<open>executor.rs\<close>: \<open>SandboxRoots\<close>, \<open>normalize_path\<close>,
  \<open>fake_device_relative_components\<close>, \<open>archive_relative_components\<close>, and the part of
  \<open>extract_zip_to_directory_inner\<close> before the first write): which paths of the simulated device and
  which entries of an archive are accepted, and where they are written.  A \<open>PathBuf\<close> is read by
  its components, as its equality and \<open>starts_with\<close> do: whether it has a root, and the list.
\<close>

type_synonym fs_path = "bool \<times> string list"

definition fs_path_text :: "fs_path \<Rightarrow> string" where
  "fs_path_text p = (if fst p then ''/'' else []) @ join ''/'' (snd p)"

text \<open>\<open>Path::starts_with\<close>: by whole components.\<close>

definition fs_starts_with :: "fs_path \<Rightarrow> fs_path \<Rightarrow> bool" where
  "fs_starts_with p base_dir = (fst p = fst base_dir \<and> strip_prefix (snd base_dir) (snd p) \<noteq> None)"

lemma fs_starts_with_iff: "fs_starts_with p base_dir \<longleftrightarrow> fst p = fst base_dir \<and> (\<exists>rest. snd p = snd base_dir @ rest)"
  by (auto simp: fs_starts_with_def strip_prefix_eq_Some)

section \<open>Normal forms\<close>

text \<open>\<open>PathBuf::pop\<close> leaves a root and an empty path alone.\<close>

fun normal_components :: "string list \<Rightarrow> string list \<Rightarrow> string list" where
  "normal_components acc [] = acc"
| "normal_components acc (c # cs) =
     normal_components (if c = ''.'' then acc else if c = ''..'' then butlast acc else acc @ [c]) cs"

definition normalize_components :: "bool \<Rightarrow> string list \<Rightarrow> fs_path" where
  "normalize_components rooted cs = (rooted, normal_components [] cs)"

definition normalize_path :: "string \<Rightarrow> fs_path" where
  "normalize_path p = normalize_components (is_absolute p) (path_components p)"

text \<open>The components that pass the two filters: plain names.\<close>

definition plain_component :: "string \<Rightarrow> bool" where
  "plain_component c = (c \<noteq> ''.'' \<and> c \<noteq> ''..'')"

lemma normal_components_plain:
  "list_all plain_component cs \<Longrightarrow> normal_components ds cs = ds @ cs"
  by (induction cs arbitrary: ds) (auto simp: plain_component_def)

lemma normal_components_append:
  "normal_components ds (as @ bs) = normal_components (normal_components ds as) bs"
  by (induction as arbitrary: ds) auto

lemma normal_components_result:
  "list_all plain_component ds \<Longrightarrow> list_all plain_component (normal_components ds cs)"
proof (induction cs arbitrary: ds)
  case (Cons c cs)
  have "list_all plain_component (butlast ds)"
    using Cons.prems by (auto simp: list_all_iff dest: in_set_butlastD)
  with Cons show ?case by (cases "c = ''.'' \<or> c = ''..''") (auto simp: plain_component_def [of c])
qed simp

lemma normalize_components_idem:
  "normalize_components r (snd (normalize_components r' cs)) = (r, snd (normalize_components r' cs))"
  by (simp add: normalize_components_def normal_components_plain [of _ "[]", simplified] normal_components_result)

section \<open>Paths of the simulated device\<close>

record sandbox_roots =
  sb_runtime_root :: string
  sb_cache_root :: string
  sb_fake_device_root :: string
  sb_read_only_roots :: "string list"

definition fake_device_relative_components :: "string \<Rightarrow> step_failure + string list" where
  "fake_device_relative_components path =
     (if ''..'' \<in> set (path_components path)
      then Inl (step_failure (''path traversal rejected: '' @ path))
      else Inr (filter (\<lambda>c. c \<noteq> ''.'') (path_components path)))"

definition fake_device_path :: "sandbox_roots \<Rightarrow> string \<Rightarrow> step_failure + fs_path" where
  "fake_device_path sandbox device_path =
     (if \<not> is_absolute device_path
      then Inl (step_failure (''fake device path must be absolute: '' @ device_path))
      else (case fake_device_relative_components device_path of
              Inl failure \<Rightarrow> Inl failure
            | Inr relative \<Rightarrow>
                let base_dir = sb_fake_device_root sandbox;
                    path = normalize_components (is_absolute base_dir) (path_components base_dir @ relative)
                in if fs_starts_with path (normalize_path base_dir) then Inr path
                   else Inl (step_failure (''path traversal rejected for fake device path: '' @ device_path))))"

section \<open>Writes\<close>

text \<open>\<open>is_symlink\<close> is the answer of \<open>fs::symlink_metadata\<close> on the host.\<close>

definition reject_existing_symlink :: "(string \<Rightarrow> bool) \<Rightarrow> string \<Rightarrow> step_failure option" where
  "reject_existing_symlink is_symlink path =
     (if is_symlink path
      then Some (step_failure (''symlink paths are not supported in sandbox operations: '' @ path))
      else None)"

definition reject_symlink_ancestor ::
  "(string \<Rightarrow> bool) \<Rightarrow> string \<Rightarrow> fs_path \<Rightarrow> step_failure option" where
  "reject_symlink_ancestor is_symlink base_dir path =
     (case reject_existing_symlink is_symlink base_dir of
        Some failure \<Rightarrow> Some failure
      | None \<Rightarrow>
          let base = normalize_path base_dir
          in if \<not> fs_starts_with path base
             then Some (step_failure (''sandbox path is outside root: '' @ fs_path_text path))
             else let relative = drop (length (snd base)) (snd path)
                  in first_some (map (\<lambda>n. reject_existing_symlink is_symlink
                         (fs_path_text (fst base, snd base @ take n relative))) [1..<Suc (length relative)]))"

definition ensure_runtime_or_cache_write ::
  "(string \<Rightarrow> bool) \<Rightarrow> sandbox_roots \<Rightarrow> fs_path \<Rightarrow> step_failure + unit" where
  "ensure_runtime_or_cache_write is_symlink sandbox path =
     (let under = (\<lambda>base_dir.
            case reject_symlink_ancestor is_symlink base_dir path of
              Some failure \<Rightarrow> Inl failure
            | None \<Rightarrow> (case reject_existing_symlink is_symlink (fs_path_text path) of
                         Some failure \<Rightarrow> Inl failure
                       | None \<Rightarrow> Inr ()))
      in if fs_starts_with path (normalize_path (sb_runtime_root sandbox)) then under (sb_runtime_root sandbox)
         else if fs_starts_with path (normalize_path (sb_cache_root sandbox)) then under (sb_cache_root sandbox)
         else Inl (step_failure (''sandbox write rejected outside runtime/cache roots: '' @ fs_path_text path)))"

section \<open>Archives\<close>

text \<open>What the crate \<open>zip\<close> says of an entry.\<close>

record zip_entry =
  ze_name :: string
  ze_is_symlink :: bool
  ze_is_dir :: bool

definition is_ascii_alphabetic :: "char \<Rightarrow> bool" where
  "is_ascii_alphabetic c = (is_lower c \<or> is_upper c)"

definition rooted_or_drive :: "string \<Rightarrow> bool" where
  "rooted_or_drive portable =
     (starts_with portable ''/''
      \<or> (case portable of first # second # _ \<Rightarrow> second = CHR '':'' \<and> is_ascii_alphabetic first | _ \<Rightarrow> False))"

definition archive_relative_components :: "string \<Rightarrow> step_failure + string list" where
  "archive_relative_components raw =
     (let portable = map (\<lambda>c. if c = CHR 0x5C then CHR ''/'' else c) raw;
          unsafe = Inl (step_failure (''unsafe archive entry rejected: '' @ raw))
      in if rooted_or_drive portable then unsafe
         else if ''..'' \<in> set (path_components portable) then unsafe
         else let relative = filter (\<lambda>c. c \<noteq> ''.'') (path_components portable)
              in if relative = [] then unsafe else Inr relative)"

text \<open>One entry that will be written: its name, its place and whether it is a directory.\<close>

type_synonym planned_entry = "string \<times> fs_path \<times> bool"

definition entry_is_dir :: "zip_entry \<Rightarrow> bool" where
  "entry_is_dir e = (ze_is_dir e \<or> ends_with (ze_name e) ''/'')"

text \<open>The loop over the entries; \<open>declared\<close> is the map of relative paths seen so far.\<close>

fun plan_entries ::
  "(string \<Rightarrow> bool) \<Rightarrow> sandbox_roots \<Rightarrow> string \<Rightarrow> (string list \<times> bool) list \<Rightarrow> planned_entry list
     \<Rightarrow> zip_entry list \<Rightarrow> step_failure + planned_entry list \<times> (string list \<times> bool) list" where
  "plan_entries is_symlink sandbox dest_dir declared entries [] = Inr (entries, declared)"
| "plan_entries is_symlink sandbox dest_dir declared entries (e # es) =
     (if ze_is_symlink e then Inl (step_failure (''symlink archive entry rejected: '' @ ze_name e))
      else (case archive_relative_components (ze_name e) of
              Inl failure \<Rightarrow> Inl failure
            | Inr relative \<Rightarrow>
                if omap_contains declared relative
                then Inl (step_failure (''duplicate archive entry rejected: '' @ ze_name e))
                else let target = normalize_components (is_absolute dest_dir) (path_components dest_dir @ relative)
                     in if \<not> fs_starts_with target (normalize_path dest_dir)
                        then Inl (step_failure (''unsafe archive entry rejected: '' @ ze_name e))
                        else (case ensure_runtime_or_cache_write is_symlink sandbox target of
                                Inl failure \<Rightarrow> Inl failure
                              | Inr _ \<Rightarrow>
                                  plan_entries is_symlink sandbox dest_dir
                                    (declared @ [(relative, entry_is_dir e)])
                                    (entries @ [(ze_name e, target, entry_is_dir e)]) es)))"

definition has_file_ancestor :: "(string list \<times> bool) list \<Rightarrow> string list \<Rightarrow> bool" where
  "has_file_ancestor declared path =
     list_ex (\<lambda>n. omap_get declared (take n path) = Some False) [1..<length path]"

text \<open>\<open>hash_order\<close> is the order in which the map of declared paths is read.\<close>

definition plan_extraction ::
  "(string \<Rightarrow> bool) \<Rightarrow> (string list list \<Rightarrow> string list list) \<Rightarrow> sandbox_roots \<Rightarrow> string \<Rightarrow> zip_entry list
     \<Rightarrow> step_failure + planned_entry list" where
  "plan_extraction is_symlink hash_order sandbox dest_dir archive =
     (case ensure_runtime_or_cache_write is_symlink sandbox (normalize_path dest_dir) of
        Inl failure \<Rightarrow> Inl failure
      | Inr _ \<Rightarrow>
          (case plan_entries is_symlink sandbox dest_dir [] [] archive of
             Inl failure \<Rightarrow> Inl failure
           | Inr (entries, declared) \<Rightarrow>
               (case filter (has_file_ancestor declared) (hash_order (omap_keys declared)) of
                  [] \<Rightarrow> Inr entries
                | path # _ \<Rightarrow> Inl (step_failure (''archive path conflict rejected: '' @ fs_path_text (False, path))))))"

section \<open>Accepted paths stay inside\<close>

lemma normalize_components_join:
  "list_all plain_component relative \<Longrightarrow>
   normalize_components r (cs @ relative) = (r, normal_components [] cs @ relative)"
  by (simp add: normalize_components_def normal_components_append normal_components_plain)

lemma snd_normalize_path: "snd (normalize_path p) = normal_components [] (path_components p)"
  and fst_normalize_path: "fst (normalize_path p) = is_absolute p"
  by (simp_all add: normalize_path_def normalize_components_def)

lemma normalize_path_join:
  "list_all plain_component relative \<Longrightarrow>
   normalize_components (is_absolute p) (path_components p @ relative) = (is_absolute p, snd (normalize_path p) @ relative)"
  by (simp add: normalize_components_join snd_normalize_path)

lemma plain_filter: "''..'' \<notin> set cs \<Longrightarrow> list_all plain_component (filter (\<lambda>c. c \<noteq> ''.'') cs)"
  by (auto simp: list_all_iff plain_component_def)

lemma fs_starts_with_join: "fs_starts_with (fst b, snd b @ cs) b"
  by (simp add: fs_starts_with_iff)

text \<open>The last check of \<open>fake_device_path\<close> never fails.\<close>

lemma fake_device_path_eq:
  "fake_device_path sandbox p =
     (if \<not> is_absolute p then Inl (step_failure (''fake device path must be absolute: '' @ p))
      else if ''..'' \<in> set (path_components p) then Inl (step_failure (''path traversal rejected: '' @ p))
      else Inr (is_absolute (sb_fake_device_root sandbox),
             snd (normalize_path (sb_fake_device_root sandbox)) @ filter (\<lambda>c. c \<noteq> ''.'') (path_components p)))"
  using fs_starts_with_join [of "normalize_path (sb_fake_device_root sandbox)"]
  by (simp add: fake_device_path_def fake_device_relative_components_def Let_def
      normalize_path_join [OF plain_filter] fst_normalize_path)

lemma archive_relative_plain:
  assumes "archive_relative_components raw = Inr relative"
  shows "relative \<noteq> [] \<and> list_all plain_component relative"
  using assms plain_filter by (auto simp: archive_relative_components_def Let_def split: if_splits)

definition entries_of :: "string \<Rightarrow> (string list \<times> bool) list \<Rightarrow> (fs_path \<times> bool) list" where
  "entries_of dest_dir declared =
     map (\<lambda>(relative, d). ((is_absolute dest_dir, snd (normalize_path dest_dir) @ relative), d)) declared"

text \<open>The invariant of the loop: what is planned is what is declared, under the destination.\<close>

definition planned_ok ::
  "(string \<Rightarrow> bool) \<Rightarrow> sandbox_roots \<Rightarrow> string \<Rightarrow> planned_entry list \<Rightarrow> (string list \<times> bool) list \<Rightarrow> bool" where
  "planned_ok is_symlink sandbox dest_dir entries declared \<longleftrightarrow>
     map snd entries = entries_of dest_dir declared \<and> distinct (omap_keys declared)
     \<and> (\<forall>(relative, d) \<in> set declared. relative \<noteq> [] \<and> list_all plain_component relative
          \<and> ensure_runtime_or_cache_write is_symlink sandbox
               (is_absolute dest_dir, snd (normalize_path dest_dir) @ relative) = Inr ())"

lemma plan_entries_inv:
  assumes "plan_entries is_symlink sandbox dest_dir declared entries es = Inr (entries', declared')"
    and "planned_ok is_symlink sandbox dest_dir entries declared"
  shows "planned_ok is_symlink sandbox dest_dir entries' declared'"
  using assms
proof (induction is_symlink sandbox dest_dir declared entries es rule: plan_entries.induct)
  case (2 is_symlink sandbox dest_dir declared entries e es)
  from "2.prems"(1) obtain relative where sym: "\<not> ze_is_symlink e"
    and rel: "archive_relative_components (ze_name e) = Inr relative"
    by (auto split: if_splits sum.splits)
  from archive_relative_plain [OF rel] have plain: "relative \<noteq> []" "list_all plain_component relative" by auto
  let ?target = "(is_absolute dest_dir, snd (normalize_path dest_dir) @ relative)"
  from "2.prems"(1) sym rel plain have fresh: "\<not> omap_contains declared relative"
    and allowed: "ensure_runtime_or_cache_write is_symlink sandbox ?target = Inr ()"
    and rest: "plan_entries is_symlink sandbox dest_dir (declared @ [(relative, entry_is_dir e)])
        (entries @ [(ze_name e, ?target, entry_is_dir e)]) es = Inr (entries', declared')"
    by (auto simp: normalize_path_join Let_def split: if_splits sum.splits)
  have inside: "fs_starts_with ?target (normalize_path dest_dir)"
    using fs_starts_with_join [of "normalize_path dest_dir"] by (simp add: fst_normalize_path)
  show ?case
  proof (rule "2.IH" [OF sym rel fresh refl])
    show "\<not> \<not> fs_starts_with (normalize_components (is_absolute dest_dir) (path_components dest_dir @ relative)) (normalize_path dest_dir)"
      using inside plain by (simp add: normalize_path_join)
    show "ensure_runtime_or_cache_write is_symlink sandbox (normalize_components (is_absolute dest_dir) (path_components dest_dir @ relative)) = Inr ()"
      using allowed plain by (simp add: normalize_path_join)
    show "plan_entries is_symlink sandbox dest_dir (declared @ [(relative, entry_is_dir e)])
        (entries @ [(ze_name e, normalize_components (is_absolute dest_dir) (path_components dest_dir @ relative), entry_is_dir e)]) es
        = Inr (entries', declared')"
      using rest plain by (simp add: normalize_path_join)
  qed (use "2.prems" plain allowed fresh in \<open>auto simp: planned_ok_def normalize_path_join entries_of_def omap_contains_iff\<close>)
qed simp

lemma ensure_write_Inr:
  assumes "ensure_runtime_or_cache_write is_symlink sandbox path = Inr ()"
  shows "\<not> is_symlink (fs_path_text path)
    \<and> (fs_starts_with path (normalize_path (sb_runtime_root sandbox))
       \<or> fs_starts_with path (normalize_path (sb_cache_root sandbox)))"
  using assms
  by (auto simp: ensure_runtime_or_cache_write_def reject_existing_symlink_def Let_def
      split: if_splits option.splits)

lemma has_file_ancestor_iff:
  "has_file_ancestor declared path \<longleftrightarrow>
     (\<exists>ancestor rest. path = ancestor @ rest \<and> ancestor \<noteq> [] \<and> rest \<noteq> [] \<and> omap_get declared ancestor = Some False)"
  (is "_ \<longleftrightarrow> ?R")
proof
  assume "has_file_ancestor declared path"
  then obtain n where "1 \<le> n" "n < length path" "omap_get declared (take n path) = Some False"
    by (auto simp: has_file_ancestor_def list_ex_iff)
  moreover from this have "path = take n path @ drop n path" "take n path \<noteq> []" "drop n path \<noteq> []" by auto
  ultimately show ?R by blast
next
  assume ?R
  then obtain ancestor rest where "path = ancestor @ rest" "ancestor \<noteq> []" "rest \<noteq> []"
    "omap_get declared ancestor = Some False" by blast
  then show "has_file_ancestor declared path"
    by (auto simp: has_file_ancestor_def list_ex_iff Suc_le_eq intro!: bexI [of _ "length ancestor"])
qed

lemma plan_extraction_declared:
  assumes "plan_extraction is_symlink hash_order sandbox dest_dir archive = Inr entries"
    and "\<forall>ks. set (hash_order ks) = set ks"
  obtains declared where "planned_ok is_symlink sandbox dest_dir entries declared"
    and "\<forall>path \<in> fst ` set declared. \<not> has_file_ancestor declared path"
proof -
  from assms(1) obtain declared where
    run: "plan_entries is_symlink sandbox dest_dir [] [] archive = Inr (entries, declared)"
    and "filter (has_file_ancestor declared) (hash_order (omap_keys declared)) = []"
    by (auto simp: plan_extraction_def split: sum.splits prod.splits list.splits)
  moreover have "planned_ok is_symlink sandbox dest_dir entries declared"
    using plan_entries_inv [OF run] by (simp add: planned_ok_def entries_of_def)
  ultimately show ?thesis using that assms(2) by (auto simp: filter_empty_conv)
qed

text \<open> C16: An archive that is accepted is extracted inside the destination: every entry is written
  strictly below the destination directory and below the runtime or cache root, at a path that is
  not a symbolic link; no two entries are written at the same path, and no entry is written below
  another one that is a file.\<close>

theorem plan_extraction_contained:
  assumes "plan_extraction is_symlink hash_order sandbox dest_dir archive = Inr entries"
    and "\<forall>ks. set (hash_order ks) = set ks"
  shows "distinct (map (fst \<circ> snd) entries)
    \<and> (\<forall>(name, target, d) \<in> set entries.
         fs_starts_with target (normalize_path dest_dir) \<and> target \<noteq> normalize_path dest_dir
         \<and> \<not> is_symlink (fs_path_text target)
         \<and> (fs_starts_with target (normalize_path (sb_runtime_root sandbox))
            \<or> fs_starts_with target (normalize_path (sb_cache_root sandbox))))
    \<and> (\<forall>(name, target, d) \<in> set entries. \<forall>(name', target', d') \<in> set entries.
         target' \<noteq> target \<and> fs_starts_with target' target \<longrightarrow> d)"
proof -
  let ?base = "normalize_path dest_dir"
  from plan_extraction_declared [OF assms] obtain declared where
    ok: "planned_ok is_symlink sandbox dest_dir entries declared"
    and anc: "\<forall>path \<in> fst ` set declared. \<not> has_file_ancestor declared path" .
  have entry: "\<exists>relative. (relative, d) \<in> set declared \<and> target = (is_absolute dest_dir, snd ?base @ relative)"
    if "(name, target, d) \<in> set entries" for name target d
  proof -
    from that have "(target, d) \<in> set (map snd entries)" by force
    with ok show ?thesis by (auto simp: planned_ok_def entries_of_def)
  qed
  have "map (fst \<circ> snd) entries = map (\<lambda>r. (is_absolute dest_dir, snd ?base @ r)) (omap_keys declared)"
  proof -
    have "map (fst \<circ> snd) entries = map fst (entries_of dest_dir declared)"
      using ok by (metis planned_ok_def map_map)
    then show ?thesis by (auto simp: entries_of_def)
  qed
  then have "distinct (map (fst \<circ> snd) entries)"
    using ok by (simp add: planned_ok_def distinct_map inj_on_def)
  moreover have "fs_starts_with target ?base \<and> target \<noteq> ?base \<and> \<not> is_symlink (fs_path_text target)
      \<and> (fs_starts_with target (normalize_path (sb_runtime_root sandbox))
         \<or> fs_starts_with target (normalize_path (sb_cache_root sandbox)))"
    if "(name, target, d) \<in> set entries" for name target d
  proof -
    from entry [OF that] obtain relative where r: "(relative, d) \<in> set declared"
      "target = (is_absolute dest_dir, snd ?base @ relative)" by blast
    with ok have "relative \<noteq> []" "ensure_runtime_or_cache_write is_symlink sandbox target = Inr ()"
      by (auto simp: planned_ok_def)
    moreover have "fs_starts_with target ?base" "target = ?base \<Longrightarrow> relative = []"
      using r(2) by (auto simp: fs_starts_with_iff fst_normalize_path prod_eq_iff)
    ultimately show ?thesis using ensure_write_Inr by blast
  qed
  moreover have "d"
    if "(name, target, d) \<in> set entries" "(name', target', d') \<in> set entries"
      "target' \<noteq> target" "fs_starts_with target' target" for name target d name' target' d'
  proof (rule ccontr)
    assume "\<not> d"
    from entry [OF that(1)] entry [OF that(2)] obtain r r' where
      r: "(r, d) \<in> set declared" "target = (is_absolute dest_dir, snd ?base @ r)"
      and r': "(r', d') \<in> set declared" "target' = (is_absolute dest_dir, snd ?base @ r')" by blast
    from that(3,4) r(2) r'(2) obtain rest where "r' = r @ rest" "rest \<noteq> []"
      by (auto simp: fs_starts_with_iff)
    moreover have "omap_get declared r = Some False" "r \<noteq> []"
      using ok r(1) \<open>\<not> d\<close> by (auto simp: planned_ok_def)
    ultimately have "has_file_ancestor declared r'" by (auto simp: has_file_ancestor_iff)
    with anc r'(1) show False by force
  qed
  ultimately show ?thesis by blast
qed

definition sample_sandbox :: sandbox_roots where
  "sample_sandbox =
     \<lparr> sb_runtime_root = ''/run/x'', sb_cache_root = ''/cache'', sb_fake_device_root = ''/run/x/dev'',
       sb_read_only_roots = [] \<rparr>"

definition sample_archive :: "zip_entry list" where
  "sample_archive =
     [\<lparr> ze_name = ''a/'', ze_is_symlink = False, ze_is_dir = True \<rparr>,
      \<lparr> ze_name = ''a/b.bin'', ze_is_symlink = False, ze_is_dir = False \<rparr>]"

lemma sample_extraction:
  "plan_extraction (\<lambda>_. False) id sample_sandbox ''/run/x/out'' sample_archive =
     Inr [(''a/'', (True, [''run'', ''x'', ''out'', ''a'']), True),
          (''a/b.bin'', (True, [''run'', ''x'', ''out'', ''a'', ''b.bin'']), False)]"
  by code_simp

theorem plan_extraction_contained_witness:
  "distinct (map (fst \<circ> snd) [(''a/'', (True, [''run'', ''x'', ''out'', ''a'']), True),
          (''a/b.bin'', (True, [''run'', ''x'', ''out'', ''a'', ''b.bin'']), False)])"
  using plan_extraction_contained [OF sample_extraction] by simp

end
