(* ===== verification/Exec_Steps.thy ===== *)
theory Exec_Steps
  imports Exec_Device Sandbox_Paths Plan_Guards
begin

text \<open>
  The operations of one step (\<open>executor.rs\<close>: \<open>ensure_root_preflight\<close>, \<open>evaluate_condition\<close>,
  \<open>run_step\<close> and the handlers it calls).  The runner is a state that every operation returns
  updated.  Handlers whose work is host files, archives or the network, after their guards, are
  arguments of the model: the record \<open>step_handlers\<close>.
\<close>

section \<open>The runner\<close>

datatype root_preflight_state = PreflightNotRun | PreflightGranted | PreflightFailed string

text \<open>\<open>sleep_calls\<close> keeps the milliseconds before they are divided by 1000.\<close>

record 'w exec_runner =
  rn_world :: 'w
  rn_sleep_calls :: "int list"
  rn_root_preflight :: root_preflight_state
  rn_root_preflight_failure :: "string option"

type_synonym ('w, 'a) run = "'w exec_runner \<Rightarrow> (step_failure + 'a) \<times> 'w exec_runner"

text \<open>The ways a copy is carried out.\<close>

datatype copy_route = CommitTree | FakeFilesystemCopy | DeviceCopy | AppPrivateCopy | HostCopy

record 'w step_handlers =
  sh_download_remote_file :: "execution_step \<Rightarrow> json omap \<Rightarrow> 'w \<Rightarrow> (step_failure + runtime_value omap) \<times> 'w"
  sh_resolve_artifacts :: "execution_plan \<Rightarrow> json omap \<Rightarrow> (string, artifact_runtime_state) fmap \<Rightarrow> 'w
     \<Rightarrow> (step_failure + runtime_value omap) \<times> (string, artifact_runtime_state) fmap \<times> 'w"
  sh_extract_artifacts :: "runtime_state \<Rightarrow> execution_step \<Rightarrow> json omap \<Rightarrow> 'w
     \<Rightarrow> (step_failure + runtime_value omap) \<times> 'w"
  sh_extract_archive :: "execution_step \<Rightarrow> json omap \<Rightarrow> 'w \<Rightarrow> (step_failure + runtime_value omap) \<times> 'w"
  sh_copy :: "copy_route \<Rightarrow> execution_plan \<Rightarrow> execution_step \<Rightarrow> runtime_value \<Rightarrow> string \<Rightarrow> string \<Rightarrow> 'w
     \<Rightarrow> (step_failure + string list \<times> json option) \<times> 'w"
  sh_inspect_apk_manifest :: "'w \<Rightarrow> string \<Rightarrow> string + string"
  sh_admit_local_input :: "'w \<Rightarrow> sandbox_roots \<Rightarrow> string \<Rightarrow> string \<Rightarrow> string \<Rightarrow> string + unit"

record 'w exec_env =
  xe_ext :: externals
  xe_dev :: "'w executor_device"
  xe_sandbox :: "sandbox_roots option"
  xe_handlers :: "'w step_handlers"

definition run_return :: "'a \<Rightarrow> ('w, 'a) run" where
  "run_return a r = (Inr a, r)"

definition run_fail :: "step_failure \<Rightarrow> ('w, 'a) run" where
  "run_fail e r = (Inl e, r)"

definition run_bind :: "('w, 'a) run \<Rightarrow> ('a \<Rightarrow> ('w, 'b) run) \<Rightarrow> ('w, 'b) run" where
  "run_bind m f r = (case m r of (Inl e, r') \<Rightarrow> (Inl e, r') | (Inr a, r') \<Rightarrow> f a r')"

definition run_device :: "('w, 'a) device_action \<Rightarrow> ('w, 'a) run" where
  "run_device action r = (case action (rn_world r) of (res, w) \<Rightarrow> (map_sum step_failure_from id res, r \<lparr> rn_world := w \<rparr>))"

definition run_world :: "('w \<Rightarrow> (step_failure + 'a) \<times> 'w) \<Rightarrow> ('w, 'a) run" where
  "run_world action r = (case action (rn_world r) of (res, w) \<Rightarrow> (res, r \<lparr> rn_world := w \<rparr>))"

definition run_lift :: "step_failure + 'a \<Rightarrow> ('w, 'a) run" where
  "run_lift res r = (res, r)"

definition with_world :: "('w \<Rightarrow> ('w, 'a) run) \<Rightarrow> ('w, 'a) run" where
  "with_world f r = f (rn_world r) r"

text \<open>The guard that every path through root takes; a failure is kept for the rest of the run.\<close>

definition ensure_root_preflight :: "'w exec_env \<Rightarrow> ('w, unit) run" where
  "ensure_root_preflight env r =
     (if dev_owns_per_command_root_authority (xe_dev env) (rn_world r) then (Inr (), r)
      else (case rn_root_preflight r of
              PreflightGranted \<Rightarrow> (Inr (), r)
            | PreflightFailed message \<Rightarrow> (Inl (step_failure message), r)
            | PreflightNotRun \<Rightarrow>
                (case dev_revalidate_root (xe_dev env) (rn_world r) of
                   (Inr _, w) \<Rightarrow> (Inr (), r \<lparr> rn_world := w, rn_root_preflight := PreflightGranted \<rparr>)
                 | (Inl error, w) \<Rightarrow>
                     let failure = step_failure_from error
                     in (Inl failure, r \<lparr> rn_world := w, rn_root_preflight := PreflightFailed (sf_message failure),
                                          rn_root_preflight_failure := Some (sf_message failure) \<rparr>))))"

section \<open>Conditions\<close>

definition sandbox_metadata :: "'w exec_env \<Rightarrow> 'w \<Rightarrow> string \<Rightarrow> path_metadata option" where
  "sandbox_metadata env w path =
     Option.bind (xe_sandbox env) (\<lambda>sandbox.
       case fake_device_path sandbox path of
         Inl _ \<Rightarrow> None
       | Inr host_path \<Rightarrow> dev_host_metadata (xe_dev env) w (fs_path_text host_path))"

definition condition_path :: "'w exec_env \<Rightarrow> execution_step_condition \<Rightarrow> ('w, string) run" where
  "condition_path env condition =
     run_bind (run_lift (map_sum step_failure id (required_string_param (xe_ext env) condition ''path'')))
       (\<lambda>path. run_bind (if is_app_private_path path then ensure_root_preflight env else run_return ())
         (\<lambda>_. run_return path))"

definition evaluate_condition ::
  "'w exec_env \<Rightarrow> execution_plan \<Rightarrow> execution_step_condition \<Rightarrow> ('w, bool) run" where
  "evaluate_condition env plan condition =
     (let dev = xe_dev env in
      if econd_type_name condition = ''package_installed'' then
        (case econd_app_id condition of
           None \<Rightarrow> run_fail (step_failure
             ''app_condition_context_required: package_installed requires App Definition context.'')
         | Some aid \<Rightarrow>
             if econd_params condition \<noteq> []
             then run_fail (step_failure
               ''app_condition_package_parameter_forbidden: App-context package_installed conditions are parameterless.'')
             else (case find (\<lambda>app. apps_id app = aid) (plan_apps plan) of
                     None \<Rightarrow> run_fail (step_failure
                       ''app_context_invalid: Reviewed App Definition data is unavailable.'')
                   | Some app \<Rightarrow> run_device (dev_package_installed dev (apps_package_id app))))
      else if econd_type_name condition = ''path_exists'' then
        run_bind (condition_path env condition) (\<lambda>path.
          run_bind (run_device (dev_path_exists dev path)) (\<lambda>device_exists r.
            (Inr (device_exists \<or> dev_uses_fake_device_filesystem dev (rn_world r)
                                    \<and> sandbox_metadata env (rn_world r) path \<noteq> None), r)))
      else if econd_type_name condition = ''file_exists'' then
        run_bind (condition_path env condition) (\<lambda>path.
          run_bind (run_device (dev_path_exists dev path)) (\<lambda>device_exists.
            run_bind (run_device (dev_path_is_dir dev path)) (\<lambda>device_is_dir r.
              (Inr (device_exists \<and> \<not> device_is_dir
                    \<or> dev_uses_fake_device_filesystem dev (rn_world r)
                       \<and> sandbox_metadata env (rn_world r) path = Some IsFile), r))))
      else run_fail (step_failure (''Unsupported condition type: '' @ econd_type_name condition)))"

text \<open>\<open>skip_if\<close>: the conditions are evaluated up to the first that holds.\<close>

fun skip_if_matched ::
  "'w exec_env \<Rightarrow> execution_plan \<Rightarrow> execution_step_condition list \<Rightarrow> ('w, bool) run" where
  "skip_if_matched env plan [] = run_return False"
| "skip_if_matched env plan (c # cs) =
     run_bind (evaluate_condition env plan c)
       (\<lambda>matched. if matched then run_return True else skip_if_matched env plan cs)"

text \<open>\<open>verify\<close>: all conditions are evaluated, and the types of those that fail are collected.\<close>

fun failed_verify ::
  "'w exec_env \<Rightarrow> execution_plan \<Rightarrow> execution_step_condition list \<Rightarrow> ('w, string list) run" where
  "failed_verify env plan [] = run_return []"
| "failed_verify env plan (c # cs) =
     run_bind (evaluate_condition env plan c)
       (\<lambda>holds. run_bind (failed_verify env plan cs)
         (\<lambda>names. run_return (if holds then names else econd_type_name c # names)))"

section \<open>Handlers\<close>

definition execute_wait :: "'w exec_env \<Rightarrow> json omap \<Rightarrow> ('w, runtime_value omap) run" where
  "execute_wait env params =
     (let raw_duration = unwrap_or (omap_get params ''duration_ms'') JNull;
          duration = opt_filter (\<lambda>d. 0 < d) (as_i64 raw_duration)
      in case duration of
           None \<Rightarrow> run_fail (step_failure (''wait step requires a positive integer duration_ms: ''
             @ stable_repr (xe_ext env) raw_duration))
         | Some d \<Rightarrow> if is_boolean raw_duration
             then run_fail (step_failure (''wait step requires a positive integer duration_ms: ''
               @ stable_repr (xe_ext env) raw_duration))
             else (\<lambda>r. (Inr [], r \<lparr> rn_sleep_calls := rn_sleep_calls r @ [d] \<rparr>)))"

fun reason_json :: "permission_not_applicable_reason \<Rightarrow> json" where
  "reason_json (AndroidApiBelowMinimum actual minimum) =
     JObject [(''reason'', JString ''android_api_below_minimum''), (''actual'', jint actual), (''minimum'', jint minimum)]"
| "reason_json (AndroidApiAboveMaximum actual maximum) =
     JObject [(''reason'', JString ''android_api_above_maximum''), (''actual'', jint actual), (''maximum'', jint maximum)]"

fun applicability_json :: "permission_action_applicability \<Rightarrow> json" where
  "applicability_json Applicable = JObject [(''status'', JString ''applicable'')]"
| "applicability_json (NotApplicable reason) =
     JObject [(''status'', JString ''not_applicable''), (''reason'', reason_json reason)]"

fun failure_policy_name :: "permission_failure_policy \<Rightarrow> string" where
  "failure_policy_name WarnOnFailure = ''warn''"
| "failure_policy_name FailOnFailure = ''fail''"

definition action_kind :: "permission_plan_action \<Rightarrow> string" where
  "action_kind action = (case action of RuntimePermission _ _ _ _ _ \<Rightarrow> ''runtime_permission'' | AppOp _ _ _ _ _ _ \<Rightarrow> ''appop'')"

definition action_entries :: "permission_plan_action \<Rightarrow> (string \<times> json) list" where
  "action_entries action =
     (case action of
        RuntimePermission _ permission _ _ _ \<Rightarrow> [(''permission'', JString permission)]
      | AppOp _ op _ _ _ _ \<Rightarrow> [(''op'', JString op), (''mode'', JString ''allow'')])
     @ (case ppa_api_min action of None \<Rightarrow> [] | Some m \<Rightarrow> [(''android_api_min'', jint m)])
     @ (case ppa_api_max action of None \<Rightarrow> [] | Some m \<Rightarrow> [(''android_api_max'', jint m)])
     @ (case ppa_applicability action of
          Applicable \<Rightarrow> []
        | NotApplicable reason \<Rightarrow> [(''reason'', JString (description reason))])"

definition permission_plan_action_result ::
  "execution_step \<Rightarrow> permission_plan \<Rightarrow> permission_plan_action \<Rightarrow> string \<Rightarrow> string option \<Rightarrow> json" where
  "permission_plan_action_result step plan action status message =
     JObject ([(''step_id'', JString (es_id step)), (''kind'', JString (action_kind action)),
               (''package_name'', JString (ppa_package_name action)),
               (''source_recipe_id'', JString (es_recipe_ref step)),
               (''source_section'', JString (source_section action)),
               (''permission_set'', JString (permission_set_name (pp_permission_set plan))),
               (''on_failure'', JString (failure_policy_name (pp_on_failure plan))),
               (''status'', JString status),
               (''applicability'', applicability_json (ppa_applicability action))]
              @ action_entries action
              @ (case message of None \<Rightarrow> [] | Some m \<Rightarrow> [(''message'', JString m)]))"

definition permission_action_outputs :: "json list \<Rightarrow> runtime_value omap" where
  "permission_action_outputs actions =
     [(''permission_results'', \<lparr> rv_type_name = ''object'', rv_value = JObject [(''actions'', JArray actions)],
                                rv_location = None \<rparr>)]"

definition permission_not_applicable_outputs :: "execution_step \<Rightarrow> permission_plan \<Rightarrow> runtime_value omap" where
  "permission_not_applicable_outputs step plan =
     permission_action_outputs
       (map (\<lambda>action. permission_plan_action_result step plan action ''not_applicable'' None) (pp_actions plan))"

text \<open>The loop over the actions: results so far, the first ordinary failure, and at the end the
  failure that stops the run, if there was one.\<close>

fun apply_actions ::
  "'w exec_env \<Rightarrow> execution_step \<Rightarrow> permission_plan \<Rightarrow> json list \<Rightarrow> device_operation_error option
     \<Rightarrow> permission_plan_action list \<Rightarrow> 'w
     \<Rightarrow> (json list \<times> device_operation_error option \<times> device_operation_error option) \<times> 'w" where
  "apply_actions env step plan results ordinary [] w = ((results, ordinary, None), w)"
| "apply_actions env step plan results ordinary (action # actions) w =
     (if ppa_applicability action \<noteq> Applicable
      then apply_actions env step plan
             (results @ [permission_plan_action_result step plan action ''not_applicable'' None]) ordinary actions w
      else (case dev_apply_permission_operation (xe_dev env)
                   (permission_operation_of (pp_permission_set plan) action) w of
              (Inr _, w') \<Rightarrow>
                apply_actions env step plan
                  (results @ [permission_plan_action_result step plan action ''executed'' None]) ordinary actions w'
            | (Inl error, w') \<Rightarrow>
                (let results' = results @ [permission_plan_action_result step plan action ''failed''
                       (Some (doe_message error))]
                 in if kind_requires_device_fail_stop (doe_kind error)
                    then ((results', ordinary, Some error), w')
                    else apply_actions env step plan results'
                           (if ordinary = None then Some error else ordinary) actions w')))"

definition execute_planned_permission_actions ::
  "'w exec_env \<Rightarrow> execution_step \<Rightarrow> permission_plan \<Rightarrow> ('w, runtime_value omap) run" where
  "execute_planned_permission_actions env step plan r =
     (case apply_actions env step plan [] None (pp_actions plan) (rn_world r) of
        ((results, ordinary, safety), w) \<Rightarrow>
          (let outputs = permission_action_outputs results
           in (case safety of
                 Some error \<Rightarrow> Inl (step_failure_with_outputs error outputs)
               | None \<Rightarrow>
                   (if pp_on_failure plan = FailOnFailure
                    then (case ordinary of
                            Some error \<Rightarrow> Inl (step_failure_with_outputs error outputs)
                          | None \<Rightarrow> Inr outputs)
                    else Inr outputs),
               r \<lparr> rn_world := w \<rparr>)))"

definition execute_grant_permissions ::
  "'w exec_env \<Rightarrow> execution_plan \<Rightarrow> execution_step \<Rightarrow> ('w, runtime_value omap) run" where
  "execute_grant_permissions env plan step =
     (case validated_plan_permission_plan plan step of
        Inl reason \<Rightarrow> run_fail (step_failure (''The reviewed permission plan is invalid: '' @ reason @ ''.''))
      | Inr (_, permission_plan) \<Rightarrow> execute_planned_permission_actions env step permission_plan)"

definition execute_launch_app ::
  "'w exec_env \<Rightarrow> execution_plan \<Rightarrow> execution_step \<Rightarrow> ('w, runtime_value omap) run" where
  "execute_launch_app env plan step =
     (case validated_plan_lifecycle_target plan step of
        Inl reason \<Rightarrow> run_fail (step_failure (''App launch identity is invalid: '' @ reason @ ''.''))
      | Inr (package, activity) \<Rightarrow>
          run_bind (run_device (dev_launch_app (xe_dev env) package activity)) (\<lambda>_. run_return []))"

definition execute_force_stop_app ::
  "'w exec_env \<Rightarrow> execution_plan \<Rightarrow> execution_step \<Rightarrow> ('w, runtime_value omap) run" where
  "execute_force_stop_app env plan step =
     (case validated_plan_lifecycle_target plan step of
        Inl reason \<Rightarrow> run_fail (step_failure (''App force-stop identity is invalid: '' @ reason @ ''.''))
      | Inr (package, _) \<Rightarrow>
          run_bind (run_device (dev_force_stop_app (xe_dev env) package)) (\<lambda>_. run_return []))"

definition host_path_exists :: "'w exec_env \<Rightarrow> 'w \<Rightarrow> string \<Rightarrow> bool" where
  "host_path_exists env w path = (dev_host_metadata (xe_dev env) w path \<noteq> None)"

text \<open>The artifact of the plan whose materialized file is the APK.\<close>

definition apk_provenance :: "execution_plan \<Rightarrow> runtime_state \<Rightarrow> string \<Rightarrow> string \<Rightarrow> execution_artifact option" where
  "apk_provenance plan state aid path =
     find (\<lambda>artifact.
         is_some_and (ea_app_provenance artifact) (\<lambda>p. prov_app_id p = aid \<and> prov_kind p = ''apk'')
         \<and> ea_type_name artifact = ''remote_file''
         \<and> Option.bind (fmlookup (rts_artifacts state) (ea_id artifact)) ars_local_path = Some path)
       (plan_artifacts plan)"

text \<open>The part after the parameter \<open>app\<close> has been read: every guard in order, the inspection of the
  manifest, the installation, and the package the device is told about.\<close>

definition install_checked_apk ::
  "'w exec_env \<Rightarrow> execution_plan \<Rightarrow> runtime_state \<Rightarrow> execution_step \<Rightarrow> json omap
     \<Rightarrow> runtime_value \<Rightarrow> ('w, runtime_value omap) run" where
  "install_checked_apk env plan state step params app r =
     (let apk_path = value_to_string (xe_ext env) (rv_value app);
          fail = (\<lambda>text. (Inl (step_failure text), r))
      in if rv_type_name app \<noteq> ''file_path'' \<or> rv_location app \<noteq> Some ''host''
         then fail ''install_apk requires a host-side file_path runtime value.''
         else if is_none_or (path_extension apk_path) (\<lambda>e. \<not> eq_ignore_ascii_case e ''apk'')
         then fail (''install_apk requires an .apk file, got: '' @ apk_path)
         else if \<not> host_path_exists env (rn_world r) apk_path then fail (''APK file not found: '' @ apk_path)
         else (case es_app_id step of
                 None \<Rightarrow> fail ''app_context_invalid: APK installation requires reviewed App Definition context.''
               | Some aid \<Rightarrow>
                   (case find (\<lambda>a. apps_id a = aid) (plan_apps plan) of
                      None \<Rightarrow> fail ''app_context_invalid: Reviewed App Definition data is unavailable.''
                    | Some snapshot \<Rightarrow>
                        if apk_provenance plan state aid apk_path = None
                        then fail ''app_install_artifact_provenance_invalid: Reviewed APK artifact provenance is unavailable.''
                        else (case sh_inspect_apk_manifest (xe_handlers env) (rn_world r) apk_path of
                                Inl code \<Rightarrow> fail (''apk_package_inspection_failed: manifest inspection failed with reason ''
                                  @ quoted code @ ''.'')
                              | Inr package_name \<Rightarrow>
                                  if package_name \<noteq> apps_package_id snapshot
                                  then fail (''apk_package_mismatch: expected package '' @ quoted (apps_package_id snapshot)
                                    @ '', actual package '' @ quoted package_name @ ''.'')
                                  else run_bind (run_device (dev_install_apk (xe_dev env) apk_path
                                           (is_some_and (omap_get params ''replace_existing'') value_is_truthy)))
                                         (\<lambda>_ r'. (Inr [], r' \<lparr> rn_world := dev_record_installed_package (xe_dev env)
                                               (apps_package_id snapshot) (rn_world r') \<rparr>)) r))))"

definition execute_install_apk ::
  "'w exec_env \<Rightarrow> execution_plan \<Rightarrow> runtime_state \<Rightarrow> execution_step \<Rightarrow> json omap
     \<Rightarrow> ('w, runtime_value omap) run" where
  "execute_install_apk env plan state step params =
     run_bind (run_lift (runtime_value_param params ''app'')) (install_checked_apk env plan state step params)"

section \<open>Copies\<close>

definition copy_route_of ::
  "'w exec_env \<Rightarrow> 'w \<Rightarrow> copy_commit_destination_kind option \<Rightarrow> runtime_value \<Rightarrow> string \<Rightarrow> copy_route" where
  "copy_route_of env w destination_kind source dest =
     (let dev = xe_dev env;
          host_tree = (destination_kind \<noteq> None \<and> rv_location source = Some ''host''
                       \<and> rv_type_name source = ''directory_path'')
      in if dev_uses_fake_copy_commit_adapter dev w \<and> host_tree then CommitTree
         else if host_tree \<and> \<not> dev_uses_fake_copy_commit_adapter dev w then CommitTree
         else if dev_uses_fake_device_filesystem dev w \<and> rv_location source = Some ''host''
              \<and> \<not> is_app_private_path dest then FakeFilesystemCopy
         else if rv_location source = Some ''device'' then DeviceCopy
         else if is_app_private_path dest then AppPrivateCopy
         else HostCopy)"

text \<open>The refusals of \<open>execute_copy_files\<close> that depend on the operands only, in order.\<close>

definition copy_operand_error ::
  "'w exec_env \<Rightarrow> runtime_value \<Rightarrow> string \<Rightarrow> string option \<Rightarrow> string option" where
  "copy_operand_error env source copy_policy dest_kind =
     (if is_some_and dest_kind (\<lambda>kind. kind \<noteq> ''file'' \<and> kind \<noteq> ''directory'')
      then Some ''copy_files dest_kind must be file or directory''
      else if copy_policy \<noteq> ''merge'' \<and> copy_policy \<noteq> ''replace'' \<and> copy_policy \<noteq> ''sync''
      then Some (''copy_files copy_policy must be merge, replace, or sync, got '' @ ext_str_debug (xe_ext env) copy_policy)
      else if rv_type_name source = ''path_list'' \<and> copy_policy = ''sync''
      then Some ''copy_files unsupported: sync path_list has no single reviewed source boundary''
      else None)"

definition copy_destination_error ::
  "runtime_value \<Rightarrow> string \<Rightarrow> copy_commit_destination_kind option \<Rightarrow> string option" where
  "copy_destination_error source copy_policy destination_kind =
     (if rv_type_name source = ''directory_path'' \<and> (copy_policy = ''replace'' \<or> copy_policy = ''sync'')
         \<and> destination_kind = None
      then Some ''copy_files unsupported: destructive directory operations require a reviewed App Target destination''
      else if rv_type_name source = ''path_list'' \<and> copy_policy = ''replace''
      then Some ''copy_files unsupported: replacing a path list would delete the selected destination tree''
      else None)"

definition app_private_source :: "'w exec_env \<Rightarrow> runtime_value \<Rightarrow> bool" where
  "app_private_source env source =
     (rv_location source = Some ''device''
      \<and> is_app_private_path (value_to_string (xe_ext env) (rv_value source)))"

text \<open>The exact-file target must not be a directory; a directory target for a file is created.\<close>

definition prepare_destination ::
  "'w exec_env \<Rightarrow> sandbox_roots \<Rightarrow> runtime_value \<Rightarrow> string \<Rightarrow> string \<Rightarrow> string option \<Rightarrow> ('w, unit) run" where
  "prepare_destination env sandbox source dest copy_policy dest_kind =
     (let dev = xe_dev env;
          is_directory = run_fail (step_failure ''copy_files exact file target is an existing directory'')
      in if dest_kind = Some ''file'' then
           (if rv_type_name source \<noteq> ''file_path'' \<or> copy_policy = ''sync''
            then run_fail (step_failure ''copy_files exact file target requires a single file and non-sync policy'')
            else run_bind (run_device (dev_path_is_dir dev dest)) (\<lambda>device_dir.
                   if device_dir then is_directory
                   else (\<lambda>r. if dev_uses_fake_device_filesystem dev (rn_world r) then
                           (case fake_device_path sandbox dest of
                              Inl failure \<Rightarrow> (Inl failure, r)
                            | Inr host_path \<Rightarrow>
                                if dev_host_metadata dev (rn_world r) (fs_path_text host_path) = Some IsDir
                                then is_directory r else (Inr (), r))
                         else (Inr (), r))))
         else if dest_kind = Some ''directory'' \<and> rv_type_name source = ''file_path''
         then run_device (dev_mkdir_p dev dest)
         else run_return ())"

definition copy_outputs :: "string list \<Rightarrow> json option \<Rightarrow> runtime_value omap" where
  "copy_outputs copied report =
     (''copied_paths'', \<lparr> rv_type_name = ''path_list'', rv_value = JArray (map JString copied),
                         rv_location = Some ''device'' \<rparr>)
     # (case report of
          None \<Rightarrow> []
        | Some v \<Rightarrow> [(''copy_commit_report'', \<lparr> rv_type_name = ''copy_commit_report'', rv_value = v,
                       rv_location = Some ''device'' \<rparr>)])"

definition transfer_files ::
  "'w exec_env \<Rightarrow> execution_plan \<Rightarrow> execution_step \<Rightarrow> runtime_value \<Rightarrow> string \<Rightarrow> string
     \<Rightarrow> copy_commit_destination_kind option \<Rightarrow> ('w, runtime_value omap) run" where
  "transfer_files env plan step source dest copy_policy destination_kind =
     run_bind (with_world (\<lambda>w. run_world (sh_copy (xe_handlers env) (copy_route_of env w destination_kind source dest)
                 plan step source dest copy_policy)))
       (\<lambda>copied. run_return (copy_outputs (fst copied) (snd copied)))"

definition require_capabilities ::
  "'w exec_env \<Rightarrow> execution_plan \<Rightarrow> string \<Rightarrow> ('w, unit) run" where
  "require_capabilities env plan dest =
     (if is_app_private_path dest
         \<and> \<not> (rc_app_data_write (plan_runtime_capabilities plan) \<and> rc_root_shell (plan_runtime_capabilities plan))
      then run_fail (step_failure (''app_data_write_unavailable: Destination '' @ ext_str_debug (xe_ext env) dest
        @ '' requires both app_data_write and root_shell runtime capabilities.''))
      else run_return ())"

definition run_check :: "string option \<Rightarrow> ('w, unit) run" where
  "run_check error = (case error of Some text \<Rightarrow> run_fail (step_failure text) | None \<Rightarrow> run_return ())"

definition execute_copy_files ::
  "'w exec_env \<Rightarrow> execution_plan \<Rightarrow> execution_step \<Rightarrow> json omap \<Rightarrow> ('w, runtime_value omap) run" where
  "execute_copy_files env plan step params =
     (let copy_policy = effective_copy_policy params; dest_kind = str_param params ''dest_kind'' in
      run_bind (run_lift (runtime_value_param params ''source'')) (\<lambda>source.
      run_bind (run_lift (ok_or (str_param params ''dest'') (step_failure ''copy_files dest must be a string''))) (\<lambda>dest.
      run_bind (run_check (copy_operand_error env source copy_policy dest_kind)) (\<lambda>_.
      run_bind (run_lift (ok_or (xe_sandbox env)
                 (step_failure ''Filesystem and artifact handlers require explicit sandbox roots''))) (\<lambda>sandbox.
      run_bind (with_world (\<lambda>w. run_lift (map_sum step_failure id
                 (copy_commit_destination_kind (host_is_dir (xe_dev env) w) step params)))) (\<lambda>destination_kind.
      run_bind (run_check (copy_destination_error source copy_policy destination_kind)) (\<lambda>_.
      run_bind (if is_app_private_path dest \<or> app_private_source env source
                then ensure_root_preflight env else run_return ()) (\<lambda>_.
      run_bind (require_capabilities env plan dest) (\<lambda>_.
      run_bind (prepare_destination env sandbox source dest copy_policy dest_kind) (\<lambda>_.
      transfer_files env plan step source dest copy_policy destination_kind))))))))))"

section \<open>One step\<close>

definition resolve_artifacts_step ::
  "'w exec_env \<Rightarrow> execution_plan \<Rightarrow> runtime_state \<Rightarrow> json omap \<Rightarrow> 'w exec_runner
     \<Rightarrow> (step_failure + runtime_value omap) \<times> runtime_state \<times> 'w exec_runner" where
  "resolve_artifacts_step env plan state params r =
     (case sh_resolve_artifacts (xe_handlers env) plan params (rts_artifacts state) (rn_world r) of
        (res, artifacts, w) \<Rightarrow> (res, state \<lparr> rts_artifacts := artifacts \<rparr>, r \<lparr> rn_world := w \<rparr>))"

definition run_step ::
  "'w exec_env \<Rightarrow> execution_plan \<Rightarrow> execution_step \<Rightarrow> runtime_state \<Rightarrow> 'w exec_runner
     \<Rightarrow> (step_failure + runtime_value omap) \<times> runtime_state \<times> 'w exec_runner" where
  "run_step env plan step state r =
     (let keep = (\<lambda>(res, r'). (res, state, r')); h = xe_handlers env; type = es_type_name step
      in case resolve_step_params (xe_ext env) state (es_params step) of
           Inl failure \<Rightarrow> (Inl failure, state, r)
         | Inr params \<Rightarrow>
             if type = ''wait'' then keep (execute_wait env params r)
             else if type = ''grant_permissions'' then keep (execute_grant_permissions env plan step r)
             else if type = ''download_remote_file'' then keep (run_world (sh_download_remote_file h step params) r)
             else if type = ''resolve_artifacts'' then resolve_artifacts_step env plan state params r
             else if type = ''extract_artifacts'' then keep (run_world (sh_extract_artifacts h state step params) r)
             else if type = ''extract_archive'' then keep (run_world (sh_extract_archive h step params) r)
             else if type = ''copy_files'' then keep (execute_copy_files env plan step params r)
             else if type = ''install_apk'' then keep (execute_install_apk env plan state step params r)
             else if type = ''launch_app'' then keep (execute_launch_app env plan step r)
             else if type = ''force_stop_app'' then keep (execute_force_stop_app env plan step r)
             else (Inl (step_failure (''Unsupported executor step type: '' @ type)), state, r))"

end
