(* ===== verification/Executor.thy ===== *)
theory Executor
  imports Exec_Steps
begin

text \<open>
  The run of a plan (\<open>executor.rs\<close>: \<open>run_with_progress_and_cancel_inner\<close> and the admission of local
  inputs).  The steps are taken in plan order.  A step is settled without being executed when the
  run was aborted or cancelled, when a dependency failed, when a capability is missing, when its
  permission plan is invalid or has nothing to do, when root is needed and refused, when a
  conflicting step is in the plan or when a skip condition holds; otherwise it is executed and
  verified.  A failure either lets the run go on, aborts it (root was refused) or ends it at once
  (the device is no longer safe to talk to).  The progress callback is the list of events; the
  cancellation flag is the argument \<open>should_cancel\<close>, indexed by the step that reads it.
\<close>

section \<open>Outcome of one step\<close>

datatype flow = Continue | Abort | Break

record outcome =
  oc_status :: step_runtime_status
  oc_message :: "string option"
  oc_outputs :: "runtime_value omap"
  oc_failure_kind :: "step_failure_kind option"
  oc_cleanup :: "process_cleanup option"
  oc_flow :: flow

definition settled :: "step_runtime_status \<Rightarrow> string option \<Rightarrow> runtime_value omap \<Rightarrow> flow \<Rightarrow> outcome" where
  "settled status message outputs flow =
     \<lparr> oc_status = status, oc_message = message, oc_outputs = outputs, oc_failure_kind = None,
       oc_cleanup = None, oc_flow = flow \<rparr>"

definition failure_outcome :: "step_failure \<Rightarrow> runtime_value omap \<Rightarrow> flow \<Rightarrow> outcome" where
  "failure_outcome failure outputs flow =
     \<lparr> oc_status = RtFailed, oc_message = Some (sf_message failure), oc_outputs = outputs,
       oc_failure_kind = sf_failure_kind failure, oc_cleanup = sf_cleanup failure, oc_flow = flow \<rparr>"

fun run_status :: "step_runtime_status \<Rightarrow> step_run_status" where
  "run_status RtSucceeded = Executed"
| "run_status RtSkipped = Skipped"
| "run_status RtBlocked = Blocked"
| "run_status RtFailed = Failed"

fun progress_status_of :: "step_run_status \<Rightarrow> progress_status" where
  "progress_status_of Executed = ProgressSucceeded"
| "progress_status_of Skipped = ProgressSkipped"
| "progress_status_of Blocked = ProgressBlocked"
| "progress_status_of Failed = ProgressFailed"
| "progress_status_of Cancelled = ProgressCancelled"

text \<open>How the run goes on after an operation of a step.\<close>

definition flow_of :: "bool \<Rightarrow> 'w exec_runner \<Rightarrow> flow" where
  "flow_of fail_stop r =
     (if fail_stop then Break else if rn_root_preflight_failure r \<noteq> None then Abort else Continue)"

section \<open>Admission of a step\<close>

definition check_dependencies :: "runtime_state \<Rightarrow> execution_step \<Rightarrow> outcome option" where
  "check_dependencies state step =
     (let blocking = blocking_dependencies state (es_dependencies step)
      in if blocking = [] then None
         else Some (settled RtBlocked (Some (''dependency blocked: '' @ join '', '' blocking)) [] Continue))"

definition check_capabilities :: "execution_plan \<Rightarrow> execution_step \<Rightarrow> outcome option" where
  "check_capabilities plan step =
     map_option (\<lambda>message. settled RtFailed (Some message) [] Continue) (missing_capabilities_message plan step)"

definition check_permission_plan :: "execution_plan \<Rightarrow> execution_step \<Rightarrow> outcome option" where
  "check_permission_plan plan step =
     (if es_type_name step = ''grant_permissions'' \<and> (es_permission_plan step \<noteq> None \<or> es_app_id step \<noteq> None)
      then (case validated_plan_permission_plan plan step of
              Inl reason \<Rightarrow> Some (settled RtFailed
                (Some (''The reviewed permission plan is invalid: '' @ reason
                  @ ''. Prepare a fresh review before execution.'')) [] Break)
            | Inr (_, permission_plan) \<Rightarrow>
                if \<not> has_applicable_actions permission_plan
                then Some (settled RtSkipped
                  (Some ''No actions in the selected permission set apply to this Android API level.'')
                  (permission_not_applicable_outputs step permission_plan) Continue)
                else None)
      else None)"

definition check_root ::
  "'w exec_env \<Rightarrow> execution_plan \<Rightarrow> execution_step \<Rightarrow> 'w exec_runner \<Rightarrow> outcome option \<times> 'w exec_runner" where
  "check_root env plan step r =
     (if requires_any (plan_step_root_requirements (xe_ext env) (host_is_dir (xe_dev env) (rn_world r)) plan step)
      then (case ensure_root_preflight env r of
              (Inr _, r') \<Rightarrow> (None, r')
            | (Inl failure, r') \<Rightarrow>
                (Some (failure_outcome failure [] (if device_fail_stop failure then Break else Abort)),
                 r' \<lparr> rn_root_preflight_failure := Some (sf_message failure) \<rparr>))
      else (None, r))"

definition check_conflicts :: "execution_plan \<Rightarrow> execution_step \<Rightarrow> outcome option" where
  "check_conflicts plan step =
     (let active = filter (\<lambda>c. c \<in> set (map es_id (plan_steps plan))) (esc_conflicts_with (es_constraints step))
      in if active = [] then None
         else Some (settled RtFailed (Some (''conflicting steps present: '' @ join '', '' active)) [] Continue))"

definition check_skip_if ::
  "'w exec_env \<Rightarrow> execution_plan \<Rightarrow> execution_step \<Rightarrow> 'w exec_runner \<Rightarrow> outcome option \<times> 'w exec_runner" where
  "check_skip_if env plan step r =
     (case skip_if_matched env plan (es_skip_if step) r of
        (Inr matched, r') \<Rightarrow>
          (if matched then Some (settled RtSkipped (Some ''skip_if matched'') [] Continue) else None, r')
      | (Inl failure, r') \<Rightarrow>
          (Some (failure_outcome failure [] (flow_of (device_fail_stop failure) r')), r'))"

definition admit_step ::
  "'w exec_env \<Rightarrow> execution_plan \<Rightarrow> runtime_state \<Rightarrow> execution_step \<Rightarrow> 'w exec_runner
     \<Rightarrow> outcome option \<times> 'w exec_runner" where
  "admit_step env plan state step r =
     (case first_some [check_dependencies state step, check_capabilities plan step, check_permission_plan plan step] of
        Some outcome \<Rightarrow> (Some outcome, r)
      | None \<Rightarrow>
          (case check_root env plan step r of
             (Some outcome, r') \<Rightarrow> (Some outcome, r')
           | (None, r') \<Rightarrow>
               (case check_conflicts plan step of
                  Some outcome \<Rightarrow> (Some outcome, r')
                | None \<Rightarrow> check_skip_if env plan step r')))"

section \<open>Execution of a step\<close>

definition verify_step ::
  "'w exec_env \<Rightarrow> execution_plan \<Rightarrow> execution_step \<Rightarrow> runtime_value omap \<Rightarrow> 'w exec_runner
     \<Rightarrow> outcome \<times> 'w exec_runner" where
  "verify_step env plan step outputs r =
     (case failed_verify env plan (es_verify step) r of
        (Inr names, r') \<Rightarrow>
          (if names = [] then settled RtSucceeded None outputs (flow_of False r')
           else settled RtFailed (Some (''verify failed: '' @ join '', '' names)) [] (flow_of False r'), r')
      | (Inl failure, r') \<Rightarrow>
          (failure_outcome failure (if device_fail_stop failure then outputs else [])
             (flow_of (device_fail_stop failure) r'), r'))"

text \<open>The phases that are reported after the check of the conditions, and the outcome.\<close>

definition perform_step ::
  "'w exec_env \<Rightarrow> execution_plan \<Rightarrow> runtime_state \<Rightarrow> execution_step \<Rightarrow> 'w exec_runner
     \<Rightarrow> progress_phase list \<times> outcome \<times> runtime_state \<times> 'w exec_runner" where
  "perform_step env plan state step r =
     (case run_step env plan step state r of
        (Inl failure, state', r') \<Rightarrow>
          ([Executing], failure_outcome failure (sf_outputs failure) (flow_of (device_fail_stop failure) r'), state', r')
      | (Inr outputs, state', r') \<Rightarrow>
          (case verify_step env plan step outputs r' of
             (outcome, r'') \<Rightarrow> ([Executing, Verifying], outcome, state', r'')))"

definition attempt_step ::
  "'w exec_env \<Rightarrow> execution_plan \<Rightarrow> runtime_state \<Rightarrow> execution_step \<Rightarrow> 'w exec_runner
     \<Rightarrow> progress_phase list \<times> outcome \<times> runtime_state \<times> 'w exec_runner" where
  "attempt_step env plan state step r =
     (case admit_step env plan state step r of
        (Some outcome, r') \<Rightarrow> ([], outcome, state, r')
      | (None, r') \<Rightarrow> perform_step env plan state step r')"

section \<open>The loop\<close>

record 'w run_loop_state =
  lp_runner :: "'w exec_runner"
  lp_state :: runtime_state
  lp_records :: "step_run_record list"
  lp_cancelled :: bool
  lp_aborted :: bool
  lp_stopped :: bool

definition push_record :: "step_run_record \<Rightarrow> 'w run_loop_state \<Rightarrow> 'w run_loop_state" where
  "push_record r lp = lp \<lparr> lp_records := lp_records lp @ [r] \<rparr>"

definition conclude_step ::
  "execution_step \<Rightarrow> outcome \<Rightarrow> runtime_state \<Rightarrow> 'w exec_runner \<Rightarrow> 'w run_loop_state \<Rightarrow> 'w run_loop_state" where
  "conclude_step step outcome state r lp =
     push_record (record_with_failure step (run_status (oc_status outcome)) (oc_message outcome)
         (oc_outputs outcome) (oc_failure_kind outcome) (oc_cleanup outcome))
       (lp \<lparr> lp_runner := r,
             lp_state := set_step_state (es_id step) (oc_status outcome) (oc_outputs outcome) state,
             lp_aborted := (lp_aborted lp \<or> oc_flow outcome = Abort),
             lp_stopped := (lp_stopped lp \<or> oc_flow outcome = Break) \<rparr>)"

definition run_iteration ::
  "'w exec_env \<Rightarrow> execution_plan \<Rightarrow> bool \<Rightarrow> execution_step \<Rightarrow> 'w run_loop_state
     \<Rightarrow> execution_progress_event list \<times> 'w run_loop_state" where
  "run_iteration env plan cancel step lp =
     (let event = (\<lambda>phase status message.
            progress_event (xe_ext env) step (length (plan_steps plan)) plan phase status message)
      in if lp_aborted lp then
           ([], push_record (run_record step Blocked (Some ''execution aborted after root preflight failure'') []) lp)
         else if lp_cancelled lp \<or> cancel then
           ([], push_record (run_record step Cancelled (Some ''execution cancelled before step scheduling'') [])
                  (lp \<lparr> lp_cancelled := True \<rparr>))
         else (case attempt_step env plan (lp_state lp) step (lp_runner lp) of
                 (phases, outcome, state, r) \<Rightarrow>
                   (event CheckingSkipConditions None None # map (\<lambda>phase. event phase None None) phases
                      @ [event Finished (Some (progress_status_of (run_status (oc_status outcome)))) (oc_message outcome)],
                    conclude_step step outcome state r lp)))"

fun run_loop ::
  "'w exec_env \<Rightarrow> execution_plan \<Rightarrow> (nat \<Rightarrow> bool) \<Rightarrow> nat \<Rightarrow> execution_step list \<Rightarrow> 'w run_loop_state
     \<Rightarrow> execution_progress_event list \<times> 'w run_loop_state" where
  "run_loop env plan should_cancel i [] lp = ([], lp)"
| "run_loop env plan should_cancel i (step # steps) lp =
     (if lp_stopped lp then ([], lp)
      else case run_iteration env plan (should_cancel i) step lp of
             (events, lp') \<Rightarrow>
               (case run_loop env plan should_cancel (Suc i) steps lp' of
                  (events', lp'') \<Rightarrow> (events @ events', lp'')))"

section \<open>Admission of the plan\<close>

definition admit_local_input :: "'w exec_env \<Rightarrow> 'w \<Rightarrow> sandbox_roots \<Rightarrow> execution_plan \<Rightarrow> execution_artifact \<Rightarrow> string option" where
  "admit_local_input env w sandbox plan artifact =
     (case ea_source artifact of
        SrcLocalInput input_id \<Rightarrow>
          (case validated_local_input_path plan input_id of
             Inl _ \<Rightarrow> Some ''app_artifact_input_binding_invalid''
           | Inr path \<Rightarrow>
               (case sh_admit_local_input (xe_handlers env) w sandbox (ea_type_name artifact) (ea_cache artifact) path of
                  Inl code \<Rightarrow> Some code
                | Inr _ \<Rightarrow> None))
      | _ \<Rightarrow> None)"

definition admit_plan_local_inputs :: "'w exec_env \<Rightarrow> 'w \<Rightarrow> execution_plan \<Rightarrow> string + unit" where
  "admit_plan_local_inputs env w plan =
     (case validate_execution_plan_local_input_bindings plan of
        Inl code \<Rightarrow> Inl code
      | Inr _ \<Rightarrow>
          (case xe_sandbox env of
             None \<Rightarrow>
               if list_ex (\<lambda>artifact. case ea_source artifact of SrcLocalInput _ \<Rightarrow> True | _ \<Rightarrow> False) (plan_artifacts plan)
               then Inl ''artifact_sandbox_rejected'' else Inr ()
           | Some sandbox \<Rightarrow>
               (case first_some (map (admit_local_input env w sandbox plan) (plan_artifacts plan)) of
                  Some code \<Rightarrow> Inl code
                | None \<Rightarrow> Inr ())))"

text \<open>When the plan is refused, the first step fails and the others are blocked.\<close>

definition refused_result :: "execution_plan \<Rightarrow> string \<Rightarrow> string \<Rightarrow> execution_run_result" where
  "refused_result plan first_message other_message =
     \<lparr> run_success = False, run_cancelled = False, run_total_steps = length (plan_steps plan),
       run_steps = map (\<lambda>(index, step).
           if index = 0 then run_record step Failed (Some first_message) []
           else run_record step Blocked (Some other_message) [])
         (List.enumerate 0 (plan_steps plan)),
       run_resolved_releases = [], run_resolved_artifacts = [] \<rparr>"

definition admission_error :: "'w exec_env \<Rightarrow> 'w \<Rightarrow> execution_plan \<Rightarrow> (string \<times> string) option" where
  "admission_error env w plan =
     (case admit_plan_local_inputs env w plan of
        Inl code \<Rightarrow> Some (code @ '': Local input admission failed.'', ''execution blocked after plan admission failed'')
      | Inr _ \<Rightarrow>
          let is_dir = host_is_dir (xe_dev env) w;
              refused = (\<lambda>message. Some (''invalid_execution_plan: '' @ message,
                                        ''execution blocked after copy review validation failed''))
          in case validate_supported_copy_plan (xe_ext env) is_dir plan of
               Inl message \<Rightarrow> refused message
             | Inr _ \<Rightarrow>
                 (case validate_copy_commit_snapshot_coverage (xe_ext env) is_dir plan of
                    Inl message \<Rightarrow> refused message
                  | Inr _ \<Rightarrow> None))"

section \<open>The run\<close>

definition configure_device :: "'w exec_env \<Rightarrow> execution_plan \<Rightarrow> 'w \<Rightarrow> 'w" where
  "configure_device env plan w =
     (let dev = xe_dev env;
          w1 = dev_configure_identity_guard dev (plan_target_device plan) w;
          w2 = dev_configure_root_authority dev (reviewed_root_authorized (xe_ext env) (host_is_dir dev w1) plan) w1
      in dev_configure_root_shell_route dev (dc_root_shell_mode (plan_device_context plan)) w2)"

definition initial_loop :: "'w exec_env \<Rightarrow> execution_plan \<Rightarrow> 'w exec_runner \<Rightarrow> 'w run_loop_state" where
  "initial_loop env plan r =
     \<lparr> lp_runner = r \<lparr> rn_world := configure_device env plan (rn_world r), rn_root_preflight := PreflightNotRun,
                       rn_root_preflight_failure := None \<rparr>,
       lp_state = from_plan plan, lp_records = [], lp_cancelled = False, lp_aborted = False, lp_stopped = False \<rparr>"

fun unfinished :: "step_run_status \<Rightarrow> bool" where
  "unfinished Executed = False"
| "unfinished Skipped = False"
| "unfinished _ = True"

definition run_result :: "execution_plan \<Rightarrow> 'w run_loop_state \<Rightarrow> execution_run_result" where
  "run_result plan lp =
     \<lparr> run_success = (\<not> list_ex (\<lambda>r. unfinished (srr_status r)) (lp_records lp)),
       run_cancelled = lp_cancelled lp, run_total_steps = length (plan_steps plan),
       run_steps = lp_records lp,
       run_resolved_releases = List.map_filter (\<lambda>artifact.
           Option.bind (fmlookup (rts_artifacts (lp_state lp)) (ea_id artifact)) ars_resolved_release) (plan_artifacts plan),
       run_resolved_artifacts = List.map_filter (\<lambda>artifact.
           Option.bind (fmlookup (rts_artifacts (lp_state lp)) (ea_id artifact)) ars_resolved_artifact) (plan_artifacts plan) \<rparr>"

definition run_plan ::
  "'w exec_env \<Rightarrow> (nat \<Rightarrow> bool) \<Rightarrow> execution_plan \<Rightarrow> 'w exec_runner
     \<Rightarrow> execution_progress_event list \<times> execution_run_result \<times> 'w exec_runner" where
  "run_plan env should_cancel plan r =
     (case admission_error env (rn_world r) plan of
        Some (first_message, other_message) \<Rightarrow>
          ([], refused_result plan first_message other_message,
           r \<lparr> rn_root_preflight := PreflightNotRun, rn_root_preflight_failure := None \<rparr>)
      | None \<Rightarrow>
          (case run_loop env plan should_cancel 0 (plan_steps plan) (initial_loop env plan r) of
             (events, lp) \<Rightarrow> (events, run_result plan lp, lp_runner lp)))"

end
