(* ===== verification/Exec_Run.thy ===== *)
theory Exec_Run
  imports Executor
begin

text \<open>
  The run loop against its specification.  The specification \<open>attempts\<close> has no flags: it attempts
  steps until one ends the run, and says how it ended.  The loop of the code refines it: its
  records are those of the attempts, followed by one record for each step that was not attempted
  when the run was cancelled or aborted.  The properties of a run are proved of the attempts.
\<close>

section \<open>Specification\<close>

datatype ending = Completed | EndedByCancel | EndedByAbort | EndedByBreak

type_synonym attempt = "execution_step \<times> progress_phase list \<times> outcome"

definition record_outcome :: "execution_step \<Rightarrow> outcome \<Rightarrow> runtime_state \<Rightarrow> runtime_state" where
  "record_outcome step outcome state = set_step_state (es_id step) (oc_status outcome) (oc_outputs outcome) state"

fun attempts ::
  "'w exec_env \<Rightarrow> execution_plan \<Rightarrow> (nat \<Rightarrow> bool) \<Rightarrow> nat \<Rightarrow> runtime_state \<Rightarrow> 'w exec_runner \<Rightarrow> execution_step list
     \<Rightarrow> attempt list \<times> ending \<times> runtime_state \<times> 'w exec_runner" where
  "attempts env plan should_cancel i state r [] = ([], Completed, state, r)"
| "attempts env plan should_cancel i state r (step # steps) =
     (if should_cancel i then ([], EndedByCancel, state, r)
      else case attempt_step env plan state step r of
             (phases, outcome, state', r') \<Rightarrow>
               let state'' = record_outcome step outcome state'
               in case oc_flow outcome of
                    Break \<Rightarrow> ([(step, phases, outcome)], EndedByBreak, state'', r')
                  | Abort \<Rightarrow> ([(step, phases, outcome)], EndedByAbort, state'', r')
                  | Continue \<Rightarrow>
                      (case attempts env plan should_cancel (Suc i) state'' r' steps of
                         (as, e, state''', r'') \<Rightarrow> ((step, phases, outcome) # as, e, state''', r'')))"

definition attempt_record :: "attempt \<Rightarrow> step_run_record" where
  "attempt_record = (\<lambda>(step, phases, outcome).
     record_with_failure step (run_status (oc_status outcome)) (oc_message outcome) (oc_outputs outcome)
       (oc_failure_kind outcome) (oc_cleanup outcome))"

definition attempt_events :: "'w exec_env \<Rightarrow> execution_plan \<Rightarrow> attempt \<Rightarrow> execution_progress_event list" where
  "attempt_events env plan = (\<lambda>(step, phases, outcome).
     let event = progress_event (xe_ext env) step (length (plan_steps plan)) plan
     in event CheckingSkipConditions None None # map (\<lambda>phase. event phase None None) phases
        @ [event Finished (Some (progress_status_of (run_status (oc_status outcome)))) (oc_message outcome)])"

text \<open>The records of the steps that were never attempted.\<close>

fun tail_records :: "ending \<Rightarrow> execution_step list \<Rightarrow> step_run_record list" where
  "tail_records EndedByCancel steps =
     map (\<lambda>s. run_record s Cancelled (Some ''execution cancelled before step scheduling'') []) steps"
| "tail_records EndedByAbort steps =
     map (\<lambda>s. run_record s Blocked (Some ''execution aborted after root preflight failure'') []) steps"
| "tail_records _ steps = []"

section \<open>Refinement\<close>

definition clean :: "'w run_loop_state \<Rightarrow> bool" where
  "clean lp \<longleftrightarrow> \<not> lp_cancelled lp \<and> \<not> lp_aborted lp \<and> \<not> lp_stopped lp"

lemma run_loop_aborted:
  "lp_aborted lp \<Longrightarrow> \<not> lp_stopped lp \<Longrightarrow>
   run_loop env plan should_cancel i steps lp =
     ([], lp \<lparr> lp_records := lp_records lp @ tail_records EndedByAbort steps \<rparr>)"
  by (induction steps arbitrary: i lp) (simp_all add: run_iteration_def push_record_def)

lemma run_loop_cancelled:
  "lp_cancelled lp \<Longrightarrow> \<not> lp_aborted lp \<Longrightarrow> \<not> lp_stopped lp \<Longrightarrow>
   run_loop env plan should_cancel i steps lp =
     ([], lp \<lparr> lp_records := lp_records lp @ tail_records EndedByCancel steps \<rparr>)"
  by (induction steps arbitrary: i lp) (simp_all add: run_iteration_def push_record_def)

lemma run_loop_stopped: "lp_stopped lp \<Longrightarrow> run_loop env plan should_cancel i steps lp = ([], lp)"
  by (cases steps) simp_all

lemma run_loop_attempts:
  assumes "clean lp"
    and "attempts env plan should_cancel i (lp_state lp) (lp_runner lp) steps = (as, e, state, r)"
  shows "run_loop env plan should_cancel i steps lp =
    (concat (map (attempt_events env plan) as),
     lp \<lparr> lp_runner := r, lp_state := state,
          lp_records := lp_records lp @ map attempt_record as @ tail_records e (drop (length as) steps),
          lp_cancelled := (e = EndedByCancel), lp_aborted := (e = EndedByAbort), lp_stopped := (e = EndedByBreak) \<rparr>)"
  using assms
proof (induction steps arbitrary: i lp as)
  case Nil
  then show ?case by (auto simp: clean_def)
next
  case (Cons step steps)
  show ?case
  proof (cases "should_cancel i")
    case True
    with Cons.prems show ?thesis
      by (auto simp: clean_def run_iteration_def push_record_def run_loop_cancelled)
  next
    case False
    obtain phases outcome state' r' where
      attempt: "attempt_step env plan (lp_state lp) step (lp_runner lp) = (phases, outcome, state', r')"
      by (metis prod_cases4)
    let ?lp = "conclude_step step outcome state' r' lp"
    have iter: "run_iteration env plan (should_cancel i) step lp = (attempt_events env plan (step, phases, outcome), ?lp)"
      using Cons.prems(1) False attempt by (simp add: run_iteration_def clean_def attempt_events_def Let_def)
    show ?thesis
    proof (cases "oc_flow outcome")
      case Continue
      then obtain as' where as': "as = (step, phases, outcome) # as'"
        "attempts env plan should_cancel (Suc i) (lp_state ?lp) (lp_runner ?lp) steps = (as', e, state, r)"
        using Cons.prems(2) False attempt
        by (auto simp: conclude_step_def push_record_def record_outcome_def Let_def split: prod.splits)
      have "clean ?lp" using Cons.prems(1) Continue by (simp add: clean_def conclude_step_def push_record_def)
      from Cons.IH [OF this as'(2)] show ?thesis
        using Cons.prems(1) iter as'(1)
        by (simp add: clean_def conclude_step_def push_record_def attempt_record_def)
    qed (use Cons.prems False attempt iter in
      \<open>auto simp: clean_def conclude_step_def push_record_def attempt_record_def record_outcome_def Let_def
         run_loop_aborted run_loop_stopped\<close>)
  qed
qed

section \<open>Facts of one attempt\<close>

lemma first_some_Cons [simp]:
  "first_some [] = None" "first_some (x # xs) = (case x of None \<Rightarrow> first_some xs | Some _ \<Rightarrow> x)"
  by (auto simp: first_some_def split: option.split)

lemma settled_simps [simp]:
  "oc_status (settled s m o' f) = s" "oc_message (settled s m o' f) = m" "oc_outputs (settled s m o' f) = o'"
  "oc_failure_kind (settled s m o' f) = None" "oc_flow (settled s m o' f) = f"
  by (simp_all add: settled_def)

lemma failure_outcome_simps [simp]:
  "oc_status (failure_outcome e o' f) = RtFailed" "oc_message (failure_outcome e o' f) = Some (sf_message e)"
  "oc_failure_kind (failure_outcome e o' f) = sf_failure_kind e" "oc_flow (failure_outcome e o' f) = f"
  by (simp_all add: failure_outcome_def)

lemma run_step_steps:
  "run_step env plan step state r = (res, state', r') \<Longrightarrow> rts_steps state' = rts_steps state"
  by (auto simp: run_step_def resolve_artifacts_step_def Let_def split: sum.splits prod.splits if_splits)

definition step_status :: "runtime_state \<Rightarrow> string \<Rightarrow> step_runtime_status option" where
  "step_status state sid = map_option srs_status (fmlookup (rts_steps state) sid)"

lemma step_status_record [simp]:
  "step_status (record_outcome step oc state) sid = (if sid = es_id step then Some (oc_status oc) else step_status state sid)"
  by (simp add: step_status_def record_outcome_def set_step_state_def)

lemma blocking_dependencies_empty:
  "blocking_dependencies state ds = [] \<longleftrightarrow>
     (\<forall>d \<in> set ds. step_status state d \<noteq> Some RtFailed \<and> step_status state d \<noteq> Some RtBlocked)"
  by (auto simp: blocking_dependencies_def filter_empty_conv step_status_def is_some_and_iff)

lemma attempt_step_cases:
  assumes "attempt_step env plan state step r = (phases, oc, state', r')"
  obtains (settled) "admit_step env plan state step r = (Some oc, r')" "phases = []" "state' = state"
  | (performed) r1 where "admit_step env plan state step r = (None, r1)"
      "perform_step env plan state step r1 = (phases, oc, state', r')"
  using assms by (auto simp: attempt_step_def split: prod.splits option.splits)

text \<open>A step whose status does not block others has passed the checks that come first.\<close>

lemma admit_step_checks:
  assumes "admit_step env plan state step r = (res, r')"
    and "is_none_or res (\<lambda>oc. oc_status oc \<in> {RtSucceeded, RtSkipped})"
  shows "check_dependencies state step = None \<and> check_capabilities plan step = None"
  using assms
  by (auto simp: admit_step_def check_dependencies_def check_capabilities_def Let_def
      split: option.splits if_splits)

lemma perform_step_status:
  assumes "perform_step env plan state step r = (phases, oc, state', r')"
  shows "rts_steps state' = rts_steps state \<and> oc_status oc \<in> {RtSucceeded, RtFailed}"
  using assms run_step_steps
  by (fastforce simp: perform_step_def verify_step_def split: sum.splits prod.splits if_splits)

lemma attempt_state: "attempt_step env plan state step r = (phases, oc, state', r') \<Longrightarrow> rts_steps state' = rts_steps state"
  by (erule attempt_step_cases) (auto dest: perform_step_status)

lemma attempt_finished:
  assumes "attempt_step env plan state step r = (phases, oc, state', r')"
    and "oc_status oc \<in> {RtSucceeded, RtSkipped}"
  shows "(\<forall>d \<in> set (es_dependencies step). step_status state d \<noteq> Some RtFailed \<and> step_status state d \<noteq> Some RtBlocked)
    \<and> (\<forall>c \<in> set (esc_capabilities (es_constraints step)). runtime_capability_available (plan_runtime_capabilities plan) c)"
proof -
  have "check_dependencies state step = None \<and> check_capabilities plan step = None"
    using assms(1)
  proof (cases rule: attempt_step_cases)
    case settled
    then show ?thesis using admit_step_checks assms(2) by fastforce
  next
    case (performed r1)
    then show ?thesis using admit_step_checks by fastforce
  qed
  then have "blocking_dependencies state (es_dependencies step) = []" "missing_capabilities_message plan step = None"
    by (auto simp: check_dependencies_def check_capabilities_def Let_def split: if_splits)
  then show ?thesis using blocking_dependencies_empty missing_capabilities_None by blast
qed

text \<open>An executed step has no conflicting step in the plan.\<close>

lemma admit_step_conflicts:
  "admit_step env plan state step r = (None, r') \<Longrightarrow>
   \<forall>c \<in> set (esc_conflicts_with (es_constraints step)). c \<notin> es_id ` set (plan_steps plan)"
  by (auto simp: admit_step_def check_conflicts_def Let_def filter_empty_conv split: option.splits prod.splits if_splits)

lemma skip_outcomes:
  "check_skip_if env plan step r = (Some oc, r') \<Longrightarrow> oc_status oc \<noteq> RtSucceeded"
  "check_root env plan step r = (Some oc, r') \<Longrightarrow> oc_status oc \<noteq> RtSucceeded"
  "check_conflicts plan step = Some oc \<Longrightarrow> oc_status oc \<noteq> RtSucceeded"
  "check_permission_plan plan step = Some oc \<Longrightarrow> oc_status oc \<noteq> RtSucceeded"
  "check_capabilities plan step = Some oc \<Longrightarrow> oc_status oc \<noteq> RtSucceeded"
  "check_dependencies state step = Some oc \<Longrightarrow> oc_status oc \<noteq> RtSucceeded"
  by (auto simp: check_skip_if_def check_root_def check_conflicts_def check_permission_plan_def
      check_capabilities_def check_dependencies_def Let_def split: sum.splits prod.splits if_splits)

lemma attempt_executed:
  assumes "attempt_step env plan state step r = (phases, oc, state', r')" and "oc_status oc = RtSucceeded"
  obtains r1 where "admit_step env plan state step r = (None, r1)"
    and "perform_step env plan state step r1 = (phases, oc, state', r')"
  using assms(1)
proof (cases rule: attempt_step_cases)
  case settled
  then have "oc_status oc \<noteq> RtSucceeded"
    by (auto simp: admit_step_def split: option.splits prod.splits dest: skip_outcomes)
  with assms(2) show ?thesis by simp
qed (use that in blast)

text \<open>Only a failure ends the run at once, and every failure that must end it does.\<close>

lemma flow_of_simps [simp]: "flow_of True r = Break" "flow_of b r = Break \<longleftrightarrow> b"
  by (simp_all add: flow_of_def)

definition flow_ok :: "outcome \<Rightarrow> bool" where
  "flow_ok oc \<longleftrightarrow> (oc_flow oc = Break \<longrightarrow> oc_status oc = RtFailed)
     \<and> (is_some_and (oc_failure_kind oc) requires_device_fail_stop \<longrightarrow> oc_flow oc = Break)"

lemma flow_ok_failure:
  "(device_fail_stop e \<longrightarrow> f = Break) \<Longrightarrow> flow_ok (failure_outcome e o' f)"
  by (simp add: flow_ok_def device_fail_stop_def)

lemma flow_ok_settled: "(f = Break \<longrightarrow> s = RtFailed) \<Longrightarrow> flow_ok (settled s m o' f)"
  by (simp add: flow_ok_def)

lemma check_flows:
  "check_dependencies state step = Some oc \<Longrightarrow> flow_ok oc"
  "check_capabilities plan step = Some oc \<Longrightarrow> flow_ok oc"
  "check_permission_plan plan step = Some oc \<Longrightarrow> flow_ok oc"
  "check_root env plan step r = (Some oc, r') \<Longrightarrow> flow_ok oc"
  "check_conflicts plan step = Some oc \<Longrightarrow> flow_ok oc"
  "check_skip_if env plan step r = (Some oc, r') \<Longrightarrow> flow_ok oc"
  by (auto simp: check_skip_if_def check_root_def check_conflicts_def check_permission_plan_def
      check_capabilities_def check_dependencies_def Let_def split: sum.splits prod.splits if_splits
      intro!: flow_ok_failure flow_ok_settled)

lemma attempt_flow:
  assumes "attempt_step env plan state step r = (phases, oc, state', r')"
  shows "flow_ok oc"
  using assms
proof (cases rule: attempt_step_cases)
  case settled
  then show ?thesis by (auto simp: admit_step_def split: option.splits prod.splits dest: check_flows)
next
  case (performed r1)
  then show ?thesis
    by (auto simp: perform_step_def verify_step_def split: sum.splits prod.splits if_splits
        intro!: flow_ok_failure flow_ok_settled)
qed

section \<open>Facts of all attempts\<close>

definition status_after :: "attempt list \<Rightarrow> (string \<Rightarrow> step_runtime_status option) \<Rightarrow> string \<Rightarrow> step_runtime_status option" where
  "status_after as m = fold (\<lambda>(step, phases, oc) m. m(es_id step \<mapsto> oc_status oc)) as m"

lemma attempts_steps:
  assumes "attempts env plan should_cancel i state r steps = (as, e, state', r')"
  shows "map fst as = take (length as) steps \<and> length as \<le> length steps
    \<and> (e = Completed \<longrightarrow> length as = length steps)
    \<and> (e = EndedByCancel \<longrightarrow> length as < length steps \<and> should_cancel (i + length as))
    \<and> (e = EndedByBreak \<longrightarrow> as \<noteq> [] \<and> oc_status (snd (snd (last as))) = RtFailed)"
  using assms
proof (induction steps arbitrary: i state r as)
  case (Cons step steps)
  obtain phases oc st1 r1 where att: "attempt_step env plan state step r = (phases, oc, st1, r1)" by (metis prod_cases4)
  note ok = attempt_flow [OF att]
  show ?case
  proof (cases "should_cancel i \<or> oc_flow oc \<noteq> Continue")
    case True
    with Cons.prems att ok show ?thesis
      by (cases "oc_flow oc") (auto simp: flow_ok_def Let_def split: if_splits)
  next
    case False
    with Cons.prems att obtain as' where as': "as = (step, phases, oc) # as'"
      "attempts env plan should_cancel (Suc i) (record_outcome step oc st1) r1 steps = (as', e, state', r')"
      by (auto simp: Let_def split: prod.splits)
    from Cons.IH [OF this(2)] show ?thesis using as'(1) by auto
  qed
qed auto

text \<open>The state in which an attempt was made.\<close>

lemma attempts_split:
  assumes "attempts env plan should_cancel i state r steps = (xs @ (step, phases, oc) # ys, e, state', r')"
  obtains s1 r1 s2 r2 where "attempt_step env plan s1 step r1 = (phases, oc, s2, r2)"
    and "step_status s1 = status_after xs (step_status state)" and "\<not> should_cancel (i + length xs)"
    and "oc_flow oc = Continue \<or> ys = []"
  using assms
proof (induction xs arbitrary: i state r steps thesis)
  case Nil
  then obtain rest where steps: "steps = step # rest" by (cases steps) (auto simp: Let_def split: if_splits prod.splits flow.splits)
  with Nil.prems(2) obtain s2 r2 where att: "attempt_step env plan state step r = (phases, oc, s2, r2)"
    by (auto simp: Let_def split: if_splits prod.splits flow.splits)
  with Nil.prems(2) steps have "\<not> should_cancel i" "oc_flow oc = Continue \<or> ys = []"
    by (auto simp: Let_def split: if_splits prod.splits flow.splits)
  with att Nil.prems(1) show ?case by (simp add: status_after_def)
next
  case (Cons a xs)
  obtain step0 phases0 oc0 where a: "a = (step0, phases0, oc0)" by (metis prod_cases3)
  from Cons.prems(2) a obtain rest where steps: "steps = step0 # rest"
    by (cases steps) (auto simp: Let_def split: if_splits prod.splits flow.splits)
  with Cons.prems(2) a obtain s1 r1 where att: "attempt_step env plan state step0 r = (phases0, oc0, s1, r1)"
    and rest: "attempts env plan should_cancel (Suc i) (record_outcome step0 oc0 s1) r1 rest
      = (xs @ (step, phases, oc) # ys, e, state', r')"
    by (auto simp: Let_def split: if_splits prod.splits flow.splits)
  have "step_status (record_outcome step0 oc0 s1) = (step_status state)(es_id step0 \<mapsto> oc_status oc0)"
    using attempt_state [OF att] by (auto simp: step_status_def record_outcome_def set_step_state_def)
  then have "status_after (a # xs) (step_status state) = status_after xs (step_status (record_outcome step0 oc0 s1))"
    by (simp only: status_after_def a fold_simps prod.case)
  moreover obtain s1' r1' s2' r2' where "attempt_step env plan s1' step r1' = (phases, oc, s2', r2')"
    "step_status s1' = status_after xs (step_status (record_outcome step0 oc0 s1))"
    "\<not> should_cancel (Suc i + length xs)" "oc_flow oc = Continue \<or> ys = []"
    using Cons.IH [OF _ rest] by metis
  ultimately show ?case using Cons.prems(1) by simp
qed

lemma status_after_last:
  assumes "(step, phases, oc) \<in> set as" and "distinct (map (es_id \<circ> fst) as)"
  shows "status_after as m (es_id step) = Some (oc_status oc)"
proof -
  have keep: "status_after bs m x = m x" if "x \<notin> set (map (es_id \<circ> fst) bs)" for bs m x
    using that by (induction bs arbitrary: m) (auto simp: status_after_def)
  from assms(1) obtain xs ys where as: "as = xs @ (step, phases, oc) # ys" by (auto dest: split_list)
  with assms(2) keep [of "es_id step" ys] show ?thesis by (simp add: status_after_def)
qed

end
