(* ===== verification/Exec_Samples.thy ===== *)
theory Exec_Samples
  imports Exec_Run
begin

text \<open>Plans, a dry-run device and handlers at which the properties of runs are instantiated.\<close>

definition plain_step :: "string \<Rightarrow> string \<Rightarrow> string list \<Rightarrow> execution_param_value omap \<Rightarrow> execution_step" where
  "plain_step sid type dependencies params =
     \<lparr> es_id = sid, es_recipe_ref = ''r'', es_app_id = None, es_type_name = type, es_name = ''n'', es_note = ''note'',
       es_dependencies = dependencies, es_constraints = \<lparr> esc_capabilities = [], esc_conflicts_with = [] \<rparr>,
       es_permission_plan = None, es_params = params, es_skip_if = [], es_verify = [] \<rparr>"

definition plain_plan :: "execution_step list \<Rightarrow> execution_plan" where
  "plain_plan steps =
     \<lparr> plan_id = ''plan'',
       plan_source = \<lparr> src_device_profile_ref = ''p'', src_device_plan_ref = ''dp'', src_selected_recipe_refs = [''r''],
         src_expanded_recipe_refs = [''r''], src_catalog = None \<rparr>,
       plan_device_plan = None,
       plan_recipes = [\<lparr> rs_id = ''r'', rs_name = ''R'', rs_description = None \<rparr>],
       plan_apps = [\<lparr> apps_id = ''emu'', apps_name = ''Emu'', apps_description = None, apps_category = None,
         apps_package_id = ''org.emu'' \<rparr>],
       plan_resolved_inputs = [], plan_copy_commit_snapshots = [], plan_target_device = None,
       plan_device_context = \<lparr> dc_manufacturer = ''m'', dc_model = ''x'', dc_android_version = 11,
         dc_android_api_level = Some 30, dc_device_tags = [], dc_root_shell_mode = None \<rparr>,
       plan_runtime_capabilities = \<lparr> rc_adb_available = True, rc_apk_install = False, rc_shared_storage_write = False,
         rc_app_launch = True, rc_shell_command = False, rc_package_remove_for_user = False, rc_root_shell = False,
         rc_app_data_write = False, rc_root_shell_route = None \<rparr>,
       plan_inputs = [], plan_artifacts = [], plan_steps = steps, plan_schema_version = 1,
       plan_kind = ''execution_plan'' \<rparr>"

definition wait_step :: "string \<Rightarrow> string list \<Rightarrow> json \<Rightarrow> execution_step" where
  "wait_step sid dependencies duration = plain_step sid ''wait'' dependencies [(''duration_ms'', ParamLiteral duration)]"

definition stop_step :: "string \<Rightarrow> string list \<Rightarrow> execution_step" where
  "stop_step sid dependencies =
     (plain_step sid ''force_stop_app'' dependencies [(''package_name'', ParamLiteral (JString ''org.emu''))])
       \<lparr> es_app_id := Some ''emu'' \<rparr>"

text \<open>Three steps in a chain; the third one stops an app.\<close>

definition chain_plan :: execution_plan where
  "chain_plan = plain_plan [wait_step ''a'' [] (jnat 10), wait_step ''b'' [''a''] (jnat 20), stop_step ''c'' [''b'']]"

text \<open>The second step fails, and blocks the third.\<close>

definition failing_plan :: execution_plan where
  "failing_plan = plain_plan [wait_step ''a'' [] (jnat 10), wait_step ''b'' [''a''] JNull, stop_step ''c'' [''b'']]"

definition no_handlers :: "'w step_handlers" where
  "no_handlers =
     \<lparr> sh_download_remote_file = (\<lambda>_ _ w. (Inl (step_failure ''offline''), w)),
       sh_resolve_artifacts = (\<lambda>_ _ artifacts w. (Inl (step_failure ''offline''), artifacts, w)),
       sh_extract_artifacts = (\<lambda>_ _ _ w. (Inl (step_failure ''offline''), w)),
       sh_extract_archive = (\<lambda>_ _ w. (Inl (step_failure ''offline''), w)),
       sh_copy = (\<lambda>_ _ _ _ _ _ w. (Inl (step_failure ''offline''), w)),
       sh_inspect_apk_manifest = (\<lambda>_ _. Inl ''offline''), sh_admit_local_input = (\<lambda>_ _ _ _ _. Inl ''offline'') \<rparr>"

definition dry_run_env :: "fake_device exec_env" where
  "dry_run_env = \<lparr> xe_ext = ascii_externals, xe_dev = fake_dry_run_device, xe_sandbox = None, xe_handlers = no_handlers \<rparr>"

definition fresh_runner :: "fake_device exec_runner" where
  "fresh_runner = \<lparr> rn_world = new_fake_device, rn_sleep_calls = [], rn_root_preflight = PreflightNotRun,
     rn_root_preflight_failure = None \<rparr>"

lemmas run_eval =
  run_plan_def admission_error_def admit_plan_local_inputs_def validate_execution_plan_local_input_bindings_def
  validate_supported_copy_plan_def validate_copy_commit_snapshot_coverage_def copy_steps_def initial_loop_def
  configure_device_def run_iteration_def attempt_step_def admit_step_def check_dependencies_def blocking_dependencies_def
  check_capabilities_def missing_capabilities_message_def check_permission_plan_def check_root_def
  plan_step_root_requirements_def root_requirement_constraints_def root_work_operation_of_def requires_any_def
  classify_root_requirement_step_def no_root_def check_conflicts_def check_skip_if_def perform_step_def run_step_def
  resolve_step_params_def execute_wait_def execute_force_stop_app_def verify_step_def conclude_step_def push_record_def
  run_return_def run_fail_def run_bind_def run_device_def run_lift_def flow_of_def set_step_state_def from_plan_def
  hash_collect_def run_result_def

lemma plain_plan_simps [simp]:
  "plan_steps (plain_plan ss) = ss" "plan_inputs (plain_plan ss) = []" "plan_artifacts (plain_plan ss) = []"
  "plan_copy_commit_snapshots (plain_plan ss) = []" "plan_target_device (plain_plan ss) = None"
  by (simp_all add: plain_plan_def)

lemma plain_step_simps [simp]:
  "es_id (plain_step i t ds ps) = i" "es_type_name (plain_step i t ds ps) = t" "es_dependencies (plain_step i t ds ps) = ds"
  "es_params (plain_step i t ds ps) = ps" "es_app_id (plain_step i t ds ps) = None"
  "es_constraints (plain_step i t ds ps) = \<lparr> esc_capabilities = [], esc_conflicts_with = [] \<rparr>"
  "es_permission_plan (plain_step i t ds ps) = None" "es_skip_if (plain_step i t ds ps) = []"
  "es_verify (plain_step i t ds ps) = []"
  by (simp_all add: plain_step_def)

lemma stop_step_target: "validated_plan_lifecycle_target (plain_plan ss) (stop_step i ds) = Inr (''org.emu'', None)"
proof -
  have "is_valid_package_id ''org.emu''" by code_simp
  then show ?thesis
    by (simp add: validated_plan_lifecycle_target_def plan_app_def plain_plan_def stop_step_def literal_param_def)
qed

lemma dry_run_simps [simp]:
  "xe_ext dry_run_env = ascii_externals" "xe_dev dry_run_env = fake_dry_run_device" "xe_sandbox dry_run_env = None"
  "dev_configure_identity_guard fake_dry_run_device t fd = fd" "dev_configure_root_authority fake_dry_run_device b fd = fd"
  "dev_configure_root_shell_route fake_dry_run_device m fd = fd"
  "dev_force_stop_app fake_dry_run_device = fake_force_stop_app"
  by (simp_all add: dry_run_env_def fake_dry_run_device_def)

lemmas sample_defs = wait_step_def chain_plan_def failing_plan_def fresh_runner_def new_fake_device_def

lemma stop_step_simps [simp]:
  "es_id (stop_step i ds) = i" "es_type_name (stop_step i ds) = ''force_stop_app''" "es_dependencies (stop_step i ds) = ds"
  "es_params (stop_step i ds) = [(''package_name'', ParamLiteral (JString ''org.emu''))]"
  "es_constraints (stop_step i ds) = \<lparr> esc_capabilities = [], esc_conflicts_with = [] \<rparr>"
  "es_permission_plan (stop_step i ds) = None" "es_skip_if (stop_step i ds) = []" "es_verify (stop_step i ds) = []"
  by (simp_all add: stop_step_def)

lemma as_i64_small: "as_i64 (jnat 10) = Some 10" "as_i64 (jnat 20) = Some 20" "as_i64 JNull = None"
    "is_boolean (jnat n) = False"
  by (simp_all add: as_i64_def jnat_def i64_max_def)

lemma chain_run:
  "map srr_status (run_steps (fst (snd (run_plan dry_run_env (\<lambda>_. False) chain_plan fresh_runner)))) = [Executed, Executed, Executed]"
  by (simp add: run_eval sample_defs Let_def as_i64_small stop_step_target fake_force_stop_app_def injected_def)

lemma failing_run:
  "map srr_status (run_steps (fst (snd (run_plan dry_run_env (\<lambda>_. False) failing_plan fresh_runner)))) = [Executed, Failed, Blocked]"
  by (simp add: run_eval sample_defs Let_def as_i64_small stop_step_target fake_force_stop_app_def injected_def)

text \<open>A device that times out when an app is stopped.\<close>

definition timing_out_env :: "fake_device exec_env" where
  "timing_out_env = dry_run_env
     \<lparr> xe_dev := fake_dry_run_device
         \<lparr> dev_force_stop_app := (\<lambda>_ fd. (Inl (device_error_timed_out CleanupConfirmed), fd)) \<rparr> \<rparr>"

definition timing_out_plan :: execution_plan where
  "timing_out_plan = plain_plan [stop_step ''c'' [], wait_step ''a'' [] (jnat 10)]"

lemma timing_out_run:
  "map srr_failure_kind (run_steps (fst (snd (run_plan timing_out_env (\<lambda>_. False) timing_out_plan fresh_runner))))
     = [Some OperationTimedOut]"
  by (simp add: run_eval sample_defs timing_out_env_def timing_out_plan_def Let_def as_i64_small stop_step_target
      device_error_timed_out_def step_failure_from_def device_fail_stop_def failure_outcome_def
      dry_run_env_def fake_dry_run_device_def)

end
