(* ===== verification/Exec_Safety.thy ===== *)
theory Exec_Safety
  imports Exec_Samples
begin

text \<open>Properties of every run of a plan, from the specification of the loop.\<close>

section \<open>From a run to its attempts\<close>

lemma run_plan_attempts:
  assumes "run_plan env should_cancel plan r = (events, res, r')" and "admission_error env (rn_world r) plan = None"
  obtains as e state where
    "attempts env plan should_cancel 0 (from_plan plan) (lp_runner (initial_loop env plan r)) (plan_steps plan) = (as, e, state, r')"
    and "events = concat (map (attempt_events env plan) as)"
    and "run_steps res = map attempt_record as @ tail_records e (drop (length as) (plan_steps plan))"
    and "run_cancelled res = (e = EndedByCancel)"
    and "run_success res = (\<not> list_ex (\<lambda>r. unfinished (srr_status r)) (run_steps res))"
proof -
  obtain as e state r1 where
    run: "attempts env plan should_cancel 0 (from_plan plan) (lp_runner (initial_loop env plan r)) (plan_steps plan) = (as, e, state, r1)"
    by (metis prod_cases4)
  have "clean (initial_loop env plan r)" "lp_state (initial_loop env plan r) = from_plan plan"
    by (simp_all add: clean_def initial_loop_def)
  with run_loop_attempts [of "initial_loop env plan r"] run assms have
    "r' = r1" "events = concat (map (attempt_events env plan) as)"
    "run_steps res = map attempt_record as @ tail_records e (drop (length as) (plan_steps plan))"
    "run_cancelled res = (e = EndedByCancel)"
    "run_success res = (\<not> list_ex (\<lambda>r. unfinished (srr_status r)) (run_steps res))"
    by (auto simp: run_plan_def run_result_def initial_loop_def)
  with run that show ?thesis by simp
qed

lemma run_plan_refused:
  assumes "run_plan env should_cancel plan r = (events, res, r')" and "admission_error env (rn_world r) plan \<noteq> None"
  shows "events = [] \<and> rn_world r' = rn_world r \<and> \<not> run_success res \<and> \<not> run_cancelled res
    \<and> map srr_step_id (run_steps res) = map es_id (plan_steps plan)
    \<and> (\<forall>r \<in> set (run_steps res). srr_status r \<in> {Failed, Blocked} \<and> srr_failure_kind r = None)"
proof -
  have "map (srr_step_id \<circ> (\<lambda>(index, step). if index = 0 then run_record step Failed (Some a) []
        else run_record step Blocked (Some b) [])) (List.enumerate n steps) = map es_id steps"
    for a b and steps :: "execution_step list" and n :: nat
    by (induction steps arbitrary: n) auto
  with assms show ?thesis by (auto simp: run_plan_def refused_result_def split: if_splits)
qed

lemma attempt_record_simps [simp]:
  "srr_step_id (attempt_record (step, phases, oc)) = es_id step"
  "srr_status (attempt_record (step, phases, oc)) = run_status (oc_status oc)"
  "srr_failure_kind (attempt_record (step, phases, oc)) = oc_failure_kind oc"
  by (simp_all add: attempt_record_def)

lemma attempt_record_id: "srr_step_id (attempt_record a) = es_id (fst a)"
  by (cases a) simp

lemma run_status_inv [simp]:
  "run_status s = Executed \<longleftrightarrow> s = RtSucceeded" "run_status s = Skipped \<longleftrightarrow> s = RtSkipped"
  "run_status s = Failed \<longleftrightarrow> s = RtFailed" "run_status s = Blocked \<longleftrightarrow> s = RtBlocked"
  "run_status s \<noteq> Cancelled" "unfinished (run_status s) \<longleftrightarrow> s \<notin> {RtSucceeded, RtSkipped}"
  by (cases s; simp)+

lemma unfinished_iff: "unfinished s \<longleftrightarrow> s \<notin> {Executed, Skipped}"
  by (cases s) simp_all

lemma tail_records_ids:
  "map srr_step_id (tail_records e steps) = (if e \<in> {EndedByCancel, EndedByAbort} then map es_id steps else [])"
  by (cases e) (simp_all add: comp_def)

lemma tail_records_status:
  "r \<in> set (tail_records e steps) \<Longrightarrow> srr_status r = (if e = EndedByCancel then Cancelled else Blocked)
     \<and> srr_failure_kind r = None \<and> e \<in> {EndedByCancel, EndedByAbort}"
  by (cases e) auto

lemma tail_records_length: "length (tail_records e steps) = (if e \<in> {EndedByCancel, EndedByAbort} then length steps else 0)"
  by (cases e) simp_all

text \<open>Which steps have a record.\<close>

lemma attempts_ids:
  assumes "attempts env plan should_cancel i state r steps = (as, e, state', r')"
  shows "map srr_step_id (map attempt_record as @ tail_records e (drop (length as) steps)) =
    map es_id (if e = EndedByBreak then take (length as) steps else steps)"
proof -
  note shape = attempts_steps [OF assms]
  have "map (srr_step_id \<circ> attempt_record) as = map es_id (map fst as)"
    by (simp add: attempt_record_id comp_def)
  with shape have ids: "map (srr_step_id \<circ> attempt_record) as = map es_id (take (length as) steps)" by simp
  have whole: "map es_id (take n steps) @ map es_id (drop n steps) = map es_id steps" for n
    by (simp flip: map_append)
  have "map srr_step_id (map attempt_record as @ tail_records e (drop (length as) steps)) =
      map es_id (take (length as) steps)
      @ (if e \<in> {EndedByCancel, EndedByAbort} then map es_id (drop (length as) steps) else [])"
    using ids tail_records_ids [of e "drop (length as) steps"] by simp
  also have "\<dots> = map es_id (if e = EndedByBreak then take (length as) steps else steps)"
    using shape whole by (cases e) simp_all
  finally show ?thesis .
qed

section \<open>Success\<close>

text \<open> C2: A run succeeds exactly when the plan was admitted and every step of the plan has, in plan
  order, a record that says it was executed or skipped: no step is lost, and no failed, blocked or
  cancelled step is hidden by a success.\<close>

theorem run_success_iff:
  assumes "run_plan env should_cancel plan r = (events, res, r')"
  shows "run_success res \<longleftrightarrow>
    admission_error env (rn_world r) plan = None
    \<and> map srr_step_id (run_steps res) = map es_id (plan_steps plan)
    \<and> set (map srr_status (run_steps res)) \<subseteq> {Executed, Skipped}"
proof (cases "admission_error env (rn_world r) plan")
  case None
  from run_plan_attempts [OF assms None] obtain as e state where
    run: "attempts env plan should_cancel 0 (from_plan plan) (lp_runner (initial_loop env plan r)) (plan_steps plan) = (as, e, state, r')"
    and "events = concat (map (attempt_events env plan) as)"
    and steps: "run_steps res = map attempt_record as @ tail_records e (drop (length as) (plan_steps plan))"
    and "run_cancelled res = (e = EndedByCancel)"
    and success: "run_success res = (\<not> list_ex (\<lambda>r. unfinished (srr_status r)) (run_steps res))" .
  have "e \<noteq> EndedByBreak" if "run_success res"
  proof
    assume "e = EndedByBreak"
    with attempts_steps [OF run] have "as \<noteq> []" "oc_status (snd (snd (last as))) = RtFailed" by auto
    then have "attempt_record (last as) \<in> set (run_steps res)" "srr_status (attempt_record (last as)) = Failed"
      unfolding steps by (simp, cases "last as", simp)
    with that success show False by (force simp: list_ex_iff unfinished_iff)
  qed
  moreover have "map srr_step_id (run_steps res) = map es_id (plan_steps plan)" if "e \<noteq> EndedByBreak"
    using attempts_ids [OF run] that steps by simp
  ultimately show ?thesis using None success by (auto simp: list_ex_iff unfinished_iff)
qed (use run_plan_refused [OF assms] in auto)

theorem run_success_iff_witness:
  "run_success (fst (snd (run_plan dry_run_env (\<lambda>_. False) chain_plan fresh_runner))) \<longleftrightarrow>
    admission_error dry_run_env (rn_world fresh_runner) chain_plan = None
    \<and> map srr_step_id (run_steps (fst (snd (run_plan dry_run_env (\<lambda>_. False) chain_plan fresh_runner)))) = map es_id (plan_steps chain_plan)
    \<and> set (map srr_status (run_steps (fst (snd (run_plan dry_run_env (\<lambda>_. False) chain_plan fresh_runner))))) \<subseteq> {Executed, Skipped}"
  by (rule run_success_iff [of _ _ _ _ "fst (run_plan dry_run_env (\<lambda>_. False) chain_plan fresh_runner)" _
        "snd (snd (run_plan dry_run_env (\<lambda>_. False) chain_plan fresh_runner))"]) simp

section \<open>Dependencies, capabilities and conflicts\<close>

lemma take_map_nth: "map fst as = take (length as) steps \<Longrightarrow> i < length as \<Longrightarrow> fst (as ! i) = steps ! i"
  by (metis nth_map nth_take)

text \<open> C3: No step is executed or skipped unless the capabilities it needs are available and each
  step it depends on, if it comes earlier in the plan, was itself executed or skipped.  In a plan
  whose step ids are distinct and whose dependencies come first, nothing runs on top of a step that
  failed, was blocked, or was never attempted.\<close>

theorem run_respects_dependencies:
  assumes "run_plan env should_cancel plan r = (events, res, r')"
    and "distinct (map es_id (plan_steps plan))"
    and "i < length (run_steps res)" and "srr_status (run_steps res ! i) \<in> {Executed, Skipped}"
  shows "(\<forall>j < i. es_id (plan_steps plan ! j) \<in> set (es_dependencies (plan_steps plan ! i)) \<longrightarrow>
            srr_status (run_steps res ! j) \<in> {Executed, Skipped})
    \<and> (\<forall>c \<in> set (esc_capabilities (es_constraints (plan_steps plan ! i))).
         runtime_capability_available (plan_runtime_capabilities plan) c)"
proof (cases "admission_error env (rn_world r) plan")
  case None
  from run_plan_attempts [OF assms(1) None] obtain as e state where
    run: "attempts env plan should_cancel 0 (from_plan plan) (lp_runner (initial_loop env plan r)) (plan_steps plan) = (as, e, state, r')"
    and "events = concat (map (attempt_events env plan) as)"
    and steps: "run_steps res = map attempt_record as @ tail_records e (drop (length as) (plan_steps plan))"
    and "run_cancelled res = (e = EndedByCancel)"
    and "run_success res = (\<not> list_ex (\<lambda>r. unfinished (srr_status r)) (run_steps res))" .
  note shape = attempts_steps [OF run]
  have i: "i < length as"
  proof (rule ccontr)
    assume "\<not> i < length as"
    then have "run_steps res ! i \<in> set (tail_records e (drop (length as) (plan_steps plan)))"
      using assms(3) steps by (simp add: nth_append)
    from tail_records_status [OF this] assms(4) show False by (auto split: if_splits)
  qed
  obtain step phases oc where a: "as ! i = (step, phases, oc)" by (metis prod_cases3)
  have step: "plan_steps plan ! i = step" using take_map_nth [of as "plan_steps plan" i] shape i a by simp
  have ok: "oc_status oc \<in> {RtSucceeded, RtSkipped}" using assms(4) steps i a by (simp add: nth_append)
  have split: "as = take i as @ (step, phases, oc) # drop (Suc i) as" using id_take_nth_drop [OF i] a by simp
  from run have run': "attempts env plan should_cancel 0 (from_plan plan) (lp_runner (initial_loop env plan r)) (plan_steps plan)
      = (take i as @ (step, phases, oc) # drop (Suc i) as, e, state, r')" by (simp only: split [symmetric])
  obtain s1 r1 s2 r2 where
    att: "attempt_step env plan s1 step r1 = (phases, oc, s2, r2)"
    and status: "step_status s1 = status_after (take i as) (step_status (from_plan plan))"
    using attempts_split [OF run'] by metis
  note checks = attempt_finished [OF att ok]
  have "map es_id (take (length as) (plan_steps plan)) = map (es_id \<circ> fst) as"
    using shape by (metis map_map)
  then have dist: "distinct (map (es_id \<circ> fst) as)" by (metis assms(2) distinct_take take_map)
  have "srr_status (run_steps res ! j) \<in> {Executed, Skipped}"
    if j: "j < i" "es_id (plan_steps plan ! j) \<in> set (es_dependencies (plan_steps plan ! i))" for j
  proof -
    obtain step' phases' oc' where a': "as ! j = (step', phases', oc')" by (metis prod_cases3)
    have step': "plan_steps plan ! j = step'" using take_map_nth [of as "plan_steps plan" j] shape i j(1) a' by simp
    have "as ! j \<in> set (take i as)" using i j(1) by (auto simp: in_set_conv_nth)
    with a' have mem: "(step', phases', oc') \<in> set (take i as)" by simp
    have dist': "distinct (map (es_id \<circ> fst) (take i as))" using dist by (metis distinct_take take_map)
    have "step_status s1 (es_id step') = Some (oc_status oc')"
      unfolding status by (rule status_after_last [OF mem dist'])
    with checks j(2) step step' have "oc_status oc' \<noteq> RtFailed" "oc_status oc' \<noteq> RtBlocked" by auto
    then have "oc_status oc' \<in> {RtSucceeded, RtSkipped}" by (cases "oc_status oc'") auto
    with i j(1) steps a' show ?thesis by (auto simp: nth_append)
  qed
  with checks step show ?thesis by blast
next
  case (Some x)
  with run_plan_refused [OF assms(1)] assms(3,4) nth_mem show ?thesis by fastforce
qed

theorem run_respects_dependencies_witness:
  "srr_status (run_steps (fst (snd (run_plan dry_run_env (\<lambda>_. False) chain_plan fresh_runner))) ! 1) \<in> {Executed, Skipped}"
proof -
  let ?run = "run_plan dry_run_env (\<lambda>_. False) chain_plan fresh_runner"
  have len: "length (run_steps (fst (snd ?run))) = 3" using arg_cong [OF chain_run, of length] by simp
  have st: "srr_status (run_steps (fst (snd ?run)) ! n) = [Executed, Executed, Executed] ! n" if "n < 3" for n
    using chain_run len that by (metis nth_map)
  have "distinct (map es_id (plan_steps chain_plan))" by (simp add: chain_plan_def wait_step_def)
  moreover have "es_id (plan_steps chain_plan ! 1) \<in> set (es_dependencies (plan_steps chain_plan ! 2))"
    by (simp add: chain_plan_def wait_step_def)
  ultimately show ?thesis
    using run_respects_dependencies [of dry_run_env "\<lambda>_. False" chain_plan fresh_runner "fst ?run" "fst (snd ?run)" "snd (snd ?run)" 2]
      len st [of 2] by simp
qed

section \<open>Cancellation and fail-stop\<close>

lemma attempts_break:
  assumes "attempts env plan should_cancel i state r steps = (as, e, state', r')"
    and "as \<noteq> []" "oc_flow (snd (snd (last as))) = Break"
  shows "e = EndedByBreak"
  using assms
proof (induction steps arbitrary: i state r as)
  case (Cons step steps)
  obtain phases oc st1 r1 where att: "attempt_step env plan state step r = (phases, oc, st1, r1)" by (metis prod_cases4)
  show ?case
  proof (cases "should_cancel i \<or> oc_flow oc \<noteq> Continue")
    case True
    with Cons.prems att show ?thesis by (cases "oc_flow oc") (auto simp: Let_def split: if_splits)
  next
    case False
    with Cons.prems att obtain bs where "as = (step, phases, oc) # bs"
      "attempts env plan should_cancel (Suc i) (record_outcome step oc st1) r1 steps = (bs, e, state', r')"
      by (auto simp: Let_def split: prod.splits)
    with Cons.IH [OF this(2)] Cons.prems(3) False show ?thesis by (auto split: if_splits)
  qed
qed auto

lemma attempts_uncancelled:
  assumes "attempts env plan should_cancel i state r steps = (as, e, state', r')"
    and "attempts env plan (\<lambda>_. False) i state r steps = (as0, e0, state0, r0)"
  shows "if e = EndedByCancel then \<exists>rest. as0 = as @ rest else (as0, e0, state0, r0) = (as, e, state', r')"
  using assms
proof (induction steps arbitrary: i state r as as0)
  case (Cons step steps)
  obtain phases oc st1 r1 where att: "attempt_step env plan state step r = (phases, oc, st1, r1)" by (metis prod_cases4)
  show ?case
  proof (cases "should_cancel i \<or> oc_flow oc \<noteq> Continue")
    case True
    with Cons.prems att show ?thesis by (cases "oc_flow oc") (auto simp: Let_def split: if_splits)
  next
    case False
    with Cons.prems att obtain bs bs0 where "as = (step, phases, oc) # bs" "as0 = (step, phases, oc) # bs0"
      "attempts env plan should_cancel (Suc i) (record_outcome step oc st1) r1 steps = (bs, e, state', r')"
      "attempts env plan (\<lambda>_. False) (Suc i) (record_outcome step oc st1) r1 steps = (bs0, e0, state0, r0)"
      by (auto simp: Let_def split: prod.splits)
    with Cons.IH [OF this(3,4)] show ?thesis by (auto split: if_splits)
  qed
qed auto

text \<open> C13: Cancellation cuts a run short and does nothing else.  A cancelled run is the run without
  cancellation up to some step at which the flag was read as set: the same records and the same
  progress events before it, and a cancelled record for that step and every later one.  A run that
  is not reported as cancelled is the run without cancellation, whatever the flag was later.\<close>

theorem run_cancel_prefix:
  assumes "run_plan env should_cancel plan r = (events, res, r')"
    and "run_plan env (\<lambda>_. False) plan r = (events0, res0, r0)"
  shows "if run_cancelled res
    then \<exists>k < length (plan_steps plan). should_cancel k
      \<and> take k (run_steps res) = take k (run_steps res0) \<and> (\<exists>rest. events0 = events @ rest)
      \<and> drop k (run_steps res) = map (\<lambda>s. run_record s Cancelled
          (Some ''execution cancelled before step scheduling'') []) (drop k (plan_steps plan))
    else (events, run_steps res, run_success res, r') = (events0, run_steps res0, run_success res0, r0)"
proof (cases "admission_error env (rn_world r) plan")
  case None
  from run_plan_attempts [OF assms(1) None] obtain as e state where
    run: "attempts env plan should_cancel 0 (from_plan plan) (lp_runner (initial_loop env plan r)) (plan_steps plan) = (as, e, state, r')"
    and events: "events = concat (map (attempt_events env plan) as)"
    and steps: "run_steps res = map attempt_record as @ tail_records e (drop (length as) (plan_steps plan))"
    and cancelled: "run_cancelled res = (e = EndedByCancel)"
    and success: "run_success res = (\<not> list_ex (\<lambda>r. unfinished (srr_status r)) (run_steps res))" .
  from run_plan_attempts [OF assms(2) None] obtain as0 e0 state0 where
    run0: "attempts env plan (\<lambda>_. False) 0 (from_plan plan) (lp_runner (initial_loop env plan r)) (plan_steps plan) = (as0, e0, state0, r0)"
    and events0: "events0 = concat (map (attempt_events env plan) as0)"
    and steps0: "run_steps res0 = map attempt_record as0 @ tail_records e0 (drop (length as0) (plan_steps plan))"
    and "run_cancelled res0 = (e0 = EndedByCancel)"
    and success0: "run_success res0 = (\<not> list_ex (\<lambda>r. unfinished (srr_status r)) (run_steps res0))" .
  note compare = attempts_uncancelled [OF run run0]
  show ?thesis
  proof (cases "e = EndedByCancel")
    case True
    with compare obtain rest where rest: "as0 = as @ rest" by auto
    have "length as < length (plan_steps plan)" "should_cancel (length as)" using attempts_steps [OF run] True by auto
    moreover have "take (length as) (run_steps res) = take (length as) (run_steps res0)" using steps steps0 rest by simp
    moreover have "events0 = events @ concat (map (attempt_events env plan) rest)" using events events0 rest by simp
    moreover have "drop (length as) (run_steps res) = map (\<lambda>s. run_record s Cancelled
          (Some ''execution cancelled before step scheduling'') []) (drop (length as) (plan_steps plan))"
      using steps True by simp
    ultimately show ?thesis using True cancelled by auto
  qed (use compare cancelled events events0 steps steps0 success success0 in simp)
qed (use assms in \<open>auto simp: run_plan_def refused_result_def\<close>)

definition chain_result :: "(nat \<Rightarrow> bool) \<Rightarrow> execution_run_result" where
  "chain_result should_cancel = fst (snd (run_plan dry_run_env should_cancel chain_plan fresh_runner))"

lemma chain_cancelled: "run_cancelled (chain_result (\<lambda>k. 1 \<le> k))"
  by (simp add: chain_result_def run_eval sample_defs Let_def as_i64_small)

theorem run_cancel_prefix_witness:
  "\<exists>k < length (plan_steps chain_plan). 1 \<le> k
     \<and> take k (run_steps (chain_result (\<lambda>k. 1 \<le> k))) = take k (run_steps (chain_result (\<lambda>_. False)))"
proof -
  have run: "run_plan dry_run_env sc chain_plan fresh_runner =
      (fst (run_plan dry_run_env sc chain_plan fresh_runner), chain_result sc,
       snd (snd (run_plan dry_run_env sc chain_plan fresh_runner)))" for sc
    by (simp add: chain_result_def)
  show ?thesis
    using run_cancel_prefix [OF run [of "\<lambda>k. 1 \<le> k"] run [of "\<lambda>_. False"]] chain_cancelled by (metis (no_types))
qed

text \<open> C14: A failure after which the device must not be talked to ends the run: its record is the last
  one, so no later step is attempted, recorded or reported.\<close>

theorem run_fail_stop_last:
  assumes "run_plan env should_cancel plan r = (events, res, r')" and "i < length (run_steps res)"
    and "is_some_and (srr_failure_kind (run_steps res ! i)) requires_device_fail_stop"
  shows "Suc i = length (run_steps res) \<and> srr_status (run_steps res ! i) = Failed \<and> \<not> run_success res"
proof (cases "admission_error env (rn_world r) plan")
  case None
  from run_plan_attempts [OF assms(1) None] obtain as e state where
    run: "attempts env plan should_cancel 0 (from_plan plan) (lp_runner (initial_loop env plan r)) (plan_steps plan) = (as, e, state, r')"
    and "events = concat (map (attempt_events env plan) as)"
    and steps: "run_steps res = map attempt_record as @ tail_records e (drop (length as) (plan_steps plan))"
    and "run_cancelled res = (e = EndedByCancel)"
    and success: "run_success res = (\<not> list_ex (\<lambda>r. unfinished (srr_status r)) (run_steps res))" .
  have i: "i < length as"
  proof (rule ccontr)
    assume "\<not> i < length as"
    then have "run_steps res ! i \<in> set (tail_records e (drop (length as) (plan_steps plan)))"
      using assms(2) steps by (simp add: nth_append)
    from tail_records_status [OF this] assms(3) show False by simp
  qed
  obtain step phases oc where a: "as ! i = (step, phases, oc)" by (metis prod_cases3)
  have split: "take i as @ (step, phases, oc) # drop (Suc i) as = as" using id_take_nth_drop [OF i] a by simp
  have run': "attempts env plan should_cancel 0 (from_plan plan) (lp_runner (initial_loop env plan r)) (plan_steps plan)
      = (take i as @ (step, phases, oc) # drop (Suc i) as, e, state, r')" by (simp only: split run)
  obtain s1 r1 s2 r2 where att: "attempt_step env plan s1 step r1 = (phases, oc, s2, r2)"
    and flow: "oc_flow oc = Continue \<or> drop (Suc i) as = []"
    using attempts_split [OF run'] by metis
  have "is_some_and (oc_failure_kind oc) requires_device_fail_stop"
    using assms(3) steps i a by (simp add: nth_append)
  with attempt_flow [OF att] have brk: "oc_flow oc = Break" "oc_status oc = RtFailed" by (auto simp: flow_ok_def)
  with flow i have last: "length as = Suc i" by simp
  then have "last as = (step, phases, oc)" using a by (metis diff_Suc_1 last_conv_nth length_0_conv nat.simps(3))
  with attempts_break [OF run] brk(1) i have "e = EndedByBreak" by force
  moreover have "(step, phases, oc) \<in> set as" using a i by (metis nth_mem)
  ultimately show ?thesis using steps last i a brk(2) success
    by (auto simp: nth_append list_ex_iff intro!: bexI [of _ "(step, phases, oc)"])
next
  case (Some x)
  with run_plan_refused [OF assms(1)] nth_mem [OF assms(2)] have "srr_failure_kind (run_steps res ! i) = None" by blast
  with assms(3) show ?thesis by simp
qed

theorem run_fail_stop_last_witness:
  "\<not> run_success (fst (snd (run_plan timing_out_env (\<lambda>_. False) timing_out_plan fresh_runner)))"
proof -
  let ?run = "run_plan timing_out_env (\<lambda>_. False) timing_out_plan fresh_runner"
  have run: "run_plan timing_out_env (\<lambda>_. False) timing_out_plan fresh_runner = (fst ?run, fst (snd ?run), snd (snd ?run))" by simp
  have len: "length (run_steps (fst (snd ?run))) = 1" using arg_cong [OF timing_out_run, of length] by simp
  have "srr_failure_kind (run_steps (fst (snd ?run)) ! 0) = Some OperationTimedOut"
    using timing_out_run len by (metis length_greater_0_conv list.size(3) nth_Cons_0 nth_map zero_neq_one)
  with run_fail_stop_last [OF run, of 0] len show ?thesis by simp
qed

end
