(* ===== verification/Exec_Root.thy ===== *)
theory Exec_Root
  imports Exec_Safety
begin

text \<open>
  Root during a run.  An operation \<open>run_keeps\<close> a property of the runner when every run of it keeps
  the property.  Nothing but the guard \<open>ensure_root_preflight\<close> changes the answer of the device
  about root, so a device that refuses root never runs a step that needs it.
\<close>

named_theorems run_keeps_rules \<open>operations keep a property of the runner\<close>

definition run_keeps :: "('w exec_runner \<Rightarrow> bool) \<Rightarrow> ('w, 'a) run \<Rightarrow> bool" where
  "run_keeps P m \<longleftrightarrow> (\<forall>r. P r \<longrightarrow> P (snd (m r)))"

lemma run_keepsD: "run_keeps P m \<Longrightarrow> P r \<Longrightarrow> m r = (res, r') \<Longrightarrow> P r'"
  by (force simp: run_keeps_def)

lemma run_keeps_pure [run_keeps_rules]: "run_keeps P (run_return a)" "run_keeps P (run_fail e)" "run_keeps P (run_lift res)"
    "run_keeps P (run_check c)"
  by (simp_all add: run_keeps_def run_return_def run_fail_def run_lift_def run_check_def split: option.split)

lemma run_keeps_bind [run_keeps_rules]:
  assumes "run_keeps P m" "\<And>a. run_keeps P (f a)"
  shows "run_keeps P (run_bind m f)"
proof (unfold run_keeps_def, intro allI impI)
  fix r assume "P r"
  obtain res r' where m: "m r = (res, r')" by (cases "m r")
  with assms(1) \<open>P r\<close> have "P r'" by (rule run_keepsD)
  with assms(2) m show "P (snd (run_bind m f r))" by (auto simp: run_bind_def run_keeps_def split: sum.split)
qed

lemma run_keeps_if [run_keeps_rules]: "run_keeps P a \<Longrightarrow> run_keeps P b \<Longrightarrow> run_keeps P (if c then a else b)"
  by simp

lemma run_keeps_option [run_keeps_rules]:
  "run_keeps P a \<Longrightarrow> (\<And>x. run_keeps P (f x)) \<Longrightarrow> run_keeps P (case o' of None \<Rightarrow> a | Some x \<Rightarrow> f x)"
  by (cases o') simp_all

lemma run_keeps_sum [run_keeps_rules]:
  "(\<And>x. run_keeps P (f x)) \<Longrightarrow> (\<And>x. run_keeps P (g x)) \<Longrightarrow> run_keeps P (case s of Inl x \<Rightarrow> f x | Inr x \<Rightarrow> g x)"
  by (cases s) simp_all

lemma run_keeps_prod [run_keeps_rules]: "(\<And>x y. run_keeps P (f x y)) \<Longrightarrow> run_keeps P (case p of (x, y) \<Rightarrow> f x y)"
  by (cases p) simp

lemma run_keeps_with_world [run_keeps_rules]: "(\<And>w. run_keeps P (f w)) \<Longrightarrow> run_keeps P (with_world f)"
  by (simp add: run_keeps_def with_world_def)

section \<open>A device that refuses root\<close>

definition refuses_root :: "'w executor_device \<Rightarrow> bool" where
  "refuses_root dev \<longleftrightarrow>
     (\<forall>w. \<not> dev_owns_per_command_root_authority dev w \<and> is_err (fst (dev_revalidate_root dev w)))"

definition not_granted :: "'w exec_runner \<Rightarrow> bool" where
  "not_granted r \<longleftrightarrow> rn_root_preflight r \<noteq> PreflightGranted"

lemma not_granted_world [simp]:
  "not_granted (r \<lparr> rn_world := w \<rparr>) = not_granted r" "not_granted (r \<lparr> rn_sleep_calls := s \<rparr>) = not_granted r"
  "not_granted (r \<lparr> rn_root_preflight_failure := f \<rparr>) = not_granted r"
  by (simp_all add: not_granted_def)

lemma run_keeps_device [run_keeps_rules]:
  "run_keeps not_granted (run_device action)" "run_keeps not_granted (run_world action')"
  by (simp_all add: run_keeps_def run_device_def run_world_def split: prod.split)

lemma refused_preflight:
  assumes "refuses_root (xe_dev env)" and "not_granted r"
  shows "is_err (fst (ensure_root_preflight env r)) \<and> not_granted (snd (ensure_root_preflight env r))"
  using assms
  by (cases "dev_revalidate_root (xe_dev env) (rn_world r)"; cases "fst (dev_revalidate_root (xe_dev env) (rn_world r))";
      cases "rn_root_preflight r")
    (auto simp: ensure_root_preflight_def refuses_root_def not_granted_def Let_def dest: spec [of _ "rn_world r"])

lemma run_keeps_preflight: "refuses_root (xe_dev env) \<Longrightarrow> run_keeps not_granted (ensure_root_preflight env)"
  using refused_preflight by (auto simp: run_keeps_def)

lemma run_keeps_condition:
  assumes "refuses_root (xe_dev env)"
  shows "run_keeps not_granted (evaluate_condition env plan c)"
proof -
  have lam: "run_keeps not_granted (\<lambda>r. (Inr (g r), r))" for g by (simp add: run_keeps_def)
  show ?thesis
    unfolding evaluate_condition_def condition_path_def Let_def
    by (intro run_keeps_rules run_keeps_preflight assms lam)
qed

lemma run_keeps_skip_if:
  "refuses_root (xe_dev env) \<Longrightarrow> run_keeps not_granted (skip_if_matched env plan cs)"
  by (induction cs) (auto intro!: run_keeps_rules run_keeps_condition)

lemma run_keeps_failed_verify:
  "refuses_root (xe_dev env) \<Longrightarrow> run_keeps not_granted (failed_verify env plan cs)"
  by (induction cs) (auto intro!: run_keeps_rules run_keeps_condition)

lemma run_keeps_handlers:
  assumes "refuses_root (xe_dev env)"
  shows "run_keeps not_granted (execute_wait env params)"
    and "run_keeps not_granted (execute_grant_permissions env plan step)"
    and "run_keeps not_granted (execute_launch_app env plan step)"
    and "run_keeps not_granted (execute_force_stop_app env plan step)"
    and "run_keeps not_granted (execute_install_apk env plan state step params)"
    and "run_keeps not_granted (execute_copy_files env plan step params)"
proof -
  have sleep: "run_keeps not_granted (\<lambda>r. (Inr v, r \<lparr> rn_sleep_calls := f r \<rparr>))" for v :: "runtime_value omap" and f
    by (simp add: run_keeps_def)
  show "run_keeps not_granted (execute_wait env params)"
    unfolding execute_wait_def Let_def by (intro run_keeps_rules sleep)
  have actions: "run_keeps not_granted (execute_planned_permission_actions env step pp)" for pp
    by (simp add: run_keeps_def execute_planned_permission_actions_def Let_def split: prod.split)
  show "run_keeps not_granted (execute_grant_permissions env plan step)"
    unfolding execute_grant_permissions_def by (intro run_keeps_rules actions)
  show "run_keeps not_granted (execute_launch_app env plan step)" "run_keeps not_granted (execute_force_stop_app env plan step)"
    unfolding execute_launch_app_def execute_force_stop_app_def by (intro run_keeps_rules)+
  have "run_keeps not_granted (install_checked_apk env plan state step params app)" for app
  proof -
    have installed: "not_granted (snd (run_bind (run_device a) (\<lambda>_ r'. (Inr v, r' \<lparr> rn_world := g r' \<rparr>)) r))"
      if "not_granted r" for a :: "('a, unit) device_action" and g r and v :: "runtime_value omap"
      using that by (auto simp: run_bind_def run_device_def split: prod.split sum.split)
    show ?thesis
      using installed by (auto simp: run_keeps_def install_checked_apk_def Let_def split: option.split sum.split)
  qed
  then show "run_keeps not_granted (execute_install_apk env plan state step params)"
    unfolding execute_install_apk_def by (intro run_keeps_rules)
  have prepare: "run_keeps not_granted (prepare_destination env sandbox source dest policy kind)" for sandbox source dest policy kind
  proof -
    have lam: "run_keeps not_granted (\<lambda>r. if c r then case x r of Inl failure \<Rightarrow> (Inl failure, r)
        | Inr host_path \<Rightarrow> if d r host_path then run_fail e r else (Inr (), r) else (Inr (), r))" for c x d e
      by (auto simp: run_keeps_def run_fail_def split: sum.split)
    show ?thesis unfolding prepare_destination_def Let_def by (intro run_keeps_rules lam)
  qed
  show "run_keeps not_granted (execute_copy_files env plan step params)"
    unfolding execute_copy_files_def transfer_files_def require_capabilities_def Let_def
    by (intro run_keeps_rules prepare run_keeps_preflight assms)
qed


section \<open>A whole attempt\<close>

lemma run_keepsI: "(\<And>r. P r \<Longrightarrow> P (snd (m r))) \<Longrightarrow> run_keeps P m"
  by (simp add: run_keeps_def)

lemma run_keeps_snd: "run_keeps P m \<Longrightarrow> P r \<Longrightarrow> P (snd (m r))"
  by (simp add: run_keeps_def)

lemma run_step_not_granted:
  assumes "refuses_root (xe_dev env)" and "not_granted r"
  shows "not_granted (snd (snd (run_step env plan step state r)))"
proof -
  note keeps = run_keeps_handlers [OF assms(1), THEN run_keeps_snd, OF assms(2)]
  have artifacts: "not_granted (snd (snd (resolve_artifacts_step env plan state params r)))" for params
    using assms(2) by (simp add: resolve_artifacts_step_def split: prod.split)
  have world: "not_granted (snd (run_world f r))" for f :: "'a \<Rightarrow> (step_failure + runtime_value omap) \<times> 'a"
    using run_keeps_snd [OF run_keeps_device(2) assms(2)] .
  show ?thesis
    using keeps artifacts world assms(2)
    by (auto simp: run_step_def Let_def split: sum.split prod.split)
      (metis snd_conv)+
qed

lemma admit_step_not_granted:
  assumes "refuses_root (xe_dev env)" and "not_granted r"
  shows "not_granted (snd (admit_step env plan state step r))"
proof -
  have root: "not_granted (snd (check_root env plan step r))"
    using refused_preflight [OF assms] assms(2)
    by (auto simp: check_root_def split: prod.splits sum.splits)
  have skip: "not_granted (snd (check_skip_if env plan step r'))" if "not_granted r'" for r'
    using run_keeps_snd [OF run_keeps_skip_if [OF assms(1)] that, of plan "es_skip_if step"]
    by (auto simp: check_skip_if_def split: prod.splits sum.splits)
  show ?thesis
    using root skip assms(2) by (auto simp: admit_step_def split: option.splits prod.splits)
qed

lemma attempt_step_not_granted:
  assumes "refuses_root (xe_dev env)" and "not_granted r"
  shows "not_granted (snd (snd (snd (attempt_step env plan state step r))))"
proof -
  have verify: "not_granted (snd (verify_step env plan step outs r'))" if "not_granted r'" for outs r'
    using run_keeps_snd [OF run_keeps_failed_verify [OF assms(1)] that, of plan "es_verify step"]
    by (auto simp: verify_step_def split: prod.splits sum.splits)
  have perform: "not_granted (snd (snd (snd (perform_step env plan state step r'))))" if "not_granted r'" for r'
    using run_step_not_granted [OF assms(1) that, of plan step state] verify
    by (auto simp: perform_step_def split: prod.splits sum.splits) (metis snd_conv)
  show ?thesis
    using admit_step_not_granted [OF assms, of plan state step] perform assms(2)
    by (auto simp: attempt_step_def split: option.splits prod.splits)
qed

text \<open>A property that every attempt keeps holds when an attempt is made.\<close>

lemma attempts_in:
  assumes "\<And>state step r. P r \<Longrightarrow> P (snd (snd (snd (attempt_step env plan state step r))))"
    and "attempts env plan should_cancel i state r steps = (as, e, state', r')" and "P r"
    and "(step, phases, oc) \<in> set as"
  obtains s1 r1 s2 r2 where "attempt_step env plan s1 step r1 = (phases, oc, s2, r2)" and "P r1"
  using assms(2-)
proof (induction steps arbitrary: i state r as thesis)
  case (Cons step0 steps)
  obtain ph0 oc0 st0 r0 where att: "attempt_step env plan state step0 r = (ph0, oc0, st0, r0)" by (metis prod_cases4)
  have "P r0" using assms(1) [OF Cons.prems(3), of state step0] att by simp
  obtain as' where as: "as = (step0, ph0, oc0) # as'"
    and rest: "as' = [] \<or> (\<exists>i' st'. attempts env plan should_cancel i' st' r0 steps = (as', e, state', r'))"
    using Cons.prems(2,4) att by (auto simp: Let_def split: if_splits flow.splits prod.splits)
  show ?case
  proof (cases "(step, phases, oc) = (step0, ph0, oc0)")
    case True
    with att Cons.prems(1,3) show ?thesis by blast
  next
    case False
    with Cons.prems(4) as have mem: "(step, phases, oc) \<in> set as'" by auto
    with rest obtain i' st' where "attempts env plan should_cancel i' st' r0 steps = (as', e, state', r')" by auto
    from Cons.IH [OF Cons.prems(1) this \<open>P r0\<close> mem] show ?thesis .
  qed
qed simp


section \<open>No root work without root\<close>

text \<open>What a step needs when no host path is a directory, it needs on every host.\<close>

lemma shared_destination_no_dir: "\<not> shared_destination ext (\<lambda>_. False) plan step"
  by (auto simp: shared_destination_def copy_commit_destination_kind_def Let_def split: sum.splits option.splits if_splits)

lemma classify_more_shell:
  assumes "requires_any (classify_root_requirement_step s)"
  shows "requires_any (classify_root_requirement_step (s \<lparr> rrs_root_shell_constraint := True \<rparr>))"
proof (cases "rrs_operation s = GrantPermissionsWork")
  case True
  with assms show ?thesis by (simp add: classify_root_requirement_step_def Let_def)
next
  case False
  then show ?thesis
    by (cases "rrs_operation s") (simp_all add: classify_root_requirement_step_def requires_any_def Let_def)
qed

lemma requirements_any_host:
  "requires_any (plan_step_root_requirements ext (\<lambda>_. False) plan step) \<Longrightarrow>
   requires_any (plan_step_root_requirements ext is_dir plan step)"
  by (cases "es_type_name step = ''copy_files'' \<and> shared_destination ext is_dir plan step")
    (auto simp: plan_step_root_requirements_def shared_destination_no_dir Let_def
      dest: classify_more_shell split: prod.splits)

lemma admitted_needs_no_root:
  assumes "refuses_root (xe_dev env)" and "not_granted r"
    and "admit_step env plan state step r = (None, r')"
  shows "\<not> requires_any (plan_step_root_requirements (xe_ext env) (\<lambda>_. False) plan step)"
proof
  assume "requires_any (plan_step_root_requirements (xe_ext env) (\<lambda>_. False) plan step)"
  then have "requires_any (plan_step_root_requirements (xe_ext env) (host_is_dir (xe_dev env) (rn_world r)) plan step)"
    by (rule requirements_any_host)
  with refused_preflight [OF assms(1,2)] have "fst (check_root env plan step r) \<noteq> None"
    by (auto simp: check_root_def split: prod.splits sum.splits)
  with assms(3) show False by (auto simp: admit_step_def split: option.splits prod.splits)
qed


text \<open>A device that denies root, and a plan whose second step needs it.\<close>

definition rootless_env :: "fake_device exec_env" where
  "rootless_env = dry_run_env
     \<lparr> xe_dev := fake_dry_run_device
         \<lparr> dev_revalidate_root := (\<lambda>fd. (Inl (device_error_other ''root denied''), fd)) \<rparr> \<rparr>"

definition root_plan :: execution_plan where
  "root_plan = plain_plan [wait_step ''a'' [] (jnat 10), (wait_step ''b'' [] (jnat 20))
     \<lparr> es_verify := [\<lparr> econd_type_name = ''path_exists'', econd_app_id = None,
                       econd_params = [(''path'', JString ''/data/data/org.emu'')] \<rparr>] \<rparr>]"

lemma rootless: "refuses_root (xe_dev rootless_env)"
  by (simp add: refuses_root_def rootless_env_def dry_run_env_def fake_dry_run_device_def)

lemma root_run:
  "map srr_status (run_steps (fst (snd (run_plan rootless_env (\<lambda>_. False) root_plan fresh_runner)))) = [Executed, Failed]"
  by (simp add: run_eval sample_defs rootless_env_def root_plan_def Let_def as_i64_small
      ensure_root_preflight_def failure_outcome_def condition_requires_root_def path_condition_requires_root_def
      is_app_private_path_def starts_with_def step_failure_from_def device_error_other_def
      dry_run_env_def fake_dry_run_device_def)


end
