(* ===== verification/Session_Report.thy ===== *)
theory Session_Report
  imports Executor
begin

text \<open>
  Execution reports (\<open>execution_session.rs\<close>): the data of a report and of its event log, the report
  an execution starts with, the redaction of the plan shown to consumers, and the updates of a
  report while an execution runs and when it ends.  The counters \<open>latest_sequence\<close> and
  \<open>next_execution_id\<close>, \<open>u64\<close> values that start at 0 and grow by one, are natural numbers.  The text
  of the clock, \<open>now()\<close>, is an argument of the operations that read it.
\<close>

section \<open>Data\<close>

datatype execution_mode = RealMode | DryRunMode

fun parse_execution_mode :: "string \<Rightarrow> execution_mode option" where
  "parse_execution_mode name =
     (if name = ''real'' then Some RealMode else if name = ''dry_run'' then Some DryRunMode else None)"

datatype execution_status =
  ExecRunning | ExecSucceeded | ExecSucceededWithWarnings | ExecFailed | ExecCancelled

datatype recipe_execution_status =
  RecipePending | RecipeRunning | RecipeSucceeded | RecipeSucceededWithWarnings | RecipeFailed
  | RecipeBlocked | RecipeCancelled

datatype step_execution_status =
  StepPending | StepRunning | StepSucceeded | StepSkipped | StepFailed | StepBlocked | StepCancelled

record execution_issue =
  xi_code :: string
  xi_message :: string
  xi_recipe_id :: "string option"
  xi_step_id :: "string option"

record execution_step_report =
  xs_step_id :: string
  xs_recipe_id :: string
  xs_name :: string
  xs_note :: string
  xs_status :: step_execution_status
  xs_message :: "string option"
  xs_outputs :: "runtime_value omap"

record execution_recipe_report =
  xrr_recipe_id :: string
  xrr_name :: string
  xrr_description :: "string option"
  xrr_status :: recipe_execution_status
  xrr_steps :: "execution_step_report list"

record execution_report =
  xr_execution_id :: string
  xr_plan_id :: string
  xr_plan_digest :: string
  xr_reviewed_plan :: execution_plan
  xr_public_reviewed_plan :: "execution_plan option"
  xr_redacted_reviewed_plan :: "execution_plan option"
  xr_reviewed_plan_source_urls_redacted :: "bool option"
  xr_mode :: execution_mode
  xr_simulated :: bool
  xr_verification_scope :: string
  xr_target_device :: "target_device_binding option"
  xr_status :: execution_status
  xr_started_at :: string
  xr_finished_at :: "string option"
  xr_latest_sequence :: nat
  xr_recipes :: "execution_recipe_report list"
  xr_resolved_releases :: "execution_resolved_release list"
  xr_resolved_artifacts :: "execution_resolved_artifact list"
  xr_warnings :: "execution_issue list"
  xr_errors :: "execution_issue list"

record execution_event =
  ev_sequence :: nat
  ev_timestamp :: string
  ev_execution_id :: string
  ev_event_type :: string
  ev_recipe_id :: "string option"
  ev_step_id :: "string option"
  ev_phase :: "string option"
  ev_status :: "string option"
  ev_note :: "string option"
  ev_message :: "string option"
  ev_issue :: "execution_issue option"

record execution_record =
  xc_report :: execution_report
  xc_events :: "execution_event list"
  xc_cancel_requested :: bool

text \<open>\<open>enum_json\<close>: the names that serde gives the variants.\<close>

fun phase_name :: "progress_phase \<Rightarrow> string" where
  "phase_name CheckingSkipConditions = ''checking_skip_conditions''"
| "phase_name Executing = ''executing''"
| "phase_name Verifying = ''verifying''"
| "phase_name Finished = ''finished''"

fun progress_status_name :: "progress_status \<Rightarrow> string" where
  "progress_status_name ProgressSkipped = ''skipped''"
| "progress_status_name ProgressBlocked = ''blocked''"
| "progress_status_name ProgressSucceeded = ''succeeded''"
| "progress_status_name ProgressFailed = ''failed''"
| "progress_status_name ProgressCancelled = ''cancelled''"

fun execution_status_name :: "execution_status \<Rightarrow> string" where
  "execution_status_name ExecRunning = ''running''"
| "execution_status_name ExecSucceeded = ''succeeded''"
| "execution_status_name ExecSucceededWithWarnings = ''succeeded_with_warnings''"
| "execution_status_name ExecFailed = ''failed''"
| "execution_status_name ExecCancelled = ''cancelled''"

section \<open>Redaction\<close>

definition is_host_path_input_type :: "string \<Rightarrow> bool" where
  "is_host_path_input_type name =
     (name \<in> set [''file'', ''directory'', ''file_path'', ''directory_path'', ''path'', ''path_list''])"

text \<open>The value after redaction, and whether anything was replaced.\<close>

fun redact_host_path_value :: "json \<Rightarrow> json \<times> bool" where
  "redact_host_path_value (JString path) =
     (if path \<noteq> ''[redacted]'' then (JString ''[redacted]'', True) else (JString path, False))"
| "redact_host_path_value (JArray vs) =
     (JArray (map (fst \<circ> redact_host_path_value) vs), list_ex (snd \<circ> redact_host_path_value) vs)"
| "redact_host_path_value (JObject m) =
     (JObject (map (\<lambda>kv. (fst kv, fst (redact_host_path_value (snd kv)))) m),
      list_ex (\<lambda>kv. snd (redact_host_path_value (snd kv))) m)"
| "redact_host_path_value v = (v, False)"

definition redact_consumer_input_value :: "json \<Rightarrow> bool \<Rightarrow> bool \<Rightarrow> json \<times> bool" where
  "redact_consumer_input_value v sensitive host_path =
     (if sensitive then (JString ''[redacted]'', True)
      else if host_path then redact_host_path_value v
      else (v, False))"

definition redact_resolved_input ::
  "execution_resolved_input_snapshot \<Rightarrow> execution_resolved_input_snapshot \<times> bool" where
  "redact_resolved_input input =
     (let (v, redacted) = (case ris_value input of
            None \<Rightarrow> (None, False)
          | Some v \<Rightarrow> map_prod Some id
              (redact_consumer_input_value v (ris_sensitive input) (is_host_path_input_type (ris_type_name input))))
      in if ris_sensitive input
         then (input \<lparr> ris_value := v, ris_selected_enum_label := None \<rparr>,
               redacted \<or> ris_selected_enum_label input \<noteq> None)
         else (input \<lparr> ris_value := v \<rparr>, redacted))"

definition input_is_sensitive :: "execution_plan \<Rightarrow> string \<Rightarrow> bool" where
  "input_is_sensitive plan key =
     (key \<notin> set (map ris_key (plan_resolved_inputs plan))
      \<or> key \<in> set (map ris_key (filter ris_sensitive (plan_resolved_inputs plan))))"

definition redact_plan_input :: "execution_plan \<Rightarrow> execution_input_value \<Rightarrow> execution_input_value \<times> bool" where
  "redact_plan_input plan input =
     (let rv = eiv_value input; sensitive = input_is_sensitive plan (eiv_id input);
          host_path = (rv_location rv = Some ''host'' \<and> is_host_path_input_type (rv_type_name rv));
          (v, redacted) = redact_consumer_input_value (rv_value rv) sensitive host_path
      in if sensitive
         then (input \<lparr> eiv_value := rv \<lparr> rv_value := v, rv_location := None \<rparr> \<rparr>, redacted \<or> rv_location rv \<noteq> None)
         else (input \<lparr> eiv_value := rv \<lparr> rv_value := v \<rparr> \<rparr>, redacted))"

definition url_needs_redaction :: "parsed_url \<Rightarrow> bool" where
  "url_needs_redaction u =
     (url_query u \<noteq> None \<or> url_fragment u \<noteq> None \<or> url_username u \<noteq> [] \<or> url_password u \<noteq> None)"

definition redact_artifact :: "externals \<Rightarrow> execution_artifact \<Rightarrow> execution_artifact \<times> bool" where
  "redact_artifact ext artifact =
     (case ea_source artifact of
        SrcDirectUrl url sha256 \<Rightarrow>
          (case ext_url_parse ext url of
             None \<Rightarrow> (artifact \<lparr> ea_source := SrcDirectUrl ''<redacted-invalid-url>'' sha256 \<rparr>, True)
           | Some parsed \<Rightarrow>
               if url_needs_redaction parsed
               then (artifact \<lparr> ea_source := SrcDirectUrl (ext_url_redact ext url) sha256 \<rparr>, True)
               else (artifact, False))
      | _ \<Rightarrow> (artifact, False))"

text \<open>The redacted plan, whether anything was redacted, and whether a source URL was.\<close>

definition redacted_report_plan :: "externals \<Rightarrow> execution_plan \<Rightarrow> execution_plan \<times> bool \<times> bool" where
  "redacted_report_plan ext plan =
     (let resolved = map redact_resolved_input (plan_resolved_inputs plan);
          inputs = map (redact_plan_input plan) (plan_inputs plan);
          artifacts = map (redact_artifact ext) (plan_artifacts plan);
          source_urls_redacted = list_ex snd artifacts
      in (plan \<lparr> plan_resolved_inputs := map fst resolved, plan_inputs := map fst inputs,
                 plan_artifacts := map fst artifacts \<rparr>,
          list_ex snd resolved \<or> list_ex snd inputs \<or> source_urls_redacted, source_urls_redacted))"

section \<open>The report of a new execution\<close>

definition step_report :: "externals \<Rightarrow> execution_step \<Rightarrow> execution_step_report" where
  "step_report ext step =
     \<lparr> xs_step_id = es_id step, xs_recipe_id = es_recipe_ref step, xs_name = es_name step,
       xs_note = normalized_plan_step_note ext (Some (es_note step)) (es_name step) (es_type_name step) (es_id step),
       xs_status = StepPending, xs_message = None, xs_outputs = [] \<rparr>"

text \<open>A step goes to the first recipe with its reference; a recipe that is missing is added.\<close>

fun add_step_report :: "externals \<Rightarrow> execution_step \<Rightarrow> execution_recipe_report list \<Rightarrow> execution_recipe_report list" where
  "add_step_report ext step [] =
     [\<lparr> xrr_recipe_id = es_recipe_ref step, xrr_name = es_recipe_ref step, xrr_description = None,
        xrr_status = RecipePending, xrr_steps = [step_report ext step] \<rparr>]"
| "add_step_report ext step (recipe # recipes) =
     (if xrr_recipe_id recipe = es_recipe_ref step
      then recipe \<lparr> xrr_steps := xrr_steps recipe @ [step_report ext step] \<rparr> # recipes
      else recipe # add_step_report ext step recipes)"

definition initial_recipes :: "externals \<Rightarrow> execution_plan \<Rightarrow> execution_recipe_report list" where
  "initial_recipes ext plan =
     fold (add_step_report ext) (plan_steps plan)
       (map (\<lambda>recipe. \<lparr> xrr_recipe_id = rs_id recipe, xrr_name = rs_name recipe,
                        xrr_description = rs_description recipe, xrr_status = RecipePending, xrr_steps = [] \<rparr>)
         (plan_recipes plan))"

definition initial_report ::
  "externals \<Rightarrow> string \<Rightarrow> string \<Rightarrow> execution_plan \<Rightarrow> string \<Rightarrow> execution_mode \<Rightarrow> target_device_binding option
     \<Rightarrow> execution_report" where
  "initial_report ext now execution_id plan digest mode target =
     (case redacted_report_plan ext plan of
        (redacted_plan, was_redacted, source_urls_redacted) \<Rightarrow>
          \<lparr> xr_execution_id = execution_id, xr_plan_id = plan_id plan, xr_plan_digest = digest,
            xr_reviewed_plan = plan,
            xr_public_reviewed_plan = (if \<not> was_redacted then Some plan else None),
            xr_redacted_reviewed_plan = (if was_redacted then Some redacted_plan else None),
            xr_reviewed_plan_source_urls_redacted = (if source_urls_redacted then Some True else None),
            xr_mode = mode, xr_simulated = (mode = DryRunMode),
            xr_verification_scope = (if mode = DryRunMode then ''simulated_only'' else ''real_device''),
            xr_target_device = target, xr_status = ExecRunning, xr_started_at = now, xr_finished_at = None,
            xr_latest_sequence = 0, xr_recipes = initial_recipes ext plan, xr_resolved_releases = [],
            xr_resolved_artifacts = [], xr_warnings = [], xr_errors = [] \<rparr>)"

end
