(* ===== verification/Session_Updates.thy ===== *)
theory Session_Updates
  imports Session_Report
begin

text \<open>
  The updates of an execution record (\<open>execution_session.rs\<close>): progress of the executor, the end of an
  attempt, a panic of the worker, and the statuses of recipes that follow from those of their steps.
\<close>

section \<open>Events and steps of a record\<close>

definition append_event ::
  "string \<Rightarrow> string \<Rightarrow> string option \<Rightarrow> string option \<Rightarrow> string option \<Rightarrow> string option \<Rightarrow> string option
     \<Rightarrow> string option \<Rightarrow> execution_issue option \<Rightarrow> execution_record \<Rightarrow> execution_record" where
  "append_event now event_type rid sid phase status note message issue rec =
     (let sequence = xr_latest_sequence (xc_report rec) + 1
      in rec \<lparr> xc_report := xc_report rec \<lparr> xr_latest_sequence := sequence \<rparr>,
               xc_events := xc_events rec @
                 [\<lparr> ev_sequence = sequence, ev_timestamp = now, ev_execution_id = xr_execution_id (xc_report rec),
                    ev_event_type = event_type, ev_recipe_id = rid, ev_step_id = sid, ev_phase = phase,
                    ev_status = status, ev_note = note, ev_message = message, ev_issue = issue \<rparr>] \<rparr>)"

definition report_steps :: "execution_recipe_report list \<Rightarrow> execution_step_report list" where
  "report_steps recipes = concat (map xrr_steps recipes)"

definition find_step :: "execution_report \<Rightarrow> string \<Rightarrow> execution_step_report option" where
  "find_step report sid = find (\<lambda>s. xs_step_id s = sid) (report_steps (xr_recipes report))"

text \<open>\<open>find_step_mut\<close>: the first step with the id is changed.\<close>

fun update_first ::
  "string \<Rightarrow> (execution_step_report \<Rightarrow> execution_step_report) \<Rightarrow> execution_step_report list \<Rightarrow> execution_step_report list" where
  "update_first sid f [] = []"
| "update_first sid f (s # ss) = (if xs_step_id s = sid then f s # ss else s # update_first sid f ss)"

fun update_step ::
  "string \<Rightarrow> (execution_step_report \<Rightarrow> execution_step_report) \<Rightarrow> execution_recipe_report list
     \<Rightarrow> execution_recipe_report list" where
  "update_step sid f [] = []"
| "update_step sid f (recipe # recipes) =
     (if list_ex (\<lambda>s. xs_step_id s = sid) (xrr_steps recipe)
      then recipe \<lparr> xrr_steps := update_first sid f (xrr_steps recipe) \<rparr> # recipes
      else recipe # update_step sid f recipes)"

definition find_step_mut ::
  "string \<Rightarrow> (execution_step_report \<Rightarrow> execution_step_report) \<Rightarrow> execution_report \<Rightarrow> execution_report" where
  "find_step_mut sid f report = report \<lparr> xr_recipes := update_step sid f (xr_recipes report) \<rparr>"

section \<open>Statuses of recipes\<close>

definition recipe_status :: "execution_status \<Rightarrow> step_execution_status list \<Rightarrow> recipe_execution_status" where
  "recipe_status status steps =
     (if StepFailed \<in> set steps then RecipeFailed
      else if StepBlocked \<in> set steps then RecipeBlocked
      else if StepCancelled \<in> set steps then RecipeCancelled
      else if StepRunning \<in> set steps then RecipeRunning
      else if StepPending \<in> set steps then
        (if list_all (\<lambda>s. s = StepPending) steps then RecipePending
         else (case status of
                 ExecCancelled \<Rightarrow> RecipeCancelled
               | ExecFailed \<Rightarrow> RecipeFailed
               | _ \<Rightarrow> RecipeRunning))
      else RecipeSucceeded)"

definition refresh_recipe_statuses :: "execution_report \<Rightarrow> execution_report" where
  "refresh_recipe_statuses report =
     report \<lparr> xr_recipes := map (\<lambda>recipe.
         recipe \<lparr> xrr_status := recipe_status (xr_status report) (map xs_status (xrr_steps recipe)) \<rparr>) (xr_recipes report) \<rparr>"

definition apply_recipe_warning_statuses :: "execution_report \<Rightarrow> execution_report" where
  "apply_recipe_warning_statuses report =
     (let recipe_ids = List.map_filter xi_recipe_id (xr_warnings report)
      in report \<lparr> xr_recipes := map (\<lambda>recipe.
           if xrr_status recipe = RecipeSucceeded \<and> xrr_recipe_id recipe \<in> set recipe_ids
           then recipe \<lparr> xrr_status := RecipeSucceededWithWarnings \<rparr> else recipe) (xr_recipes report) \<rparr>)"

section \<open>Progress\<close>

fun step_status_of_event :: "progress_phase \<Rightarrow> progress_status option \<Rightarrow> step_execution_status" where
  "step_status_of_event Finished (Some ProgressSucceeded) = StepSucceeded"
| "step_status_of_event Finished (Some ProgressSkipped) = StepSkipped"
| "step_status_of_event Finished (Some ProgressBlocked) = StepBlocked"
| "step_status_of_event Finished (Some ProgressFailed) = StepFailed"
| "step_status_of_event Finished (Some ProgressCancelled) = StepCancelled"
| "step_status_of_event _ _ = StepRunning"

definition record_progress :: "string \<Rightarrow> execution_progress_event \<Rightarrow> execution_record \<Rightarrow> execution_record" where
  "record_progress now event rec =
     (let status = step_status_of_event (pe_phase event) (pe_status event);
          report = find_step_mut (pe_step_id event)
            (\<lambda>s. s \<lparr> xs_status := status, xs_message := pe_message event \<rparr>) (xc_report rec)
      in append_event now ''step_progress'' (Some (pe_recipe_ref event)) (Some (pe_step_id event))
           (Some (phase_name (pe_phase event))) (map_option progress_status_name (pe_status event))
           (Some (pe_note event)) (pe_message event) None
           (rec \<lparr> xc_report := refresh_recipe_statuses report \<rparr>))"

section \<open>Issues and warnings\<close>

fun failure_kind_code :: "step_failure_kind \<Rightarrow> string option" where
  "failure_kind_code OperationTimedOut = Some ''operation_timed_out''"
| "failure_kind_code DeviceOffline = Some ''device_offline''"
| "failure_kind_code DeviceUnauthorized = Some ''device_unauthorized''"
| "failure_kind_code DeviceDisconnected = Some ''device_disconnected''"
| "failure_kind_code AdbServerUnavailable = Some ''adb_server_unavailable''"
| "failure_kind_code (DeviceIdentityChanged _) = Some ''device_identity_changed''"
| "failure_kind_code (DeviceIdentityUnverified _) = Some ''device_identity_unverified''"
| "failure_kind_code RootAuthorityRevoked = Some ''root_authority_revoked''"
| "failure_kind_code RootAuthorityUnverified = Some ''root_authority_unverified''"
| "failure_kind_code DeviceStorageExhausted = Some ''device_storage_exhausted''"
| "failure_kind_code TransportReset = Some ''device_transport_lost''"
| "failure_kind_code TransportFailure = Some ''device_transport_lost''"
| "failure_kind_code _ = None"

definition message_code :: "string \<Rightarrow> string" where
  "message_code message =
     (case find (starts_with message)
            [''artifact_tls_verification_failed'', ''artifact_http_status'', ''artifact_transport_failed'',
             ''artifact_digest_mismatch'', ''artifact_size_mismatch'', ''unknown_artifact_ref''] of
        Some code \<Rightarrow> code
      | None \<Rightarrow>
          if starts_with message ''verify failed'' then ''verification_failed''
          else if starts_with message ''missing capabilities'' then ''missing_capability''
          else if starts_with message ''conflicting steps'' then ''step_conflict''
          else ''step_execution_failed'')"

definition issue_code :: "step_run_status \<Rightarrow> string option \<Rightarrow> step_failure_kind option \<Rightarrow> string" where
  "issue_code status message failure_kind =
     (if status = Blocked then ''dependency_blocked''
      else (case Option.bind failure_kind failure_kind_code of
              Some code \<Rightarrow> code
            | None \<Rightarrow> message_code (unwrap_or message [])))"

definition json_field :: "json \<Rightarrow> string \<Rightarrow> json option" where
  "json_field v key = Option.bind (as_object v) (\<lambda>m. omap_get m key)"

fun as_bool :: "json \<Rightarrow> bool option" where
  "as_bool (JBool b) = Some b"
| "as_bool _ = None"

definition permission_warning :: "string option \<Rightarrow> string \<Rightarrow> json \<Rightarrow> execution_issue option" where
  "permission_warning rid sid action =
     (if Option.bind (json_field action ''status'') as_str = Some ''failed''
      then let planned_action = (json_field action ''permission_set'' \<noteq> None)
           in Some \<lparr> xi_code = (if planned_action then ''permission_action_failed'' else ''optional_permission_failed''),
                     xi_message = unwrap_or (Option.bind (json_field action ''message'') as_str)
                       (if planned_action then ''A permission action failed under the warning policy.''
                        else ''An optional permission action failed.''),
                     xi_recipe_id = rid, xi_step_id = Some sid \<rparr>
      else None)"

definition collect_permission_warnings ::
  "string option \<Rightarrow> string \<Rightarrow> runtime_value omap \<Rightarrow> execution_report \<Rightarrow> execution_report" where
  "collect_permission_warnings rid sid outputs report =
     (let actions = unwrap_or (Option.bind (omap_get outputs ''permission_results'')
            (\<lambda>v. Option.bind (json_field (rv_value v) ''actions'') as_array)) []
      in report \<lparr> xr_warnings := xr_warnings report @ List.map_filter (permission_warning rid sid) actions \<rparr>)"

definition collect_copy_staging_cleanup_warning ::
  "string option \<Rightarrow> string \<Rightarrow> runtime_value omap \<Rightarrow> execution_report \<Rightarrow> execution_report" where
  "collect_copy_staging_cleanup_warning rid sid outputs report =
     (let copy_report = map_option rv_value (omap_get outputs ''copy_commit_report'');
          field = (\<lambda>name. Option.bind copy_report (\<lambda>v. json_field v name));
          succeeded = (Option.bind (field ''succeeded'') as_bool = Some True);
          cleanup_pending = is_some_and (Option.bind (field ''stagingCleanupError'') as_str)
            (\<lambda>message. \<not> is_blank message)
      in if succeeded \<and> cleanup_pending
         then report \<lparr> xr_warnings := xr_warnings report @
           [\<lparr> xi_code = ''copy_staging_cleanup_pending'',
              xi_message = ''The copy completed successfully, but temporary staging cleanup is still pending.'',
              xi_recipe_id = rid, xi_step_id = Some sid \<rparr>] \<rparr>
         else report)"

section \<open>The end of an attempt\<close>

definition overall_status :: "execution_run_result \<Rightarrow> bool \<Rightarrow> execution_status" where
  "overall_status result has_warnings =
     (if run_cancelled result then ExecCancelled
      else if \<not> run_success result then ExecFailed
      else if has_warnings then ExecSucceededWithWarnings
      else ExecSucceeded)"

text \<open>One record of the run: its outputs, and an error or the warnings of the step.\<close>

definition finish_step :: "step_run_record \<Rightarrow> execution_report \<Rightarrow> execution_report" where
  "finish_step step_record report =
     (let sid = srr_step_id step_record;
          rid = map_option xs_recipe_id (find_step report sid);
          report = find_step_mut sid (\<lambda>s. s \<lparr> xs_outputs := srr_outputs step_record \<rparr>) report
      in case srr_status step_record of
           Executed \<Rightarrow>
             collect_copy_staging_cleanup_warning rid sid (srr_outputs step_record)
               (collect_permission_warnings rid sid (srr_outputs step_record) report)
         | Skipped \<Rightarrow> report
         | Cancelled \<Rightarrow> report
         | _ \<Rightarrow>
             report \<lparr> xr_errors := xr_errors report @
               [\<lparr> xi_code = issue_code (srr_status step_record) (srr_message step_record) (srr_failure_kind step_record),
                  xi_message = unwrap_or (srr_message step_record) ''Required execution work did not complete.'',
                  xi_recipe_id = rid, xi_step_id = Some sid \<rparr>] \<rparr>)"

definition finish_report :: "string \<Rightarrow> execution_run_result \<Rightarrow> execution_report \<Rightarrow> execution_report" where
  "finish_report now result report =
     (let report = report \<lparr> xr_resolved_releases := run_resolved_releases result,
                            xr_resolved_artifacts := run_resolved_artifacts result \<rparr>;
          report = fold finish_step (run_steps result) report;
          report = report \<lparr> xr_status := overall_status result (xr_warnings report \<noteq> []), xr_finished_at := Some now \<rparr>
      in apply_recipe_warning_statuses (refresh_recipe_statuses report))"

definition finish_attempt :: "string \<Rightarrow> string \<Rightarrow> execution_run_result \<Rightarrow> execution_record \<Rightarrow> execution_record" where
  "finish_attempt now now' result rec =
     (let report = finish_report now result (xc_report rec)
      in append_event now' ''execution_completed'' None None None (Some (execution_status_name (xr_status report))) None
           (Some (if xr_simulated report
                  then ''Simulated dry run completed; results do not establish real-device verification.''
                  else ''Execution completed.'')) None
           (rec \<lparr> xc_report := report \<rparr>))"

definition panic_issue :: execution_issue where
  "panic_issue = \<lparr> xi_code = ''execution_worker_panicked'', xi_message = ''Execution worker terminated unexpectedly.'',
     xi_recipe_id = None, xi_step_id = None \<rparr>"

definition panic_step :: "execution_step_report \<Rightarrow> execution_step_report" where
  "panic_step s =
     (if xs_status s = StepRunning
      then s \<lparr> xs_status := StepFailed,
               xs_message := Some ''The execution worker stopped before this operation reported completion.'' \<rparr>
      else s)"

definition panic_report :: "string \<Rightarrow> execution_report \<Rightarrow> execution_report" where
  "panic_report now report =
     refresh_recipe_statuses
       (report \<lparr> xr_recipes := map (\<lambda>recipe. recipe \<lparr> xrr_steps := map panic_step (xrr_steps recipe) \<rparr>) (xr_recipes report),
                 xr_status := ExecFailed, xr_finished_at := Some now, xr_errors := xr_errors report @ [panic_issue] \<rparr>)"

definition finish_panicked :: "string \<Rightarrow> string \<Rightarrow> execution_record \<Rightarrow> execution_record" where
  "finish_panicked now now' rec =
     append_event now' ''execution_worker_panicked'' None None None (Some ''failed'') None
       (Some (xi_message panic_issue)) (Some panic_issue) (rec \<lparr> xc_report := panic_report now (xc_report rec) \<rparr>)"

end
