(* ===== verification/Plan_Digest.thy ===== *)
theory Plan_Digest
  imports Plan_Types "HOL-Library.List_Lexorder" "HOL-Library.Char_ord" "HOL-Library.Finite_Map"
begin

text \<open>
  The digest that binds an execution to its review (\<open>plan_digest.rs\<close>): SHA-256 over the JSON of the plan
  with the keys of every object sorted.  \<open>str::cmp\<close> compares bytes, so it is the lexicographic order
  of byte lists.  The serialisation of a plan, which serde derives, is an argument.  The reference
  is the content of a value, in which an object is a finite map: two values get the same canonical
  form exactly when they have the same content.
\<close>

section \<open>The digest\<close>

function canonicalize :: "json \<Rightarrow> json" where
  "canonicalize (JObject m) = JObject (map (\<lambda>kv. (fst kv, canonicalize (snd kv))) (sort_key fst m))"
| "canonicalize (JArray vs) = JArray (map canonicalize vs)"
| "canonicalize JNull = JNull"
| "canonicalize (JBool b) = JBool b"
| "canonicalize (JNumber n) = JNumber n"
| "canonicalize (JString s) = JString s"
  by pat_completeness auto
termination
proof (relation "measure size")
  fix m kv assume "kv \<in> set (sort_key fst (m :: (string \<times> json) list))"
  then have "kv \<in> set m" by simp
  then have "size_prod (\<lambda>_. 0) size kv < size_list (size_prod (\<lambda>_. 0) size) m"
    by (induction m) auto
  then show "(snd kv, JObject m) \<in> measure size" by (cases kv) simp
qed (simp_all add: less_Suc_eq_le size_list_estimation')

definition hex_digit :: "nat \<Rightarrow> char" where
  "hex_digit n = (if n < 10 then char_of (48 + n) else char_of (87 + n))"

text \<open>\<open>format!("{byte:02x}")\<close>.\<close>

definition hex_byte :: "u8 \<Rightarrow> string" where
  "hex_byte b = [hex_digit (unat b div 16), hex_digit (unat b mod 16)]"

definition execution_plan_digest ::
  "externals \<Rightarrow> (execution_plan \<Rightarrow> json option) \<Rightarrow> execution_plan \<Rightarrow> string option" where
  "execution_plan_digest ext plan_json plan =
     map_option (\<lambda>v. concat (map hex_byte (ext_sha256 ext (ext_json_text ext (canonicalize v))))) (plan_json plan)"

section \<open>Content\<close>

datatype content =
    CNull
  | CBool bool
  | CNumber json_number
  | CString string
  | CArray "content list"
  | CObject "(string, content) fmap"

function content_of :: "json \<Rightarrow> content" where
  "content_of (JObject m) = CObject (fmap_of_list (map (\<lambda>kv. (fst kv, content_of (snd kv))) m))"
| "content_of (JArray vs) = CArray (map content_of vs)"
| "content_of JNull = CNull"
| "content_of (JBool b) = CBool b"
| "content_of (JNumber n) = CNumber n"
| "content_of (JString s) = CString s"
  by pat_completeness auto
termination
proof (relation "measure size")
  fix m kv assume "kv \<in> set (m :: (string \<times> json) list)"
  then have "size_prod (\<lambda>_. 0) size kv < size_list (size_prod (\<lambda>_. 0) size) m"
    by (induction m) auto
  then show "(snd kv, JObject m) \<in> measure size" by (cases kv) simp
qed (simp_all add: less_Suc_eq_le size_list_estimation')

text \<open>Objects read by serde have no key twice.\<close>

inductive unique_keys :: "json \<Rightarrow> bool" where
  "distinct (map fst m) \<Longrightarrow> (\<And>k v. (k, v) \<in> set m \<Longrightarrow> unique_keys v) \<Longrightarrow> unique_keys (JObject m)"
| "(\<And>v. v \<in> set vs \<Longrightarrow> unique_keys v) \<Longrightarrow> unique_keys (JArray vs)"
| "unique_keys JNull"
| "unique_keys (JBool b)"
| "unique_keys (JNumber n)"
| "unique_keys (JString s)"

inductive_simps unique_keys_simps [simp]: "unique_keys (JObject m)" "unique_keys (JArray vs)" "unique_keys JNull"
  "unique_keys (JBool b)" "unique_keys (JNumber n)" "unique_keys (JString s)"

primrec json_of :: "content \<Rightarrow> json" where
  "json_of CNull = JNull"
| "json_of (CBool b) = JBool b"
| "json_of (CNumber n) = JNumber n"
| "json_of (CString s) = JString s"
| "json_of (CArray cs) = JArray (map json_of cs)"
| "json_of (CObject m) = JObject (sorted_list_of_fmap (fmmap json_of m))"

lemma sorted_list_keys: "map fst (sorted_list_of_fmap m) = sorted_list_of_fset (fmdom m)"
  by (simp add: sorted_list_of_fmap_def comp_def)

lemma sorted_list_set: "set (sorted_list_of_fmap m) = {(k, v). fmlookup m k = Some v}"
  by (auto simp: sorted_list_of_fmap_def image_iff sorted_list_of_fset.rep_eq fmlookup_dom_iff)

lemma map_of_map_values: "map_of (map (\<lambda>kv. (fst kv, f (snd kv))) m) k = map_option f (map_of m k)"
  by (induction m) auto

lemma sorted_pairs_unique:
  assumes "sorted (map fst xs)" "sorted (map fst ys)" "distinct (map fst xs)" "distinct (map fst ys)" "set xs = set ys"
  shows "xs = (ys :: ('a :: linorder \<times> 'b) list)"
proof (rule map_sorted_distinct_set_unique [of fst])
  show "inj_on fst (set xs \<union> set ys)" using assms(3,5) by (simp add: distinct_map)
qed (use assms in auto)

lemma content_of_json_of: "content_of (json_of c) = c"
proof (induction c)
  case (CObject m)
  have IH: "content_of (json_of c) = c" if "fmlookup m k = Some c" for k c
    using CObject that by (auto intro: fmran'I)
  have "fmlookup (fmap_of_list (map (\<lambda>kv. (fst kv, content_of (snd kv))) (sorted_list_of_fmap (fmmap json_of m)))) k
      = fmlookup m k" for k
    using IH by (cases "fmlookup m k") (simp_all add: fmap_of_list.rep_eq map_of_map_values)
  then show ?case by (simp add: fmap_ext)
qed (simp_all add: map_idI)

lemma canonicalize_json_of: "unique_keys v \<Longrightarrow> canonicalize v = json_of (content_of v)"
proof (induction v rule: unique_keys.induct)
  case (1 m)
  let ?m = "map (\<lambda>kv. (fst kv, canonicalize (snd kv))) m"
  have "map (\<lambda>kv. (fst kv, canonicalize (snd kv))) (sort_key fst m) = sorted_list_of_fmap (fmap_of_list ?m)"
    using 1(1) sorted_sort_key [of fst m, unfolded sorted_map] by (intro sorted_pairs_unique)
      (auto simp: sorted_list_keys sorted_list_set comp_def fmap_of_list.rep_eq sorted_list_of_fset.rep_eq
        sorted_map distinct_map inj_on_def image_iff)
  also have "fmap_of_list ?m = fmmap json_of (fmap_of_list (map (\<lambda>kv. (fst kv, content_of (snd kv))) m))"
  proof -
    have "?m = map (\<lambda>kv. (fst kv, json_of (content_of (snd kv)))) m"
      using 1(3) by (auto intro!: map_cong)
    then show ?thesis by (simp only: fmmap_of_list map_map comp_def apsnd_def map_prod_def id_apply case_prod_beta fst_conv snd_conv)
  qed
  finally show ?case by simp
qed simp_all

section \<open>What a digest identifies\<close>

text \<open> C22: Two JSON values whose objects have no key twice get the same canonical form exactly when
  they have the same content: the order in which a plan was serialised never changes its digest, and
  every difference in content reaches the bytes that are hashed.\<close>

theorem canonicalize_eq_iff:
  assumes "unique_keys v" and "unique_keys w"
  shows "canonicalize v = canonicalize w \<longleftrightarrow> content_of v = content_of w"
  using canonicalize_json_of [OF assms(1)] canonicalize_json_of [OF assms(2)] content_of_json_of by metis

theorem canonicalize_eq_iff_witness:
  "canonicalize (JObject [(''b'', JNull), (''a'', JArray [JBool True])])
     = canonicalize (JObject [(''a'', JArray [JBool True]), (''b'', JNull)]) \<longleftrightarrow>
   content_of (JObject [(''b'', JNull), (''a'', JArray [JBool True])])
     = content_of (JObject [(''a'', JArray [JBool True]), (''b'', JNull)])"
  by (rule canonicalize_eq_iff) auto

end
