(* ===== verification/Execution_Session.thy ===== *)
theory Execution_Session
  imports Session_Updates Plan_Digest App_Authority
begin

text \<open>
  The operations of \<open>ExecutionSessionManager\<close> (\<open>execution_session.rs\<close>): admission of a plan, the start of an
  execution, reads, cancellation, and the launch of an app after a successful execution.  Each
  operation holds the lock of the manager, so it is a function on the state.  The host is a
  parameter: the record \<open>session_host\<close> holds the configuration of the sidecar, the artifact
  resolver and the form of a plan as JSON; the answer of a device probe is an argument of the
  operation that asks for it.
\<close>

section \<open>Errors\<close>

datatype api_error_code =
  InvalidRequest | InvalidCommand | CommandFailed | LoadFailed | SaveFailed | UnknownDocument | ValidationFailed
  | InternalError | InvalidExecutionPlan | PlanDigestMismatch | TargetDeviceMismatch | ExecutionInProgress
  | UnknownExecution | ExecutionStartFailed | LaunchUnavailable | LaunchFailed | ExistingAppOutsideRoot
  | ExistingAppUnavailable | ExistingAppInvalid | AppCatalogInventoryIncomplete | ReviewInvalidated | ReviewBlocking
  | StaleReview | DirtyAppDocument | PublicationDenied | ExpiredSession

record api_error =
  ae_code :: api_error_code
  ae_message :: string
  ae_details :: json

definition api_error :: "api_error_code \<Rightarrow> string \<Rightarrow> (string \<times> json) list \<Rightarrow> api_error" where
  "api_error code message details = \<lparr> ae_code = code, ae_message = message, ae_details = JObject details \<rparr>"

definition unknown_execution :: "string \<Rightarrow> api_error" where
  "unknown_execution execution_id =
     api_error UnknownExecution (''Unknown execution id: '' @ execution_id) [(''executionId'', JString execution_id)]"

section \<open>The host\<close>

record sidecar_runtime_config =
  cfg_runtime_root :: string
  cfg_cache_root :: string
  cfg_adb_path :: string

record device_facts =
  df_manufacturer :: "string option"
  df_model :: "string option"
  df_android_api_level :: "int option"

text \<open>\<open>Path::join\<close> of a relative path.\<close>

definition join_path :: "string \<Rightarrow> string \<Rightarrow> string" where
  "join_path parent child =
     (if parent = [] \<or> last parent = CHR ''/'' then parent @ child else parent @ ''/'' @ child)"

text \<open>The resolver answers with an error code, or with none.\<close>

record artifact_admission =
  aa_admit :: "sandbox_roots \<Rightarrow> string \<Rightarrow> string \<Rightarrow> string \<Rightarrow> string \<Rightarrow> string option"
  aa_admit_direct_url :: "sandbox_roots \<Rightarrow> string \<Rightarrow> string \<Rightarrow> string \<Rightarrow> string \<Rightarrow> string option \<Rightarrow> string option"
  aa_admit_local_input :: "sandbox_roots \<Rightarrow> string \<Rightarrow> string \<Rightarrow> string \<Rightarrow> string option"
  aa_admit_late_bound :: "sandbox_roots \<Rightarrow> string \<Rightarrow> string \<Rightarrow> string option"

record session_host =
  sn_ext :: externals
  sn_config :: sidecar_runtime_config
  sn_current_dir :: "string option"
  sn_is_dir :: "string \<Rightarrow> bool"
  sn_plan_json :: "execution_plan \<Rightarrow> json option"
  sn_resolver :: artifact_admission

definition read_only_roots :: "string option \<Rightarrow> execution_plan \<Rightarrow> string list" where
  "read_only_roots current_dir plan =
     (case current_dir of None \<Rightarrow> [] | Some cwd \<Rightarrow> [cwd])
     @ concat (map (\<lambda>input.
         let v = rv_value (eiv_value input)
         in if rv_location (eiv_value input) \<noteq> Some ''host'' then []
            else (case as_str v of None \<Rightarrow> [] | Some path \<Rightarrow> [path])
              @ (case as_array v of None \<Rightarrow> [] | Some paths \<Rightarrow> List.map_filter as_str paths)) (plan_inputs plan))
     @ List.map_filter (\<lambda>artifact.
         case ea_source artifact of
           SrcRemoteFile url \<Rightarrow> strip_prefix ''file://'' url
         | _ \<Rightarrow> None) (plan_artifacts plan)"

definition attempt_sandbox :: "session_host \<Rightarrow> string \<Rightarrow> execution_plan \<Rightarrow> sandbox_roots" where
  "attempt_sandbox host execution_id plan =
     (let attempt_root = join_path (join_path (cfg_runtime_root (sn_config host)) ''executions'') execution_id
      in \<lparr> sb_runtime_root = attempt_root, sb_cache_root = cfg_cache_root (sn_config host),
           sb_fake_device_root = join_path attempt_root ''simulated-device'',
           sb_read_only_roots = read_only_roots (sn_current_dir host) plan \<rparr>)"

section \<open>Admission of the artifacts\<close>

definition validate_artifact_provenance :: "execution_plan \<Rightarrow> execution_artifact \<Rightarrow> bool" where
  "validate_artifact_provenance plan artifact =
     (case ea_source artifact of
        SrcRemoteFile _ \<Rightarrow> ea_app_provenance artifact = None
      | _ \<Rightarrow>
          (case ea_app_provenance artifact of
             None \<Rightarrow> False
           | Some provenance \<Rightarrow>
               ea_type_name artifact = ''remote_file''
               \<and> is_valid_identifier (prov_app_id provenance) \<and> is_valid_identifier (prov_artifact_id provenance)
               \<and> prov_kind provenance \<in> set [''apk'', ''file'']
               \<and> length (filter (\<lambda>app. apps_id app = prov_app_id provenance) (plan_apps plan)) = 1
               \<and> \<not> list_ex (\<lambda>other. is_some_and (ea_app_provenance other) (\<lambda>p.
                     prov_app_id p = prov_app_id provenance \<and> prov_artifact_id p = prov_artifact_id provenance
                     \<and> prov_kind p \<noteq> prov_kind provenance)) (plan_artifacts plan)))"

definition artifact_admission_error ::
  "session_host \<Rightarrow> sandbox_roots \<Rightarrow> execution_plan \<Rightarrow> execution_artifact \<Rightarrow> string option" where
  "artifact_admission_error host sandbox plan artifact =
     (let resolver = sn_resolver host; type = ea_type_name artifact; cache = ea_cache artifact
      in case ea_source artifact of
           SrcRemoteFile url \<Rightarrow> aa_admit resolver sandbox (ea_id artifact) type url cache
         | SrcDirectUrl url sha256 \<Rightarrow> aa_admit_direct_url resolver sandbox (ea_id artifact) type url cache sha256
         | SrcLocalInput input_id \<Rightarrow>
             (case validated_local_input_path plan input_id of
                Inr path \<Rightarrow> aa_admit_local_input resolver sandbox type cache path
              | Inl _ \<Rightarrow> Some ''app_artifact_input_binding_invalid'')
         | SrcRemoteRelease provider service_origin repository _ asset_pattern invert_asset_pattern \<Rightarrow>
             (case validate_remote_release_policy (sn_ext host) provider service_origin repository
                     (case ea_app_provenance artifact of None \<Rightarrow> [] | Some p \<Rightarrow> prov_kind p)
                     asset_pattern invert_asset_pattern of
                Inl _ \<Rightarrow> Some ''remote_release_policy_invalid''
              | Inr _ \<Rightarrow> aa_admit_late_bound resolver sandbox type cache))"

definition artifact_not_ready :: "string \<Rightarrow> api_error" where
  "artifact_not_ready artifact_code =
     api_error ExecutionStartFailed ''Execution artifacts are not ready.''
       [(''code'', JString ''artifact_not_ready''), (''artifactCode'', JString artifact_code)]"

definition admit_plan_artifacts :: "session_host \<Rightarrow> execution_plan \<Rightarrow> sandbox_roots \<Rightarrow> api_error + unit" where
  "admit_plan_artifacts host plan sandbox =
     (case validate_execution_plan_local_input_bindings plan of
        Inl artifact_code \<Rightarrow> Inl (artifact_not_ready artifact_code)
      | Inr _ \<Rightarrow>
          (case first_some (map (\<lambda>artifact.
                   if \<not> validate_artifact_provenance plan artifact then Some ''app_artifact_provenance_invalid''
                   else artifact_admission_error host sandbox plan artifact) (plan_artifacts plan)) of
             Some artifact_code \<Rightarrow> Inl (artifact_not_ready artifact_code)
           | None \<Rightarrow> Inr ()))"

section \<open>The target device\<close>

definition reject_target_mismatch ::
  "externals \<Rightarrow> target_device_binding \<Rightarrow> target_device_binding \<Rightarrow> api_error + unit" where
  "reject_target_mismatch ext reviewed actual =
     (case target_mismatch_field ext reviewed actual of
        Some field \<Rightarrow> Inl (api_error TargetDeviceMismatch ''Target device does not match the reviewed plan.''
                         [(''field'', JString field)])
      | None \<Rightarrow> Inr ())"

fun check_supplied_target ::
  "externals \<Rightarrow> target_device_binding option \<Rightarrow> target_device_binding option \<Rightarrow> api_error + unit" where
  "check_supplied_target ext (Some reviewed) (Some supplied) = reject_target_mismatch ext reviewed supplied"
| "check_supplied_target ext _ _ = Inr ()"

text \<open>\<open>probe\<close> is the answer of the device with a serial, when it can be read.\<close>

definition preflight_target ::
  "externals \<Rightarrow> (string \<Rightarrow> device_facts option) \<Rightarrow> execution_plan \<Rightarrow> execution_mode \<Rightarrow> target_device_binding option
     \<Rightarrow> api_error + target_device_binding option" where
  "preflight_target ext probe plan mode supplied =
     (case check_supplied_target ext (plan_target_device plan) supplied of
        Inl error \<Rightarrow> Inl error
      | Inr _ \<Rightarrow>
          if mode = DryRunMode then Inr (or_else supplied (plan_target_device plan))
          else (case plan_target_device plan of
                  None \<Rightarrow> Inl (api_error InvalidExecutionPlan
                    ''Real execution requires reviewed target-device binding data.''
                    [(''field'', JString ''plan.target_device'')])
                | Some reviewed \<Rightarrow>
                    let serial = (case supplied of Some target \<Rightarrow> td_serial target | None \<Rightarrow> td_serial reviewed)
                    in (case probe serial of
                         None \<Rightarrow> Inl (api_error ExecutionStartFailed
                           ''Target-device preflight could not read stable ADB facts.''
                           [(''code'', JString ''target_device_probe_failed'')])
                       | Some facts \<Rightarrow>
                           let actual = \<lparr> td_serial = serial, td_manufacturer = df_manufacturer facts,
                                          td_model = df_model facts, td_android_api_level = df_android_api_level facts \<rparr>
                           in map_sum id (\<lambda>_. Some actual) (reject_target_mismatch ext reviewed actual))))"

section \<open>The state of the manager\<close>

record session_state =
  ss_next_execution_id :: nat
  ss_active_execution_id :: "string option"
  ss_records :: "(string, execution_record) fmap"

definition new_session_state :: session_state where
  "new_session_state = \<lparr> ss_next_execution_id = 0, ss_active_execution_id = None, ss_records = fmempty \<rparr>"

definition execution_id_of :: "nat \<Rightarrow> string" where
  "execution_id_of number = ''execution-'' @ show_nat number"

text \<open>\<open>acquire_execution_slot_locked\<close>, and the drop of the lease it returns.\<close>

definition acquire_execution_slot :: "string \<Rightarrow> session_state \<Rightarrow> session_state" where
  "acquire_execution_slot execution_id st = st \<lparr> ss_active_execution_id := Some execution_id \<rparr>"

definition release_execution_slot :: "string \<Rightarrow> session_state \<Rightarrow> session_state" where
  "release_execution_slot execution_id st =
     (if ss_active_execution_id st = Some execution_id then st \<lparr> ss_active_execution_id := None \<rparr> else st)"

definition update_record ::
  "string \<Rightarrow> (execution_record \<Rightarrow> execution_record) \<Rightarrow> session_state \<Rightarrow> session_state" where
  "update_record execution_id f st =
     (case fmlookup (ss_records st) execution_id of
        None \<Rightarrow> st
      | Some rec \<Rightarrow> st \<lparr> ss_records := fmupd execution_id (f rec) (ss_records st) \<rparr>)"

text \<open>What \<open>start\<close> hands to the worker.\<close>

record worker_job =
  wj_execution_id :: string
  wj_plan :: execution_plan
  wj_mode :: execution_mode
  wj_target :: "target_device_binding option"

definition plan_field_error :: "string \<Rightarrow> api_error" where
  "plan_field_error message = api_error InvalidExecutionPlan message [(''field'', JString ''plan'')]"

text \<open>The checks that \<open>start\<close> makes before it takes the lock: the digest and the target.\<close>

definition check_start ::
  "session_host \<Rightarrow> (string \<Rightarrow> device_facts option) \<Rightarrow> execution_plan \<Rightarrow> string \<Rightarrow> execution_mode
     \<Rightarrow> target_device_binding option \<Rightarrow> api_error + string \<times> target_device_binding option" where
  "check_start host probe plan required_digest mode supplied =
     (let ext = sn_ext host in
      case validate_supported_copy_plan ext (sn_is_dir host) plan of
        Inl message \<Rightarrow> Inl (plan_field_error message)
      | Inr _ \<Rightarrow>
          (case validate_copy_commit_snapshot_coverage ext (sn_is_dir host) plan of
             Inl message \<Rightarrow> Inl (plan_field_error message)
           | Inr _ \<Rightarrow>
               (case execution_plan_digest ext (sn_plan_json host) plan of
                  None \<Rightarrow> Inl (api_error InvalidExecutionPlan ''Execution plan could not be canonically hashed.'' [])
                | Some actual_digest \<Rightarrow>
                    if actual_digest \<noteq> ext_lowercase ext required_digest
                    then Inl (api_error PlanDigestMismatch ''Execution plan changed after review.''
                           [(''expectedPlanDigest'', JString required_digest), (''actualPlanDigest'', JString actual_digest)])
                    else map_sum id (\<lambda>target. (actual_digest, target))
                           (preflight_target ext probe plan mode supplied))))"

definition started_record ::
  "session_host \<Rightarrow> string \<Rightarrow> string \<Rightarrow> string \<Rightarrow> execution_plan \<Rightarrow> string \<Rightarrow> execution_mode \<Rightarrow> target_device_binding option
     \<Rightarrow> execution_record" where
  "started_record host now now' execution_id plan digest mode target =
     append_event now' ''execution_started'' None None None (Some ''running'') None
       (Some (if mode = DryRunMode
              then ''Simulated dry run started; no real-device verification is performed.''
              else ''Execution started.'')) None
       \<lparr> xc_report = initial_report (sn_ext host) now execution_id plan digest mode target, xc_events = [],
         xc_cancel_requested = False \<rparr>"

definition start_execution ::
  "session_host \<Rightarrow> string \<Rightarrow> string \<Rightarrow> (string \<Rightarrow> device_facts option) \<Rightarrow> execution_plan \<Rightarrow> string \<Rightarrow> execution_mode
     \<Rightarrow> target_device_binding option \<Rightarrow> session_state \<Rightarrow> (api_error + worker_job) \<times> session_state" where
  "start_execution host now now' probe plan required_digest mode supplied st =
     (case check_start host probe plan required_digest mode supplied of
        Inl error \<Rightarrow> (Inl error, st)
      | Inr (actual_digest, target) \<Rightarrow>
          (case ss_active_execution_id st of
             Some active \<Rightarrow>
               (Inl (api_error ExecutionInProgress ''Only one execution may be active in a sidecar process.''
                  [(''activeExecutionId'', JString active)]), st)
           | None \<Rightarrow>
               let prospective_number = ss_next_execution_id st + 1;
                   execution_id = execution_id_of prospective_number
               in (case admit_plan_artifacts host plan (attempt_sandbox host execution_id plan) of
                    Inl error \<Rightarrow> (Inl error, st)
                  | Inr _ \<Rightarrow>
                      (Inr \<lparr> wj_execution_id = execution_id, wj_plan = plan, wj_mode = mode, wj_target = target \<rparr>,
                       acquire_execution_slot execution_id
                         (st \<lparr> ss_next_execution_id := prospective_number,
                               ss_records := fmupd execution_id
                                 (started_record host now now' execution_id plan actual_digest mode target)
                                 (ss_records st) \<rparr>)))))"

section \<open>Reads and cancellation\<close>

definition get_execution :: "string \<Rightarrow> session_state \<Rightarrow> api_error + execution_report" where
  "get_execution execution_id st =
     map_sum id xc_report (ok_or (fmlookup (ss_records st) execution_id) (unknown_execution execution_id))"

record events_page =
  pg_execution_id :: string
  pg_events :: "execution_event list"
  pg_latest_sequence :: nat
  pg_terminal :: bool

definition execution_events :: "string \<Rightarrow> nat \<Rightarrow> session_state \<Rightarrow> api_error + events_page" where
  "execution_events execution_id after_sequence st =
     (case fmlookup (ss_records st) execution_id of
        None \<Rightarrow> Inl (unknown_execution execution_id)
      | Some rec \<Rightarrow>
          Inr \<lparr> pg_execution_id = execution_id,
                pg_events = filter (\<lambda>event. after_sequence < ev_sequence event) (xc_events rec),
                pg_latest_sequence = xr_latest_sequence (xc_report rec),
                pg_terminal = (xr_status (xc_report rec) \<noteq> ExecRunning) \<rparr>)"

record cancel_answer =
  ca_accepted :: bool
  ca_status :: execution_status

definition request_cancel :: "string \<Rightarrow> execution_record \<Rightarrow> execution_record" where
  "request_cancel now rec =
     append_event now ''cancel_requested'' None None None (Some ''running'') None
       (Some ''Cancellation will be observed after the current atomic operation.'') None
       (rec \<lparr> xc_cancel_requested := True \<rparr>)"

definition cancel_execution ::
  "string \<Rightarrow> string \<Rightarrow> session_state \<Rightarrow> (api_error + cancel_answer) \<times> session_state" where
  "cancel_execution now execution_id st =
     (case fmlookup (ss_records st) execution_id of
        None \<Rightarrow> (Inl (unknown_execution execution_id), st)
      | Some rec \<Rightarrow>
          if xr_status (xc_report rec) \<noteq> ExecRunning
          then (Inr \<lparr> ca_accepted = False, ca_status = xr_status (xc_report rec) \<rparr>, st)
          else (Inr \<lparr> ca_accepted = True, ca_status = ExecRunning \<rparr>, update_record execution_id (request_cancel now) st))"

section \<open>Launch after success\<close>

definition launch_unavailable :: "string \<Rightarrow> (string \<times> json) list \<Rightarrow> api_error" where
  "launch_unavailable message details = api_error LaunchUnavailable message details"

fun launch_candidates ::
  "execution_plan \<Rightarrow> string set \<Rightarrow> execution_step list \<Rightarrow> api_error + (string \<times> string option) list" where
  "launch_candidates plan done_ids [] = Inr []"
| "launch_candidates plan done_ids (step # steps) =
     (if es_type_name step \<noteq> ''launch_app'' \<or> es_id step \<notin> done_ids \<or> es_app_id step = None
      then launch_candidates plan done_ids steps
      else (case validated_plan_lifecycle_target plan step of
              Inl reason \<Rightarrow> Inl (launch_unavailable
                ''The retained app launch does not match its reviewed App snapshot.'' [(''reason'', JString reason)])
            | Inr candidate \<Rightarrow> map_sum id (List.insert candidate) (launch_candidates plan done_ids steps)))"

definition eligible_launch_candidate :: "execution_report \<Rightarrow> api_error + string \<times> string option" where
  "eligible_launch_candidate report =
     (if xr_mode report \<noteq> RealMode \<or> xr_status report \<notin> {ExecSucceeded, ExecSucceededWithWarnings}
      then Inl (launch_unavailable ''This execution is not eligible to launch an app.'' [])
      else (case launch_candidates (xr_reviewed_plan report)
                   (set (map xs_step_id (filter (\<lambda>s. xs_status s = StepSucceeded) (report_steps (xr_recipes report)))))
                   (plan_steps (xr_reviewed_plan report)) of
              Inl error \<Rightarrow> Inl error
            | Inr [candidate] \<Rightarrow> Inr candidate
            | Inr _ \<Rightarrow> Inl (launch_unavailable
                ''The retained execution does not establish exactly one safe launch candidate.'' [])))"

text \<open>The launch itself: \<open>launch\<close> is the device with a serial, started with a package and an activity.\<close>

definition launch_app ::
  "externals \<Rightarrow> (string \<Rightarrow> device_facts option) \<Rightarrow> (string \<Rightarrow> string \<Rightarrow> string option \<Rightarrow> bool) \<Rightarrow> string \<Rightarrow> session_state
     \<Rightarrow> api_error + unit" where
  "launch_app ext probe launch execution_id st =
     (case fmlookup (ss_records st) execution_id of
        None \<Rightarrow> Inl (unknown_execution execution_id)
      | Some rec \<Rightarrow>
          (case eligible_launch_candidate (xc_report rec) of
             Inl error \<Rightarrow> Inl error
           | Inr (package_name, activity) \<Rightarrow>
               (case preflight_target ext probe (xr_reviewed_plan (xc_report rec)) RealMode
                       (xr_target_device (xc_report rec)) of
                  Inl error \<Rightarrow> Inl error
                | Inr None \<Rightarrow> Inl (launch_unavailable
                    ''The retained execution no longer has an eligible launch target.'' [])
                | Inr (Some target) \<Rightarrow>
                    if launch (td_serial target) package_name activity then Inr ()
                    else Inl (api_error LaunchFailed ''The configured app could not be launched.'' []))))"

end
