(* ===== verification/Session_Log.thy ===== *)
theory Session_Log
  imports Execution_Session Exec_Run
begin

text \<open>
  The event log of one execution and the report it explains.  Every update of a record ends with an
  appended event, so the sequence numbers of a log are 1, 2, and so on, and the last one is the
  \<open>latest_sequence\<close> of the report.  The status of a step in the report is the one told by the last
  progress event about it.
\<close>

section \<open>The log\<close>

definition log_ok :: "string \<Rightarrow> execution_record \<Rightarrow> bool" where
  "log_ok execution_id rec \<longleftrightarrow>
     xr_execution_id (xc_report rec) = execution_id
     \<and> map ev_sequence (xc_events rec) = [1 ..< Suc (length (xc_events rec))]
     \<and> xr_latest_sequence (xc_report rec) = length (xc_events rec)
     \<and> (\<forall>ev \<in> set (xc_events rec). ev_execution_id ev = execution_id)"

text \<open>Reports that agree on what the log depends on.\<close>

definition same_log :: "execution_report \<Rightarrow> execution_report \<Rightarrow> bool" where
  "same_log r r' \<longleftrightarrow> xr_execution_id r = xr_execution_id r' \<and> xr_latest_sequence r = xr_latest_sequence r'
     \<and> xr_reviewed_plan r = xr_reviewed_plan r'"

lemma same_log_refl [simp]: "same_log r r"
  by (simp add: same_log_def)

lemma same_log_trans: "same_log a b \<Longrightarrow> same_log b c \<Longrightarrow> same_log a c"
  by (simp add: same_log_def)

lemma append_event_simps [simp]:
  "xc_report (append_event now t rid sid p s n m i rec) = (xc_report rec) \<lparr> xr_latest_sequence := Suc (xr_latest_sequence (xc_report rec)) \<rparr>"
  "xc_cancel_requested (append_event now t rid sid p s n m i rec) = xc_cancel_requested rec"
  by (simp_all add: append_event_def Let_def)

lemma append_event_events:
  "xc_events (append_event now t rid sid p s n m i rec) = xc_events rec @
     [\<lparr> ev_sequence = Suc (xr_latest_sequence (xc_report rec)), ev_timestamp = now,
        ev_execution_id = xr_execution_id (xc_report rec), ev_event_type = t, ev_recipe_id = rid, ev_step_id = sid,
        ev_phase = p, ev_status = s, ev_note = n, ev_message = m, ev_issue = i \<rparr>]"
  by (simp add: append_event_def Let_def)

lemma log_ok_append:
  assumes "log_ok execution_id rec" and "same_log (xc_report rec) report"
  shows "log_ok execution_id (append_event now t rid sid p s n m i (rec \<lparr> xc_report := report \<rparr>))"
  using assms by (auto simp: log_ok_def same_log_def append_event_events)

lemma same_log_updates:
  "same_log r (find_step_mut sid f r)" "same_log r (refresh_recipe_statuses r)" "same_log r (apply_recipe_warning_statuses r)"
  "same_log r (collect_permission_warnings rid sid outs r)" "same_log r (collect_copy_staging_cleanup_warning rid sid outs r)"
  by (simp_all add: same_log_def find_step_mut_def refresh_recipe_statuses_def apply_recipe_warning_statuses_def
      collect_permission_warnings_def collect_copy_staging_cleanup_warning_def Let_def)

lemma same_log_finish_step: "same_log r (finish_step sr r)"
  using same_log_updates
  by (auto simp: finish_step_def Let_def same_log_def split: step_run_status.split)

lemma same_log_finish_steps: "same_log r (fold finish_step srs r)"
  by (induction srs arbitrary: r) (auto intro: same_log_trans same_log_finish_step)

lemma same_log_finish_report: "same_log r (finish_report now result r)"
  using same_log_finish_steps [of "r \<lparr> xr_resolved_releases := a, xr_resolved_artifacts := b \<rparr>" for a b]
  by (auto simp: finish_report_def Let_def same_log_def refresh_recipe_statuses_def apply_recipe_warning_statuses_def)

lemma same_log_panic: "same_log r (panic_report now r)"
  by (simp add: same_log_def panic_report_def refresh_recipe_statuses_def)

lemma log_ok_updates:
  assumes "log_ok execution_id rec"
  shows "log_ok execution_id (record_progress now event rec)" "log_ok execution_id (finish_attempt now now' result rec)"
    "log_ok execution_id (finish_panicked now now' rec)" "log_ok execution_id (request_cancel now rec)"
proof -
  show "log_ok execution_id (record_progress now event rec)"
    unfolding record_progress_def Let_def
    by (rule log_ok_append [OF assms]) (rule same_log_trans [OF same_log_updates(1) same_log_updates(2)])
  show "log_ok execution_id (finish_attempt now now' result rec)"
    unfolding finish_attempt_def Let_def by (rule log_ok_append [OF assms same_log_finish_report])
  show "log_ok execution_id (finish_panicked now now' rec)"
    unfolding finish_panicked_def by (rule log_ok_append [OF assms same_log_panic])
  show "log_ok execution_id (request_cancel now rec)"
    using assms by (auto simp: request_cancel_def log_ok_def append_event_events)
qed

lemma log_ok_started: "log_ok execution_id (started_record host now now' execution_id plan digest mode target)"
  by (simp add: log_ok_def started_record_def append_event_events initial_report_def split: prod.split)

lemma updates_reviewed_plan [simp]:
  "xr_reviewed_plan (xc_report (record_progress now event rec)) = xr_reviewed_plan (xc_report rec)"
  "xr_reviewed_plan (xc_report (finish_attempt now now' result rec)) = xr_reviewed_plan (xc_report rec)"
  "xr_reviewed_plan (xc_report (finish_panicked now now' rec)) = xr_reviewed_plan (xc_report rec)"
  "xr_reviewed_plan (xc_report (request_cancel now rec)) = xr_reviewed_plan (xc_report rec)"
  using same_log_finish_report [of "xc_report rec"] same_log_panic [of "xc_report rec"]
  by (simp_all add: record_progress_def finish_attempt_def finish_panicked_def request_cancel_def Let_def same_log_def
      find_step_mut_def refresh_recipe_statuses_def)

text \<open>What a client sees that reads the events after the ones it already has.\<close>

lemma log_suffix:
  assumes "log_ok execution_id rec"
  shows "filter (\<lambda>event. k < ev_sequence event) (xc_events rec) = drop k (xc_events rec)"
proof -
  have "filter (\<lambda>event. k < ev_sequence event) evs = drop (k - n) evs"
    if "map ev_sequence evs = [Suc n ..< Suc n + length evs]" for evs n
    using that
  proof (induction evs arbitrary: n)
    case (Cons ev evs)
    from Cons.prems have head: "ev_sequence ev = Suc n" and tail: "map ev_sequence evs = [Suc (Suc n) ..< Suc (Suc n) + length evs]"
      by (simp_all add: upt_conv_Cons del: upt_Suc)
    have "k - n = (if n < k then Suc (k - Suc n) else 0)" by auto
    with Cons.IH [OF tail] head show ?case by auto
  qed simp
  from this [of "xc_events rec" 0] assms show ?thesis by (simp add: log_ok_def del: upt_Suc)
qed

section \<open>The steps of a report\<close>

lemma find_append: "find P (xs @ ys) = (case find P xs of None \<Rightarrow> find P ys | Some x \<Rightarrow> Some x)"
  by (induction xs) auto

lemma find_update_first:
  assumes "\<And>s. xs_step_id (f s) = xs_step_id s"
  shows "find (\<lambda>s. xs_step_id s = sid') (update_first sid f ss) =
    (if sid' = sid then map_option f (find (\<lambda>s. xs_step_id s = sid) ss) else find (\<lambda>s. xs_step_id s = sid') ss)"
  by (induction ss) (auto simp: assms)

lemma report_steps_Cons [simp]: "report_steps (r # rs) = xrr_steps r @ report_steps rs" "report_steps [] = []"
  by (simp_all add: report_steps_def)

lemma find_update_step:
  assumes "\<And>s. xs_step_id (f s) = xs_step_id s"
  shows "find (\<lambda>s. xs_step_id s = sid') (report_steps (update_step sid f rs)) =
    (if sid' = sid then map_option f (find (\<lambda>s. xs_step_id s = sid) (report_steps rs))
     else find (\<lambda>s. xs_step_id s = sid') (report_steps rs))"
proof (induction rs)
  case (Cons r rs)
  have "find (\<lambda>s. xs_step_id s = sid) (xrr_steps r) = None \<longleftrightarrow> \<not> list_ex (\<lambda>s. xs_step_id s = sid) (xrr_steps r)"
    by (auto simp: find_None_iff list_ex_iff)
  with Cons find_update_first [of f, OF assms] show ?case
    by (auto simp: find_append split: option.splits)
qed simp

lemma find_step_find_step_mut:
  assumes "\<And>s. xs_step_id (f s) = xs_step_id s"
  shows "find_step (find_step_mut sid f r) sid' = (if sid' = sid then map_option f (find_step r sid) else find_step r sid')"
  using find_update_step [of f, OF assms] by (simp add: find_step_def find_step_mut_def)

lemma report_steps_map_status [simp]:
  "report_steps (map (\<lambda>r. r \<lparr> xrr_status := g r \<rparr>) rs) = report_steps rs"
  by (induction rs) auto

lemma report_steps_warn [simp]:
  "report_steps (map (\<lambda>r. if P r then r \<lparr> xrr_status := c \<rparr> else r) rs) = report_steps rs"
  by (induction rs) auto

lemma find_step_refresh [simp]:
  "find_step (refresh_recipe_statuses r) sid = find_step r sid"
  "find_step (apply_recipe_warning_statuses r) sid = find_step r sid"
  by (simp_all add: find_step_def refresh_recipe_statuses_def apply_recipe_warning_statuses_def Let_def)

definition report_status :: "execution_report \<Rightarrow> string \<Rightarrow> step_execution_status option" where
  "report_status report sid = map_option xs_status (find_step report sid)"

lemma report_status_refresh [simp]:
  "report_status (refresh_recipe_statuses r) sid = report_status r sid"
  "report_status (apply_recipe_warning_statuses r) sid = report_status r sid"
  "report_status (r \<lparr> xr_latest_sequence := n \<rparr>) sid = report_status r sid"
  "report_status (r \<lparr> xr_resolved_releases := a \<rparr>) sid = report_status r sid"
  "report_status (r \<lparr> xr_resolved_artifacts := b \<rparr>) sid = report_status r sid"
  "report_status (r \<lparr> xr_status := s \<rparr>) sid = report_status r sid"
  "report_status (r \<lparr> xr_finished_at := t \<rparr>) sid = report_status r sid"
  "report_status (r \<lparr> xr_errors := es \<rparr>) sid = report_status r sid"
  "report_status (r \<lparr> xr_warnings := es \<rparr>) sid = report_status r sid"
  by (simp_all add: report_status_def) (simp_all add: find_step_def)

lemma report_status_finish_step [simp]: "report_status (finish_step sr r) sid = report_status r sid"
proof -
  have "report_status (find_step_mut (srr_step_id sr) (\<lambda>s. s \<lparr> xs_outputs := srr_outputs sr \<rparr>) r) sid = report_status r sid"
    by (simp add: report_status_def find_step_find_step_mut option.map_comp comp_def)
  then show ?thesis
    by (simp add: finish_step_def Let_def collect_permission_warnings_def collect_copy_staging_cleanup_warning_def
        split: step_run_status.split)
qed

lemma report_status_finish [simp]: "report_status (finish_report now result r) sid = report_status r sid"
proof -
  have "report_status (fold finish_step srs r') sid = report_status r' sid" for srs r'
    by (induction srs arbitrary: r') auto
  then show ?thesis by (simp add: finish_report_def Let_def)
qed

lemma report_status_panic:
  "report_status (panic_report now r) sid = map_option (\<lambda>s. if s = StepRunning then StepFailed else s) (report_status r sid)"
proof -
  have "find (\<lambda>s. xs_step_id s = sid) (map panic_step ss) = map_option panic_step (find (\<lambda>s. xs_step_id s = sid) ss)" for ss
    by (induction ss) (auto simp: panic_step_def)
  moreover have "report_steps (map (\<lambda>recipe. recipe \<lparr> xrr_steps := map panic_step (xrr_steps recipe) \<rparr>) rs) = map panic_step (report_steps rs)" for rs
    by (induction rs) auto
  ultimately show ?thesis
    unfolding panic_report_def report_status_refresh(1)
    by (cases "find (\<lambda>s. xs_step_id s = sid) (report_steps (xr_recipes r))")
      (simp_all add: report_status_def find_step_def panic_step_def)
qed

section \<open>The report told by the log\<close>

definition status_named :: "string option \<Rightarrow> step_execution_status" where
  "status_named name =
     (if name = Some ''succeeded'' then StepSucceeded else if name = Some ''skipped'' then StepSkipped
      else if name = Some ''blocked'' then StepBlocked else if name = Some ''failed'' then StepFailed
      else if name = Some ''cancelled'' then StepCancelled else StepRunning)"

definition logged_status :: "execution_event \<Rightarrow> step_execution_status" where
  "logged_status ev = (if ev_phase ev = Some ''finished'' then status_named (ev_status ev) else StepRunning)"

definition told_status :: "execution_event list \<Rightarrow> string \<Rightarrow> step_execution_status" where
  "told_status evs sid =
     fold (\<lambda>ev status. if ev_event_type ev = ''step_progress'' \<and> ev_step_id ev = Some sid then logged_status ev else status)
       evs StepPending"

definition panicked :: "execution_event list \<Rightarrow> bool" where
  "panicked evs \<longleftrightarrow> list_ex (\<lambda>ev. ev_event_type ev = ''execution_worker_panicked'') evs"

definition final_status :: "execution_event list \<Rightarrow> string \<Rightarrow> step_execution_status" where
  "final_status evs sid =
     (if panicked evs \<and> told_status evs sid = StepRunning then StepFailed else told_status evs sid)"

definition explained :: "execution_record \<Rightarrow> bool" where
  "explained rec \<longleftrightarrow> (\<forall>sid status. report_status (xc_report rec) sid = Some status \<longrightarrow> status = final_status (xc_events rec) sid)"

text \<open>The events of the executor, before they are logged.\<close>

definition told_by :: "execution_progress_event list \<Rightarrow> string \<Rightarrow> step_execution_status" where
  "told_by events sid =
     fold (\<lambda>e status. if pe_step_id e = sid then step_status_of_event (pe_phase e) (pe_status e) else status) events StepPending"

lemma phase_name_finished [simp]: "phase_name p = ''finished'' \<longleftrightarrow> p = Finished"
  by (cases p) simp_all

lemma logged_status_of_event:
  "logged_status (ev \<lparr> ev_phase := Some (phase_name p), ev_status := map_option progress_status_name s \<rparr>) = step_status_of_event p s"
  by (cases "(p, s)" rule: step_status_of_event.cases) (auto simp: logged_status_def status_named_def)

lemma told_status_append:
  "told_status (evs @ [ev]) sid =
    (if ev_event_type ev = ''step_progress'' \<and> ev_step_id ev = Some sid then logged_status ev else told_status evs sid)"
  "panicked (evs @ [ev]) \<longleftrightarrow> panicked evs \<or> ev_event_type ev = ''execution_worker_panicked''"
  by (simp_all add: told_status_def panicked_def)

lemma told_by_append: "told_by (es @ [e]) sid = (if pe_step_id e = sid then step_status_of_event (pe_phase e) (pe_status e) else told_by es sid)"
  by (simp add: told_by_def)

text \<open>What each update adds to the log.\<close>

lemma told_updates [simp]:
  "told_status (xc_events (record_progress now e rec)) sid =
     (if pe_step_id e = sid then step_status_of_event (pe_phase e) (pe_status e) else told_status (xc_events rec) sid)"
  "told_status (xc_events (finish_attempt now now' result rec)) sid = told_status (xc_events rec) sid"
  "told_status (xc_events (finish_panicked now now' rec)) sid = told_status (xc_events rec) sid"
  "told_status (xc_events (request_cancel now rec)) sid = told_status (xc_events rec) sid"
  "panicked (xc_events (record_progress now e rec)) \<longleftrightarrow> panicked (xc_events rec)"
  "panicked (xc_events (finish_attempt now now' result rec)) \<longleftrightarrow> panicked (xc_events rec)"
  "panicked (xc_events (finish_panicked now now' rec))"
  "panicked (xc_events (request_cancel now rec)) \<longleftrightarrow> panicked (xc_events rec)"
proof -
  have "logged_status \<lparr> ev_sequence = n, ev_timestamp = t, ev_execution_id = i, ev_event_type = y, ev_recipe_id = a,
      ev_step_id = b, ev_phase = Some (phase_name p), ev_status = map_option progress_status_name s, ev_note = c,
      ev_message = d, ev_issue = x \<rparr> = step_status_of_event p s" for n t i y a b p s c d x
    using logged_status_of_event [of s p "\<lparr> ev_sequence = n, ev_timestamp = t, ev_execution_id = i, ev_event_type = y, ev_recipe_id = a,
      ev_step_id = b, ev_phase = None, ev_status = None, ev_note = c, ev_message = d, ev_issue = x \<rparr>"] by simp
  then show "told_status (xc_events (record_progress now e rec)) sid =
     (if pe_step_id e = sid then step_status_of_event (pe_phase e) (pe_status e) else told_status (xc_events rec) sid)"
    by (simp add: record_progress_def Let_def append_event_events told_status_append)
qed (simp_all add: record_progress_def finish_attempt_def finish_panicked_def request_cancel_def Let_def
      append_event_events told_status_append)

lemma status_updates [simp]:
  "report_status (xc_report (record_progress now e rec)) sid =
     (if pe_step_id e = sid then map_option (\<lambda>_. step_status_of_event (pe_phase e) (pe_status e)) (report_status (xc_report rec) sid)
      else report_status (xc_report rec) sid)"
  "report_status (xc_report (finish_attempt now now' result rec)) sid = report_status (xc_report rec) sid"
  "report_status (xc_report (finish_panicked now now' rec)) sid =
     map_option (\<lambda>s. if s = StepRunning then StepFailed else s) (report_status (xc_report rec) sid)"
  "report_status (xc_report (request_cancel now rec)) sid = report_status (xc_report rec) sid"
proof -
  show "report_status (xc_report (record_progress now e rec)) sid =
     (if pe_step_id e = sid then map_option (\<lambda>_. step_status_of_event (pe_phase e) (pe_status e)) (report_status (xc_report rec) sid)
      else report_status (xc_report rec) sid)"
    by (simp add: record_progress_def Let_def) (simp add: report_status_def find_step_find_step_mut option.map_comp comp_def)
qed (simp_all add: finish_attempt_def finish_panicked_def request_cancel_def Let_def report_status_panic)

lemma explained_updates:
  assumes "explained rec" and "\<not> panicked (xc_events rec)"
  shows "explained (record_progress now e rec)" "explained (finish_attempt now now' result rec)"
    "explained (finish_panicked now now' rec)" "explained (request_cancel now rec)"
  using assms by (auto simp: explained_def final_status_def split: if_splits)

text \<open>At the start every step of the plan is pending.\<close>

lemma initial_report_status:
  "report_status (initial_report ext now execution_id plan digest mode target) sid =
    (if sid \<in> es_id ` set (plan_steps plan) then Some StepPending else None)"
proof -
  let ?st = "\<lambda>rs. map_option xs_status (find (\<lambda>s. xs_step_id s = sid) (report_steps rs))"
  have add: "?st (add_step_report ext step rs) = (if es_id step = sid \<and> ?st rs = None then Some StepPending else ?st rs)"
    if "?st rs \<in> {None, Some StepPending}" for step rs
    using that
  proof (induction rs)
    case (Cons r rs)
    then show ?case
      by (auto simp: find_append step_report_def split: option.splits if_splits)
  qed (simp add: step_report_def)
  have run: "?st (fold (add_step_report ext) steps rs) =
      (if ?st rs = None \<and> sid \<in> es_id ` set steps then Some StepPending else ?st rs)"
    if "?st rs \<in> {None, Some StepPending}" for steps rs
    using that
  proof (induction steps arbitrary: rs)
    case (Cons step steps)
    have "?st (add_step_report ext step rs) \<in> {None, Some StepPending}"
      using add [OF Cons.prems] Cons.prems by auto
    from Cons.IH [OF this] show ?case using add [OF Cons.prems] Cons.prems by auto
  qed simp
  let ?empty = "map (\<lambda>recipe. \<lparr> xrr_recipe_id = rs_id recipe, xrr_name = rs_name recipe,
      xrr_description = rs_description recipe, xrr_status = RecipePending, xrr_steps = [] \<rparr>) (plan_recipes plan)"
  have none: "report_steps (map (\<lambda>recipe. \<lparr> xrr_recipe_id = rs_id recipe, xrr_name = rs_name recipe,
      xrr_description = rs_description recipe, xrr_status = RecipePending, xrr_steps = [] \<rparr>) rs) = []" for rs
    by (induction rs) simp_all
  have "?st (fold (add_step_report ext) (plan_steps plan) ?empty) = (if sid \<in> es_id ` set (plan_steps plan) then Some StepPending else None)"
    using run [of ?empty "plan_steps plan"] unfolding none by simp
  then show ?thesis
    by (cases "redacted_report_plan ext plan")
      (auto simp: initial_report_def report_status_def find_step_def initial_recipes_def split: if_splits)
qed

lemma started_record_status:
  "explained (started_record host now now' execution_id plan digest mode target)"
  "\<not> panicked (xc_events (started_record host now now' execution_id plan digest mode target))"
  "told_status (xc_events (started_record host now now' execution_id plan digest mode target)) sid = StepPending"
  "report_status (xc_report (started_record host now now' execution_id plan digest mode target)) sid =
    (if sid \<in> es_id ` set (plan_steps plan) then Some StepPending else None)"
  by (auto simp: explained_def final_status_def started_record_def append_event_events initial_report_status
      told_status_def panicked_def split: if_splits)

end
