(* ===== verification/Session_Worker.thy ===== *)
theory Session_Worker
  imports Session_Log
begin

text \<open>
  The manager and its worker threads (\<open>execution_session.rs\<close>).  A thread of an attempt runs the plan
  (\<open>execute_attempt\<close>, \<open>run_with_device\<close>), reports progress, ends the attempt and drops the lease of the
  execution slot.  Threads and clients meet only in sections that hold the lock and in the flag
  \<open>cancel_requested\<close>, so one step of the system is one such section, or what a thread does between two
  of them.  A thread may panic at any time while the plan runs.
\<close>

section \<open>Threads\<close>

text \<open>A thread before the run, between two events of the run, after the run, and after its report.\<close>

datatype 'w worker_phase =
    Starting
  | Iterating "'w run_loop_state" "execution_step list" "execution_progress_event list"
  | Returned execution_run_result
  | Reported

record 'w worker =
  wk_job :: worker_job
  wk_phase :: "'w worker_phase"

abbreviation wk_id :: "'w worker \<Rightarrow> string" where
  "wk_id wk \<equiv> wj_execution_id (wk_job wk)"

abbreviation wk_plan :: "'w worker \<Rightarrow> execution_plan" where
  "wk_plan wk \<equiv> wj_plan (wk_job wk)"

text \<open>The devices and handlers that an attempt is given.\<close>

record 'w session_env =
  se_host :: session_host
  se_dry_run_device :: "'w executor_device"
  se_real_device :: "string \<Rightarrow> string option \<Rightarrow> 'w executor_device"
  se_handlers :: "'w step_handlers"

definition attempt_env :: "'w session_env \<Rightarrow> worker_job \<Rightarrow> 'w exec_env" where
  "attempt_env env job =
     \<lparr> xe_ext = sn_ext (se_host env),
       xe_dev = (case wj_mode job of
           DryRunMode \<Rightarrow> se_dry_run_device env
         | RealMode \<Rightarrow> se_real_device env (cfg_adb_path (sn_config (se_host env))) (map_option td_serial (wj_target job))),
       xe_sandbox = Some (attempt_sandbox (se_host env) (wj_execution_id job) (wj_plan job)),
       xe_handlers = se_handlers env \<rparr>"

definition attempt_runner :: "'w \<Rightarrow> 'w exec_runner" where
  "attempt_runner w =
     \<lparr> rn_world = w, rn_sleep_calls = [], rn_root_preflight = PreflightNotRun, rn_root_preflight_failure = None \<rparr>"

definition cancel_flag :: "string \<Rightarrow> session_state \<Rightarrow> bool" where
  "cancel_flag execution_id st = is_some_and (fmlookup (ss_records st) execution_id) xc_cancel_requested"

fun run_in_progress :: "'w worker_phase \<Rightarrow> bool" where
  "run_in_progress Starting = True"
| "run_in_progress (Iterating _ _ _) = True"
| "run_in_progress _ = False"

inductive worker_step ::
  "'w session_env \<Rightarrow> session_state \<times> 'w worker \<Rightarrow> session_state \<times> 'w worker \<Rightarrow> bool" for env where
  refuse: "wk_phase wk = Starting \<Longrightarrow>
     admission_error (attempt_env env (wk_job wk)) w (wk_plan wk) = Some (first_message, other_message) \<Longrightarrow>
     worker_step env (st, wk) (st, wk \<lparr> wk_phase := Returned (refused_result (wk_plan wk) first_message other_message) \<rparr>)"
| begin_run: "wk_phase wk = Starting \<Longrightarrow>
     admission_error (attempt_env env (wk_job wk)) w (wk_plan wk) = None \<Longrightarrow>
     worker_step env (st, wk) (st, wk \<lparr> wk_phase :=
       Iterating (initial_loop (attempt_env env (wk_job wk)) (wk_plan wk) (attempt_runner w)) (plan_steps (wk_plan wk)) [] \<rparr>)"
| iterate: "wk_phase wk = Iterating lp (step # steps) [] \<Longrightarrow> \<not> lp_stopped lp \<Longrightarrow>
     run_iteration (attempt_env env (wk_job wk)) (wk_plan wk) (cancel_flag (wk_id wk) st) step lp = (events, lp') \<Longrightarrow>
     worker_step env (st, wk) (st, wk \<lparr> wk_phase := Iterating lp' steps events \<rparr>)"
| progress: "wk_phase wk = Iterating lp steps (event # events) \<Longrightarrow>
     worker_step env (st, wk) (update_record (wk_id wk) (record_progress now event) st,
       wk \<lparr> wk_phase := Iterating lp steps events \<rparr>)"
| return: "wk_phase wk = Iterating lp steps [] \<Longrightarrow> steps = [] \<or> lp_stopped lp \<Longrightarrow>
     worker_step env (st, wk) (st, wk \<lparr> wk_phase := Returned (run_result (wk_plan wk) lp) \<rparr>)"
| finish: "wk_phase wk = Returned result \<Longrightarrow>
     worker_step env (st, wk) (update_record (wk_id wk) (finish_attempt now now' result) st, wk \<lparr> wk_phase := Reported \<rparr>)"
| panic: "run_in_progress (wk_phase wk) \<Longrightarrow>
     worker_step env (st, wk) (update_record (wk_id wk) (finish_panicked now now') st, wk \<lparr> wk_phase := Reported \<rparr>)"

inductive_cases worker_step_elim: "worker_step env (st, wk) (st', wk')"

section \<open>The system\<close>

record 'w system =
  sy_state :: session_state
  sy_workers :: "'w worker list"

definition initial_system :: "'w system" where
  "initial_system = \<lparr> sy_state = new_session_state, sy_workers = [] \<rparr>"

definition spawn :: "worker_job \<Rightarrow> 'w system \<Rightarrow> 'w system" where
  "spawn job y = y \<lparr> sy_workers := sy_workers y @ [\<lparr> wk_job = job, wk_phase = Starting \<rparr>] \<rparr>"

inductive client_move :: "'w session_env \<Rightarrow> 'w system \<Rightarrow> 'w system \<Rightarrow> bool" for env where
  start: "start_execution (se_host env) now now' probe plan digest mode target (sy_state y) = (Inr job, st) \<Longrightarrow>
     client_move env y (spawn job (y \<lparr> sy_state := st \<rparr>))"
| start_refused: "start_execution (se_host env) now now' probe plan digest mode target (sy_state y) = (Inl error, st) \<Longrightarrow>
     client_move env y (y \<lparr> sy_state := st \<rparr>)"
| cancel: "cancel_execution now execution_id (sy_state y) = (answer, st) \<Longrightarrow> client_move env y (y \<lparr> sy_state := st \<rparr>)"
| read: "client_move env y y"

inductive worker_move :: "'w session_env \<Rightarrow> 'w system \<Rightarrow> 'w system \<Rightarrow> bool" for env where
  work: "i < length (sy_workers y) \<Longrightarrow> worker_step env (sy_state y, sy_workers y ! i) (st, wk) \<Longrightarrow>
     worker_move env y (y \<lparr> sy_state := st, sy_workers := (sy_workers y)[i := wk] \<rparr>)"
| release: "i < length (sy_workers y) \<Longrightarrow> wk_phase (sy_workers y ! i) = Reported \<Longrightarrow>
     worker_move env y (y \<lparr> sy_state := release_execution_slot (wk_id (sy_workers y ! i)) (sy_state y),
       sy_workers := take i (sy_workers y) @ drop (Suc i) (sy_workers y) \<rparr>)"

definition system_step :: "'w session_env \<Rightarrow> 'w system \<Rightarrow> 'w system \<Rightarrow> bool" where
  "system_step env y y' \<longleftrightarrow> client_move env y y' \<or> worker_move env y y'"

inductive sys_reachable :: "'w session_env \<Rightarrow> 'w system \<Rightarrow> bool" for env where
  init: "sys_reachable env initial_system"
| step: "sys_reachable env y \<Longrightarrow> system_step env y y' \<Longrightarrow> sys_reachable env y'"

section \<open>The run a thread is in\<close>

lemma run_loop_append:
  "run_loop env plan sc i (xs @ ys) lp =
     (case run_loop env plan sc i xs lp of
        (events, lp') \<Rightarrow> (case run_loop env plan sc (i + length xs) ys lp' of (events', lp'') \<Rightarrow> (events @ events', lp'')))"
proof (induction xs arbitrary: i lp)
  case (Cons x xs)
  have "run_loop env plan sc j zs lp' = ([], lp')" if "lp_stopped lp'" for j zs and lp' :: "'a run_loop_state"
    using that by (cases zs) auto
  with Cons show ?case by (auto split: prod.split)
qed simp

lemma run_loop_cong:
  "(\<And>j. i \<le> j \<Longrightarrow> j < i + length xs \<Longrightarrow> sc j = sc' j) \<Longrightarrow> run_loop env plan sc i xs lp = run_loop env plan sc' i xs lp"
proof (induction xs arbitrary: i lp)
  case (Cons x xs)
  have "run_loop env plan sc (Suc i) xs lp' = run_loop env plan sc' (Suc i) xs lp'" for lp'
    by (rule Cons.IH) (use Cons.prems in auto)
  moreover have "sc i = sc' i" using Cons.prems by simp
  ultimately show ?case by simp
qed simp

text \<open>The thread has taken some steps of the plan and delivered some of their events.\<close>

definition run_so_far ::
  "'w exec_env \<Rightarrow> execution_plan \<Rightarrow> execution_progress_event list \<Rightarrow> 'w run_loop_state \<Rightarrow> execution_step list \<Rightarrow> bool" where
  "run_so_far xe plan events lp steps \<longleftrightarrow>
     (\<exists>sc w taken. plan_steps plan = taken @ steps \<and> admission_error xe w plan = None
        \<and> run_loop xe plan sc 0 taken (initial_loop xe plan (attempt_runner w)) = (events, lp))"

lemma run_so_far_begin:
  "admission_error xe w plan = None \<Longrightarrow>
   run_so_far xe plan [] (initial_loop xe plan (attempt_runner w)) (plan_steps plan)"
  unfolding run_so_far_def by (rule exI, rule exI [of _ w], rule exI [of _ "[]"]) simp

lemma run_so_far_iterate:
  assumes "run_so_far xe plan events lp (step # steps)" and "\<not> lp_stopped lp"
    and "run_iteration xe plan flag step lp = (events', lp')"
  shows "run_so_far xe plan (events @ events') lp' steps"
proof -
  from assms(1) obtain sc w taken where run: "plan_steps plan = taken @ step # steps" "admission_error xe w plan = None"
    "run_loop xe plan sc 0 taken (initial_loop xe plan (attempt_runner w)) = (events, lp)"
    by (auto simp: run_so_far_def)
  let ?sc = "sc(length taken := flag)"
  have "run_loop xe plan ?sc 0 taken (initial_loop xe plan (attempt_runner w)) = (events, lp)"
    by (subst run_loop_cong [of 0 taken _ sc]) (use run(3) in auto)
  then have "run_loop xe plan ?sc 0 (taken @ [step]) (initial_loop xe plan (attempt_runner w)) = (events @ events', lp')"
    using assms(2,3) by (simp add: run_loop_append)
  with run(1,2) show ?thesis
    unfolding run_so_far_def by (intro exI [of _ ?sc] exI [of _ w] exI [of _ "taken @ [step]"]) simp
qed

text \<open>The run has ended, and these were its events.\<close>

definition run_ended :: "'w exec_env \<Rightarrow> execution_plan \<Rightarrow> execution_progress_event list \<Rightarrow> execution_run_result \<Rightarrow> bool" where
  "run_ended xe plan events result \<longleftrightarrow>
     (\<exists>sc w r. run_plan xe sc plan (attempt_runner w) = (events, result, r))"

lemma run_ended_return:
  assumes "run_so_far xe plan events lp steps" and "steps = [] \<or> lp_stopped lp"
  shows "run_ended xe plan events (run_result plan lp)"
proof -
  from assms(1) obtain sc w taken where run: "plan_steps plan = taken @ steps" "admission_error xe w plan = None"
    "run_loop xe plan sc 0 taken (initial_loop xe plan (attempt_runner w)) = (events, lp)"
    by (auto simp: run_so_far_def)
  have "run_loop xe plan sc j steps lp = ([], lp)" for j using assms(2) by (cases steps) auto
  with run have "run_loop xe plan sc 0 (plan_steps plan) (initial_loop xe plan (attempt_runner w)) = (events, lp)"
    by (simp add: run_loop_append)
  with run(2) have "run_plan xe sc plan (attempt_runner w) = (events, run_result plan lp, lp_runner lp)"
    by (simp add: run_plan_def attempt_runner_def)
  then show ?thesis by (auto simp: run_ended_def)
qed

lemma run_ended_refuse:
  "admission_error xe w plan = Some (a, b) \<Longrightarrow> run_ended xe plan [] (refused_result plan a b)"
  by (auto simp: run_ended_def run_plan_def attempt_runner_def intro!: exI [of _ w])

end
