(* ===== verification/Session_Invariant.thy ===== *)
theory Session_Invariant
  imports Session_Worker Exec_Safety
begin

text \<open>
  The invariant of the execution manager in every reachable state, kept by every step of clients and
  threads: one thread at most, which holds the slot; identifiers that are never used twice; logs and
  reports that agree; and a report of success only for a run that succeeded.
\<close>

section \<open>Identifiers\<close>

definition decimal :: "string \<Rightarrow> nat" where
  "decimal ds = fold (\<lambda>c acc. acc * 10 + (of_char c - 48)) ds 0"

lemma decimal_show_nat: "decimal (show_nat n) = n"
proof (induction n rule: show_nat.induct)
  case (1 n)
  have digit: "(of_char (char_of (48 + d) :: char) :: nat) = 48 + d" if "d < 10" for d
    using that by (simp add: of_char_of)
  show ?case
  proof (cases "n < 10")
    case True
    then show ?thesis using digit by (simp add: show_nat.simps [of n] decimal_def)
  next
    case False
    then have "decimal (show_nat n) = decimal (show_nat (n div 10)) * 10 + n mod 10"
      using digit by (simp add: show_nat.simps [of n] decimal_def)
    with 1 False show ?thesis by simp
  qed
qed

lemma execution_id_inj: "execution_id_of a = execution_id_of b \<longleftrightarrow> a = b"
  by (auto simp: execution_id_of_def) (metis decimal_show_nat)

section \<open>A successful run\<close>

lemma told_by_concat:
  "told_by (es @ es') sid = fold (\<lambda>e status. if pe_step_id e = sid then step_status_of_event (pe_phase e) (pe_status e) else status) es' (told_by es sid)"
  by (simp add: told_by_def)

lemma told_by_attempt:
  "told_by (es @ attempt_events xe plan (step, phases, oc)) sid =
     (if es_id step = sid
      then step_status_of_event Finished (Some (progress_status_of (run_status (oc_status oc)))) else told_by es sid)"
proof -
  have "fold (\<lambda>e status. if pe_step_id e = sid then step_status_of_event (pe_phase e) (pe_status e) else status)
      (map (\<lambda>phase. progress_event ext step n plan phase None None) phases) x = x"
    if "es_id step \<noteq> sid" for ext n x using that by (induction phases arbitrary: x) auto
  then show ?thesis by (auto simp: told_by_concat attempt_events_def Let_def)
qed

lemma told_by_attempts:
  assumes "\<forall>(step, phases, oc) \<in> set as. oc_status oc \<in> {RtSucceeded, RtSkipped}"
    and "sid \<in> es_id ` fst ` set as"
  shows "told_by (concat (map (attempt_events xe plan) as)) sid \<in> {StepSucceeded, StepSkipped}"
  using assms
proof (induction as rule: rev_induct)
  case (snoc a as)
  obtain step phases oc where a: "a = (step, phases, oc)" by (metis prod_cases3)
  with snoc.prems(1) have "oc_status oc \<in> {RtSucceeded, RtSkipped}" by auto
  with snoc a show ?case by (auto simp: told_by_attempt)
qed simp

lemma run_success_attempts:
  assumes "run_plan xe sc plan r = (events, res, r')" and "run_success res"
  obtains as where "events = concat (map (attempt_events xe plan) as)" and "map fst as = plan_steps plan"
    and "\<forall>(step, phases, oc) \<in> set as. oc_status oc \<in> {RtSucceeded, RtSkipped}"
proof -
  have none: "admission_error xe (rn_world r) plan = None" using run_plan_refused [OF assms(1)] assms(2) by blast
  from run_plan_attempts [OF assms(1) this] obtain as e state where
    run: "attempts xe plan sc 0 (from_plan plan) (lp_runner (initial_loop xe plan r)) (plan_steps plan) = (as, e, state, r')"
    and events: "events = concat (map (attempt_events xe plan) as)"
    and steps: "run_steps res = map attempt_record as @ tail_records e (drop (length as) (plan_steps plan))"
    and "run_cancelled res = (e = EndedByCancel)"
    and success: "run_success res = (\<not> list_ex (\<lambda>r. unfinished (srr_status r)) (run_steps res))" .
  note shape = attempts_steps [OF run]
  have fine: "\<not> unfinished (srr_status r)" if "r \<in> set (run_steps res)" for r
    using success assms(2) that by (auto simp: list_ex_iff)
  have oks: "oc_status oc \<in> {RtSucceeded, RtSkipped}" if "(step, phases, oc) \<in> set as" for step phases oc
    using fine [of "attempt_record (step, phases, oc)"] that by (auto simp: steps unfinished_iff)
  have "length as = length (plan_steps plan)"
  proof (rule ccontr)
    assume "length as \<noteq> length (plan_steps plan)"
    with shape have less: "length as < length (plan_steps plan)" and "e \<noteq> Completed" by auto
    show False
    proof (cases "e = EndedByBreak")
      case True
      with shape have last: "as \<noteq> []" "oc_status (snd (snd (last as))) = RtFailed" by auto
      from last_in_set [OF last(1)] obtain step phases oc where "last as = (step, phases, oc)" "(step, phases, oc) \<in> set as"
        by (metis prod_cases3)
      with oks last(2) show False by force
    next
      case False
      with \<open>e \<noteq> Completed\<close> less have "tail_records e (drop (length as) (plan_steps plan)) \<noteq> []"
        using tail_records_length [of e "drop (length as) (plan_steps plan)"] by (cases e) auto
      then obtain r where r: "r \<in> set (tail_records e (drop (length as) (plan_steps plan)))" by (meson list.set_sel(1))
      with tail_records_status [OF r] fine [of r] show False by (auto simp: steps unfinished_iff split: if_splits)
    qed
  qed
  with shape have "map fst as = plan_steps plan" by simp
  with events oks that show ?thesis by blast
qed

lemma run_success_told:
  assumes "run_ended xe plan events result" and "run_success result" and "step \<in> set (plan_steps plan)"
  shows "told_by events (es_id step) \<in> {StepSucceeded, StepSkipped}"
proof -
  from assms(1) obtain sc w r where "run_plan xe sc plan (attempt_runner w) = (events, result, r)" by (auto simp: run_ended_def)
  from run_success_attempts [OF this assms(2)] obtain as where
    as: "events = concat (map (attempt_events xe plan) as)" "map fst as = plan_steps plan"
      "\<forall>(step, phases, oc) \<in> set as. oc_status oc \<in> {RtSucceeded, RtSkipped}" .
  from as(2) assms(3) have "es_id step \<in> es_id ` fst ` set as" by (metis image_eqI list.set_map)
  from told_by_attempts [OF as(3) this] as(1) show ?thesis by simp
qed

section \<open>Records\<close>

definition successful :: "execution_status \<Rightarrow> bool" where
  "successful status \<longleftrightarrow> status \<in> {ExecSucceeded, ExecSucceededWithWarnings}"

definition record_ok :: "string \<Rightarrow> execution_record \<Rightarrow> bool" where
  "record_ok execution_id rec \<longleftrightarrow>
     log_ok execution_id rec \<and> explained rec
     \<and> (panicked (xc_events rec) \<longrightarrow> xr_status (xc_report rec) = ExecFailed)
     \<and> (\<forall>step \<in> set (plan_steps (xr_reviewed_plan (xc_report rec))).
          report_status (xc_report rec) (es_id step) \<noteq> None
          \<and> (successful (xr_status (xc_report rec)) \<longrightarrow> told_status (xc_events rec) (es_id step) \<in> {StepSucceeded, StepSkipped}))"

text \<open>A thread and the record it works on.\<close>

fun phase_ok :: "'w exec_env \<Rightarrow> execution_plan \<Rightarrow> execution_progress_event list \<Rightarrow> 'w worker_phase \<Rightarrow> bool" where
  "phase_ok xe plan events Starting \<longleftrightarrow> events = []"
| "phase_ok xe plan events (Iterating lp steps pending) \<longleftrightarrow> run_so_far xe plan (events @ pending) lp steps"
| "phase_ok xe plan events (Returned result) \<longleftrightarrow> run_ended xe plan events result"
| "phase_ok xe plan events Reported \<longleftrightarrow> True"

definition worker_ok :: "'w session_env \<Rightarrow> execution_record \<Rightarrow> 'w worker \<Rightarrow> bool" where
  "worker_ok env rec wk \<longleftrightarrow>
     xr_reviewed_plan (xc_report rec) = wk_plan wk
     \<and> (xr_status (xc_report rec) = ExecRunning \<longleftrightarrow> wk_phase wk \<noteq> Reported)
     \<and> (\<exists>events. phase_ok (attempt_env env (wk_job wk)) (wk_plan wk) events (wk_phase wk)
          \<and> (wk_phase wk \<noteq> Reported \<longrightarrow> (\<forall>sid. told_status (xc_events rec) sid = told_by events sid)))"

lemma updates_status [simp]:
  "xr_status (xc_report (record_progress now e rec)) = xr_status (xc_report rec)"
  "xr_status (xc_report (finish_attempt now now' result rec)) = overall_status result (xr_warnings (finish_report now result (xc_report rec)) \<noteq> [])"
  "xr_status (xc_report (finish_panicked now now' rec)) = ExecFailed"
  "xr_status (xc_report (request_cancel now rec)) = xr_status (xc_report rec)"
proof -
  show "xr_status (xc_report (record_progress now e rec)) = xr_status (xc_report rec)"
    by (simp add: record_progress_def Let_def refresh_recipe_statuses_def find_step_mut_def)
  show "xr_status (xc_report (finish_attempt now now' result rec)) = overall_status result (xr_warnings (finish_report now result (xc_report rec)) \<noteq> [])"
    by (simp add: finish_attempt_def finish_report_def Let_def refresh_recipe_statuses_def apply_recipe_warning_statuses_def)
qed (simp_all add: finish_panicked_def panic_report_def refresh_recipe_statuses_def request_cancel_def)

lemma overall_status_facts [simp]:
  "overall_status result w \<noteq> ExecRunning" "successful (overall_status result w) \<longleftrightarrow> run_success result \<and> \<not> run_cancelled result"
  "\<not> successful ExecFailed" "\<not> successful ExecRunning"
  by (auto simp: overall_status_def successful_def)

lemma record_ok_progress: "record_ok i rec \<Longrightarrow> xr_status (xc_report rec) = ExecRunning \<Longrightarrow> record_ok i (record_progress now e rec)"
  by (auto simp: record_ok_def log_ok_updates explained_updates)

lemma record_ok_cancel: "record_ok i rec \<Longrightarrow> xr_status (xc_report rec) = ExecRunning \<Longrightarrow> record_ok i (request_cancel now rec)"
  by (auto simp: record_ok_def log_ok_updates explained_updates)

lemma record_ok_panicked: "record_ok i rec \<Longrightarrow> xr_status (xc_report rec) = ExecRunning \<Longrightarrow> record_ok i (finish_panicked now now' rec)"
  by (auto simp: record_ok_def log_ok_updates explained_updates)

lemma record_ok_finish:
  assumes "record_ok i rec" and "xr_status (xc_report rec) = ExecRunning"
    and "run_ended xe (xr_reviewed_plan (xc_report rec)) events result"
    and "\<And>sid. told_status (xc_events rec) sid = told_by events sid"
  shows "record_ok i (finish_attempt now now' result rec)"
  using assms run_success_told [OF assms(3)]
  by (auto simp: record_ok_def log_ok_updates explained_updates)

lemma started_facts:
  "record_ok i (started_record host now now' i plan digest mode target)"
  "xr_status (xc_report (started_record host now now' i plan digest mode target)) = ExecRunning"
  "xr_reviewed_plan (xc_report (started_record host now now' i plan digest mode target)) = plan"
proof -
  show facts: "xr_status (xc_report (started_record host now now' i plan digest mode target)) = ExecRunning"
    "xr_reviewed_plan (xc_report (started_record host now now' i plan digest mode target)) = plan"
    by (simp_all add: started_record_def initial_report_def split: prod.split)
  show "record_ok i (started_record host now now' i plan digest mode target)"
    using started_record_status facts by (auto simp: record_ok_def log_ok_started)
qed

section \<open>The system\<close>

definition records_ok :: "session_state \<Rightarrow> bool" where
  "records_ok st \<longleftrightarrow>
     fset (fmdom (ss_records st)) = execution_id_of ` {1 .. ss_next_execution_id st}
     \<and> (\<forall>i rec. fmlookup (ss_records st) i = Some rec \<longrightarrow>
          record_ok i rec \<and> (xr_status (xc_report rec) = ExecRunning \<longrightarrow> ss_active_execution_id st = Some i))"

definition workers_ok :: "'w session_env \<Rightarrow> session_state \<Rightarrow> 'w worker list \<Rightarrow> bool" where
  "workers_ok env st wks \<longleftrightarrow>
     (case wks of
        [] \<Rightarrow> ss_active_execution_id st = None
      | wk # rest \<Rightarrow> rest = [] \<and> ss_active_execution_id st = Some (wk_id wk)
          \<and> (\<exists>rec. fmlookup (ss_records st) (wk_id wk) = Some rec \<and> worker_ok env rec wk))"

definition system_ok :: "'w session_env \<Rightarrow> 'w system \<Rightarrow> bool" where
  "system_ok env y \<longleftrightarrow> records_ok (sy_state y) \<and> workers_ok env (sy_state y) (sy_workers y)"

lemma update_record_simps [simp]:
  "ss_active_execution_id (update_record i f st) = ss_active_execution_id st"
  "ss_next_execution_id (update_record i f st) = ss_next_execution_id st"
  "fmlookup (ss_records (update_record i f st)) j =
     (if j = i then map_option f (fmlookup (ss_records st) i) else fmlookup (ss_records st) j)"
  "fmdom (ss_records (update_record i f st)) = fmdom (ss_records st)"
  by (auto simp: update_record_def fmdom_notI split: option.split intro: fmdomI)

lemma records_ok_update:
  assumes "records_ok st" and "\<And>rec. fmlookup (ss_records st) i = Some rec \<Longrightarrow> record_ok i (f rec)"
    and "\<And>rec. fmlookup (ss_records st) i = Some rec \<Longrightarrow> xr_status (xc_report (f rec)) = ExecRunning \<Longrightarrow> xr_status (xc_report rec) = ExecRunning"
  shows "records_ok (update_record i f st)"
  using assms by (auto simp: records_ok_def split: if_splits)

lemma system_ok_initial: "system_ok env initial_system"
  by (simp add: system_ok_def initial_system_def new_session_state_def records_ok_def workers_ok_def)

text \<open>Threads.\<close>

lemma worker_step_ok:
  assumes "worker_step env (st, wk) (st', wk')" and "records_ok st" and "workers_ok env st [wk]"
  shows "records_ok st' \<and> workers_ok env st' [wk'] \<and> wk_job wk' = wk_job wk"
proof -
  from assms(3) obtain rec where rec: "ss_active_execution_id st = Some (wk_id wk)"
    "fmlookup (ss_records st) (wk_id wk) = Some rec" "worker_ok env rec wk"
    by (auto simp: workers_ok_def)
  with assms(2) have ok: "record_ok (wk_id wk) rec" by (auto simp: records_ok_def)
  from rec(3) obtain events where worker: "xr_reviewed_plan (xc_report rec) = wk_plan wk"
    "xr_status (xc_report rec) = ExecRunning \<longleftrightarrow> wk_phase wk \<noteq> Reported"
    "phase_ok (attempt_env env (wk_job wk)) (wk_plan wk) events (wk_phase wk)"
    "wk_phase wk \<noteq> Reported \<Longrightarrow> \<forall>sid. told_status (xc_events rec) sid = told_by events sid"
    by (auto simp: worker_ok_def)
  have still: "workers_ok env st [wk \<lparr> wk_phase := phase \<rparr>]"
    if "phase_ok (attempt_env env (wk_job wk)) (wk_plan wk) events' phase" "phase \<noteq> Reported" "wk_phase wk \<noteq> Reported"
      "\<forall>sid. told_by events' sid = told_by events sid" for phase events'
    using that rec worker by (auto simp: workers_ok_def worker_ok_def)
  from assms(1) show ?thesis
  proof (rule worker_step_elim)
    fix w a b assume step: "st' = st" "wk' = wk \<lparr> wk_phase := Returned (refused_result (wk_plan wk) a b) \<rparr>"
      "wk_phase wk = Starting" and error: "admission_error (attempt_env env (wk_job wk)) w (wk_plan wk) = Some (a, b)"
    from run_ended_refuse [OF error] have "run_ended (attempt_env env (wk_job wk)) (wk_plan wk) [] (refused_result (wk_plan wk) a b)" .
    with still [of "[]" "Returned (refused_result (wk_plan wk) a b)"] step worker assms(2) show ?thesis by auto
  next
    fix w assume step: "st' = st" "wk_phase wk = Starting"
      and begun: "admission_error (attempt_env env (wk_job wk)) w (wk_plan wk) = None"
      and wk': "wk' = wk \<lparr> wk_phase := Iterating (initial_loop (attempt_env env (wk_job wk)) (wk_plan wk) (attempt_runner w)) (plan_steps (wk_plan wk)) [] \<rparr>"
    from still [of "[]"] run_so_far_begin [OF begun] step worker assms(2) wk' show ?thesis by simp
  next
    fix lp step steps es lp' assume step: "st' = st" "wk' = wk \<lparr> wk_phase := Iterating lp' steps es \<rparr>"
      "wk_phase wk = Iterating lp (step # steps) []"
      and iter: "\<not> lp_stopped lp" "run_iteration (attempt_env env (wk_job wk)) (wk_plan wk) (cancel_flag (wk_id wk) st) step lp = (es, lp')"
    from worker(3) step(3) have "run_so_far (attempt_env env (wk_job wk)) (wk_plan wk) events lp (step # steps)" by simp
    from run_so_far_iterate [OF this iter] still [of events "Iterating lp' steps es"] step worker assms(2) show ?thesis by simp
  next
    fix now lp steps e es assume step: "st' = update_record (wk_id wk) (record_progress now e) st"
      "wk' = wk \<lparr> wk_phase := Iterating lp steps es \<rparr>" "wk_phase wk = Iterating lp steps (e # es)"
    then have "records_ok st'"
      using records_ok_update [OF assms(2), of "wk_id wk" "record_progress now e"] record_ok_progress ok rec(2) worker(2) by auto
    moreover have "workers_ok env st' [wk']"
      using step rec worker by (auto simp: workers_ok_def worker_ok_def told_by_append intro!: exI [of _ "events @ [e]"])
    ultimately show ?thesis using step by simp
  next
    fix lp steps assume step: "st' = st" "wk' = wk \<lparr> wk_phase := Returned (run_result (wk_plan wk) lp) \<rparr>"
      "wk_phase wk = Iterating lp steps []" and ended: "steps = [] \<or> lp_stopped lp"
    from worker(3) step(3) have "run_so_far (attempt_env env (wk_job wk)) (wk_plan wk) events lp steps" by simp
    from run_ended_return [OF this ended] still [of events] step worker assms(2) show ?thesis by simp
  next
    fix now now' result assume step: "st' = update_record (wk_id wk) (finish_attempt now now' result) st"
      "wk' = wk \<lparr> wk_phase := Reported \<rparr>" "wk_phase wk = Returned result"
    have "record_ok (wk_id wk) (finish_attempt now now' result rec)"
      by (rule record_ok_finish [OF ok]) (use step worker in auto)
    then have "records_ok st'"
      using records_ok_update [OF assms(2), of "wk_id wk" "finish_attempt now now' result"] step rec(2) by auto
    with step rec worker show ?thesis by (auto simp: workers_ok_def worker_ok_def)
  next
    fix now now' assume step: "st' = update_record (wk_id wk) (finish_panicked now now') st"
      "wk' = wk \<lparr> wk_phase := Reported \<rparr>" "run_in_progress (wk_phase wk)"
    then have "record_ok (wk_id wk) (finish_panicked now now' rec)" using record_ok_panicked [OF ok] worker(2) by auto
    then have "records_ok st'"
      using records_ok_update [OF assms(2), of "wk_id wk" "finish_panicked now now'"] step rec(2) by auto
    with step rec worker show ?thesis by (auto simp: workers_ok_def worker_ok_def)
  qed
qed

text \<open>Clients.\<close>

lemma start_execution_cases:
  assumes "start_execution host now now' probe plan digest mode target st = (answer, st')"
  obtains (error) e where "answer = Inl e" "st' = st"
  | (started) d t where "ss_active_execution_id st = None"
      "answer = Inr \<lparr> wj_execution_id = execution_id_of (ss_next_execution_id st + 1), wj_plan = plan, wj_mode = mode, wj_target = t \<rparr>"
      "st' = \<lparr> ss_next_execution_id = ss_next_execution_id st + 1,
               ss_active_execution_id = Some (execution_id_of (ss_next_execution_id st + 1)),
               ss_records = fmupd (execution_id_of (ss_next_execution_id st + 1))
                 (started_record host now now' (execution_id_of (ss_next_execution_id st + 1)) plan d mode t) (ss_records st) \<rparr>"
proof (cases "check_start host probe plan digest mode target")
  case (Inl e)
  with assms error [of e] show ?thesis by (simp add: start_execution_def)
next
  case (Inr dt)
  obtain d t where dt: "dt = (d, t)" by (cases dt)
  show ?thesis
  proof (cases "ss_active_execution_id st")
    case (Some active)
    with assms Inr dt have "st' = st" "answer = Inl (api_error ExecutionInProgress
        ''Only one execution may be active in a sidecar process.'' [(''activeExecutionId'', JString active)])"
      by (simp_all add: start_execution_def)
    then show ?thesis by (intro error)
  next
    case None
    show ?thesis
    proof (cases "admit_plan_artifacts host plan (attempt_sandbox host (execution_id_of (ss_next_execution_id st + 1)) plan)")
      case (Inl e)
      with assms \<open>check_start host probe plan digest mode target = Inr dt\<close> dt None error [of e] show ?thesis by (simp add: start_execution_def Let_def)
    next
      case (Inr u)
      with assms \<open>check_start host probe plan digest mode target = Inr dt\<close> dt None started [of t d] show ?thesis
        by (cases st) (simp add: start_execution_def Let_def acquire_execution_slot_def)
    qed
  qed
qed

lemma cancel_execution_cases:
  assumes "cancel_execution now i st = (answer, st')"
  obtains (unchanged) "st' = st"
  | (requested) rec where "fmlookup (ss_records st) i = Some rec" "xr_status (xc_report rec) = ExecRunning"
      "st' = update_record i (request_cancel now) st"
  using assms by (auto simp: cancel_execution_def split: option.splits if_splits)

lemma fresh_execution_id:
  "records_ok st \<Longrightarrow> ss_next_execution_id st < n \<Longrightarrow> fmlookup (ss_records st) (execution_id_of n) = None"
  by (auto simp: records_ok_def execution_id_inj intro!: fmdom_notD)

lemma started_ok:
  assumes "records_ok st" and "ss_active_execution_id st = None"
    and "i = execution_id_of (ss_next_execution_id st + 1)"
    and "st' = \<lparr> ss_next_execution_id = ss_next_execution_id st + 1, ss_active_execution_id = Some i,
           ss_records = fmupd i (started_record host now now' i plan d mode t) (ss_records st) \<rparr>"
  shows "records_ok st'
    \<and> workers_ok env st' [\<lparr> wk_job = \<lparr> wj_execution_id = i, wj_plan = plan, wj_mode = mode, wj_target = t \<rparr>, wk_phase = Starting \<rparr>]"
proof
  have "{1 .. Suc n} = insert (Suc n) {1 .. n}" for n by auto
  then show "records_ok st'"
    using assms started_facts by (auto simp: records_ok_def)
  show "workers_ok env st' [\<lparr> wk_job = \<lparr> wj_execution_id = i, wj_plan = plan, wj_mode = mode, wj_target = t \<rparr>, wk_phase = Starting \<rparr>]"
    using assms(4) started_facts started_record_status
    by (auto simp: workers_ok_def worker_ok_def told_by_def intro!: exI [of _ "[]"])
qed

lemma cancelled_ok:
  assumes "records_ok st" and "workers_ok env st wks" and "fmlookup (ss_records st) i = Some rec"
    and "xr_status (xc_report rec) = ExecRunning"
  shows "records_ok (update_record i (request_cancel now) st) \<and> workers_ok env (update_record i (request_cancel now) st) wks"
proof
  have "record_ok i (request_cancel now rec)" using assms by (auto simp: records_ok_def record_ok_cancel)
  then show "records_ok (update_record i (request_cancel now) st)"
    using records_ok_update [OF assms(1), of i "request_cancel now"] assms(3) by auto
  show "workers_ok env (update_record i (request_cancel now) st) wks"
    using assms(2,3) by (auto simp: workers_ok_def worker_ok_def split: list.splits)
qed

lemma client_move_ok: "client_move env y y' \<Longrightarrow> system_ok env y \<Longrightarrow> system_ok env y'"
proof (induction rule: client_move.induct)
  case (start now now' probe plan digest mode target y job st)
  from start.prems have ok: "records_ok (sy_state y)" "workers_ok env (sy_state y) (sy_workers y)" by (auto simp: system_ok_def)
  from start.hyps show ?case
  proof (cases rule: start_execution_cases)
    case (started d t)
    then have "sy_workers y = []" using ok(2) by (auto simp: workers_ok_def split: list.splits)
    with started_ok [OF ok(1) started(1) refl started(3)] started(2) show ?thesis
      by (auto simp: system_ok_def spawn_def)
  qed simp
next
  case (start_refused now now' probe plan digest mode target y error st)
  then show ?case by (auto simp: system_ok_def elim: start_execution_cases)
next
  case (cancel now execution_id y answer st)
  from cancel.hyps show ?case
  proof (cases rule: cancel_execution_cases)
    case (requested rec)
    with cancelled_ok [of "sy_state y" env "sy_workers y", OF _ _ requested(1,2)] cancel.prems show ?thesis
      by (simp add: system_ok_def)
  qed (use cancel.prems in simp)
qed simp

lemma worker_move_ok: "worker_move env y y' \<Longrightarrow> system_ok env y \<Longrightarrow> system_ok env y'"
proof (induction rule: worker_move.induct)
  case (work i y st wk)
  then obtain wk0 where one: "sy_workers y = [wk0]" "i = 0" by (auto simp: system_ok_def workers_ok_def split: list.splits)
  with work worker_step_ok [of env "sy_state y" wk0 st wk] show ?case by (auto simp: system_ok_def)
next
  case (release i y)
  then obtain wk where one: "sy_workers y = [wk]" "i = 0" by (auto simp: system_ok_def workers_ok_def split: list.splits)
  with release have "ss_active_execution_id (sy_state y) = Some (wk_id wk)" "wk_phase wk = Reported" by (auto simp: system_ok_def workers_ok_def)
  with one release show ?case
    by (auto simp: system_ok_def workers_ok_def worker_ok_def records_ok_def release_execution_slot_def)
qed

theorem reachable_ok: "sys_reachable env y \<Longrightarrow> system_ok env y"
  by (induction rule: sys_reachable.induct) (auto simp: system_ok_initial system_step_def intro: client_move_ok worker_move_ok)

end
