(* ===== verification/Session_Safety.thy ===== *)
theory Session_Safety
  imports Session_Invariant
begin

text \<open>Properties of the execution manager, its records and its reports in every reachable state.\<close>

section \<open>Sample system\<close>

text \<open>A dry run of one waiting step; the SHA-256 of the samples is empty.\<close>

definition sample_host :: session_host where
  "sample_host =
     \<lparr> sn_ext = ascii_externals,
       sn_config = \<lparr> cfg_runtime_root = ''/run'', cfg_cache_root = ''/cache'', cfg_adb_path = ''adb'' \<rparr>,
       sn_current_dir = None, sn_is_dir = (\<lambda>_. False), sn_plan_json = (\<lambda>_. Some JNull),
       sn_resolver = \<lparr> aa_admit = (\<lambda>_ _ _ _ _. None), aa_admit_direct_url = (\<lambda>_ _ _ _ _ _. None),
         aa_admit_local_input = (\<lambda>_ _ _ _. None), aa_admit_late_bound = (\<lambda>_ _ _. None) \<rparr> \<rparr>"

definition sample_session :: "fake_device session_env" where
  "sample_session =
     \<lparr> se_host = sample_host, se_dry_run_device = fake_dry_run_device,
       se_real_device = (\<lambda>_ _. fake_dry_run_device), se_handlers = no_handlers \<rparr>"

definition sample_plan :: execution_plan where
  "sample_plan = plain_plan [wait_step ''a'' [] (jnat 10)]"

definition sample_job :: worker_job where
  "sample_job = \<lparr> wj_execution_id = execution_id_of 1, wj_plan = sample_plan, wj_mode = DryRunMode, wj_target = None \<rparr>"

definition sample_record :: execution_record where
  "sample_record = started_record sample_host ''t'' ''t'' (execution_id_of 1) sample_plan [] DryRunMode None"

definition sample_state :: "execution_record \<Rightarrow> string option \<Rightarrow> session_state" where
  "sample_state rec active =
     \<lparr> ss_next_execution_id = 1, ss_active_execution_id = active, ss_records = fmupd (execution_id_of 1) rec fmempty \<rparr>"

definition sample_system :: "execution_record \<Rightarrow> string option \<Rightarrow> fake_device worker_phase option \<Rightarrow> fake_device system" where
  "sample_system rec active phase =
     \<lparr> sy_state = sample_state rec active,
       sy_workers = (case phase of None \<Rightarrow> [] | Some p \<Rightarrow> [\<lparr> wk_job = sample_job, wk_phase = p \<rparr>]) \<rparr>"

lemma sample_start:
  "start_execution sample_host ''t'' ''t'' (\<lambda>_. None) sample_plan [] DryRunMode None new_session_state
     = (Inr sample_job, sample_state sample_record (Some (execution_id_of 1)))"
proof -
  have "check_start sample_host (\<lambda>_. None) sample_plan [] DryRunMode None = Inr ([], None)"
    by (simp add: check_start_def sample_host_def sample_plan_def validate_supported_copy_plan_def copy_steps_def wait_step_def
        validate_copy_commit_snapshot_coverage_def execution_plan_digest_def ascii_externals_def preflight_target_def
        or_else_def)
  moreover have "admit_plan_artifacts sample_host sample_plan sandbox = Inr ()" for sandbox
    by (simp add: admit_plan_artifacts_def validate_execution_plan_local_input_bindings_def sample_plan_def)
  ultimately show ?thesis
    by (simp add: start_execution_def new_session_state_def Let_def acquire_execution_slot_def sample_job_def
        sample_state_def sample_record_def)
qed

definition sample_started :: "fake_device system" where
  "sample_started = sample_system sample_record (Some (execution_id_of 1)) (Some Starting)"

definition panicked_record :: execution_record where
  "panicked_record = finish_panicked ''t'' ''t'' sample_record"

definition sample_panicked :: "fake_device system" where
  "sample_panicked = sample_system panicked_record (Some (execution_id_of 1)) (Some Reported)"

definition sample_released :: "fake_device system" where
  "sample_released = sample_system panicked_record None None"

lemma sample_move_started: "client_move sample_session initial_system sample_started"
proof -
  have "sample_started = spawn sample_job (initial_system \<lparr> sy_state := sample_state sample_record (Some (execution_id_of 1)) \<rparr>)"
    by (simp add: sample_started_def sample_system_def spawn_def initial_system_def)
  moreover have "start_execution (se_host sample_session) ''t'' ''t'' (\<lambda>_. None) sample_plan [] DryRunMode None
      (sy_state (initial_system :: fake_device system)) = (Inr sample_job, sample_state sample_record (Some (execution_id_of 1)))"
    using sample_start by (simp add: sample_session_def initial_system_def)
  ultimately show ?thesis using client_move.start by metis
qed

lemma sample_move_panicked: "worker_move sample_session sample_started sample_panicked"
proof -
  let ?wk = "\<lparr> wk_job = sample_job, wk_phase = (Starting :: fake_device worker_phase) \<rparr>"
  have "worker_step sample_session (sample_state sample_record (Some (execution_id_of 1)), ?wk)
      (update_record (wk_id ?wk) (finish_panicked ''t'' ''t'') (sample_state sample_record (Some (execution_id_of 1))),
       ?wk \<lparr> wk_phase := Reported \<rparr>)"
    by (rule worker_step.panic) simp
  moreover have "update_record (wk_id ?wk) (finish_panicked ''t'' ''t'') (sample_state sample_record (Some (execution_id_of 1)))
      = sample_state panicked_record (Some (execution_id_of 1))"
    by (simp add: update_record_def sample_state_def sample_job_def panicked_record_def)
  ultimately have "worker_step sample_session (sy_state sample_started, sy_workers sample_started ! 0)
      (sample_state panicked_record (Some (execution_id_of 1)), ?wk \<lparr> wk_phase := Reported \<rparr>)"
    by (simp add: sample_started_def sample_system_def)
  from worker_move.work [OF _ this] show ?thesis
    by (simp add: sample_started_def sample_panicked_def sample_system_def)
qed

lemma sample_move_released: "worker_move sample_session sample_panicked sample_released"
proof -
  have "worker_move sample_session sample_panicked
      (sample_panicked \<lparr> sy_state := release_execution_slot (wk_id (sy_workers sample_panicked ! 0)) (sy_state sample_panicked),
         sy_workers := take 0 (sy_workers sample_panicked) @ drop (Suc 0) (sy_workers sample_panicked) \<rparr>)"
    by (rule worker_move.release) (simp_all add: sample_panicked_def sample_system_def)
  then show ?thesis
    by (simp add: sample_panicked_def sample_released_def sample_system_def sample_state_def release_execution_slot_def sample_job_def)
qed

lemmas sample_steps = sample_move_started sample_move_panicked sample_move_released

lemma sample_reachable:
  "sys_reachable sample_session sample_started" "sys_reachable sample_session sample_panicked" "sys_reachable sample_session sample_released"
proof -
  show started: "sys_reachable sample_session sample_started"
    using sys_reachable.step [OF sys_reachable.init] sample_steps by (auto simp: system_step_def)
  show panicked: "sys_reachable sample_session sample_panicked"
    using sys_reachable.step [OF started] sample_steps by (auto simp: system_step_def)
  show "sys_reachable sample_session sample_released"
    using sys_reachable.step [OF panicked] sample_steps by (auto simp: system_step_def)
qed

lemma sample_lookup [simp]:
  "fmlookup (ss_records (sy_state sample_started)) (execution_id_of (Suc 0)) = Some sample_record"
  "fmlookup (ss_records (sy_state sample_panicked)) (execution_id_of (Suc 0)) = Some panicked_record"
  "fmlookup (ss_records (sy_state sample_released)) (execution_id_of (Suc 0)) = Some panicked_record"
  by (simp_all add: sample_started_def sample_panicked_def sample_released_def sample_system_def sample_state_def)

section \<open>The execution slot\<close>

text \<open> C4: In every reachable state at most one thread runs, the slot is taken exactly while there is
  one and names its execution, and an execution is reported as running exactly when its thread has
  not yet reported the end: no execution stays in the state running without a thread, and no second
  one starts beside it.\<close>

theorem session_slot_exclusive:
  assumes "sys_reachable env y"
  shows "length (sy_workers y) \<le> 1
    \<and> ss_active_execution_id (sy_state y) = (case sy_workers y of [] \<Rightarrow> None | wk # _ \<Rightarrow> Some (wk_id wk))
    \<and> (\<forall>i rec. fmlookup (ss_records (sy_state y)) i = Some rec \<longrightarrow>
         (xr_status (xc_report rec) = ExecRunning) = (\<exists>wk \<in> set (sy_workers y). wk_id wk = i \<and> wk_phase wk \<noteq> Reported))"
proof -
  from reachable_ok [OF assms] have ok: "records_ok (sy_state y)" "workers_ok env (sy_state y) (sy_workers y)"
    by (auto simp: system_ok_def)
  from ok(1) have running: "ss_active_execution_id (sy_state y) = Some i"
    if "fmlookup (ss_records (sy_state y)) i = Some rec" "xr_status (xc_report rec) = ExecRunning" for i rec
    using that by (simp add: records_ok_def)
  show ?thesis
  proof (cases "sy_workers y")
    case Nil
    with ok(2) have "ss_active_execution_id (sy_state y) = None" by (simp add: workers_ok_def)
    with Nil running show ?thesis by force
  next
    case (Cons wk wks)
    with ok(2) obtain rec where rec: "wks = []" "ss_active_execution_id (sy_state y) = Some (wk_id wk)"
      "fmlookup (ss_records (sy_state y)) (wk_id wk) = Some rec"
      "xr_status (xc_report rec) = ExecRunning \<longleftrightarrow> wk_phase wk \<noteq> Reported"
      by (auto simp: workers_ok_def worker_ok_def)
    have "(xr_status (xc_report rec') = ExecRunning) = (wk_id wk = i \<and> wk_phase wk \<noteq> Reported)"
      if "fmlookup (ss_records (sy_state y)) i = Some rec'" for i rec'
      using that rec running [OF that] by (cases "wk_id wk = i") auto
    with Cons rec(1,2) show ?thesis by simp
  qed
qed

theorem session_slot_exclusive_witness:
  "length (sy_workers sample_started) \<le> 1
    \<and> ss_active_execution_id (sy_state sample_started) = (case sy_workers sample_started of [] \<Rightarrow> None | wk # _ \<Rightarrow> Some (wk_id wk))
    \<and> (xr_status (xc_report sample_record) = ExecRunning)
      = (\<exists>wk. wk \<in> set (sy_workers sample_started) \<and> wk_id wk = execution_id_of (Suc 0) \<and> wk_phase wk \<noteq> Reported)"
  using session_slot_exclusive [OF sample_reachable(1)] sample_lookup(1) by (auto simp: Bex_def)

section \<open>The event log\<close>

text \<open> C18: In every reachable state the executions are numbered without a gap, and the events of each
  carry its identifier and the numbers 1, 2, and so on up to the latest sequence of its report, whatever
  the interleaving of progress, cancellation and the end of the attempt.\<close>

theorem session_event_log:
  assumes "sys_reachable env y" and "fmlookup (ss_records (sy_state y)) i = Some rec"
  shows "i \<in> execution_id_of ` {1 .. ss_next_execution_id (sy_state y)}
    \<and> xr_execution_id (xc_report rec) = i
    \<and> map ev_sequence (xc_events rec) = [1 ..< Suc (xr_latest_sequence (xc_report rec))]
    \<and> set (map ev_execution_id (xc_events rec)) \<subseteq> {i}"
proof -
  from reachable_ok [OF assms(1)] have ok: "records_ok (sy_state y)" by (simp add: system_ok_def)
  with assms(2) have "log_ok i rec" by (auto simp: records_ok_def record_ok_def)
  moreover have "i \<in> fset (fmdom (ss_records (sy_state y)))" using assms(2) by (auto intro: fmdomI)
  ultimately show ?thesis using ok by (auto simp: records_ok_def log_ok_def)
qed

theorem session_event_log_witness:
  "execution_id_of 1 \<in> execution_id_of ` {1 .. ss_next_execution_id (sy_state sample_panicked)}
    \<and> xr_execution_id (xc_report panicked_record) = execution_id_of 1
    \<and> map ev_sequence (xc_events panicked_record) = [1 ..< Suc (xr_latest_sequence (xc_report panicked_record))]
    \<and> set (map ev_execution_id (xc_events panicked_record)) \<subseteq> {execution_id_of 1}"
  by (rule session_event_log [OF sample_reachable(2)]) simp

text \<open>A record after a step is the record before it, or the result of one update.\<close>

lemma worker_step_record:
  assumes "worker_step env (st, wk) (st', wk')"
  shows "st' = st \<or> (\<exists>f. st' = update_record (wk_id wk) f st \<and> wk_phase wk \<noteq> Reported
     \<and> (\<forall>rec. \<exists>ev. xc_events (f rec) = xc_events rec @ [ev]))"
  using assms
  by (cases rule: worker_step.cases)
    (auto simp: record_progress_def finish_attempt_def finish_panicked_def append_event_events Let_def intro!: exI)

lemma release_simps [simp]:
  "ss_records (release_execution_slot i st) = ss_records st"
  by (simp add: release_execution_slot_def)

lemma system_step_record:
  assumes "system_ok env y" and "system_step env y y'" and rec: "fmlookup (ss_records (sy_state y)) i = Some rec"
  obtains rec' where "fmlookup (ss_records (sy_state y')) i = Some rec'"
    and "rec' = rec \<or> xr_status (xc_report rec) = ExecRunning \<and> (\<exists>ev. xc_events rec' = xc_events rec @ [ev])"
proof -
  have ok: "records_ok (sy_state y)" "workers_ok env (sy_state y) (sy_workers y)" using assms(1) by (auto simp: system_ok_def)
  from assms(2) consider (client) "client_move env y y'" | (worker) "worker_move env y y'" by (auto simp: system_step_def)
  then show ?thesis
  proof cases
    case client
    then show ?thesis
    proof cases
      case (start now now' probe plan digest mode target job st)
      from start(2) have "fmlookup (ss_records st) i = Some rec"
      proof (cases rule: start_execution_cases)
        case (started d t)
        with fresh_execution_id [OF ok(1), of "ss_next_execution_id (sy_state y) + 1"] rec show ?thesis by auto
      qed (use rec in simp)
      with start(1) that show ?thesis by (auto simp: spawn_def)
    next
      case (start_refused now now' probe plan digest mode target error st)
      from start_refused(2) have "st = sy_state y" by (cases rule: start_execution_cases) auto
      with start_refused(1) that rec show ?thesis by auto
    next
      case (cancel now execution_id answer st)
      from cancel(2) show ?thesis
      proof (cases rule: cancel_execution_cases)
        case (requested rec0)
        with cancel(1) that rec show ?thesis
          by (cases "i = execution_id") (auto simp: request_cancel_def append_event_events)
      qed (use cancel(1) that rec in auto)
    qed (use that rec in auto)
  next
    case worker
    then show ?thesis
    proof cases
      case (work k st wk)
      then obtain wk0 where one: "sy_workers y = [wk0]" "k = 0" using ok(2) by (auto simp: workers_ok_def split: list.splits)
      from work(3) one have "worker_step env (sy_state y, wk0) (st, wk)" by simp
      from worker_step_record [OF this] consider "st = sy_state y"
        | f where "st = update_record (wk_id wk0) f (sy_state y)" "wk_phase wk0 \<noteq> Reported" "\<forall>rec. \<exists>ev. xc_events (f rec) = xc_events rec @ [ev]"
        by blast
      then show ?thesis
      proof cases
        case 2
        from ok(2) one 2(2) have "i = wk_id wk0 \<Longrightarrow> xr_status (xc_report rec) = ExecRunning"
          using rec by (auto simp: workers_ok_def worker_ok_def)
        with 2 work(1) that rec show ?thesis by (cases "i = wk_id wk0") auto
      qed (use work(1) that rec in auto)
    qed (use that rec in auto)
  qed
qed

text \<open> C17: A report that says the execution has ended never changes again, whatever clients and other
  executions do: neither its status, nor its steps, nor its log.\<close>

theorem session_terminal_final:
  assumes "sys_reachable env y" and "system_step env y y'" and "fmlookup (ss_records (sy_state y)) i = Some rec"
    and "xr_status (xc_report rec) \<noteq> ExecRunning"
  shows "fmlookup (ss_records (sy_state y')) i = Some rec"
  by (rule system_step_record [OF reachable_ok [OF assms(1)] assms(2,3)]) (use assms(4) in auto)

lemma panicked_record_status: "xr_status (xc_report panicked_record) = ExecFailed"
  by (simp add: panicked_record_def)

theorem session_terminal_final_witness:
  "fmlookup (ss_records (sy_state sample_released)) (execution_id_of 1) = Some panicked_record"
  by (rule session_terminal_final [OF sample_reachable(2), of sample_released])
    (use sample_steps in \<open>auto simp: system_step_def panicked_record_status\<close>)

lemma log_grows:
  assumes "sys_reachable env y" and "(system_step env)\<^sup>*\<^sup>* y y'" and "fmlookup (ss_records (sy_state y)) i = Some rec"
  shows "sys_reachable env y' \<and> (\<exists>rec' evs. fmlookup (ss_records (sy_state y')) i = Some rec' \<and> xc_events rec' = xc_events rec @ evs)"
  using assms(2)
proof (induction rule: rtranclp_induct)
  case base
  with assms show ?case by auto
next
  case (step y1 y2)
  then obtain rec1 evs where rec1: "sys_reachable env y1" "fmlookup (ss_records (sy_state y1)) i = Some rec1" "xc_events rec1 = xc_events rec @ evs" by auto
  from system_step_record [OF reachable_ok [OF rec1(1)] step(2) rec1(2)] obtain rec2 where
    "fmlookup (ss_records (sy_state y2)) i = Some rec2"
    "rec2 = rec1 \<or> xr_status (xc_report rec1) = ExecRunning \<and> (\<exists>ev. xc_events rec2 = xc_events rec1 @ [ev])" .
  with rec1 step(2) show ?case by (auto intro: sys_reachable.step)
qed

lemma record_log_ok: "sys_reachable env y \<Longrightarrow> fmlookup (ss_records (sy_state y)) i = Some rec \<Longrightarrow> log_ok i rec"
  using reachable_ok by (force simp: system_ok_def records_ok_def record_ok_def)

text \<open> C19: A client that polls for the events after the last sequence it was given receives every event
  once and in order, however the system moved between the two reads: the two pages together are the
  log, from where the first one began.\<close>

theorem polling_complete:
  assumes "sys_reachable env y" and "(system_step env)\<^sup>*\<^sup>* y y'"
    and "execution_events i k (sy_state y) = Inr page" and "k \<le> pg_latest_sequence page"
    and "execution_events i (pg_latest_sequence page) (sy_state y') = Inr page'"
  shows "\<exists>rec. fmlookup (ss_records (sy_state y')) i = Some rec
    \<and> pg_events page @ pg_events page' = drop k (xc_events rec) \<and> pg_latest_sequence page' = length (xc_events rec)"
proof -
  from assms(3) obtain rec where rec: "fmlookup (ss_records (sy_state y)) i = Some rec"
    "pg_events page = filter (\<lambda>event. k < ev_sequence event) (xc_events rec)"
    "pg_latest_sequence page = xr_latest_sequence (xc_report rec)"
    by (auto simp: execution_events_def split: option.splits)
  note log = record_log_ok [OF assms(1) rec(1)]
  from log_grows [OF assms(1,2) rec(1)] obtain rec' evs where later: "sys_reachable env y'"
    "fmlookup (ss_records (sy_state y')) i = Some rec'" "xc_events rec' = xc_events rec @ evs" by blast
  note log' = record_log_ok [OF later(1,2)]
  from assms(5) later(2) have page': "pg_events page' = filter (\<lambda>event. pg_latest_sequence page < ev_sequence event) (xc_events rec')"
    "pg_latest_sequence page' = xr_latest_sequence (xc_report rec')"
    by (auto simp: execution_events_def)
  from log have latest: "xr_latest_sequence (xc_report rec) = length (xc_events rec)" by (simp add: log_ok_def)
  with rec(3) have "pg_events page' = evs" using page'(1) log_suffix [OF log'] later(3) by simp
  moreover have "pg_events page = drop k (xc_events rec)" using rec(2) log_suffix [OF log] by simp
  ultimately have "pg_events page @ pg_events page' = drop k (xc_events rec')"
    using later(3) assms(4) rec(3) latest by simp
  with later(2) page'(2) log' show ?thesis by (auto simp: log_ok_def)
qed

theorem polling_complete_witness:
  "\<exists>rec. fmlookup (ss_records (sy_state sample_panicked)) (execution_id_of 1) = Some rec
    \<and> filter (\<lambda>event. 0 < ev_sequence event) (xc_events sample_record)
      @ filter (\<lambda>event. xr_latest_sequence (xc_report sample_record) < ev_sequence event) (xc_events panicked_record)
      = drop 0 (xc_events rec)
    \<and> xr_latest_sequence (xc_report panicked_record) = length (xc_events rec)"
proof -
  have later: "(system_step sample_session)\<^sup>*\<^sup>* sample_started sample_panicked"
    using sample_steps by (auto simp: system_step_def)
  obtain page where page: "execution_events (execution_id_of 1) 0 (sy_state sample_started) = Inr page"
    "pg_events page = filter (\<lambda>event. 0 < ev_sequence event) (xc_events sample_record)"
    "pg_latest_sequence page = xr_latest_sequence (xc_report sample_record)"
    by (auto simp: execution_events_def)
  obtain page' where page': "execution_events (execution_id_of 1) (pg_latest_sequence page) (sy_state sample_panicked) = Inr page'"
    "pg_events page' = filter (\<lambda>event. xr_latest_sequence (xc_report sample_record) < ev_sequence event) (xc_events panicked_record)"
    "pg_latest_sequence page' = xr_latest_sequence (xc_report panicked_record)"
    using page(3) by (auto simp: execution_events_def)
  from polling_complete [OF sample_reachable(1) later page(1) _ page'(1)] page(2) page'(2,3) show ?thesis by simp
qed

section \<open>Reports\<close>

text \<open> C20: In every reachable state each step of a report has the status told by the last progress event
  about it in the log, and pending when there is none; only a step that was running when the thread
  panicked is reported as failed.\<close>

theorem report_matches_log:
  assumes "sys_reachable env y" and "fmlookup (ss_records (sy_state y)) i = Some rec"
    and "report_status (xc_report rec) sid = Some status"
  shows "status = (if panicked (xc_events rec) \<and> told_status (xc_events rec) sid = StepRunning then StepFailed
                   else told_status (xc_events rec) sid)"
  using reachable_ok [OF assms(1)] assms(2,3)
  by (auto simp: system_ok_def records_ok_def record_ok_def explained_def final_status_def)

lemma sample_record_status: "report_status (xc_report sample_record) ''a'' = Some StepPending"
  using started_record_status(4) [of sample_host "''t''" "''t''" "execution_id_of 1" sample_plan "[]" DryRunMode None "''a''"]
  by (simp add: sample_record_def sample_plan_def wait_step_def)

theorem report_matches_log_witness:
  "StepPending = (if panicked (xc_events sample_record) \<and> told_status (xc_events sample_record) ''a'' = StepRunning then StepFailed
                  else told_status (xc_events sample_record) ''a'')"
  by (rule report_matches_log [OF sample_reachable(1) sample_lookup(1) sample_record_status])

text \<open> C5: A report of success means that the run did all of its work: every step of the reviewed plan
  has a step report, and it says that the step succeeded or was skipped.  No failed, blocked,
  cancelled or never attempted step hides behind the success of an execution.\<close>

theorem succeeded_report_complete:
  assumes "sys_reachable env y" and "fmlookup (ss_records (sy_state y)) i = Some rec"
    and "xr_status (xc_report rec) \<in> {ExecSucceeded, ExecSucceededWithWarnings}"
    and "step \<in> set (plan_steps (xr_reviewed_plan (xc_report rec)))"
  shows "report_status (xc_report rec) (es_id step) \<in> {Some StepSucceeded, Some StepSkipped}"
proof -
  from reachable_ok [OF assms(1)] assms(2) have ok: "record_ok i rec" by (auto simp: system_ok_def records_ok_def)
  with assms(3,4) have told: "told_status (xc_events rec) (es_id step) \<in> {StepSucceeded, StepSkipped}"
    by (auto simp: record_ok_def successful_def)
  from ok assms(4) obtain status where status: "report_status (xc_report rec) (es_id step) = Some status"
    by (auto simp: record_ok_def)
  with ok have "status = final_status (xc_events rec) (es_id step)" by (auto simp: record_ok_def explained_def)
  with told status show ?thesis by (auto simp: final_status_def)
qed

text \<open>The thread of the sample that is not interrupted.\<close>

lemma alone_reachable:
  assumes "(worker_step env)\<^sup>*\<^sup>* (st, wk) (st', wk')" and "sys_reachable env \<lparr> sy_state = st, sy_workers = [wk] \<rparr>"
  shows "sys_reachable env \<lparr> sy_state = st', sy_workers = [wk'] \<rparr>"
  using assms
proof (induction rule: rtranclp_induct2)
  case (step st1 wk1 st2 wk2)
  let ?y = "\<lparr> sy_state = st1, sy_workers = [wk1] \<rparr>"
  have "worker_move env ?y (?y \<lparr> sy_state := st2, sy_workers := (sy_workers ?y)[0 := wk2] \<rparr>)"
    by (rule worker_move.work) (use step(2) in simp_all)
  with step(3,4) show ?case by (auto simp: system_step_def intro: sys_reachable.step)
qed simp

lemma deliver_events:
  assumes "wk_phase wk = Iterating lp steps events"
  shows "(worker_step env)\<^sup>*\<^sup>* (st, wk)
     (fold (\<lambda>e. update_record (wk_id wk) (record_progress now e)) events st, wk \<lparr> wk_phase := Iterating lp steps [] \<rparr>)"
  using assms
proof (induction events arbitrary: st wk)
  case Nil
  then have "wk \<lparr> wk_phase := Iterating lp steps [] \<rparr> = wk" by (cases wk) simp
  then show ?case by simp
next
  case (Cons e events)
  from worker_step.progress [OF Cons.prems] Cons.IH [of "wk \<lparr> wk_phase := Iterating lp steps events \<rparr>"]
  show ?case by (fastforce intro: converse_rtranclp_into_rtranclp)
qed

definition sample_events :: "execution_progress_event list" where
  "sample_events = fst (run_iteration (attempt_env sample_session sample_job) sample_plan False (wait_step ''a'' [] (jnat 10))
     (initial_loop (attempt_env sample_session sample_job) sample_plan (attempt_runner new_fake_device)))"

definition sample_loop :: "fake_device run_loop_state" where
  "sample_loop = snd (run_iteration (attempt_env sample_session sample_job) sample_plan False (wait_step ''a'' [] (jnat 10))
     (initial_loop (attempt_env sample_session sample_job) sample_plan (attempt_runner new_fake_device)))"

definition finished_record :: execution_record where
  "finished_record = finish_attempt ''t'' ''t'' (run_result sample_plan sample_loop)
     (fold (record_progress ''t'') sample_events sample_record)"

lemma sample_env_simps [simp]:
  "xe_ext (attempt_env sample_session sample_job) = ascii_externals"
  "xe_dev (attempt_env sample_session sample_job) = fake_dry_run_device"
  "xe_handlers (attempt_env sample_session sample_job) = no_handlers"
  "xe_sandbox (attempt_env sample_session sample_job) = Some (attempt_sandbox sample_host (execution_id_of 1) sample_plan)"
  by (simp_all add: attempt_env_def sample_session_def sample_job_def sample_host_def)

lemma sample_admitted: "admission_error (attempt_env sample_session sample_job) w sample_plan = None"
  by (simp add: run_eval sample_plan_def wait_step_def Let_def)

lemma sample_result:
  "run_success (run_result sample_plan sample_loop)" "\<not> run_cancelled (run_result sample_plan sample_loop)"
  by (simp_all add: sample_loop_def run_eval sample_plan_def wait_step_def attempt_runner_def Let_def as_i64_small)

lemma fold_update_record:
  "fold (\<lambda>e. update_record i (f e)) es (sample_state rec active) = sample_state (fold f es rec) active"
    if "i = execution_id_of 1" for i
  using that by (induction es arbitrary: rec) (simp_all add: update_record_def sample_state_def)

lemma sample_finished_reachable:
  "sys_reachable sample_session (sample_system finished_record (Some (execution_id_of 1)) (Some Reported))"
proof -
  let ?xe = "attempt_env sample_session sample_job"
  let ?wk = "\<lambda>phase. \<lparr> wk_job = sample_job, wk_phase = (phase :: fake_device worker_phase) \<rparr>"
  let ?st = "\<lambda>rec. sample_state rec (Some (execution_id_of 1))"
  let ?lp = "initial_loop ?xe sample_plan (attempt_runner new_fake_device)"
  have job: "wj_plan sample_job = sample_plan" "wj_execution_id sample_job = execution_id_of 1" by (simp_all add: sample_job_def)
  have "worker_step sample_session (?st sample_record, ?wk Starting)
      (?st sample_record, ?wk (Iterating ?lp (plan_steps sample_plan) []))"
    using worker_step.begin_run [of "?wk Starting" sample_session new_fake_device "?st sample_record"] sample_admitted job by simp
  moreover have "worker_step sample_session (?st sample_record, ?wk (Iterating ?lp (plan_steps sample_plan) []))
      (?st sample_record, ?wk (Iterating sample_loop [] sample_events))"
  proof -
    have "cancel_flag (execution_id_of 1) (?st sample_record) = False"
      by (simp add: cancel_flag_def sample_state_def sample_record_def started_record_def append_event_def)
    then show ?thesis
      using worker_step.iterate [of "?wk (Iterating ?lp (plan_steps sample_plan) [])" ?lp "wait_step ''a'' [] (jnat 10)" "[]"
        sample_session "?st sample_record" sample_events sample_loop] job
      by (simp add: sample_plan_def initial_loop_def sample_events_def sample_loop_def)
  qed
  moreover have "(worker_step sample_session)\<^sup>*\<^sup>* (?st sample_record, ?wk (Iterating sample_loop [] sample_events))
      (?st (fold (record_progress ''t'') sample_events sample_record), ?wk (Iterating sample_loop [] []))"
    using deliver_events [of "?wk (Iterating sample_loop [] sample_events)" sample_loop "[]" sample_events sample_session
      "?st sample_record" "''t''"] job by (simp add: fold_update_record)
  moreover have "worker_step sample_session (st, ?wk (Iterating sample_loop [] [])) (st, ?wk (Returned (run_result sample_plan sample_loop)))" for st
    using worker_step.return [of "?wk (Iterating sample_loop [] [])" sample_loop "[]" sample_session st] job by simp
  moreover have "worker_step sample_session (?st rec, ?wk (Returned result))
      (?st (finish_attempt ''t'' ''t'' result rec), ?wk Reported)" for rec result
    using worker_step.finish [of "?wk (Returned result)" result sample_session "?st rec" "''t''" "''t''"] job
    by (simp add: update_record_def sample_state_def)
  ultimately have "(worker_step sample_session)\<^sup>*\<^sup>* (?st sample_record, ?wk Starting) (?st finished_record, ?wk Reported)"
    unfolding finished_record_def by (meson rtranclp.rtrancl_into_rtrancl rtranclp_trans r_into_rtranclp)
  from alone_reachable [OF this] sample_reachable(1) show ?thesis
    by (simp add: sample_system_def sample_started_def)
qed

theorem succeeded_report_complete_witness:
  "report_status (xc_report finished_record) ''a'' \<in> {Some StepSucceeded, Some StepSkipped}"
proof -
  have lookup: "fmlookup (ss_records (sy_state (sample_system finished_record (Some (execution_id_of 1))
      (Some (Reported :: fake_device worker_phase))))) (execution_id_of 1) = Some finished_record"
    by (simp add: sample_system_def sample_state_def)
  have status: "xr_status (xc_report finished_record) \<in> {ExecSucceeded, ExecSucceededWithWarnings}"
    using sample_result by (simp add: finished_record_def overall_status_def)
  have "xr_reviewed_plan (xc_report (fold (record_progress ''t'') es rec)) = xr_reviewed_plan (xc_report rec)" for es rec
    by (induction es arbitrary: rec) simp_all
  then have "wait_step ''a'' [] (jnat 10) \<in> set (plan_steps (xr_reviewed_plan (xc_report finished_record)))"
    by (simp add: finished_record_def sample_record_def started_facts sample_plan_def)
  from succeeded_report_complete [OF sample_finished_reachable lookup status this] show ?thesis
    by (simp add: wait_step_def)
qed

end
