(* ===== verification/Session_Progress.thy ===== *)
theory Session_Progress
  imports Session_Safety
begin

text \<open>Every execution ends and gives back the slot, when threads are scheduled.\<close>

section \<open>A bound on the moves that threads can still make\<close>

text \<open>A step of the plan delivers at most four events: two phases between its start and its end.\<close>

lemma attempt_step_phases: "attempt_step env plan state step r = (phases, outcome, state', r') \<Longrightarrow> length phases \<le> 2"
  by (auto simp: attempt_step_def perform_step_def split: prod.splits option.splits sum.splits)

lemma run_iteration_events: "run_iteration env plan flag step lp = (events, lp') \<Longrightarrow> length events \<le> 4"
  using attempt_step_phases [of env plan "lp_state lp" step "lp_runner lp"]
  by (fastforce simp: run_iteration_def Let_def split: if_splits prod.splits)

fun phase_left :: "execution_plan \<Rightarrow> 'w worker_phase \<Rightarrow> nat" where
  "phase_left plan Starting = 5 * length (plan_steps plan) + 4"
| "phase_left plan (Iterating lp steps events) = 5 * length steps + length events + 3"
| "phase_left plan (Returned result) = 2"
| "phase_left plan Reported = 1"

definition work_left :: "'w worker list \<Rightarrow> nat" where
  "work_left wks = (\<Sum>wk \<leftarrow> wks. phase_left (wk_plan wk) (wk_phase wk))"

lemma worker_step_left:
  assumes "worker_step env (st, wk) (st', wk')"
  shows "phase_left (wk_plan wk') (wk_phase wk') < phase_left (wk_plan wk) (wk_phase wk)"
  using assms
proof (cases rule: worker_step.cases)
  case (iterate lp step steps events lp')
  from run_iteration_events [OF iterate(5)] iterate show ?thesis by simp
next
  case (panic now now')
  then show ?thesis by (cases "wk_phase wk") simp_all
qed simp_all

lemma work_left_update:
  "i < length wks \<Longrightarrow> phase_left (wk_plan wk) (wk_phase wk) < phase_left (wk_plan (wks ! i)) (wk_phase (wks ! i)) \<Longrightarrow>
   work_left (wks[i := wk]) < work_left wks"
  by (induction wks arbitrary: i) (auto simp: work_left_def less_Suc_eq_0_disj nth_Cons' split: nat.split)

lemma work_left_remove:
  "i < length wks \<Longrightarrow> wk_phase (wks ! i) = Reported \<Longrightarrow> work_left (take i wks @ drop (Suc i) wks) < work_left wks"
  by (induction wks arbitrary: i) (auto simp: work_left_def less_Suc_eq_0_disj nth_Cons' split: nat.split)

lemma worker_move_left: "worker_move env y y' \<Longrightarrow> work_left (sy_workers y') < work_left (sy_workers y)"
  by (induction rule: worker_move.induct) (auto intro!: work_left_update work_left_remove dest: worker_step_left)

text \<open>While a thread runs, clients start no other.\<close>

lemma client_move_workers:
  assumes "client_move env y y'" and "system_ok env y" and "sy_workers y \<noteq> []"
  shows "sy_workers y' = sy_workers y"
  using assms(1)
proof cases
  case (start now now' probe plan digest mode target job st)
  from assms(2,3) have "ss_active_execution_id (sy_state y) \<noteq> None"
    by (cases "sy_workers y") (auto simp: system_ok_def workers_ok_def)
  with start(2) show ?thesis by (cases rule: start_execution_cases) auto
qed simp_all

lemma system_step_left:
  assumes "system_step env y y'" and "sys_reachable env y" and "sy_workers y \<noteq> []"
  shows "work_left (sy_workers y') \<le> work_left (sy_workers y)"
  using assms client_move_workers [OF _ reachable_ok [OF assms(2)] assms(3)]
  by (fastforce simp: system_step_def dest: worker_move_left)

section \<open>Every execution ends\<close>

text \<open>Systems whose work is bounded and does not grow while there is some: fair paths reach idle states.\<close>

locale draining =
  fixes good :: "'s \<Rightarrow> bool" and move :: "'s \<Rightarrow> 's \<Rightarrow> bool" and work :: "'s \<Rightarrow> 's \<Rightarrow> bool"
    and left :: "'s \<Rightarrow> nat" and idle :: "'s \<Rightarrow> bool"
  assumes good_move: "good y \<Longrightarrow> move y y' \<Longrightarrow> good y'"
    and move_left: "good y \<Longrightarrow> move y y' \<Longrightarrow> \<not> idle y \<Longrightarrow> left y' \<le> left y"
    and work_left: "good y \<Longrightarrow> work y y' \<Longrightarrow> left y' < left y"
begin

definition fair :: "(nat \<Rightarrow> 's) \<Rightarrow> bool" where
  "fair f \<longleftrightarrow> good (f 0) \<and> (\<forall>n. move (f n) (f (Suc n))) \<and> (\<forall>n. \<not> idle (f n) \<longrightarrow> (\<exists>m\<ge>n. work (f m) (f (Suc m))))"

lemma fair_good: "fair f \<Longrightarrow> good (f n)"
  by (induction n) (auto simp: fair_def intro: good_move)

lemma busy_left:
  assumes "fair f" and "n \<le> m" and "\<forall>k. n \<le> k \<longrightarrow> k < m \<longrightarrow> \<not> idle (f k)"
  shows "left (f m) \<le> left (f n)"
  using assms(2,3)
proof (induction m rule: dec_induct)
  case (step m)
  with assms(1) fair_good [OF assms(1)] have "left (f (Suc m)) \<le> left (f m)"
    by (intro move_left) (auto simp: fair_def)
  with step show ?case by force
qed simp

lemma drains:
  assumes "fair f"
  shows "\<exists>m\<ge>n. idle (f m)"
proof (induction "left (f n)" arbitrary: n rule: less_induct)
  case less
  show ?case
  proof (rule ccontr)
    assume never: "\<not> ?thesis"
    with assms obtain m where m: "n \<le> m" "work (f m) (f (Suc m))" unfolding fair_def by blast
    have "left (f m) \<le> left (f n)" using never by (intro busy_left [OF assms m(1)]) auto
    with work_left [OF fair_good [OF assms] m(2)] have "left (f (Suc m)) < left (f n)" by simp
    from less [OF this] m(1) never show False by (meson le_Suc_eq le_trans)
  qed
qed

end

interpretation session: draining "sys_reachable env" "system_step env" "worker_move env"
    "\<lambda>y. work_left (sy_workers y)" "\<lambda>y. sy_workers y = []" for env
  by unfold_locales (auto intro: sys_reachable.step system_step_left worker_move_left)

text \<open>A path of the system on which a thread that is there moves in the end.\<close>

definition fair_path :: "'w session_env \<Rightarrow> (nat \<Rightarrow> 'w system) \<Rightarrow> bool" where
  "fair_path env f \<longleftrightarrow>
     f 0 = initial_system \<and> (\<forall>n. system_step env (f n) (f (Suc n)))
     \<and> (\<forall>n. sy_workers (f n) \<noteq> [] \<longrightarrow> (\<exists>m\<ge>n. worker_move env (f m) (f (Suc m))))"

lemma fair_path_fair: "fair_path env f \<Longrightarrow> session.fair env f"
  by (auto simp: fair_path_def session.fair_def intro: sys_reachable.init)


definition sample_path :: "nat \<Rightarrow> fake_device system" where
  "sample_path n =
     (if n = 0 then initial_system else if n = 1 then sample_started else if n = 2 then sample_panicked else sample_released)"

lemma sample_fair: "fair_path sample_session sample_path"
proof -
  have "system_step sample_session (sample_path n) (sample_path (Suc n))" for n
    using sample_steps client_move.read [of sample_session sample_released] by (auto simp: sample_path_def system_step_def)
  moreover have "\<exists>m\<ge>n. worker_move sample_session (sample_path m) (sample_path (Suc m))" if "sy_workers (sample_path n) \<noteq> []" for n
  proof -
    from that have "n \<le> 2"
      by (auto simp: sample_path_def initial_system_def sample_released_def sample_system_def split: if_splits)
    then show ?thesis using sample_steps by (intro exI [of _ 2]) (simp add: sample_path_def numeral_2_eq_2)
  qed
  ultimately show ?thesis by (simp add: fair_path_def sample_path_def)
qed


end
