(* ===== verification/Session_Redaction.thy ===== *)
theory Session_Redaction
  imports Session_Safety
begin

text \<open>What a report shows of the reviewed plan, what may be launched after a run, and the codes of errors.\<close>

section \<open>Facts that every update of a record keeps\<close>

lemma worker_step_update:
  assumes "worker_step env (st, wk) (st', wk')"
  obtains "st' = st"
  | now e where "st' = update_record (wk_id wk) (record_progress now e) st"
  | now now' result where "st' = update_record (wk_id wk) (finish_attempt now now' result) st"
  | now now' where "st' = update_record (wk_id wk) (finish_panicked now now') st"
  using assms by (cases rule: worker_step.cases) auto

lemma every_record:
  assumes start: "\<And>now now' i plan d mode t. P (started_record (se_host env) now now' i plan d mode t)"
    and updates: "\<And>now e rec. P rec \<Longrightarrow> P (record_progress now e rec)"
      "\<And>now now' result rec. P rec \<Longrightarrow> P (finish_attempt now now' result rec)"
      "\<And>now now' rec. P rec \<Longrightarrow> P (finish_panicked now now' rec)"
      "\<And>now rec. P rec \<Longrightarrow> P (request_cancel now rec)"
    and "sys_reachable env y" and "fmlookup (ss_records (sy_state y)) i = Some rec"
  shows "P rec"
  using assms(6,7)
proof (induction arbitrary: i rec rule: sys_reachable.induct)
  case init
  then show ?case by (simp add: initial_system_def new_session_state_def)
next
  case (step y y')
  have updated: "P rec" if "fmlookup (ss_records (update_record j f (sy_state y))) i = Some rec" "\<And>r. P r \<Longrightarrow> P (f r)" for j f i rec
    using that step.IH by (auto split: if_splits)
  from step(2) consider (client) "client_move env y y'" | (worker) "worker_move env y y'" by (auto simp: system_step_def)
  then show ?case
  proof cases
    case client
    then show ?thesis
    proof cases
      case (start now now' probe plan digest mode target job st)
      from start(2) show ?thesis
      proof (cases rule: start_execution_cases)
        case (started d t)
        with start(1) step.prems step.IH assms(1) show ?thesis by (auto simp: spawn_def split: if_splits)
      qed (use start(1) step in simp)
    next
      case (start_refused now now' probe plan digest mode target error st)
      from start_refused(2) have "st = sy_state y" by (cases rule: start_execution_cases) auto
      with start_refused(1) step show ?thesis by auto
    next
      case (cancel now execution_id answer st)
      from cancel(2) show ?thesis
        by (cases rule: cancel_execution_cases) (use cancel(1) step updated updates(4) in auto)
    qed (use step in auto)
  next
    case worker
    then show ?thesis
    proof cases
      case (work k st wk)
      from work(3) show ?thesis
        by (cases rule: worker_step_update) (use work(1) step updated updates(1-3) in auto)
    qed (use step in auto)
  qed
qed

section \<open>The plan that a report shows\<close>

fun shown_strings :: "json \<Rightarrow> string set" where
  "shown_strings (JString s) = {s}"
| "shown_strings (JArray vs) = (\<Union>v \<in> set vs. shown_strings v)"
| "shown_strings (JObject m) = (\<Union>kv \<in> set m. shown_strings (snd kv))"
| "shown_strings _ = {}"

definition hidden :: "json \<Rightarrow> bool" where
  "hidden v \<longleftrightarrow> v = JString ''[redacted]''"

text \<open>Neither a sensitive value nor its label is shown, nor the text of a path of the host.\<close>

definition resolved_input_hidden :: "execution_resolved_input_snapshot \<Rightarrow> bool" where
  "resolved_input_hidden input \<longleftrightarrow>
     (ris_sensitive input \<longrightarrow> pred_option hidden (ris_value input) \<and> ris_selected_enum_label input = None)
     \<and> (is_host_path_input_type (ris_type_name input) \<longrightarrow> pred_option (\<lambda>v. shown_strings v \<subseteq> {''[redacted]''}) (ris_value input))"

definition plan_input_hidden :: "execution_plan \<Rightarrow> execution_input_value \<Rightarrow> bool" where
  "plan_input_hidden plan input \<longleftrightarrow>
     (input_is_sensitive plan (eiv_id input) \<longrightarrow> hidden (rv_value (eiv_value input)) \<and> rv_location (eiv_value input) = None)
     \<and> (rv_location (eiv_value input) = Some ''host'' \<and> is_host_path_input_type (rv_type_name (eiv_value input)) \<longrightarrow>
          shown_strings (rv_value (eiv_value input)) \<subseteq> {''[redacted]''})"

definition source_hidden :: "externals \<Rightarrow> execution_artifact_source \<Rightarrow> bool" where
  "source_hidden ext source =
     (case source of
        SrcDirectUrl url _ \<Rightarrow>
          url = ''<redacted-invalid-url>''
          \<or> (case ext_url_parse ext url of None \<Rightarrow> False | Some parsed \<Rightarrow> \<not> url_needs_redaction parsed)
      | _ \<Rightarrow> True)"

text \<open>The URL library: taking the credentials, the query and the fragment off leaves a URL without them.\<close>

definition url_redaction_ok :: "externals \<Rightarrow> bool" where
  "url_redaction_ok ext \<longleftrightarrow>
     (\<forall>url parsed. ext_url_parse ext url = Some parsed \<longrightarrow> url_needs_redaction parsed \<longrightarrow>
        (case ext_url_parse ext (ext_url_redact ext url) of None \<Rightarrow> False | Some parsed' \<Rightarrow> \<not> url_needs_redaction parsed'))"

definition shown_plan :: "execution_report \<Rightarrow> execution_plan option" where
  "shown_plan report =
     (case xr_redacted_reviewed_plan report of Some plan \<Rightarrow> Some plan | None \<Rightarrow> xr_public_reviewed_plan report)"

lemma redact_host_path_shown: "shown_strings (fst (redact_host_path_value v)) \<subseteq> {''[redacted]''}"
  by (induction v rule: redact_host_path_value.induct) (auto simp: subset_iff)

lemma redact_host_path_unchanged: "\<not> snd (redact_host_path_value v) \<Longrightarrow> fst (redact_host_path_value v) = v"
  by (induction v rule: redact_host_path_value.induct)
    (auto simp: list_ex_iff intro!: map_idI split: if_splits)

lemma redact_value_facts:
  "redact_consumer_input_value v sensitive host_path = (v', redacted) \<Longrightarrow>
     (sensitive \<longrightarrow> hidden v') \<and> (host_path \<longrightarrow> shown_strings v' \<subseteq> {''[redacted]''}) \<and> (\<not> redacted \<longrightarrow> v' = v)"
  using redact_host_path_shown [of v] redact_host_path_unchanged [of v]
  by (auto simp: redact_consumer_input_value_def hidden_def split: if_splits)

lemma redact_resolved_input_facts:
  "redact_resolved_input input = (input', redacted) \<Longrightarrow>
     resolved_input_hidden input' \<and> ris_key input' = ris_key input \<and> ris_sensitive input' = ris_sensitive input
     \<and> (\<not> redacted \<longrightarrow> input' = input)"
  by (cases input; cases "ris_value input"; cases "redact_consumer_input_value (the (ris_value input)) (ris_sensitive input)
        (is_host_path_input_type (ris_type_name input))")
    (auto simp: redact_resolved_input_def resolved_input_hidden_def Let_def dest!: redact_value_facts split: if_splits)

lemma redact_plan_input_facts:
  "redact_plan_input plan input = (input', redacted) \<Longrightarrow>
     eiv_id input' = eiv_id input \<and> (\<not> redacted \<longrightarrow> input' = input)
     \<and> (\<forall>shown. input_is_sensitive shown (eiv_id input) = input_is_sensitive plan (eiv_id input) \<longrightarrow> plan_input_hidden shown input')"
  by (cases input; cases "eiv_value input"; cases "redact_consumer_input_value (rv_value (eiv_value input))
        (input_is_sensitive plan (eiv_id input))
        (rv_location (eiv_value input) = Some ''host'' \<and> is_host_path_input_type (rv_type_name (eiv_value input)))")
    (auto simp: redact_plan_input_def plan_input_hidden_def Let_def dest!: redact_value_facts split: if_splits)

lemma redact_artifact_facts:
  assumes "redact_artifact ext artifact = (artifact', redacted)" and "url_redaction_ok ext"
  shows "source_hidden ext (ea_source artifact')"
proof -
  consider url sha where "ea_source artifact = SrcDirectUrl url sha"
    | "\<forall>url sha. ea_source artifact \<noteq> SrcDirectUrl url sha" by blast
  then show ?thesis
  proof cases
    case (1 url sha)
    with assms(1) assms(2) [unfolded url_redaction_ok_def, rule_format, of url] show ?thesis
      by (cases "ext_url_parse ext url") (auto simp: redact_artifact_def source_hidden_def split: if_splits)
  qed (use assms(1) in \<open>auto simp: redact_artifact_def source_hidden_def split: execution_artifact_source.splits\<close>)
qed

lemma redact_artifact_unchanged: "redact_artifact ext artifact = (artifact', False) \<Longrightarrow> artifact' = artifact"
  by (auto simp: redact_artifact_def split: execution_artifact_source.splits option.splits if_splits)

lemma map_fst_unchanged: "(\<And>x. \<not> snd (f x) \<Longrightarrow> fst (f x) = x) \<Longrightarrow> \<not> list_ex snd (map f xs) \<Longrightarrow> map fst (map f xs) = xs"
  by (induction xs) auto

lemma redacted_plan_unchanged:
  assumes "redacted_report_plan ext plan = (shown, False, urls)"
  shows "shown = plan"
proof -
  from assms have flags: "\<not> list_ex snd (map redact_resolved_input (plan_resolved_inputs plan))"
    "\<not> list_ex snd (map (redact_plan_input plan) (plan_inputs plan))"
    "\<not> list_ex snd (map (redact_artifact ext) (plan_artifacts plan))"
    and shown: "shown = plan \<lparr> plan_resolved_inputs := map fst (map redact_resolved_input (plan_resolved_inputs plan)),
      plan_inputs := map fst (map (redact_plan_input plan) (plan_inputs plan)),
      plan_artifacts := map fst (map (redact_artifact ext) (plan_artifacts plan)) \<rparr>"
    by (auto simp: redacted_report_plan_def Let_def)
  have "map fst (map redact_resolved_input (plan_resolved_inputs plan)) = plan_resolved_inputs plan"
    using redact_resolved_input_facts by (intro map_fst_unchanged [OF _ flags(1)]) (metis prod.collapse)
  moreover have "map fst (map (redact_plan_input plan) (plan_inputs plan)) = plan_inputs plan"
    using redact_plan_input_facts by (intro map_fst_unchanged [OF _ flags(2)]) (metis prod.collapse)
  moreover have "map fst (map (redact_artifact ext) (plan_artifacts plan)) = plan_artifacts plan"
    using redact_artifact_unchanged by (intro map_fst_unchanged [OF _ flags(3)]) (metis prod.collapse)
  ultimately show ?thesis using shown by (cases plan) simp
qed

lemma redacted_sensitive:
  assumes "redacted_report_plan ext plan = (shown, redacted, urls)"
  shows "input_is_sensitive shown key = input_is_sensitive plan key"
proof -
  have keys: "ris_key (fst (redact_resolved_input x)) = ris_key x" "ris_sensitive (fst (redact_resolved_input x)) = ris_sensitive x" for x
    using redact_resolved_input_facts [of x] by (metis prod.collapse)+
  from assms have "plan_resolved_inputs shown = map (fst \<circ> redact_resolved_input) (plan_resolved_inputs plan)"
    by (auto simp: redacted_report_plan_def Let_def)
  then show ?thesis by (auto simp: input_is_sensitive_def keys image_iff)
qed

definition nothing_shown :: "externals \<Rightarrow> execution_plan \<Rightarrow> bool" where
  "nothing_shown ext plan \<longleftrightarrow>
     list_all resolved_input_hidden (plan_resolved_inputs plan)
     \<and> list_all (plan_input_hidden plan) (plan_inputs plan)
     \<and> list_all (\<lambda>artifact. source_hidden ext (ea_source artifact)) (plan_artifacts plan)"

lemma redacted_plan_hidden:
  assumes "redacted_report_plan ext plan = (shown, redacted, urls)" and "url_redaction_ok ext"
  shows "nothing_shown ext shown"
proof -
  from assms(1) have parts: "plan_resolved_inputs shown = map (fst \<circ> redact_resolved_input) (plan_resolved_inputs plan)"
    "plan_inputs shown = map (fst \<circ> redact_plan_input plan) (plan_inputs plan)"
    "plan_artifacts shown = map (fst \<circ> redact_artifact ext) (plan_artifacts plan)"
    by (auto simp: redacted_report_plan_def Let_def)
  have "resolved_input_hidden (fst (redact_resolved_input x))" for x
    using redact_resolved_input_facts [of x] by (metis prod.collapse)
  moreover have "plan_input_hidden shown (fst (redact_plan_input plan x))" for x
    using redact_plan_input_facts [of plan x] redacted_sensitive [OF assms(1)] by (metis prod.collapse)
  moreover have "source_hidden ext (ea_source (fst (redact_artifact ext x)))" for x
    using redact_artifact_facts [OF _ assms(2)] by (metis prod.collapse)
  ultimately show ?thesis by (simp add: nothing_shown_def parts list_all_iff)
qed

text \<open>What is shown was derived from the plan of the report when the execution started.\<close>

definition shows_redacted :: "externals \<Rightarrow> execution_record \<Rightarrow> bool" where
  "shows_redacted ext rec =
     (case redacted_report_plan ext (xr_reviewed_plan (xc_report rec)) of
        (redacted_plan, was_redacted, _) \<Rightarrow> shown_plan (xc_report rec) = Some redacted_plan)"

lemma shown_plan_report [simp]:
  "shown_plan (find_step_mut sid f r) = shown_plan r" "shown_plan (refresh_recipe_statuses r) = shown_plan r"
  "shown_plan (apply_recipe_warning_statuses r) = shown_plan r"
  "shown_plan (collect_permission_warnings rid sid outs r) = shown_plan r"
  "shown_plan (collect_copy_staging_cleanup_warning rid sid outs r) = shown_plan r"
  "shown_plan (r \<lparr> xr_errors := errors \<rparr>) = shown_plan r" "shown_plan (r \<lparr> xr_latest_sequence := n \<rparr>) = shown_plan r"
  by (simp_all add: shown_plan_def find_step_mut_def refresh_recipe_statuses_def apply_recipe_warning_statuses_def
      collect_permission_warnings_def collect_copy_staging_cleanup_warning_def Let_def split: option.split)

lemma shown_plan_finish [simp]: "shown_plan (finish_report now result r) = shown_plan r"
proof -
  have "shown_plan (finish_step sr r) = shown_plan r" for sr r
    by (simp add: finish_step_def Let_def split: step_run_status.split)
  then have "shown_plan (fold finish_step srs r) = shown_plan r" for srs r by (induction srs arbitrary: r) simp_all
  moreover have "shown_plan (r \<lparr> xr_resolved_releases := a, xr_resolved_artifacts := b \<rparr>) = shown_plan r"
    "shown_plan (r \<lparr> xr_status := s, xr_finished_at := t \<rparr>) = shown_plan r" for r a b s t
    by (simp_all add: shown_plan_def split: option.split)
  ultimately show ?thesis by (simp add: finish_report_def Let_def)
qed

lemma shown_plan_updates [simp]:
  "shown_plan (xc_report (record_progress now e rec)) = shown_plan (xc_report rec)"
  "shown_plan (xc_report (finish_attempt now now' result rec)) = shown_plan (xc_report rec)"
  "shown_plan (xc_report (finish_panicked now now' rec)) = shown_plan (xc_report rec)"
  "shown_plan (xc_report (request_cancel now rec)) = shown_plan (xc_report rec)"
  by (simp_all add: record_progress_def finish_attempt_def finish_panicked_def request_cancel_def Let_def)
    (simp add: panic_report_def; simp add: shown_plan_def split: option.split)

lemma shows_redacted_started: "shows_redacted (sn_ext host) (started_record host now now' i plan d mode t)"
proof (cases "redacted_report_plan (sn_ext host) plan")
  case (fields shown redacted urls)
  then show ?thesis
    using redacted_plan_unchanged [of "sn_ext host" plan shown urls]
    by (cases redacted) (simp_all add: shows_redacted_def started_facts shown_plan_def started_record_def initial_report_def)
qed



section \<open>Launching an app after a run\<close>

lemma launch_candidates_set:
  "(\<exists>cs. launch_candidates plan ids steps = Inr cs \<and> distinct cs \<and> Inr ` set cs =
      validated_plan_lifecycle_target plan ` {step \<in> set steps. es_type_name step = ''launch_app'' \<and> es_id step \<in> ids \<and> es_app_id step \<noteq> None})
   \<or> (\<exists>e reason. launch_candidates plan ids steps = Inl e
      \<and> Inl reason \<in> validated_plan_lifecycle_target plan `
           {step \<in> set steps. es_type_name step = ''launch_app'' \<and> es_id step \<in> ids \<and> es_app_id step \<noteq> None})"
proof (induction steps)
  case (Cons step steps)
  show ?case
  proof (cases "es_type_name step \<noteq> ''launch_app'' \<or> es_id step \<notin> ids \<or> es_app_id step = None")
    case True
    then have "{s \<in> set (step # steps). es_type_name s = ''launch_app'' \<and> es_id s \<in> ids \<and> es_app_id s \<noteq> None}
        = {s \<in> set steps. es_type_name s = ''launch_app'' \<and> es_id s \<in> ids \<and> es_app_id s \<noteq> None}" by auto
    with Cons True show ?thesis by simp
  next
    case False
    then have "{s \<in> set (step # steps). es_type_name s = ''launch_app'' \<and> es_id s \<in> ids \<and> es_app_id s \<noteq> None}
        = insert step {s \<in> set steps. es_type_name s = ''launch_app'' \<and> es_id s \<in> ids \<and> es_app_id s \<noteq> None}" by auto
    with Cons False show ?thesis
      by (cases "validated_plan_lifecycle_target plan step") (auto simp: distinct_insert image_Un)
  qed
qed simp

lemma one_candidate:
  assumes "distinct cs" and "Inr ` set cs = (found :: ('a + 'b) set)"
  shows "(case cs of [] \<Rightarrow> Inl e | [c] \<Rightarrow> Inr c | c # c' # cs' \<Rightarrow> Inl e) = (Inr candidate :: 'e + 'b) \<longleftrightarrow> found = {Inr candidate}"
proof -
  have "found = {Inr candidate} \<longleftrightarrow> set cs = {candidate}"
    unfolding assms(2) [symmetric] by (metis image_empty image_insert inj_Inr inj_image_eq_iff)
  also have "\<dots> \<longleftrightarrow> cs = [candidate]" using assms(1) by (cases cs; cases "tl cs") auto
  finally show ?thesis by (auto split: list.split)
qed

text \<open>
  An app can be launched from the report of an execution exactly when the execution was a real run
  that succeeded, and all its launch steps that succeeded agree with the reviewed apps of the plan on
  one package and activity, which is then the one launched.\<close>

lemma eligible_launch_candidate_iff:
  "eligible_launch_candidate report = Inr candidate \<longleftrightarrow>
     xr_mode report = RealMode \<and> xr_status report \<in> {ExecSucceeded, ExecSucceededWithWarnings}
     \<and> validated_plan_lifecycle_target (xr_reviewed_plan report) `
         {step. step \<in> set (plan_steps (xr_reviewed_plan report)) \<and> es_type_name step = ''launch_app'' \<and> es_app_id step \<noteq> None
            \<and> es_id step \<in> set (map xs_step_id (filter (\<lambda>s. xs_status s = StepSucceeded) (report_steps (xr_recipes report))))}
       = {Inr candidate}"
proof -
  let ?ids = "set (map xs_step_id (filter (\<lambda>s. xs_status s = StepSucceeded) (report_steps (xr_recipes report))))"
  let ?plan = "xr_reviewed_plan report"
  let ?done = "{step \<in> set (plan_steps ?plan). es_type_name step = ''launch_app'' \<and> es_id step \<in> ?ids \<and> es_app_id step \<noteq> None}"
  have same: "{step. step \<in> set (plan_steps ?plan) \<and> es_type_name step = ''launch_app'' \<and> es_app_id step \<noteq> None \<and> es_id step \<in> ?ids} = ?done"
    by blast
  consider cs where "launch_candidates ?plan ?ids (plan_steps ?plan) = Inr cs" "distinct cs"
      "Inr ` set cs = validated_plan_lifecycle_target ?plan ` ?done"
    | e reason where "launch_candidates ?plan ?ids (plan_steps ?plan) = Inl e" "Inl reason \<in> validated_plan_lifecycle_target ?plan ` ?done"
    using launch_candidates_set [of ?plan ?ids "plan_steps ?plan"] by blast
  then have found: "(case launch_candidates ?plan ?ids (plan_steps ?plan) of
              Inl error \<Rightarrow> Inl error
            | Inr [c] \<Rightarrow> Inr c
            | Inr _ \<Rightarrow> Inl (launch_unavailable
                ''The retained execution does not establish exactly one safe launch candidate.'' [])) = Inr candidate
      \<longleftrightarrow> validated_plan_lifecycle_target ?plan ` ?done = {Inr candidate}"
  proof cases
    case (1 cs)
    show ?thesis unfolding 1(1) sum.case by (rule one_candidate [OF 1(2,3)])
  next
    case (2 e reason)
    have "validated_plan_lifecycle_target ?plan ` ?done \<noteq> {Inr candidate}"
      using 2(2) by (metis Inl_Inr_False singletonD)
    then show ?thesis unfolding 2(1) sum.case by simp
  qed
  show ?thesis
  proof (cases "xr_mode report \<noteq> RealMode \<or> xr_status report \<notin> {ExecSucceeded, ExecSucceededWithWarnings}")
    case True
    then show ?thesis by (auto simp: eligible_launch_candidate_def)
  next
    case False
    then show ?thesis unfolding eligible_launch_candidate_def same if_not_P [OF False] found by simp
  qed
qed

section \<open>The codes of errors\<close>

text \<open> C23: A step that is refused because the device lacks a capability it needs is reported with the
  general code for failed steps: the message of the executor does not start with the words that the
  report looks for, so that the code \<open>missing_capability\<close> is not given to it.\<close>

theorem missing_capability_code:
  assumes "check_capabilities plan step = Some outcome"
  shows "issue_code (run_status (oc_status outcome)) (oc_message outcome) (oc_failure_kind outcome) = ''step_execution_failed''"
  using assms
  by (auto simp: check_capabilities_def missing_capabilities_message_def Let_def issue_code_def message_code_def
      starts_with_def settled_def split: if_splits)

theorem missing_capability_code_witness:
  "issue_code (run_status RtFailed) (Some ''missing required capabilities: root_shell'') None = ''step_execution_failed''"
proof -
  let ?step = "(wait_step ''a'' [] (jnat 10)) \<lparr> es_constraints := \<lparr> esc_capabilities = [''root_shell''], esc_conflicts_with = [] \<rparr> \<rparr>"
  have "check_capabilities sample_plan ?step = Some (settled RtFailed (Some ''missing required capabilities: root_shell'') [] Continue)"
    by (simp add: check_capabilities_def missing_capabilities_message_def sample_plan_def plain_plan_def runtime_capability_enabled_def)
  from missing_capability_code [OF this] show ?thesis by (simp add: settled_def)
qed

end
