(* ===== verification/Runtime_Configuration.thy ===== *)
theory Runtime_Configuration
  imports Planner Copy_Admission Plan_Digest
begin

text \<open>
  The preparation of a configuration and the availability of recipes (\<open>runtime_configuration.rs\<close>).  A request
  overrides a saved configuration, which overrides the device plan; the planner is then run on the result.
  The availability of a recipe is found by running the planner on that recipe alone, with the capabilities
  of the device and with more.  The files of the catalog are read elsewhere and are arguments here.
\<close>

section \<open>Data\<close>

record planner_load_error =
  ple_code :: string
  ple_message :: string

record planner_input_parts =
  pp_device_plan_ref :: string
  pp_device_plan_name :: "string option"
  pp_device_plan_description :: "string option"
  pp_device_profile_ref :: string
  pp_selected_recipe_refs :: "string list"
  pp_device_plan_input_bindings :: "json omap"
  pp_device_context :: device_context
  pp_runtime_capabilities :: runtime_capabilities

record runtime_capability_availability =
  ca_root_shell :: bool
  ca_app_data_write :: bool
  ca_root_shell_route :: "root_shell_route option"

record device_context_override =
  dco_manufacturer :: "string option"
  dco_model :: "string option"
  dco_android_version :: "int option"
  dco_android_api_level :: "int option"
  dco_device_tags :: "string list option"

text \<open>What preparation uses of a saved configuration.\<close>

record user_configuration =
  uc_device_plan :: string
  uc_selected_recipes :: "string list"
  uc_bindings :: "json omap"

datatype user_configuration_source =
    Reference string
  | Inline user_configuration

record configuration_context_request =
  cr_user_configuration :: "user_configuration_source option"
  cr_device_plan :: "string option"
  cr_selected_recipes :: "string list option"
  cr_explicit_bindings :: "json omap"
  cr_device_context :: "device_context_override option"
  cr_target_device :: "target_device_binding option"
  cr_runtime_capability_availability :: "runtime_capability_availability option"

text \<open>The catalog as it is read: recipes, saved configurations, device plans and App Definitions.\<close>

record catalog_files =
  cf_identity :: "catalog_identity option"
  cf_recipes :: "planner_load_error + recipe list"
  cf_user_configuration :: "string \<Rightarrow> string + user_configuration"
  cf_planner_input_parts :: "string \<Rightarrow> recipe list \<Rightarrow> planner_load_error + planner_input_parts"
  cf_app_definitions :: "app_definition list"

record runtime_configuration_diagnostic =
  rd_severity :: string
  rd_code :: string
  rd_message :: string
  rd_key :: "string option"
  rd_provenance :: "binding_source option"
  rd_details :: json

record prepared_configuration =
  pc_catalog_identity :: "catalog_identity option"
  pc_effective_device_plan :: string
  pc_recipes :: "recipe list"
  pc_selected_recipe_refs :: "string list"
  pc_expanded_recipe_refs :: "string list"
  pc_explicit_bindings :: "json omap"
  pc_user_configuration_bindings :: "json omap"
  pc_device_plan_input_bindings :: "json omap"
  pc_device_plan_parts :: "planner_input_parts option"
  pc_runtime_capabilities :: runtime_capabilities
  pc_device_context :: "device_context_override option"
  pc_target_device :: "target_device_binding option"
  pc_binding_resolution :: binding_resolution
  pc_diagnostics :: "runtime_configuration_diagnostic list"

datatype configuration_context_error =
    MissingDevicePlan
  | UserConfigurationError string
  | CatalogError planner_load_error

section \<open>Diagnostics\<close>

definition configuration_binding_diagnostic :: "binding_diagnostic \<Rightarrow> runtime_configuration_diagnostic" where
  "configuration_binding_diagnostic d =
     \<lparr> rd_severity = ''error'', rd_code = bd_code d, rd_message = bd_message d, rd_key = Some (bd_key d),
       rd_provenance = bd_provenance d, rd_details = bd_details d \<rparr>"

definition planner_result_diagnostic :: "string \<Rightarrow> planner_message \<Rightarrow> runtime_configuration_diagnostic" where
  "planner_result_diagnostic severity message =
     \<lparr> rd_severity = severity, rd_code = msg_code message, rd_message = msg_message message, rd_key = None,
       rd_provenance = None, rd_details = msg_details message \<rparr>"

definition planner_message_diagnostic :: "planner_message \<Rightarrow> runtime_configuration_diagnostic" where
  "planner_message_diagnostic message = planner_result_diagnostic ''error'' message"

definition planner_load_diagnostic :: "planner_load_error \<Rightarrow> string \<Rightarrow> runtime_configuration_diagnostic" where
  "planner_load_diagnostic error device_plan =
     \<lparr> rd_severity = ''error'', rd_code = ple_code error, rd_message = ple_message error, rd_key = None,
       rd_provenance = Some DevicePlan, rd_details = JObject [(''devicePlan'', JString device_plan)] \<rparr>"

section \<open>File inputs that are used twice\<close>

text \<open>The files seen so far, by canonical path, and the warnings.\<close>

definition check_file_reuse ::
  "host_env \<Rightarrow> resolved_input_binding \<Rightarrow> input_declaration \<Rightarrow> json
     \<Rightarrow> (string, string \<times> string) fmap \<times> runtime_configuration_diagnostic list
     \<Rightarrow> (string, string \<times> string) fmap \<times> runtime_configuration_diagnostic list" where
  "check_file_reuse env input declaration v = (\<lambda>(identities, diagnostics).
     (case Option.bind (as_str v) (env_canonicalize env) of
        None \<Rightarrow> (identities, diagnostics)
      | Some identity \<Rightarrow>
          (case fmlookup identities identity of
             None \<Rightarrow> (fmupd identity (rib_key input, input_label declaration) identities, diagnostics)
           | Some (related_key, related_label) \<Rightarrow>
               if related_key \<noteq> rib_key input
               then (identities, diagnostics @
                 [\<lparr> rd_severity = ''warning'', rd_code = ''binding_path_reused'',
                    rd_message = input_label declaration @ '' uses the same file as '' @ related_label
                      @ ''. Confirm that this reuse is intentional.'',
                    rd_key = Some (rib_key input), rd_provenance = rib_source input,
                    rd_details = JObject [(''related_key'', JString related_key)] \<rparr>])
               else (identities, diagnostics))))"

definition reuse_of_input ::
  "host_env \<Rightarrow> recipes \<Rightarrow> resolved_input_binding
     \<Rightarrow> (string, string \<times> string) fmap \<times> runtime_configuration_diagnostic list
     \<Rightarrow> (string, string \<times> string) fmap \<times> runtime_configuration_diagnostic list" where
  "reuse_of_input env recipes input found =
     (if rib_type_name input \<noteq> ''file'' \<or> rib_source input \<notin> {Some Explicit, Some UserConfiguration} then found
      else (case Option.bind (fmlookup recipes (rib_recipe_id input)) (\<lambda>r. omap_get (recipe_inputs r) (rib_input_id input)) of
              None \<Rightarrow> found
            | Some declaration \<Rightarrow>
                fold (check_file_reuse env input declaration)
                  (unwrap_or (Option.bind (rib_value input) (binding_items declaration)) []) found))"

definition input_reuse_diagnostics ::
  "host_env \<Rightarrow> recipes \<Rightarrow> resolved_input_binding list \<Rightarrow> runtime_configuration_diagnostic list" where
  "input_reuse_diagnostics env recipes resolved_inputs =
     snd (fold (reuse_of_input env recipes) resolved_inputs (fmempty, []))"

section \<open>Preparation\<close>

definition apply_runtime_capability_availability ::
  "runtime_capabilities \<Rightarrow> runtime_capability_availability option \<Rightarrow> runtime_capabilities" where
  "apply_runtime_capability_availability capabilities availability =
     (case availability of
        None \<Rightarrow> capabilities
      | Some a \<Rightarrow>
          let route_is_verified = (ca_root_shell_route a \<noteq> None)
          in capabilities
               \<lparr> rc_root_shell := (rc_root_shell capabilities \<and> ca_root_shell a \<and> route_is_verified),
                 rc_app_data_write := (rc_app_data_write capabilities \<and> ca_app_data_write a \<and> route_is_verified),
                 rc_root_shell_route := (if ca_root_shell a \<and> route_is_verified then ca_root_shell_route a else None) \<rparr>)"

definition no_runtime_capabilities :: runtime_capabilities where
  "no_runtime_capabilities =
     \<lparr> rc_adb_available = False, rc_apk_install = False, rc_shared_storage_write = False, rc_app_launch = False,
       rc_shell_command = False, rc_package_remove_for_user = False, rc_root_shell = False,
       rc_app_data_write = False, rc_root_shell_route = None \<rparr>"

definition load_saved_configuration ::
  "catalog_files \<Rightarrow> user_configuration_source option \<Rightarrow> configuration_context_error + user_configuration option" where
  "load_saved_configuration files source =
     (case source of
        None \<Rightarrow> Inr None
      | Some (Inline configuration) \<Rightarrow> Inr (Some configuration)
      | Some (Reference reference) \<Rightarrow> map_sum UserConfigurationError Some (cf_user_configuration files reference))"

definition prepare_configuration ::
  "externals \<Rightarrow> host_env \<Rightarrow> catalog_files \<Rightarrow> configuration_context_request
     \<Rightarrow> configuration_context_error + prepared_configuration" where
  "prepare_configuration ext env files request =
     (case cf_recipes files of Inl error \<Rightarrow> Inl (CatalogError error) | Inr recipes \<Rightarrow>
     (case load_saved_configuration files (cr_user_configuration request) of Inl error \<Rightarrow> Inl error | Inr saved \<Rightarrow>
     (case or_else (cr_device_plan request) (map_option uc_device_plan saved) of
        None \<Rightarrow> Inl MissingDevicePlan
      | Some effective_device_plan \<Rightarrow>
          let recipe_map = hash_collect (map (\<lambda>r. (recipe_id r, r)) recipes);
              loaded = cf_planner_input_parts files effective_device_plan recipes;
              parts = (case loaded of Inl _ \<Rightarrow> None | Inr p \<Rightarrow> Some p);
              load_diagnostics = (case loaded of
                  Inl error \<Rightarrow> [planner_load_diagnostic error effective_device_plan] | Inr _ \<Rightarrow> []);
              selected = unwrap_or (or_else (cr_selected_recipes request)
                  (or_else (map_option uc_selected_recipes saved) (map_option pp_selected_recipe_refs parts))) [];
              (expanded, dependency_errors) = expand_recipe_dependencies recipe_map selected;
              user_bindings = (case saved of None \<Rightarrow> [] | Some c \<Rightarrow> uc_bindings c);
              device_bindings = (case parts of None \<Rightarrow> [] | Some p \<Rightarrow> pp_device_plan_input_bindings p);
              resolution = resolve_runtime_bindings ext env recipe_map expanded (cr_explicit_bindings request)
                  user_bindings device_bindings
          in Inr \<lparr> pc_catalog_identity = cf_identity files, pc_effective_device_plan = effective_device_plan,
                   pc_recipes = recipes, pc_selected_recipe_refs = selected, pc_expanded_recipe_refs = expanded,
                   pc_explicit_bindings = cr_explicit_bindings request,
                   pc_user_configuration_bindings = user_bindings,
                   pc_device_plan_input_bindings = device_bindings, pc_device_plan_parts = parts,
                   pc_runtime_capabilities = (case parts of
                       None \<Rightarrow> no_runtime_capabilities
                     | Some p \<Rightarrow> apply_runtime_capability_availability (pp_runtime_capabilities p)
                                   (cr_runtime_capability_availability request)),
                   pc_device_context = cr_device_context request, pc_target_device = cr_target_device request,
                   pc_binding_resolution = resolution,
                   pc_diagnostics = load_diagnostics @ map planner_message_diagnostic dependency_errors
                     @ map configuration_binding_diagnostic (br_diagnostics resolution)
                     @ input_reuse_diagnostics env recipe_map (br_resolved_inputs resolution) \<rparr>)))"

definition override_device_context :: "device_context_override option \<Rightarrow> device_context \<Rightarrow> device_context" where
  "override_device_context overrides context =
     (case overrides of
        None \<Rightarrow> context
      | Some o' \<Rightarrow> context
          \<lparr> dc_manufacturer := unwrap_or (dco_manufacturer o') (dc_manufacturer context),
            dc_model := unwrap_or (dco_model o') (dc_model context),
            dc_android_version := unwrap_or (dco_android_version o') (dc_android_version context),
            dc_android_api_level := or_else (dco_android_api_level o') (dc_android_api_level context),
            dc_device_tags := unwrap_or (dco_device_tags o') (dc_device_tags context) \<rparr>)"

definition prepared_planner_input :: "prepared_configuration \<Rightarrow> string \<Rightarrow> planner_input option" where
  "prepared_planner_input prepared plan_id' =
     map_option (\<lambda>parts.
       \<lparr> pin_recipes = pc_recipes prepared, pin_selected_recipe_refs = pc_selected_recipe_refs prepared,
         pin_explicit_input_bindings = pc_explicit_bindings prepared,
         pin_user_configuration_bindings = pc_user_configuration_bindings prepared,
         pin_device_plan_input_bindings = pc_device_plan_input_bindings prepared,
         pin_plan_id = plan_id', pin_device_plan_ref = pp_device_plan_ref parts,
         pin_device_profile_ref = pp_device_profile_ref parts,
         pin_device_context = override_device_context (pc_device_context prepared) (pp_device_context parts),
         pin_runtime_capabilities = pc_runtime_capabilities prepared,
         pin_catalog_identity = pc_catalog_identity prepared, pin_target_device = pc_target_device prepared,
         pin_device_plan_presentation = Some
           \<lparr> dps_id = pp_device_plan_ref parts, dps_name = pp_device_plan_name parts,
             dps_description = pp_device_plan_description parts \<rparr> \<rparr>)
       (pc_device_plan_parts prepared)"

definition configuration_plan_id :: "prepared_configuration \<Rightarrow> string" where
  "configuration_plan_id prepared = ''plan.'' @ pc_effective_device_plan prepared @ ''.001''"

end
