(* ===== verification/Recipe_Availability.thy ===== *)
theory Recipe_Availability
  imports Runtime_Configuration
begin

text \<open>
  The availability of recipes and the plan of a configuration (\<open>runtime_configuration.rs\<close>).  The review
  projection of a plan, which \<open>review_projection.rs\<close> derives for display, is left out of the result.
\<close>

section \<open>Capability subsets\<close>

text \<open>\<open>append_combinations\<close>: from the candidates that are left, one is taken or the search goes on.\<close>

fun combinations :: "'a list \<Rightarrow> nat \<Rightarrow> 'a list list" where
  "combinations cs 0 = [[]]"
| "combinations [] (Suc n) = []"
| "combinations (c # cs) (Suc n) = map ((#) c) (combinations cs n) @ combinations cs (Suc n)"

definition capability_subsets :: "'a list \<Rightarrow> 'a list list" where
  "capability_subsets candidates = concat (map (combinations candidates) [1 ..< Suc (length candidates)])"

definition all_runtime_capabilities :: runtime_capabilities where
  "all_runtime_capabilities =
     \<lparr> rc_adb_available = True, rc_apk_install = True, rc_shared_storage_write = True, rc_app_launch = True,
       rc_shell_command = True, rc_package_remove_for_user = True, rc_root_shell = True,
       rc_app_data_write = True, rc_root_shell_route = None \<rparr>"

section \<open>Probing the planner\<close>

definition planning_result_has_steps :: "planning_result \<Rightarrow> bool" where
  "planning_result_has_steps res = is_some_and (res_execution_plan res) (\<lambda>plan. plan_steps plan \<noteq> [])"

definition planning_result_is_empty_only :: "planning_result \<Rightarrow> bool" where
  "planning_result_is_empty_only res =
     (res_execution_plan res = None \<and> res_errors res \<noteq> []
      \<and> list_all (\<lambda>error. msg_code error = ''empty_execution_plan'') (res_errors res))"

definition keyed_diagnostic :: "string \<Rightarrow> string \<Rightarrow> planner_message \<Rightarrow> runtime_configuration_diagnostic" where
  "keyed_diagnostic rid severity message = (planner_result_diagnostic severity message) \<lparr> rd_key := Some rid \<rparr>"

definition recipe_planner_diagnostics ::
  "planning_result \<Rightarrow> string \<Rightarrow> string \<Rightarrow> bool \<Rightarrow> runtime_configuration_diagnostic list" where
  "recipe_planner_diagnostics res rid error_severity include_empty_plan =
     map (keyed_diagnostic rid ''warning'') (res_warnings res)
     @ map (keyed_diagnostic rid error_severity)
         (filter (\<lambda>error. include_empty_plan \<or> msg_code error \<noteq> ''empty_execution_plan'') (res_errors res))"

definition recipe_availability_diagnostic ::
  "string \<Rightarrow> string \<Rightarrow> string \<Rightarrow> string \<Rightarrow> runtime_configuration_diagnostic" where
  "recipe_availability_diagnostic rid severity code message =
     \<lparr> rd_severity = severity, rd_code = code, rd_message = message, rd_key = Some rid, rd_provenance = None,
       rd_details = JObject [] \<rparr>"

definition unsupported_capability_diagnostic ::
  "string \<Rightarrow> string \<Rightarrow> string list \<Rightarrow> runtime_configuration_diagnostic" where
  "unsupported_capability_diagnostic rid severity capabilities =
     recipe_availability_diagnostic rid severity ''recipe_availability_unknown_capability''
       (''The Recipe requires unsupported runtime capability name(s): '' @ join '', '' capabilities
        @ ''. Update the Recipe to use capabilities supported by the planner.'')"

text \<open>Capabilities set one after the other, up to the first name that is not known.\<close>

fun enable_capabilities :: "runtime_capabilities \<Rightarrow> string list \<Rightarrow> string + runtime_capabilities" where
  "enable_capabilities capabilities [] = Inr capabilities"
| "enable_capabilities capabilities (name # names) =
     (case set_runtime_capability capabilities name True of
        (True, enabled) \<Rightarrow> enable_capabilities enabled names
      | (False, _) \<Rightarrow> Inl name)"

definition capability_known :: "runtime_capabilities \<Rightarrow> string \<Rightarrow> bool" where
  "capability_known capabilities name = fst (set_runtime_capability capabilities name True)"

text \<open>Why the search for minimal solutions stops early.\<close>

datatype probe_failure =
    UnknownCapability string
  | InvalidGraph planning_result

fun minimal_solutions ::
  "(runtime_capabilities \<Rightarrow> planning_result option) \<Rightarrow> runtime_capabilities \<Rightarrow> string list list \<Rightarrow> string list list
     \<Rightarrow> (probe_failure + string list list) option" where
  "minimal_solutions probe capabilities solutions [] = Some (Inr solutions)"
| "minimal_solutions probe capabilities solutions (chosen # rest) =
     (if list_ex (\<lambda>solution. list_all (\<lambda>c. c \<in> set chosen) solution) solutions
      then minimal_solutions probe capabilities solutions rest
      else (case enable_capabilities capabilities chosen of
              Inl name \<Rightarrow> Some (Inl (UnknownCapability name))
            | Inr enabled \<Rightarrow>
                Option.bind (probe enabled) (\<lambda>res.
                  if planning_result_has_steps res
                  then minimal_solutions probe capabilities (solutions @ [chosen]) rest
                  else if \<not> planning_result_is_empty_only res then Some (Inl (InvalidGraph res))
                  else minimal_solutions probe capabilities solutions rest)))"

section \<open>Availability\<close>

record recipe_availability_result =
  ra_available :: bool
  ra_unavailable_capabilities :: "string list"

abbreviation unavailable :: "string list \<Rightarrow> recipe_availability_result" where
  "unavailable capabilities \<equiv> \<lparr> ra_available = False, ra_unavailable_capabilities = capabilities \<rparr>"

abbreviation available :: recipe_availability_result where
  "available \<equiv> \<lparr> ra_available = True, ra_unavailable_capabilities = [] \<rparr>"

definition or_unresolved ::
  "string \<Rightarrow> string \<Rightarrow> string \<Rightarrow> runtime_configuration_diagnostic list \<Rightarrow> runtime_configuration_diagnostic list" where
  "or_unresolved rid severity message diagnostics =
     (if diagnostics = []
      then [recipe_availability_diagnostic rid severity ''recipe_availability_unresolved'' message]
      else diagnostics)"

text \<open>The diagnostics when no known capability makes the recipe run.\<close>

definition no_solution_diagnostics ::
  "string \<Rightarrow> string \<Rightarrow> string \<Rightarrow> string list \<Rightarrow> runtime_configuration_diagnostic list \<Rightarrow> runtime_configuration_diagnostic list" where
  "no_solution_diagnostics rid severity message unsupported diagnostics =
     (if unsupported = []
      then diagnostics @ [recipe_availability_diagnostic rid severity ''recipe_availability_unresolved'' message]
      else filter (\<lambda>d. rd_code d \<noteq> ''unsupported_runtime_capability'') diagnostics
             @ [unsupported_capability_diagnostic rid severity unsupported])"

definition candidate_capabilities :: "planning_result \<Rightarrow> runtime_capabilities \<Rightarrow> string list" where
  "candidate_capabilities upper_bound capabilities =
     (case res_execution_plan upper_bound of
        None \<Rightarrow> []
      | Some plan \<Rightarrow> sort (remdups
          (filter (\<lambda>c. \<not> runtime_capability_available capabilities c)
             (concat (map (\<lambda>step. esc_capabilities (es_constraints step)) (plan_steps plan))))))"

text \<open>\<open>probe\<close> plans the recipe alone with given capabilities; \<open>upper\<close> plans it when all are there.\<close>

definition blocked_availability ::
  "(runtime_capabilities \<Rightarrow> planning_result option) \<Rightarrow> string \<Rightarrow> string \<Rightarrow> runtime_capabilities
     \<Rightarrow> runtime_configuration_diagnostic list \<Rightarrow> planning_result
     \<Rightarrow> (recipe_availability_result \<times> runtime_configuration_diagnostic list) option" where
  "blocked_availability probe rid severity capabilities diagnostics upper_bound =
     (let candidates = candidate_capabilities upper_bound capabilities;
          missing = filter (capability_known capabilities) candidates;
          unsupported = filter (\<lambda>c. \<not> capability_known capabilities c) candidates
      in if missing = []
         then Some (unavailable [], no_solution_diagnostics rid severity
                ''The planner pruned all work without identifying a missing runtime capability.'' unsupported
                (diagnostics @ recipe_planner_diagnostics upper_bound rid severity False))
         else map_option (\<lambda>found.
                (case found of
                   Inl (UnknownCapability name) \<Rightarrow>
                     (unavailable [], diagnostics @ [recipe_availability_diagnostic rid severity
                        ''recipe_availability_unknown_capability''
                        (''The planner selected an unsupported runtime capability: '' @ name @ ''.'')])
                 | Inl (InvalidGraph res) \<Rightarrow>
                     (unavailable [], or_unresolved rid severity ''The planner could not validate a capability candidate graph.''
                        (diagnostics @ recipe_planner_diagnostics res rid severity False))
                 | Inr solutions \<Rightarrow>
                     let blockers = sort (remdups (concat solutions))
                     in (unavailable blockers,
                         if blockers = []
                         then no_solution_diagnostics rid severity
                           ''The planner found executable work but no missing capability set that restores a runnable graph.''
                           unsupported diagnostics
                         else diagnostics)))
              (minimal_solutions probe capabilities [] (capability_subsets missing)))"

definition availability_of ::
  "(runtime_capabilities \<Rightarrow> planning_result option) \<Rightarrow> planning_result option \<Rightarrow> string \<Rightarrow> string \<Rightarrow> runtime_capabilities
     \<Rightarrow> (recipe_availability_result \<times> runtime_configuration_diagnostic list) option" where
  "availability_of probe upper rid severity capabilities =
     Option.bind (probe capabilities) (\<lambda>actual.
       let diagnostics = recipe_planner_diagnostics actual rid severity False
       in if planning_result_has_steps actual then Some (available, diagnostics)
          else if \<not> planning_result_is_empty_only actual
          then Some (unavailable [], or_unresolved rid severity
                 ''The planner could not determine whether this Recipe has a runnable graph.'' diagnostics)
          else Option.bind upper (\<lambda>upper_bound.
            if \<not> planning_result_has_steps upper_bound
            then let diagnostics' = diagnostics @ recipe_planner_diagnostics upper_bound rid severity False
                 in if planning_result_is_empty_only upper_bound then Some (available, diagnostics')
                    else Some (unavailable [], or_unresolved rid severity
                      ''The planner could not validate this Recipe graph even with all device capabilities enabled.''
                      diagnostics')
            else blocked_availability probe rid severity capabilities diagnostics upper_bound))"

definition recipe_input ::
  "prepared_configuration \<Rightarrow> recipe \<Rightarrow> planner_input option" where
  "recipe_input prepared recipe =
     prepared_planner_input (prepared \<lparr> pc_selected_recipe_refs := [recipe_id recipe] \<rparr>) (configuration_plan_id prepared)"

definition recipe_availability ::
  "externals \<Rightarrow> host_env \<Rightarrow> (string set \<Rightarrow> string list) \<Rightarrow> prepared_configuration \<Rightarrow> recipe \<Rightarrow> app_definition list
     \<Rightarrow> (recipe_availability_result \<times> runtime_configuration_diagnostic list) option" where
  "recipe_availability ext env hash_order prepared recipe app_definitions =
     (let severity = (if recipe_id recipe \<in> set (pc_expanded_recipe_refs prepared) then ''error'' else ''warning'')
      in case recipe_input prepared recipe of
           None \<Rightarrow> Some (unavailable [], [])
         | Some input \<Rightarrow>
             availability_of
               (\<lambda>capabilities. plan_execution_for_recipe_availability ext env hash_order
                  (input \<lparr> pin_runtime_capabilities := capabilities \<rparr>) app_definitions)
               (plan_execution_for_recipe_availability_upper_bound ext env hash_order
                  (input \<lparr> pin_runtime_capabilities := all_runtime_capabilities \<rparr>) app_definitions)
               (recipe_id recipe) severity (pin_runtime_capabilities input))"

section \<open>The plan of a configuration\<close>

record plan_configuration_result =
  pcr_plan :: "execution_plan option"
  pcr_plan_digest :: "string option"
  pcr_copy_commit_preparation_required :: bool
  pcr_resolved_inputs :: "resolved_input_binding list"
  pcr_diagnostics :: "runtime_configuration_diagnostic list"

definition plan_prepared_input ::
  "externals \<Rightarrow> host_env \<Rightarrow> (string set \<Rightarrow> string list) \<Rightarrow> catalog_files \<Rightarrow> planner_input \<Rightarrow> planning_result option" where
  "plan_prepared_input ext env hash_order files input =
     plan_execution_with_app_definitions ext env hash_order input (cf_app_definitions files)"

definition no_plan :: "prepared_configuration \<Rightarrow> plan_configuration_result" where
  "no_plan prepared =
     \<lparr> pcr_plan = None, pcr_plan_digest = None, pcr_copy_commit_preparation_required = False,
       pcr_resolved_inputs = br_resolved_inputs (pc_binding_resolution prepared),
       pcr_diagnostics = pc_diagnostics prepared \<rparr>"

definition configured_result ::
  "externals \<Rightarrow> (string \<Rightarrow> bool) \<Rightarrow> (execution_plan \<Rightarrow> json option) \<Rightarrow> prepared_configuration \<Rightarrow> planning_result
     \<Rightarrow> configuration_context_error + plan_configuration_result" where
  "configured_result ext is_dir plan_json prepared res =
     (let required = is_some_and (res_execution_plan res) (plan_requires_copy_commit_preparation ext is_dir);
          answer = (\<lambda>digest.
            \<lparr> pcr_plan = res_execution_plan res, pcr_plan_digest = digest,
              pcr_copy_commit_preparation_required = required,
              pcr_resolved_inputs = br_resolved_inputs (pc_binding_resolution prepared),
              pcr_diagnostics = pc_diagnostics prepared
                @ map (planner_result_diagnostic ''warning'') (res_warnings res)
                @ map (planner_result_diagnostic ''error'') (res_errors res) \<rparr>)
      in if required then Inr (answer None)
         else (case res_execution_plan res of
                 None \<Rightarrow> Inr (answer None)
               | Some plan \<Rightarrow>
                   (case execution_plan_digest ext plan_json plan of
                      None \<Rightarrow> Inl (CatalogError \<lparr> ple_code = ''plan_digest_failed'', ple_message = [] \<rparr>)
                    | Some digest \<Rightarrow> Inr (answer (Some digest)))))"

definition plan_configuration ::
  "externals \<Rightarrow> host_env \<Rightarrow> (string set \<Rightarrow> string list) \<Rightarrow> (string \<Rightarrow> bool) \<Rightarrow> (execution_plan \<Rightarrow> json option)
     \<Rightarrow> catalog_files \<Rightarrow> configuration_context_request
     \<Rightarrow> (configuration_context_error + plan_configuration_result) option" where
  "plan_configuration ext env hash_order is_dir plan_json files request =
     (case prepare_configuration ext env files request of
        Inl error \<Rightarrow> Some (Inl error)
      | Inr prepared \<Rightarrow>
          if list_ex (\<lambda>d. rd_severity d = ''error'') (pc_diagnostics prepared) then Some (Inr (no_plan prepared))
          else (case prepared_planner_input prepared (configuration_plan_id prepared) of
                  None \<Rightarrow> Some (Inr (no_plan prepared))
                | Some input \<Rightarrow>
                    map_option (configured_result ext is_dir plan_json prepared)
                      (plan_prepared_input ext env hash_order files input)))"

end
