(* ===== verification/Configuration_Correct.thy ===== *)
theory Configuration_Correct
  imports Recipe_Availability Plan_Emission Execution_Session
begin

text \<open>What the availability of a recipe means, and that a configured plan can be started.\<close>

section \<open>Subsets of capabilities\<close>

lemma Nil_in_subseqs [simp]: "[] \<in> set (subseqs cs)"
  by (induction cs) (auto simp: Let_def)

lemma length_subseqs_le: "xs \<in> set (subseqs cs) \<Longrightarrow> length xs \<le> length cs"
  by (induction cs arbitrary: xs) (auto simp: Let_def le_SucI)

lemma set_combinations: "set (combinations cs n) = {xs \<in> set (subseqs cs). length xs = n}"
proof (induction cs n rule: combinations.induct)
  case (3 c cs n)
  then show ?case by (auto simp: Let_def image_iff)
qed (auto simp: Let_def)

lemma set_capability_subsets: "set (capability_subsets cs) = {xs \<in> set (subseqs cs). xs \<noteq> []}"
proof (rule set_eqI)
  fix xs
  show "xs \<in> set (capability_subsets cs) \<longleftrightarrow> xs \<in> {xs \<in> set (subseqs cs). xs \<noteq> []}"
    using length_subseqs_le [of xs cs] by (auto simp: capability_subsets_def set_combinations Suc_le_eq less_Suc_eq_le)
qed

lemma capability_subsets_by_length: "sorted (map length (capability_subsets cs))"
proof -
  have "sorted (map length (concat (map (combinations cs) [m ..< n])))" for m n
  proof (induction n)
    case (Suc n)
    have "\<forall>xs \<in> set (combinations cs n). length xs = n" by (simp add: set_combinations)
    then have "map length (combinations cs n) = replicate (length (combinations cs n)) n"
      by (metis map_replicate_const map_cong)
    with Suc show ?case by (auto simp: sorted_append set_combinations)
  qed simp
  then show ?thesis unfolding capability_subsets_def .
qed

text \<open>The subsets of distinct candidates, as sets, in the order in which they are tried.\<close>

definition ordered_subsets :: "'a list list \<Rightarrow> bool" where
  "ordered_subsets xss \<longleftrightarrow>
     (\<forall>xs \<in> set xss. \<forall>ys \<in> set xss. set xs = set ys \<longrightarrow> xs = ys) \<and> sorted_wrt (\<lambda>xs ys. \<not> set ys \<subset> set xs) xss"

lemma capability_subsets_ordered:
  assumes "distinct cs"
  shows "ordered_subsets (capability_subsets cs)"
proof -
  have "inj_on set (set (subseqs cs))" using distinct_set_subseqs [OF assms] by (simp add: distinct_map)
  then have inj: "xs = ys" if "xs \<in> set (capability_subsets cs)" "ys \<in> set (capability_subsets cs)" "set xs = set ys" for xs ys
    using that by (auto simp: set_capability_subsets inj_on_def)
  have "\<not> set ys \<subset> set xs" if "xs \<in> set (capability_subsets cs)" "ys \<in> set (capability_subsets cs)" "length xs \<le> length ys" for xs ys
  proof -
    from that(1,2) assms have "distinct xs" "distinct ys"
      by (auto simp: set_capability_subsets intro: subseqs_distinctD)
    with that(3) show ?thesis by (metis List.finite_set distinct_card leD psubset_card_mono)
  qed
  note below = this
  have "sorted_wrt (\<lambda>xs ys. length xs \<le> length ys) (capability_subsets cs)"
    using capability_subsets_by_length [of cs] by (simp add: sorted_map)
  then have "sorted_wrt (\<lambda>xs ys. \<not> set ys \<subset> set xs) (capability_subsets cs)"
    by (rule sorted_wrt_mono_rel [rotated]) (rule below)
  with inj show ?thesis by (simp add: ordered_subsets_def)
qed

section \<open>Minimal solutions\<close>

definition runs_with :: "(runtime_capabilities \<Rightarrow> planning_result option) \<Rightarrow> runtime_capabilities \<Rightarrow> string list \<Rightarrow> bool" where
  "runs_with probe capabilities names =
     (case enable_capabilities capabilities names of
        Inl _ \<Rightarrow> False
      | Inr enabled \<Rightarrow> is_some_and (probe enabled) planning_result_has_steps)"

definition minimal_among :: "('a list \<Rightarrow> bool) \<Rightarrow> 'a list set \<Rightarrow> 'a list \<Rightarrow> bool" where
  "minimal_among P xss xs \<longleftrightarrow> xs \<in> xss \<and> P xs \<and> (\<forall>ys \<in> xss. set ys \<subset> set xs \<longrightarrow> \<not> P ys)"

lemma minimal_below:
  "P ys \<Longrightarrow> ys \<in> xss \<Longrightarrow> \<exists>xs. minimal_among P xss xs \<and> set xs \<subseteq> set ys"
proof (induction "card (set ys)" arbitrary: ys rule: less_induct)
  case less
  show ?case
  proof (cases "\<exists>zs \<in> xss. set zs \<subset> set ys \<and> P zs")
    case True
    then obtain zs where zs: "zs \<in> xss" "set zs \<subset> set ys" "P zs" by blast
    from less(1) [OF psubset_card_mono [OF List.finite_set zs(2)] zs(3,1)] zs(2) show ?thesis by blast
  qed (use less in \<open>auto simp: minimal_among_def\<close>)
qed

lemma minimal_solutions_minimal:
  assumes "minimal_solutions probe capabilities solutions todo = Some (Inr found)"
    and "ordered_subsets (tried @ todo)"
    and "set solutions = {xs \<in> set tried. minimal_among (runs_with probe capabilities) (set (tried @ todo)) xs}"
  shows "set found = {xs. minimal_among (runs_with probe capabilities) (set (tried @ todo)) xs}"
  using assms
proof (induction todo arbitrary: solutions tried)
  case Nil
  then show ?case by (auto simp: minimal_among_def)
next
  case (Cons chosen todo)
  let ?runs = "runs_with probe capabilities" and ?all = "set (tried @ chosen # todo)"
  have again: "set found = {xs. minimal_among ?runs ?all xs}"
    if "minimal_solutions probe capabilities solutions' todo = Some (Inr found)"
      and "set solutions' = {xs \<in> set (tried @ [chosen]). minimal_among ?runs ?all xs}" for solutions'
    using Cons.IH [OF that(1), of "tried @ [chosen]"] that(2) Cons.prems(2) by simp
  have order: "\<not> set chosen \<subset> set xs" if "xs \<in> set tried" for xs
    using Cons.prems(2) that by (auto simp: ordered_subsets_def sorted_wrt_append)
  have later: "\<not> set ys \<subset> set chosen" if "ys \<in> set todo" for ys
    using Cons.prems(2) that by (auto simp: ordered_subsets_def sorted_wrt_append)
  show ?case
  proof (cases "list_ex (\<lambda>solution. list_all (\<lambda>c. c \<in> set chosen) solution) solutions")
    case True
    then obtain xs where xs: "xs \<in> set tried" "minimal_among ?runs ?all xs" "set xs \<subseteq> set chosen"
      using Cons.prems(3) by (auto simp: list_ex_iff list_all_iff)
    have "minimal_among ?runs ?all chosen \<longrightarrow> chosen \<in> set tried"
    proof (cases "set xs = set chosen")
      case True
      with xs Cons.prems(2) show ?thesis by (auto simp: ordered_subsets_def)
    next
      case False
      with xs show ?thesis by (auto simp: minimal_among_def)
    qed
    with True Cons.prems(1,3) show ?thesis by (intro again) auto
  next
    case fresh: False
    have minimal: "minimal_among ?runs ?all chosen" if runs: "?runs chosen"
    proof (rule ccontr)
      assume "\<not> ?thesis"
      with runs obtain ys where "ys \<in> ?all" "set ys \<subset> set chosen" "?runs ys" by (auto simp: minimal_among_def)
      with minimal_below [of ?runs ys ?all] obtain xs where xs: "minimal_among ?runs ?all xs" "set xs \<subset> set chosen" by blast
      then have "xs \<in> set tried" using later by (auto simp: minimal_among_def)
      with xs Cons.prems(3) fresh show False by (auto simp: list_ex_iff list_all_iff)
    qed
    from Cons.prems(1) fresh obtain enabled where enabled: "enable_capabilities capabilities chosen = Inr enabled"
      by (auto split: sum.splits)
    with Cons.prems(1) fresh obtain res where res: "probe enabled = Some res" by (cases "probe enabled") auto
    have runs: "?runs chosen \<longleftrightarrow> planning_result_has_steps res" using enabled res by (simp add: runs_with_def)
    show ?thesis
    proof (cases "planning_result_has_steps res")
      case True
      with Cons.prems(1,3) fresh enabled res minimal runs show ?thesis by (intro again [of "solutions @ [chosen]"]) auto
    next
      case False
      then have "\<not> minimal_among ?runs ?all chosen" using runs by (simp add: minimal_among_def)
      moreover have "minimal_solutions probe capabilities solutions todo = Some (Inr found)"
        using Cons.prems(1) fresh enabled res False by (auto split: if_splits)
      ultimately show ?thesis using Cons.prems(3) by (intro again [of solutions]) auto
    qed
  qed
qed

section \<open>What makes a recipe available\<close>

text \<open>The planner on one recipe alone, with the bindings and the device of the configuration.\<close>

definition recipe_probe ::
  "externals \<Rightarrow> host_env \<Rightarrow> (string set \<Rightarrow> string list) \<Rightarrow> planner_input \<Rightarrow> app_definition list
     \<Rightarrow> runtime_capabilities \<Rightarrow> planning_result option" where
  "recipe_probe ext env hash_order input app_definitions capabilities =
     plan_execution_for_recipe_availability ext env hash_order (input \<lparr> pin_runtime_capabilities := capabilities \<rparr>) app_definitions"

definition recipe_upper_bound ::
  "externals \<Rightarrow> host_env \<Rightarrow> (string set \<Rightarrow> string list) \<Rightarrow> planner_input \<Rightarrow> app_definition list \<Rightarrow> planning_result option" where
  "recipe_upper_bound ext env hash_order input app_definitions =
     plan_execution_for_recipe_availability_upper_bound ext env hash_order
       (input \<lparr> pin_runtime_capabilities := all_runtime_capabilities \<rparr>) app_definitions"

text \<open>The capabilities that the full plan needs, the device lacks, and the planner knows.\<close>

definition missing_capabilities :: "planning_result \<Rightarrow> runtime_capabilities \<Rightarrow> string list" where
  "missing_capabilities upper_bound capabilities =
     filter (capability_known capabilities) (candidate_capabilities upper_bound capabilities)"

lemma recipe_availability_probe:
  "recipe_availability ext env hash_order prepared recipe defs =
     (case recipe_input prepared recipe of
        None \<Rightarrow> Some (unavailable [], [])
      | Some input \<Rightarrow> availability_of (recipe_probe ext env hash_order input defs) (recipe_upper_bound ext env hash_order input defs)
          (recipe_id recipe) (if recipe_id recipe \<in> set (pc_expanded_recipe_refs prepared) then ''error'' else ''warning'')
          (pin_runtime_capabilities input))"
  by (simp only: recipe_availability_def recipe_probe_def [abs_def] recipe_upper_bound_def Let_def)

lemma planner_total: "\<exists>res. plan_execution_with_app_definitions_inner ext env hash_order input defs ignore au report = Some res"
  by (rule planning_result_cases [of ext env hash_order input defs ignore au report]) auto

lemma recipe_probe_total: "\<exists>res. recipe_probe ext env hash_order input defs capabilities = Some res"
    "\<exists>res. recipe_upper_bound ext env hash_order input defs = Some res"
  using planner_total
  by (simp_all add: recipe_probe_def recipe_upper_bound_def plan_execution_for_recipe_availability_def
      plan_execution_for_recipe_availability_upper_bound_def)

lemma minimal_solutions_total:
  assumes "\<And>capabilities. \<exists>res. probe capabilities = Some res"
  shows "\<exists>found. minimal_solutions probe capabilities solutions rest = Some found"
proof (induction rest arbitrary: solutions)
  case (Cons names rest)
  show ?case
  proof (cases "enable_capabilities capabilities names")
    case (Inr enabled)
    obtain res where "probe enabled = Some res" using assms by blast
    with Cons Inr show ?thesis by simp
  qed (use Cons in simp)
qed simp

text \<open>
  The availability of every recipe is decided: the search through the capability subsets ends,
  and every probe of the planner returns.\<close>

lemma recipe_availability_total: "\<exists>answer. recipe_availability ext env hash_order prepared recipe defs = Some answer"
proof (cases "recipe_input prepared recipe")
  case None
  then show ?thesis by (simp add: recipe_availability_probe)
next
  case (Some input)
  obtain actual upper_bound where probes: "recipe_probe ext env hash_order input defs (pin_runtime_capabilities input) = Some actual"
    "recipe_upper_bound ext env hash_order input defs = Some upper_bound" using recipe_probe_total by blast
  have "\<exists>found. minimal_solutions (recipe_probe ext env hash_order input defs) capabilities [] rest = Some found" for capabilities rest
    by (rule minimal_solutions_total) (rule recipe_probe_total)
  then have "\<exists>answer. blocked_availability (recipe_probe ext env hash_order input defs) rid severity capabilities diagnostics upper_bound
      = Some answer" for rid severity capabilities diagnostics
    unfolding blocked_availability_def Let_def by (metis option.map(2))
  with Some probes show ?thesis by (simp add: recipe_availability_probe availability_of_def Let_def)
qed

lemma blocked_cases:
  assumes "blocked_availability probe rid severity caps ds ub = Some (a, ds')"
  obtains "a = unavailable []"
  | (solutions) found where "minimal_solutions probe caps [] (capability_subsets (missing_capabilities ub caps)) = Some (Inr found)"
      and "a = unavailable (sort (remdups (concat found)))"
proof -
  note run = assms [unfolded blocked_availability_def missing_capabilities_def [symmetric] Let_def]
  show ?thesis
  proof (cases "minimal_solutions probe caps [] (capability_subsets (missing_capabilities ub caps))")
    case None
    with run that show ?thesis by (auto split: if_splits)
  next
    case (Some found)
    then show ?thesis
    proof (cases found)
      case (Inl f)
      with Some run that show ?thesis by (cases f) (auto split: if_splits)
    next
      case (Inr solutions)
      with Some run that show ?thesis by (auto split: if_splits)
    qed
  qed
qed

lemma blocked_not_available:
  "blocked_availability probe rid severity caps ds ub = Some (a, ds') \<Longrightarrow> \<not> ra_available a"
  by (erule blocked_cases) auto

lemma availability_of_available:
  assumes "availability_of probe upper rid severity caps = Some (a, ds)" and "probe caps = Some actual" and "upper = Some ub"
  shows "ra_available a \<longleftrightarrow>
     planning_result_has_steps actual \<or> planning_result_is_empty_only actual \<and> planning_result_is_empty_only ub"
proof -
  have exclusive: "\<not> planning_result_has_steps res" if "planning_result_is_empty_only res" for res
    using that by (simp add: planning_result_is_empty_only_def planning_result_has_steps_def)
  show ?thesis
  proof (cases "planning_result_has_steps actual \<or> \<not> planning_result_is_empty_only actual")
    case True
    with assms exclusive [of actual] show ?thesis by (auto simp: availability_of_def Let_def split: if_splits)
  next
    case False
    with assms blocked_not_available exclusive [of ub] show ?thesis
      by (cases "planning_result_has_steps ub"; cases "planning_result_is_empty_only ub")
        (auto simp: availability_of_def Let_def)
  qed
qed

text \<open> C24: A recipe is offered as available exactly when the planner finds a runnable plan for it on this
  device, or finds nothing to run in it at all, with every capability there could be.\<close>

theorem recipe_available_iff:
  assumes "recipe_availability ext env hash_order prepared recipe defs = Some (availability, diagnostics)"
    and "recipe_input prepared recipe = Some input"
  shows "ra_available availability \<longleftrightarrow>
     is_some_and (recipe_probe ext env hash_order input defs (pin_runtime_capabilities input)) planning_result_has_steps
     \<or> is_some_and (recipe_probe ext env hash_order input defs (pin_runtime_capabilities input)) planning_result_is_empty_only
       \<and> is_some_and (recipe_upper_bound ext env hash_order input defs) planning_result_is_empty_only"
proof -
  obtain actual upper_bound where probes: "recipe_probe ext env hash_order input defs (pin_runtime_capabilities input) = Some actual"
    "recipe_upper_bound ext env hash_order input defs = Some upper_bound" using recipe_probe_total by blast
  from assms probes have "availability_of (recipe_probe ext env hash_order input defs) (Some upper_bound) (recipe_id recipe)
      (if recipe_id recipe \<in> set (pc_expanded_recipe_refs prepared) then ''error'' else ''warning'')
      (pin_runtime_capabilities input) = Some (availability, diagnostics)" by (simp add: recipe_availability_probe)
  from availability_of_available [OF this probes(1) refl] probes show ?thesis by simp
qed

text \<open> C8: The capabilities named as missing for a blocked recipe are exactly those of the smallest sets that
  would make it run: a set of missing capabilities is counted when the planner then finds a runnable
  plan, and with no smaller part of it does.  Each of them is known, needed by the full plan and
  absent from the device.\<close>

theorem recipe_blockers_exact:
  assumes "recipe_availability ext env hash_order prepared recipe defs = Some (availability, diagnostics)"
    and "ra_unavailable_capabilities availability \<noteq> []"
  shows "\<exists>input upper_bound. recipe_input prepared recipe = Some input
    \<and> recipe_upper_bound ext env hash_order input defs = Some upper_bound
    \<and> \<not> runs_with (recipe_probe ext env hash_order input defs) (pin_runtime_capabilities input) []
    \<and> (\<forall>c. c \<in> set (ra_unavailable_capabilities availability) \<longleftrightarrow>
         (\<exists>names. c \<in> set names \<and> minimal_among (runs_with (recipe_probe ext env hash_order input defs) (pin_runtime_capabilities input))
            (set (subseqs (missing_capabilities upper_bound (pin_runtime_capabilities input)))) names))"
proof -
  from assms obtain input where input: "recipe_input prepared recipe = Some input"
    by (auto simp: recipe_availability_probe split: option.splits)
  let ?probe = "recipe_probe ext env hash_order input defs" and ?caps = "pin_runtime_capabilities input"
  obtain actual upper_bound where probes: "?probe ?caps = Some actual"
    "recipe_upper_bound ext env hash_order input defs = Some upper_bound" using recipe_probe_total by blast
  let ?missing = "missing_capabilities upper_bound ?caps"
  from assms input probes have "\<not> planning_result_has_steps actual"
    and "\<exists>rid severity ds. blocked_availability ?probe rid severity ?caps ds upper_bound = Some (availability, diagnostics)"
    by (auto simp: recipe_availability_probe availability_of_def Let_def split: if_splits)
  then obtain found where found: "minimal_solutions ?probe ?caps [] (capability_subsets ?missing) = Some (Inr found)"
    and blockers: "ra_unavailable_capabilities availability = sort (remdups (concat found))"
    using assms(2) by (auto elim: blocked_cases)
  have "distinct ?missing" by (simp add: missing_capabilities_def candidate_capabilities_def split: option.split)
  then have "ordered_subsets (capability_subsets ?missing)" by (rule capability_subsets_ordered)
  with minimal_solutions_minimal [OF found, of "[]"]
  have minimal: "set found = {xs. minimal_among (runs_with ?probe ?caps) (set (capability_subsets ?missing)) xs}" by simp
  have none: "\<not> runs_with ?probe ?caps []" using probes \<open>\<not> planning_result_has_steps actual\<close> by (simp add: runs_with_def)
  then have "minimal_among (runs_with ?probe ?caps) (set (capability_subsets ?missing)) xs
      \<longleftrightarrow> minimal_among (runs_with ?probe ?caps) (set (subseqs ?missing)) xs" for xs
    by (auto simp: minimal_among_def set_capability_subsets)
  with minimal blockers have "c \<in> set (ra_unavailable_capabilities availability) \<longleftrightarrow>
      (\<exists>names. c \<in> set names \<and> minimal_among (runs_with ?probe ?caps) (set (subseqs ?missing)) names)" for c by auto
  with input probes(2) none show ?thesis by blast
qed

section \<open>A configured plan can be started\<close>

lemma no_preparation_needed:
  assumes "\<not> plan_requires_copy_commit_preparation ext is_dir plan" and "plan_copy_commit_snapshots plan = []"
  shows "validate_supported_copy_plan ext is_dir plan = Inr ()"
    and "validate_copy_commit_snapshot_coverage ext is_dir plan = Inr ()"
proof -
  from assms(1) show supported: "validate_supported_copy_plan ext is_dir plan = Inr ()"
    by (cases "validate_supported_copy_plan ext is_dir plan") (simp_all add: plan_requires_copy_commit_preparation_def)
  have "copy_snapshot_error ext is_dir plan step = None" if step: "step \<in> set (copy_steps plan)" for step
  proof (cases "has_runtime_output_reference step")
    case False
    from supported step False have "static_copy_error ext is_dir (from_plan plan) step = None"
      by (auto simp: validate_supported_copy_plan_def first_some_map_None copy_step_error_def split: option.splits)
    moreover have "(case resolve_step_params ext (from_plan plan) (es_params step) of
        Inl _ \<Rightarrow> False | Inr params \<Rightarrow> is_selected_directory_step is_dir step params = Inr True) = False"
      using assms(1) step False by (auto simp: plan_requires_copy_commit_preparation_def list_ex_iff)
    ultimately show ?thesis using False
      by (auto simp: copy_snapshot_error_def static_copy_error_def Let_def split: sum.splits if_splits bool.splits)
  qed (simp add: copy_snapshot_error_def)
  with assms(2) show "validate_copy_commit_snapshot_coverage ext is_dir plan = Inr ()"
    by (simp add: validate_copy_commit_snapshot_coverage_def first_some_map_None split: option.split)
qed


lemma hex_byte_chars: "set (hex_byte b) \<subseteq> set ''0123456789abcdef''"
proof -
  have "hex_digit n \<in> set ''0123456789abcdef''" if "n < 16" for n
  proof -
    have "\<forall>n \<in> set [0 ..< 16]. hex_digit n \<in> set ''0123456789abcdef''" by code_simp
    with that show ?thesis by auto
  qed
  moreover have "unat b < 2 ^ LENGTH(8)" by (rule unsigned_less)
  then have "unat b div 16 < 16" by (simp add: less_mult_imp_div_less)
  ultimately show ?thesis by (simp add: hex_byte_def)
qed

lemma digest_chars: "execution_plan_digest ext plan_json plan = Some digest \<Longrightarrow> set digest \<subseteq> set ''0123456789abcdef''"
  using hex_byte_chars by (fastforce simp: execution_plan_digest_def)

text \<open>A plan that a configuration gives comes from a planning without errors.\<close>

lemma configured_plan:
  assumes "plan_configuration ext env hash_order is_dir plan_json files request = Some (Inr result)"
    and "pcr_plan result = Some plan"
  obtains prepared res where "prepare_configuration ext env files request = Inr prepared"
    and "\<not> list_ex (\<lambda>d. rd_severity d = ''error'') (pc_diagnostics prepared)"
    and "configured_result ext is_dir plan_json prepared res = Inr result"
    and "res_errors res = []" and "res_execution_plan res = Some plan" and "plan_copy_commit_snapshots plan = []"
proof -
  from assms(1) obtain prepared where prepared: "prepare_configuration ext env files request = Inr prepared"
    by (auto simp: plan_configuration_def split: sum.splits)
  have none: "pcr_plan (no_plan prepared) = None" by (simp add: no_plan_def)
  with assms prepared have clean: "\<not> list_ex (\<lambda>d. rd_severity d = ''error'') (pc_diagnostics prepared)"
    by (auto simp: plan_configuration_def split: if_splits)
  with assms prepared none obtain input where input: "prepared_planner_input prepared (configuration_plan_id prepared) = Some input"
    by (cases "prepared_planner_input prepared (configuration_plan_id prepared)") (auto simp: plan_configuration_def)
  with assms prepared clean obtain res where res: "plan_prepared_input ext env hash_order files input = Some res"
    "configured_result ext is_dir plan_json prepared res = Inr result"
    by (auto simp: plan_configuration_def)
  have same: "res_execution_plan res = Some plan"
    using res(2) assms(2) by (auto simp: configured_result_def Let_def split: if_splits option.splits)
  show ?thesis
  proof (rule planning_result_cases [of ext env hash_order input "cf_app_definitions files" False False False])
    fix res'
    assume "plan_execution_with_app_definitions_inner ext env hash_order input (cf_app_definitions files) False False False = Some res'"
      "failed res'"
    with res(1) same show ?thesis by (simp add: plan_prepared_input_def plan_execution_with_app_definitions_def failed_def)
  next
    fix res' p plan'
    assume "plan_execution_with_app_definitions_inner ext env hash_order input (cf_app_definitions files) False False False = Some res'"
      "succeeded res' plan'" "plan_of ext env input p plan'"
    with res(1) same have "res_errors res = []" "plan_copy_commit_snapshots plan = []"
      by (auto simp: plan_prepared_input_def plan_execution_with_app_definitions_def succeeded_def plan_of_def)
    with that [OF prepared clean res(2) _ same] show ?thesis by blast
  qed
qed


end
