(* ===== verification/Configuration_Samples.thy ===== *)
theory Configuration_Samples
  imports Configuration_Correct Plan_Correct Session_Safety
begin

text \<open>
  A catalog of one recipe, which launches an app and stops it again, and one device plan, whose device
  may or may not be able to launch apps: the configurations at which properties are instantiated.
\<close>

definition config_parts :: "runtime_capabilities \<Rightarrow> planner_input_parts" where
  "config_parts caps =
     \<lparr> pp_device_plan_ref = ''dp'', pp_device_plan_name = None, pp_device_plan_description = None,
       pp_device_profile_ref = ''profile'', pp_selected_recipe_refs = [''r''], pp_device_plan_input_bindings = [],
       pp_device_context = pin_device_context (sample_plan_input sample_launch_recipe caps),
       pp_runtime_capabilities = caps \<rparr>"

definition config_files :: "runtime_capabilities \<Rightarrow> catalog_files" where
  "config_files caps =
     \<lparr> cf_identity = None, cf_recipes = Inr [sample_launch_recipe], cf_user_configuration = (\<lambda>_. Inl ''none''),
       cf_planner_input_parts = (\<lambda>_ _. Inr (config_parts caps)), cf_app_definitions = [sample_emu] \<rparr>"

definition config_request :: configuration_context_request where
  "config_request =
     \<lparr> cr_user_configuration = None, cr_device_plan = Some ''dp'', cr_selected_recipes = None, cr_explicit_bindings = [],
       cr_device_context = None, cr_target_device = None, cr_runtime_capability_availability = None \<rparr>"

definition config_prepared :: "runtime_capabilities \<Rightarrow> prepared_configuration" where
  "config_prepared caps =
     \<lparr> pc_catalog_identity = None, pc_effective_device_plan = ''dp'', pc_recipes = [sample_launch_recipe],
       pc_selected_recipe_refs = [''r''], pc_expanded_recipe_refs = [''r''], pc_explicit_bindings = [],
       pc_user_configuration_bindings = [], pc_device_plan_input_bindings = [],
       pc_device_plan_parts = Some (config_parts caps), pc_runtime_capabilities = caps, pc_device_context = None,
       pc_target_device = None, pc_binding_resolution = \<lparr> br_resolved_inputs = [], br_diagnostics = [] \<rparr>,
       pc_diagnostics = [] \<rparr>"

definition config_input :: "runtime_capabilities \<Rightarrow> planner_input" where
  "config_input caps = (sample_plan_input sample_launch_recipe caps)
     \<lparr> pin_plan_id := ''plan.dp.001'',
       pin_device_plan_presentation := Some \<lparr> dps_id = ''dp'', dps_name = None, dps_description = None \<rparr> \<rparr>"

lemma launch_recipe_id: "recipe_id sample_launch_recipe = ''r''"
  by (simp add: sample_launch_recipe_def sample_recipe_def)

lemma launch_recipes: "hash_collect [(''r'', sample_launch_recipe)] = sample_launch_recipes"
  by (simp add: sample_launch_recipes_def)

lemma config_prepare: "prepare_configuration ext env (config_files caps) config_request = Inr (config_prepared caps)"
  by (simp add: prepare_configuration_def config_files_def config_request_def load_saved_configuration_def Let_def
      launch_recipe_id launch_recipes config_parts_def sample_launch_checks input_reuse_diagnostics_def
      apply_runtime_capability_availability_def config_prepared_def)

lemma config_planner_input:
  "prepared_planner_input (config_prepared caps) (configuration_plan_id (config_prepared caps)) = Some (config_input caps)"
  "recipe_input (config_prepared caps) sample_launch_recipe = Some (config_input caps)"
  by (simp_all add: prepared_planner_input_def recipe_input_def config_prepared_def config_parts_def config_input_def
      configuration_plan_id_def override_device_context_def sample_plan_input_def launch_recipe_id)

lemma config_input_caps [simp]: "config_input caps \<lparr> pin_runtime_capabilities := caps' \<rparr> = config_input caps'"
    "pin_runtime_capabilities (config_input caps) = caps"
  by (simp_all add: config_input_def sample_plan_input_def)

lemma config_selected:
  "selected_step_ids sample_launch_recipes [''r''] [] launch_device sample_launch_usage False True = Some ({''r/go'', ''r/stop''}, [], [])"
  "selected_step_ids sample_launch_recipes [''r''] [] all_runtime_capabilities sample_launch_usage True False
     = Some ({''r/go'', ''r/stop''}, [], [])"
  "selected_step_ids sample_launch_recipes [''r''] [] no_capabilities sample_launch_usage False True = Some ({}, [], [])"
  by code_simp+

lemma launch_usage_derived: "derive_permission_capabilities fmempty sample_launch_usage = sample_launch_usage"
  by (rule fmap_ext) (simp add: derive_permission_capabilities_def option.map_ident)

lemma config_stages:
  assumes "selected_step_ids sample_launch_recipes [''r''] [] caps sample_launch_usage au report = Some ({''r/go'', ''r/stop''}, [], [])"
  shows "stages_pass ext env sorted_list_of_set (config_input caps) [sample_emu] ignore au report sample_launch_planned"
proof -
  have errors: "authored_step_errors ext env sorted_list_of_set sample_launch_recipes [''r''] sample_apps {} []
      ignore sample_launch_authored = []"
    by (simp add: authored_step_errors_def sample_launch_checks sample_launch_authorised validate_selected_user_provided_inputs_def)
  show ?thesis
    by (simp add: stages_pass_def sample_launch_planned_def config_input_def sample_plan_input_def sample_index launch_recipe_id
        pl_usage_def pl_authored_def pl_artifacts_def launch_recipes sample_launch_checks sample_launch_resolve_usage
        launch_usage_derived errors assms
        effective_bindings_def List.map_filter_simps omap_collect_def observed_api_level_def Let_def)
      (simp add: sample_launch_authored_def)
qed

text \<open>Without the capability both steps are pruned.\<close>

lemma config_nothing_selected:
  "authored_steps sample_launch_recipes [''r''] {} = []" "selected_artifact_ids sample_launch_recipes [''r''] {} = {}"
  "validate_step_param_contracts sample_launch_recipes [] = []" "validate_emitted_step_dependencies [] = []"
  "validate_artifact_selections sample_launch_recipes [] = []" "validate_step_refs [] = []"
  "topologically_sort_steps [] = ([], [])"
  by code_simp+

lemma config_pruned:
  "\<exists>res. recipe_probe ext env sorted_list_of_set (config_input no_capabilities) [sample_emu] no_capabilities = Some res
     \<and> planning_result_is_empty_only res"
proof -
  have authority: "validate_app_authority ext sample_launch_recipes [''r''] [] sample_apps = []"
  proof -
    have "fmlookup sample_launch_recipes ''r'' = Some sample_launch_recipe"
      by (simp add: sample_launch_recipes_def fmlookup_hash_collect)
    then show ?thesis
      by (simp add: validate_app_authority_def referenced_app_ids_def sample_launch_recipe_def sample_recipe_def
          List.map_filter_def definition_errors_def invalid_app_ids_def Let_def)
  qed
  have errors: "authored_step_errors ext env sorted_list_of_set sample_launch_recipes [''r''] sample_apps {} [] True [] = []"
    by (simp add: authored_step_errors_def config_nothing_selected authority validate_selected_user_provided_inputs_def)
  show ?thesis
    by (simp add: recipe_probe_def plan_execution_for_recipe_availability_def plan_execution_with_app_definitions_inner_def
        config_input_def sample_plan_input_def sample_index launch_recipe_id launch_recipes sample_launch_checks
        sample_launch_resolve_usage launch_usage_derived effective_bindings_def List.map_filter_simps omap_collect_def
        observed_api_level_def config_selected plan_selected_def config_nothing_selected errors
        planning_result_is_empty_only_def error_result_def msg_def Let_def)
qed

lemma config_runs:
  assumes "selected_step_ids sample_launch_recipes [''r''] [] caps sample_launch_usage au report = Some ({''r/go'', ''r/stop''}, [], [])"
  obtains res plan e f where
    "plan_execution_with_app_definitions_inner ext env sorted_list_of_set (config_input caps) [sample_emu] ignore au report = Some res"
    and "res_execution_plan res = Some plan" and "plan_steps plan = [e, f]" and "copy_steps plan = []"
    and "esc_capabilities (es_constraints e) = [''app_launch'']" and "esc_capabilities (es_constraints f) = []"
proof -
  let ?p = sample_launch_planned
  note stages = config_stages [OF assms, of ext env ignore]
  from stages_result [OF stages] obtain res plan where
    res: "plan_execution_with_app_definitions_inner ext env sorted_list_of_set (config_input caps) [sample_emu] ignore au report = Some res"
    "succeeded res plan" and plan: "plan_of ext env (config_input caps) ?p plan" .
  have ordered: "pl_ordered ?p = [(''r/go'', ''r'', sample_go), (''r/stop'', ''r'', sample_stop)]"
    by (simp add: sample_launch_planned_def sample_launch_authored_def)
  from plan obtain e f where ef: "plan_steps plan = [e, f]"
    and emits: "emits ext (config_input caps) ?p (''r/go'', ''r'', sample_go) e" "emits ext (config_input caps) ?p (''r/stop'', ''r'', sample_stop) f"
    by (auto simp: plan_of_def ordered list_all2_Cons1)
  have ids: "step_id sample_go = ''go''" "step_id sample_stop = ''stop''" "step_type_name sample_go = ''launch_app''"
    "step_type_name sample_stop = ''force_stop_app''"
    by (simp_all add: sample_go_def sample_stop_def sample_app_step_def sample_step_def)
  have usage: "pl_usage ?p = sample_launch_usage"
    by (simp add: pl_usage_def sample_launch_planned_def launch_usage_derived)
  have "esc_capabilities (es_constraints e) = [''app_launch'']" "esc_capabilities (es_constraints f) = []"
    using emits_capabilities [OF stages _ emits(1)] emits_capabilities [OF stages _ emits(2)]
    by (simp_all add: ordered ids usage step_capabilities_def sample_launch_usage_def make_execution_step_id_def
        fmlookup_hash_collect plain_usage_def)
  moreover have "map es_type_name (plan_steps plan) = [''launch_app'', ''force_stop_app'']"
    using plan_types [OF plan] by (simp add: ordered ids)
  then have "copy_steps plan = []" by (simp add: ef copy_steps_def)
  ultimately show ?thesis using that [OF res(1) _ ef] res(2) by (simp add: succeeded_def)
qed

text \<open>A device that cannot launch apps: the recipe is blocked by that capability.\<close>

lemma enable_launch: "enable_capabilities no_capabilities [''app_launch''] = Inr launch_device"
    "capability_known no_capabilities ''app_launch''" "\<not> runtime_capability_available no_capabilities ''app_launch''"
  by (simp_all add: set_runtime_capability_def capability_from_name_def launch_device_def capability_known_def
      runtime_capability_available_def no_capabilities_def)

lemma config_blocked:
  obtains diagnostics where
    "recipe_availability ext env sorted_list_of_set (config_prepared no_capabilities) sample_launch_recipe [sample_emu]
       = Some (unavailable [''app_launch''], diagnostics)"
proof -
  let ?probe = "recipe_probe ext env sorted_list_of_set (config_input no_capabilities) [sample_emu]"
  from config_pruned obtain actual where actual: "?probe no_capabilities = Some actual" "planning_result_is_empty_only actual" by blast
  then have no_steps: "\<not> planning_result_has_steps actual"
    by (simp add: planning_result_is_empty_only_def planning_result_has_steps_def)
  obtain upper_bound plan e f where upper: "plan_execution_with_app_definitions_inner ext env sorted_list_of_set
      (config_input all_runtime_capabilities) [sample_emu] True True False = Some upper_bound"
    and plan: "res_execution_plan upper_bound = Some plan" "plan_steps plan = [e, f]" "copy_steps plan = []"
    "esc_capabilities (es_constraints e) = [''app_launch'']" "esc_capabilities (es_constraints f) = []"
    by (rule config_runs [OF config_selected(2), of ext env True])
  from upper have upper: "recipe_upper_bound ext env sorted_list_of_set (config_input no_capabilities) [sample_emu] = Some upper_bound"
    by (simp add: recipe_upper_bound_def plan_execution_for_recipe_availability_upper_bound_def)
  from plan have missing: "missing_capabilities upper_bound no_capabilities = [''app_launch'']" "planning_result_has_steps upper_bound"
    by (simp_all add: missing_capabilities_def candidate_capabilities_def enable_launch planning_result_has_steps_def)
  obtain res plan' e' f' where "plan_execution_with_app_definitions_inner ext env sorted_list_of_set
      (config_input launch_device) [sample_emu] True False True = Some res"
    and "res_execution_plan res = Some plan'" "plan_steps plan' = [e', f']" "copy_steps plan' = []"
    "esc_capabilities (es_constraints e') = [''app_launch'']" "esc_capabilities (es_constraints f') = []"
    by (rule config_runs [OF config_selected(1), of ext env True])
  then have res: "?probe launch_device = Some res" "planning_result_has_steps res"
    by (simp_all add: recipe_probe_def plan_execution_for_recipe_availability_def planning_result_has_steps_def)
  have "capability_subsets [''app_launch''] = [[''app_launch'']]" by (simp add: capability_subsets_def)
  then have "minimal_solutions ?probe no_capabilities [] (capability_subsets [''app_launch'']) = Some (Inr [[''app_launch'']])"
    using res by (simp add: enable_launch del: enable_capabilities.simps)
  then have "\<exists>ds'. blocked_availability ?probe rid severity no_capabilities ds upper_bound = Some (unavailable [''app_launch''], ds')" for rid severity ds
    by (simp add: blocked_availability_def missing_capabilities_def [symmetric] missing Let_def)
  then obtain ds' where blocked: "blocked_availability ?probe (recipe_id sample_launch_recipe)
      (if recipe_id sample_launch_recipe \<in> set (pc_expanded_recipe_refs (config_prepared no_capabilities)) then ''error'' else ''warning'')
      no_capabilities (recipe_planner_diagnostics actual (recipe_id sample_launch_recipe)
        (if recipe_id sample_launch_recipe \<in> set (pc_expanded_recipe_refs (config_prepared no_capabilities)) then ''error'' else ''warning'')
        False) upper_bound = Some (unavailable [''app_launch''], ds')" by blast
  show ?thesis
    by (rule that [of ds'])
      (simp only: recipe_availability_probe config_planner_input option.case config_input_caps availability_of_def Let_def
        actual(1) upper Option.bind.simps if_not_P [OF no_steps] actual(2) missing(2) not_True_eq_False if_False blocked)
qed

theorem recipe_blockers_exact_witness:
  "\<exists>input upper_bound. recipe_input (config_prepared no_capabilities) sample_launch_recipe = Some input
    \<and> recipe_upper_bound ascii_externals empty_host sorted_list_of_set input [sample_emu] = Some upper_bound
    \<and> \<not> runs_with (recipe_probe ascii_externals empty_host sorted_list_of_set input [sample_emu]) (pin_runtime_capabilities input) []
    \<and> (\<forall>c. c \<in> {''app_launch''} \<longleftrightarrow>
         (\<exists>names. c \<in> set names \<and> minimal_among
            (runs_with (recipe_probe ascii_externals empty_host sorted_list_of_set input [sample_emu]) (pin_runtime_capabilities input))
            (set (subseqs (missing_capabilities upper_bound (pin_runtime_capabilities input)))) names))"
proof -
  obtain diagnostics where "recipe_availability ascii_externals empty_host sorted_list_of_set (config_prepared no_capabilities)
      sample_launch_recipe [sample_emu] = Some (unavailable [''app_launch''], diagnostics)" by (rule config_blocked)
  from recipe_blockers_exact [OF this] show ?thesis by simp
qed

theorem recipe_available_iff_witness:
  "\<not> (is_some_and (recipe_probe ascii_externals empty_host sorted_list_of_set (config_input no_capabilities) [sample_emu]
          (pin_runtime_capabilities (config_input no_capabilities))) planning_result_has_steps
     \<or> is_some_and (recipe_probe ascii_externals empty_host sorted_list_of_set (config_input no_capabilities) [sample_emu]
          (pin_runtime_capabilities (config_input no_capabilities))) planning_result_is_empty_only
       \<and> is_some_and (recipe_upper_bound ascii_externals empty_host sorted_list_of_set (config_input no_capabilities) [sample_emu])
          planning_result_is_empty_only)"
proof -
  obtain diagnostics where "recipe_availability ascii_externals empty_host sorted_list_of_set (config_prepared no_capabilities)
      sample_launch_recipe [sample_emu] = Some (unavailable [''app_launch''], diagnostics)" by (rule config_blocked)
  from recipe_available_iff [OF this config_planner_input(2)] show ?thesis by simp
qed

section \<open>The plan of the sample configuration\<close>


end
