(* ===== verification/Apk_Manifest.thy ===== *)
theory Apk_Manifest
  imports Externals "HOL-Library.Product_Lexorder" "HOL-Library.Option_ord"
begin

text \<open>
  The inspection of the manifest of an APK (\<open>apk_manifest.rs\<close>): the record at the end of the archive, the
  single manifest entry, its size and header, and the facts of the parsed manifest.  The ZIP reader and
  the parser of binary XML are libraries and arguments of the model; a panic of the parser, which the
  code contains, is the answer \<open>None\<close>.
\<close>

section \<open>Numbers as text\<close>

type_synonym u32 = "32 word"

definition digit_value :: "char \<Rightarrow> nat option" where
  "digit_value c =
     (let n = of_char c in
      if 48 \<le> n \<and> n \<le> 57 then Some (n - 48)
      else if 97 \<le> n \<and> n \<le> 122 then Some (n - 87)
      else if 65 \<le> n \<and> n \<le> 90 then Some (n - 55)
      else None)"

fun parse_digits :: "nat \<Rightarrow> nat \<Rightarrow> string \<Rightarrow> nat option" where
  "parse_digits radix n [] = Some n"
| "parse_digits radix n (c # cs) =
     Option.bind (digit_value c) (\<lambda>d. if d < radix then parse_digits radix (n * radix + d) cs else None)"

text \<open>\<open>u32::from_str_radix\<close>, which is \<open>str::parse\<close> for ten: a plus sign is allowed before the digits.\<close>

definition u32_from_str_radix :: "nat \<Rightarrow> string \<Rightarrow> u32 option" where
  "u32_from_str_radix radix s =
     (let digits = (case s of c # d # cs \<Rightarrow> if c = CHR ''+'' then d # cs else s | _ \<Rightarrow> s)
      in if digits = [] then None
         else Option.bind (parse_digits radix 0 digits) (\<lambda>n. if n < 2 ^ 32 then Some (word_of_nat n) else None))"

abbreviation parse_u32 :: "string \<Rightarrow> u32 option" where
  "parse_u32 \<equiv> u32_from_str_radix 10"

abbreviation show_u32 :: "u32 \<Rightarrow> string" where
  "show_u32 w \<equiv> show_nat (unat w)"

lemma parse_digits_append: "parse_digits radix n (xs @ ys) = Option.bind (parse_digits radix n xs) (\<lambda>m. parse_digits radix m ys)"
proof (induction xs arbitrary: n)
  case (Cons c xs)
  then show ?case by (cases "digit_value c") simp_all
qed simp

lemma digit_value_digit: "d < 10 \<Longrightarrow> digit_value (char_of (48 + d)) = Some d"
  by (simp add: digit_value_def Let_def of_char_of)

lemma parse_digits_show: "parse_digits 10 0 (show_nat n) = Some n"
proof (induction n rule: show_nat.induct)
  case (1 n)
  then show ?case by (cases "n < 10") (simp_all add: show_nat.simps [of n] parse_digits_append digit_value_digit)
qed

lemma show_nat_digits: "set (show_nat n) \<subseteq> {c. is_digit c}"
proof (induction n rule: show_nat.induct)
  case (1 n)
  have "is_digit (char_of (48 + d))" if "d < 10" for d :: nat using that by (simp add: is_digit_def of_char_of)
  with 1 show ?case by (subst show_nat.simps) auto
qed

lemma show_nat_nonempty [simp]: "show_nat n \<noteq> []"
  by (subst show_nat.simps) simp

lemma parse_show_u32 [simp]: "parse_u32 (show_u32 w) = Some w"
proof -
  have "c \<noteq> CHR ''+''" if "c \<in> set (show_u32 w)" for c using that show_nat_digits by (fastforce simp: is_digit_def)
  then have "(case show_u32 w of c # d # cs \<Rightarrow> if c = CHR ''+'' then d # cs else show_u32 w | _ \<Rightarrow> show_u32 w) = show_u32 w"
    by (auto split: list.split)
  moreover have "unat w < 2 ^ 32" using unsigned_less [of w] by simp
  ultimately show ?thesis by (simp add: u32_from_str_radix_def parse_digits_show)
qed

section \<open>Errors and facts\<close>

datatype apk_manifest_error = ZipInvalid | ManifestMissing | ManifestTooLarge | ManifestInvalid | PackageMissing | InspectionFailed

fun apk_manifest_error_code :: "apk_manifest_error \<Rightarrow> string" where
  "apk_manifest_error_code ZipInvalid = ''apk_zip_invalid''"
| "apk_manifest_error_code ManifestMissing = ''apk_manifest_missing''"
| "apk_manifest_error_code ManifestTooLarge = ''apk_manifest_too_large''"
| "apk_manifest_error_code ManifestInvalid = ''apk_manifest_invalid''"
| "apk_manifest_error_code PackageMissing = ''apk_package_missing''"
| "apk_manifest_error_code InspectionFailed = ''apk_manifest_inspection_failed''"

datatype apk_permission_declaration_kind = UsesPermission | UsesPermissionSdk23

datatype apk_permission_declaration =
  PermissionDeclaration (apd_name: string) (apd_kind: apk_permission_declaration_kind) (apd_max_sdk_version: "string option")

text \<open>The derived order: by name, by kind and by maximum, where none is least.\<close>

definition declaration_key :: "apk_permission_declaration \<Rightarrow> string \<times> bool \<times> string option" where
  "declaration_key d = (apd_name d, apd_kind d = UsesPermissionSdk23, apd_max_sdk_version d)"

lemma declaration_key_inj: "declaration_key a = declaration_key b \<longleftrightarrow> a = b"
  by (cases a; cases b; cases "apd_kind a"; cases "apd_kind b") (auto simp: declaration_key_def)

instantiation apk_permission_declaration :: linorder
begin

definition "a \<le> b \<longleftrightarrow> declaration_key a \<le> declaration_key b" for a b :: apk_permission_declaration

definition "a < b \<longleftrightarrow> declaration_key a < declaration_key b" for a b :: apk_permission_declaration

instance
  by standard (auto simp: less_eq_apk_permission_declaration_def less_apk_permission_declaration_def declaration_key_inj less_le)

end

record apk_manifest_facts =
  amf_package_name :: string
  amf_version_code :: "string option"
  amf_version_name :: "string option"
  amf_min_sdk_version :: "string option"
  amf_target_sdk_version :: "string option"
  amf_permissions :: "apk_permission_declaration list"

section \<open>The archive\<close>

definition zip_eocd_min_bytes :: nat where
  "zip_eocd_min_bytes = 22"

definition zip_max_comment_bytes :: nat where
  "zip_max_comment_bytes = 65535"

definition le16 :: "u8 \<Rightarrow> u8 \<Rightarrow> u16" where
  "le16 a b = or (ucast a) (push_bit 8 (ucast b))"

definition le32 :: "u8 \<Rightarrow> u8 \<Rightarrow> u8 \<Rightarrow> u8 \<Rightarrow> u32" where
  "le32 a b c d = or (or (ucast a) (push_bit 8 (ucast b))) (or (push_bit 16 (ucast c)) (push_bit 24 (ucast d)))"

definition is_eocd :: "u8 list \<Rightarrow> bool" where
  "is_eocd r =
     (zip_eocd_min_bytes \<le> length r \<and> take 4 r = [0x50, 0x4b, 0x05, 0x06]
      \<and> zip_eocd_min_bytes + unat (le16 (r ! 20) (r ! 21)) = length r)"

text \<open>The record that starts last: \<open>search\<close> goes down from a start.\<close>

fun find_eocd :: "u8 list \<Rightarrow> nat \<Rightarrow> u8 list option" where
  "find_eocd tail_bytes 0 = (if is_eocd tail_bytes then Some tail_bytes else None)"
| "find_eocd tail_bytes (Suc start) =
     (if is_eocd (drop (Suc start) tail_bytes) then Some (drop (Suc start) tail_bytes)
      else find_eocd tail_bytes start)"

definition declared_zip_entry_count :: "u8 list \<Rightarrow> apk_manifest_error + nat" where
  "declared_zip_entry_count file =
     (let tail_size = min (length file) (zip_eocd_min_bytes + zip_max_comment_bytes);
          tail_bytes = drop (length file - tail_size) file
      in case find_eocd tail_bytes (length tail_bytes - zip_eocd_min_bytes) of
           None \<Rightarrow> Inl ZipInvalid
         | Some r \<Rightarrow>
             let entries_on_disk = le16 (r ! 8) (r ! 9); total_entries = le16 (r ! 10) (r ! 11)
             in if entries_on_disk \<noteq> total_entries \<or> total_entries = 0xFFFF then Inl ZipInvalid
                else Inr (unat total_entries))"

text \<open>An entry, its declared size, what can be read of it, and whether reading fails after that.\<close>

record apk_entry =
  ze_name :: string
  ze_size :: nat
  ze_data :: "u8 list"
  ze_fails :: bool

text \<open>The position of the only entry of that name; an entry that cannot be opened is an error.\<close>

fun unique_manifest_index :: "apk_entry option list \<Rightarrow> nat \<Rightarrow> nat option \<Rightarrow> apk_manifest_error + nat" where
  "unique_manifest_index [] i found = (case found of None \<Rightarrow> Inl ManifestMissing | Some k \<Rightarrow> Inr k)"
| "unique_manifest_index (None # entries) i found = Inl ZipInvalid"
| "unique_manifest_index (Some e # entries) i found =
     (if ze_name e = ''AndroidManifest.xml''
      then (if found \<noteq> None then Inl ZipInvalid else unique_manifest_index entries (Suc i) (Some i))
      else unique_manifest_index entries (Suc i) found)"

definition max_manifest_bytes :: nat where
  "max_manifest_bytes = 4 * 1024 * 1024"

definition read_manifest_bounded :: "apk_entry \<Rightarrow> apk_manifest_error + u8 list" where
  "read_manifest_bounded e =
     (if max_manifest_bytes < ze_size e then Inl ManifestTooLarge
      else let bytes = take (max_manifest_bytes + 1) (ze_data e)
           in if length (ze_data e) \<le> max_manifest_bytes \<and> ze_fails e then Inl ManifestInvalid
              else if max_manifest_bytes < length bytes then Inl ManifestTooLarge
              else Inr bytes)"

definition validate_axml_container :: "u8 list \<Rightarrow> apk_manifest_error + unit" where
  "validate_axml_container bytes =
     (if length bytes < 8 then Inl ManifestInvalid
      else if le16 (bytes ! 0) (bytes ! 1) \<noteq> 3 \<or> le16 (bytes ! 2) (bytes ! 3) \<noteq> 8
           \<or> unat (le32 (bytes ! 4) (bytes ! 5) (bytes ! 6) (bytes ! 7)) \<noteq> length bytes
      then Inl ManifestInvalid
      else Inr ())"

section \<open>The manifest\<close>

record xml_element =
  xe_type :: string
  xe_attributes :: "(string \<times> string) list"

text \<open>The root of a parsed manifest and the elements directly below it.\<close>

record parsed_manifest =
  pm_root :: xml_element
  pm_children :: "xml_element list"

definition get_attr :: "xml_element \<Rightarrow> string \<Rightarrow> string option" where
  "get_attr element name = map_of (xe_attributes element) name"

definition is_sdk_codename :: "string \<Rightarrow> bool" where
  "is_sdk_codename s =
     (case s of [] \<Rightarrow> False
      | c # _ \<Rightarrow> (is_lower c \<or> is_upper c)
          \<and> list_all (\<lambda>c. is_lower c \<or> is_upper c \<or> is_digit c \<or> c = CHR ''_'') s)"

definition typed_hexadecimal :: "string \<Rightarrow> string option" where
  "typed_hexadecimal s = or_else (strip_prefix ''(type 0x10) 0x'' s) (strip_prefix ''(type 0x11) 0x'' s)"

definition normalize_integer_value :: "string \<Rightarrow> bool \<Rightarrow> apk_manifest_error + string" where
  "normalize_integer_value s allow_sdk_codename =
     (case typed_hexadecimal s of
        Some encoded \<Rightarrow>
          (case u32_from_str_radix 16 encoded of
             Some number \<Rightarrow> Inr (show_u32 number)
           | None \<Rightarrow> Inl ManifestInvalid)
      | None \<Rightarrow>
          if map_option show_u32 (parse_u32 s) = Some s then Inr s
          else if allow_sdk_codename \<and> is_sdk_codename s then Inr s
          else Inl ManifestInvalid)"

definition integer_attribute :: "xml_element \<Rightarrow> string \<Rightarrow> bool \<Rightarrow> apk_manifest_error + string option" where
  "integer_attribute element name allow_sdk_codename =
     (case get_attr element name of
        None \<Rightarrow> Inr None
      | Some v \<Rightarrow> map_sum id Some (normalize_integer_value v allow_sdk_codename))"

text \<open>A name without the white space around it, when anything is left.\<close>

definition trimmed_attribute :: "xml_element \<Rightarrow> string \<Rightarrow> string option" where
  "trimmed_attribute element name = opt_filter (\<lambda>v. v \<noteq> []) (map_option trim (get_attr element name))"

definition permission_declaration ::
  "xml_element \<Rightarrow> apk_permission_declaration_kind \<Rightarrow> apk_manifest_error + apk_permission_declaration" where
  "permission_declaration element kind =
     (case trimmed_attribute element ''android:name'' of
        None \<Rightarrow> Inl ManifestInvalid
      | Some name \<Rightarrow> map_sum id (PermissionDeclaration name kind) (integer_attribute element ''android:maxSdkVersion'' False))"

text \<open>The SDK levels of the only \<open>uses-sdk\<close> so far, and the permissions.\<close>

record manifest_scan =
  sc_sdk :: "(string option \<times> string option) option"
  sc_permissions :: "apk_permission_declaration list"

definition scan_child :: "xml_element \<Rightarrow> manifest_scan \<Rightarrow> apk_manifest_error + manifest_scan" where
  "scan_child child scan =
     (if xe_type child = ''uses-sdk'' then
        (if sc_sdk scan \<noteq> None then Inl ManifestInvalid
         else (case integer_attribute child ''android:minSdkVersion'' True of
                 Inl error \<Rightarrow> Inl error
               | Inr minimum \<Rightarrow> map_sum id (\<lambda>target. scan \<lparr> sc_sdk := Some (minimum, target) \<rparr>)
                   (integer_attribute child ''android:targetSdkVersion'' True)))
      else if xe_type child = ''uses-permission'' then
        map_sum id (\<lambda>d. scan \<lparr> sc_permissions := sc_permissions scan @ [d] \<rparr>) (permission_declaration child UsesPermission)
      else if xe_type child = ''uses-permission-sdk-23'' then
        map_sum id (\<lambda>d. scan \<lparr> sc_permissions := sc_permissions scan @ [d] \<rparr>) (permission_declaration child UsesPermissionSdk23)
      else Inr scan)"

fun scan_children :: "xml_element list \<Rightarrow> manifest_scan \<Rightarrow> apk_manifest_error + manifest_scan" where
  "scan_children [] scan = Inr scan"
| "scan_children (child # children) scan =
     (case scan_child child scan of Inl error \<Rightarrow> Inl error | Inr scan' \<Rightarrow> scan_children children scan')"

definition extract_manifest_facts :: "parsed_manifest \<Rightarrow> apk_manifest_error + apk_manifest_facts" where
  "extract_manifest_facts parsed =
     (let element = pm_root parsed in
      if xe_type element \<noteq> ''manifest'' then Inl ManifestInvalid
      else (case trimmed_attribute element ''package'' of None \<Rightarrow> Inl PackageMissing | Some package_name \<Rightarrow>
           (case integer_attribute element ''android:versionCode'' False of Inl error \<Rightarrow> Inl error | Inr version_code \<Rightarrow>
           (case scan_children (pm_children parsed) \<lparr> sc_sdk = None, sc_permissions = [] \<rparr> of
              Inl error \<Rightarrow> Inl error
            | Inr scan \<Rightarrow>
                Inr \<lparr> amf_package_name = package_name, amf_version_code = version_code,
                      amf_version_name = get_attr element ''android:versionName'',
                      amf_min_sdk_version = Option.bind (sc_sdk scan) fst,
                      amf_target_sdk_version = Option.bind (sc_sdk scan) snd,
                      amf_permissions = remdups_adj (sort (sc_permissions scan)) \<rparr>))))"

definition parse_manifest_contained ::
  "(u8 list \<Rightarrow> parsed_manifest option) \<Rightarrow> u8 list \<Rightarrow> apk_manifest_error + apk_manifest_facts" where
  "parse_manifest_contained parse_axml bytes =
     (case parse_axml bytes of None \<Rightarrow> Inl ManifestInvalid | Some parsed \<Rightarrow> extract_manifest_facts parsed)"

text \<open>\<open>file\<close> is \<open>None\<close> when it cannot be opened; \<open>open_zip\<close> lists the entries of an archive.\<close>

definition inspect_apk_manifest ::
  "(u8 list \<Rightarrow> apk_entry option list option) \<Rightarrow> (u8 list \<Rightarrow> parsed_manifest option) \<Rightarrow> u8 list option
     \<Rightarrow> apk_manifest_error + apk_manifest_facts" where
  "inspect_apk_manifest open_zip parse_axml file =
     (case file of None \<Rightarrow> Inl InspectionFailed | Some bytes \<Rightarrow>
     (case declared_zip_entry_count bytes of Inl error \<Rightarrow> Inl error | Inr declared_entry_count \<Rightarrow>
     (case open_zip bytes of None \<Rightarrow> Inl ZipInvalid | Some entries \<Rightarrow>
        if length entries \<noteq> declared_entry_count then Inl ZipInvalid
        else (case unique_manifest_index entries 0 None of Inl error \<Rightarrow> Inl error | Inr index \<Rightarrow>
             (case entries ! index of None \<Rightarrow> Inl ZipInvalid | Some entry \<Rightarrow>
             (case read_manifest_bounded entry of Inl error \<Rightarrow> Inl error | Inr manifest_bytes \<Rightarrow>
             (case validate_axml_container manifest_bytes of Inl error \<Rightarrow> Inl error | Inr _ \<Rightarrow>
                parse_manifest_contained parse_axml manifest_bytes)))))))"

end
