(* ===== verification/Android_Permissions.thy ===== *)
theory Android_Permissions
  imports Apk_Manifest
begin

text \<open>
  The catalog of Android permissions and the classification of the permissions that a manifest requests
  (\<open>android_permissions.rs\<close>): which of them can be granted automatically, and at which API levels.
\<close>

section \<open>Data\<close>

definition runtime_permissions_api :: u32 where
  "runtime_permissions_api = 23"

datatype android_permission_classification =
    RuntimeGrantable | RuntimeRestricted | AppOpGrantable | ManualSpecialAccess | InstallTime
  | SignatureOrPrivileged | UnknownPermission

datatype target_sdk_state = TargetSdkMissing | TargetSdkNonNumeric

datatype android_permission_non_applicability =
    MaxSdkVersionExceeded u32
  | TargetSdkAboveMaximum u32 u32
  | TargetSdkBelowMinimum u32

datatype android_permission_indeterminacy =
    InvalidMaxSdkVersion
  | TargetSdkUnavailable u32 target_sdk_state
  | MaximumTargetSdkUnavailable u32 target_sdk_state

datatype android_permission_applicability =
    PermissionApplicable
  | PermissionNotApplicable android_permission_non_applicability
  | PermissionIndeterminate android_permission_indeterminacy

record android_api_bounds =
  ab_minimum :: u32
  ab_maximum :: "u32 option"

datatype android_app_op_mode = AppOpAllow

datatype android_permission_automation =
    RuntimeGrant bool
  | GrantAppOp string android_app_op_mode bool

record classified_android_permission =
  cp_declaration :: apk_permission_declaration
  cp_classification :: android_permission_classification
  cp_applicability :: android_permission_applicability
  cp_catalog_introduction_api :: "u32 option"
  cp_api_bounds :: "android_api_bounds option"
  cp_automation :: "android_permission_automation option"

record permission_catalog_entry =
  pce_name :: string
  pce_classification :: android_permission_classification
  pce_introduction_api :: u32
  pce_maximum_api :: "u32 option"
  pce_runtime_permission_model :: bool
  pce_minimum_target_sdk :: "u32 option"
  pce_maximum_target_sdk :: "u32 option"
  pce_public_dangerous :: bool
  pce_automation :: "android_permission_automation option"

section \<open>The catalog\<close>

definition runtime_permission :: "string \<Rightarrow> u32 \<Rightarrow> u32 option \<Rightarrow> permission_catalog_entry" where
  "runtime_permission name introduction_api minimum_target_sdk =
     \<lparr> pce_name = name, pce_classification = RuntimeGrantable, pce_introduction_api = introduction_api,
       pce_maximum_api = None, pce_runtime_permission_model = True, pce_minimum_target_sdk = minimum_target_sdk,
       pce_maximum_target_sdk = None, pce_public_dangerous = True, pce_automation = Some (RuntimeGrant False) \<rparr>"

definition restricted_permission :: "string \<Rightarrow> u32 \<Rightarrow> u32 option \<Rightarrow> u32 option \<Rightarrow> permission_catalog_entry" where
  "restricted_permission name introduction_api maximum_api minimum_target_sdk =
     \<lparr> pce_name = name, pce_classification = RuntimeRestricted, pce_introduction_api = introduction_api,
       pce_maximum_api = maximum_api, pce_runtime_permission_model = True, pce_minimum_target_sdk = minimum_target_sdk,
       pce_maximum_target_sdk = None, pce_public_dangerous = True, pce_automation = None \<rparr>"

definition non_runtime_permission ::
  "string \<Rightarrow> android_permission_classification \<Rightarrow> u32 \<Rightarrow> permission_catalog_entry" where
  "non_runtime_permission name classification introduction_api =
     \<lparr> pce_name = name, pce_classification = classification, pce_introduction_api = introduction_api,
       pce_maximum_api = None, pce_runtime_permission_model = False, pce_minimum_target_sdk = None,
       pce_maximum_target_sdk = None, pce_public_dangerous = False, pce_automation = None \<rparr>"

definition write_external_storage :: permission_catalog_entry where
  "write_external_storage =
     \<lparr> pce_name = ''android.permission.WRITE_EXTERNAL_STORAGE'', pce_classification = RuntimeGrantable,
       pce_introduction_api = 4, pce_maximum_api = None, pce_runtime_permission_model = True,
       pce_minimum_target_sdk = None, pce_maximum_target_sdk = Some 29, pce_public_dangerous = True,
       pce_automation = Some (RuntimeGrant False) \<rparr>"

definition manage_external_storage :: permission_catalog_entry where
  "manage_external_storage =
     \<lparr> pce_name = ''android.permission.MANAGE_EXTERNAL_STORAGE'', pce_classification = AppOpGrantable,
       pce_introduction_api = 30, pce_maximum_api = None, pce_runtime_permission_model = False,
       pce_minimum_target_sdk = None, pce_maximum_target_sdk = None, pce_public_dangerous = False,
       pce_automation = Some (GrantAppOp ''MANAGE_EXTERNAL_STORAGE'' AppOpAllow True) \<rparr>"

definition permission_catalog :: "permission_catalog_entry list" where
  "permission_catalog =
     [runtime_permission ''android.permission.ACCESS_COARSE_LOCATION'' 1 None,
      runtime_permission ''android.permission.ACCESS_FINE_LOCATION'' 1 None,
      runtime_permission ''android.permission.CALL_PHONE'' 1 None,
      runtime_permission ''android.permission.CAMERA'' 1 None,
      runtime_permission ''android.permission.GET_ACCOUNTS'' 1 None,
      restricted_permission ''android.permission.PROCESS_OUTGOING_CALLS'' 1 (Some 28) None,
      runtime_permission ''android.permission.READ_CALENDAR'' 1 None,
      runtime_permission ''android.permission.READ_CONTACTS'' 1 None,
      runtime_permission ''android.permission.READ_PHONE_STATE'' 1 None,
      restricted_permission ''android.permission.READ_SMS'' 1 None None,
      restricted_permission ''android.permission.RECEIVE_MMS'' 1 None None,
      restricted_permission ''android.permission.RECEIVE_SMS'' 1 None None,
      restricted_permission ''android.permission.RECEIVE_WAP_PUSH'' 1 None None,
      runtime_permission ''android.permission.RECORD_AUDIO'' 1 None,
      restricted_permission ''android.permission.SEND_SMS'' 1 None None,
      runtime_permission ''android.permission.WRITE_CALENDAR'' 1 None,
      runtime_permission ''android.permission.WRITE_CONTACTS'' 1 None,
      write_external_storage,
      runtime_permission ''android.permission.USE_SIP'' 9 None,
      runtime_permission ''com.android.voicemail.permission.ADD_VOICEMAIL'' 14 None,
      restricted_permission ''android.permission.READ_CALL_LOG'' 16 None None,
      restricted_permission ''android.permission.READ_EXTERNAL_STORAGE'' 16 (Some 32) None,
      restricted_permission ''android.permission.WRITE_CALL_LOG'' 16 None None,
      runtime_permission ''android.permission.BODY_SENSORS'' 20 None,
      runtime_permission ''android.permission.ANSWER_PHONE_CALLS'' 26 None,
      runtime_permission ''android.permission.READ_PHONE_NUMBERS'' 26 None,
      runtime_permission ''android.permission.ACCEPT_HANDOVER'' 28 None,
      restricted_permission ''android.permission.ACCESS_BACKGROUND_LOCATION'' 29 None (Some 29),
      runtime_permission ''android.permission.ACCESS_MEDIA_LOCATION'' 29 (Some 29),
      runtime_permission ''android.permission.ACTIVITY_RECOGNITION'' 29 (Some 29),
      runtime_permission ''android.permission.BLUETOOTH_ADVERTISE'' 31 (Some 31),
      runtime_permission ''android.permission.BLUETOOTH_CONNECT'' 31 (Some 31),
      runtime_permission ''android.permission.BLUETOOTH_SCAN'' 31 (Some 31),
      runtime_permission ''android.permission.UWB_RANGING'' 31 (Some 31),
      restricted_permission ''android.permission.BODY_SENSORS_BACKGROUND'' 33 None (Some 33),
      runtime_permission ''android.permission.NEARBY_WIFI_DEVICES'' 33 (Some 33),
      runtime_permission ''android.permission.POST_NOTIFICATIONS'' 33 None,
      runtime_permission ''android.permission.READ_MEDIA_AUDIO'' 33 (Some 33),
      runtime_permission ''android.permission.READ_MEDIA_IMAGES'' 33 (Some 33),
      runtime_permission ''android.permission.READ_MEDIA_VIDEO'' 33 (Some 33),
      runtime_permission ''android.permission.READ_MEDIA_VISUAL_USER_SELECTED'' 34 (Some 34),
      runtime_permission ''android.permission.RANGING'' 36 (Some 36),
      runtime_permission ''android.permission.ACCESS_LOCAL_NETWORK'' 37 (Some 37),
      non_runtime_permission ''android.permission.INTERNET'' InstallTime 1,
      non_runtime_permission ''android.permission.SYSTEM_ALERT_WINDOW'' ManualSpecialAccess 1,
      non_runtime_permission ''android.permission.WRITE_SETTINGS'' ManualSpecialAccess 1,
      non_runtime_permission ''android.permission.WRITE_SECURE_SETTINGS'' SignatureOrPrivileged 3,
      non_runtime_permission ''android.permission.BIND_DEVICE_ADMIN'' SignatureOrPrivileged 8,
      non_runtime_permission ''android.permission.BIND_VPN_SERVICE'' SignatureOrPrivileged 14,
      non_runtime_permission ''android.permission.BIND_ACCESSIBILITY_SERVICE'' SignatureOrPrivileged 16,
      non_runtime_permission ''android.permission.BIND_NOTIFICATION_LISTENER_SERVICE'' SignatureOrPrivileged 18,
      non_runtime_permission ''android.permission.ACCESS_NOTIFICATION_POLICY'' ManualSpecialAccess 23,
      manage_external_storage,
      non_runtime_permission ''android.permission.SCHEDULE_EXACT_ALARM'' ManualSpecialAccess 31,
      non_runtime_permission ''android.permission.USE_EXACT_ALARM'' ManualSpecialAccess 33]"

definition catalog_entry :: "string \<Rightarrow> permission_catalog_entry option" where
  "catalog_entry name = find (\<lambda>entry. pce_name entry = name) permission_catalog"

section \<open>Applicability\<close>

definition numeric_target_sdk :: "string option \<Rightarrow> target_sdk_state + u32" where
  "numeric_target_sdk target_sdk =
     (case target_sdk of
        None \<Rightarrow> Inl TargetSdkMissing
      | Some s \<Rightarrow> (case parse_u32 s of None \<Rightarrow> Inl TargetSdkNonNumeric | Some n \<Rightarrow> Inr n))"

fun minimum_option :: "u32 option \<Rightarrow> u32 option \<Rightarrow> u32 option" where
  "minimum_option (Some l) (Some r) = Some (min l r)"
| "minimum_option (Some v) None = Some v"
| "minimum_option None (Some v) = Some v"
| "minimum_option None None = None"

definition grants_at_runtime :: "permission_catalog_entry \<Rightarrow> bool" where
  "grants_at_runtime entry =
     (pce_runtime_permission_model entry
      \<and> (case pce_automation entry of Some (RuntimeGrant _) \<Rightarrow> True | _ \<Rightarrow> False))"

text \<open>The checks of the target SDK, in order; \<open>None\<close> when they pass.\<close>

definition check_minimum_target ::
  "permission_catalog_entry \<Rightarrow> string option \<Rightarrow> android_permission_applicability option" where
  "check_minimum_target entry target =
     (case pce_minimum_target_sdk entry of
        None \<Rightarrow> None
      | Some minimum \<Rightarrow>
          (case numeric_target_sdk target of
             Inl state \<Rightarrow> Some (PermissionIndeterminate (TargetSdkUnavailable minimum state))
           | Inr t \<Rightarrow> if t < minimum then Some (PermissionNotApplicable (TargetSdkBelowMinimum minimum)) else None))"

definition check_maximum_target ::
  "permission_catalog_entry \<Rightarrow> string option \<Rightarrow> android_permission_applicability option" where
  "check_maximum_target entry target =
     (case pce_maximum_target_sdk entry of
        None \<Rightarrow> None
      | Some maximum \<Rightarrow>
          (case numeric_target_sdk target of
             Inl state \<Rightarrow> Some (PermissionIndeterminate (MaximumTargetSdkUnavailable maximum state))
           | Inr t \<Rightarrow> if maximum < t then Some (PermissionNotApplicable (TargetSdkAboveMaximum maximum t)) else None))"

text \<open>The classification may change on the way: it is returned with the answer.\<close>

definition runtime_model_answer ::
  "permission_catalog_entry \<Rightarrow> string option \<Rightarrow> (android_permission_applicability \<times> android_permission_classification) option" where
  "runtime_model_answer entry target =
     (if grants_at_runtime entry
      then (case numeric_target_sdk target of
              Inl state \<Rightarrow> Some (PermissionIndeterminate (TargetSdkUnavailable runtime_permissions_api state), UnknownPermission)
            | Inr t \<Rightarrow> if t < runtime_permissions_api then Some (PermissionApplicable, InstallTime) else None)
      else None)"

definition minimum_api :: "permission_catalog_entry \<Rightarrow> apk_permission_declaration_kind \<Rightarrow> u32" where
  "minimum_api entry kind =
     (let minimum = pce_introduction_api entry;
          minimum = (if pce_runtime_permission_model entry then max minimum runtime_permissions_api else minimum)
      in if kind = UsesPermissionSdk23 then max minimum runtime_permissions_api else minimum)"

definition bounded_answer ::
  "permission_catalog_entry \<Rightarrow> apk_permission_declaration_kind \<Rightarrow> u32 option
     \<Rightarrow> android_permission_applicability \<times> android_api_bounds option" where
  "bounded_answer entry kind manifest_maximum =
     (let minimum = minimum_api entry kind; maximum = minimum_option (pce_maximum_api entry) manifest_maximum
      in case maximum of
           Some m \<Rightarrow>
             if m < minimum then (PermissionNotApplicable (MaxSdkVersionExceeded m), None)
             else (PermissionApplicable, Some \<lparr> ab_minimum = minimum, ab_maximum = maximum \<rparr>)
         | None \<Rightarrow> (PermissionApplicable, Some \<lparr> ab_minimum = minimum, ab_maximum = maximum \<rparr>))"

definition entry_applicability ::
  "permission_catalog_entry \<Rightarrow> apk_permission_declaration_kind \<Rightarrow> u32 option \<Rightarrow> string option
     \<Rightarrow> android_permission_applicability \<times> android_api_bounds option \<times> android_permission_classification" where
  "entry_applicability entry kind manifest_maximum target =
     (case or_else (check_minimum_target entry target) (check_maximum_target entry target) of
        Some answer \<Rightarrow> (answer, None, pce_classification entry)
      | None \<Rightarrow>
          (case runtime_model_answer entry target of
             Some (answer, classification) \<Rightarrow> (answer, None, classification)
           | None \<Rightarrow> (case bounded_answer entry kind manifest_maximum of
                        (answer, bounds) \<Rightarrow> (answer, bounds, pce_classification entry))))"

definition declaration_applicability ::
  "apk_permission_declaration \<Rightarrow> string option \<Rightarrow> permission_catalog_entry option
     \<Rightarrow> android_permission_applicability \<times> android_api_bounds option \<times> android_permission_classification" where
  "declaration_applicability declaration target entry =
     (let classification = (case entry of None \<Rightarrow> UnknownPermission | Some e \<Rightarrow> pce_classification e)
      in if is_some_and (apd_max_sdk_version declaration) (\<lambda>s. parse_u32 s = None)
         then (PermissionIndeterminate InvalidMaxSdkVersion, None, classification)
         else (case entry of
                 None \<Rightarrow> (PermissionApplicable, None, classification)
               | Some e \<Rightarrow> entry_applicability e (apd_kind declaration)
                             (Option.bind (apd_max_sdk_version declaration) parse_u32) target))"

definition classify_android_permission ::
  "apk_permission_declaration \<Rightarrow> string option \<Rightarrow> classified_android_permission" where
  "classify_android_permission declaration target =
     (let entry = catalog_entry (apd_name declaration) in
      case declaration_applicability declaration target entry of
        (applicability, bounds, classification) \<Rightarrow>
          \<lparr> cp_declaration = declaration, cp_classification = classification, cp_applicability = applicability,
            cp_catalog_introduction_api = map_option pce_introduction_api entry, cp_api_bounds = bounds,
            cp_automation = Option.bind
              (opt_filter (\<lambda>e. applicability = PermissionApplicable \<and> classification = pce_classification e \<and> bounds \<noteq> None) entry)
              pce_automation \<rparr>)"

definition classify_android_permissions ::
  "apk_permission_declaration list \<Rightarrow> string option \<Rightarrow> classified_android_permission list" where
  "classify_android_permissions declarations target =
     sort_key cp_declaration (map (\<lambda>d. classify_android_permission d target) declarations)"

end
