(* ===== verification/Apk_Correct.thy ===== *)
theory Apk_Correct
  imports Android_Permissions
begin

text \<open>What an accepted APK manifest guarantees, and when a permission is granted automatically.\<close>

section \<open>Integers\<close>

lemma show_u32_hd: "\<exists>c cs. show_u32 w = c # cs \<and> is_digit c"
  using show_nat_digits [of "unat w"] by (cases "show_u32 w") auto

lemma typed_hexadecimal_paren: "typed_hexadecimal (c # cs) \<noteq> None \<Longrightarrow> c = CHR ''(''"
  by (auto simp: typed_hexadecimal_def or_else_def split: if_splits option.splits)

lemma typed_hexadecimal_show [simp]: "typed_hexadecimal (show_u32 w) = None"
proof -
  obtain c cs where "show_u32 w = c # cs" "is_digit c" using show_u32_hd by blast
  moreover from this have "c \<noteq> CHR ''(''" by (auto simp: is_digit_def)
  ultimately show ?thesis using typed_hexadecimal_paren by metis
qed

lemma normalize_show [simp]: "normalize_integer_value (show_u32 w) allow = Inr (show_u32 w)"
  by (simp add: normalize_integer_value_def)

lemma normalized_value:
  assumes "normalize_integer_value s allow = Inr r"
  shows "(\<exists>w. r = show_u32 w) \<or> allow \<and> is_sdk_codename s \<and> r = s \<and> normalize_integer_value r allow = Inr r"
proof (cases "typed_hexadecimal s")
  case None
  with assms show ?thesis
    by (cases "parse_u32 s") (auto simp: normalize_integer_value_def split: if_splits)
next
  case (Some encoded)
  with assms show ?thesis by (cases "u32_from_str_radix 16 encoded") (auto simp: normalize_integer_value_def)
qed



section \<open>Facts\<close>

lemma integer_attribute_canonical:
  assumes "integer_attribute element name False = Inr v"
  shows "is_none_or v (\<lambda>s. \<exists>w. s = show_u32 w)"
proof (cases "get_attr element name")
  case (Some s)
  with assms obtain r where "normalize_integer_value s False = Inr r" "v = Some r"
    by (cases "normalize_integer_value s False") (auto simp: integer_attribute_def)
  with normalized_value [of s False r] show ?thesis by simp
qed (use assms in \<open>simp add: integer_attribute_def\<close>)

definition declaration_ok :: "apk_permission_declaration \<Rightarrow> bool" where
  "declaration_ok d \<longleftrightarrow> apd_name d \<noteq> [] \<and> is_none_or (apd_max_sdk_version d) (\<lambda>s. \<exists>w. s = show_u32 w)"

lemma permission_declaration_ok:
  assumes "permission_declaration element kind = Inr d"
  shows "declaration_ok d"
proof -
  from assms obtain name where name: "trimmed_attribute element ''android:name'' = Some name"
    by (auto simp: permission_declaration_def split: option.splits)
  with assms obtain v where "integer_attribute element ''android:maxSdkVersion'' False = Inr v" "d = PermissionDeclaration name kind v"
    by (cases "integer_attribute element ''android:maxSdkVersion'' False") (auto simp: permission_declaration_def)
  with name integer_attribute_canonical show ?thesis
    by (auto simp: declaration_ok_def trimmed_attribute_def opt_filter_eq_Some)
qed

lemma sc_permissions_sdk: "sc_permissions (scan \<lparr> sc_sdk := x \<rparr>) = sc_permissions scan"
  by simp

lemma scan_child_ok:
  assumes "scan_child child scan = Inr scan'" and "list_all declaration_ok (sc_permissions scan)"
  shows "list_all declaration_ok (sc_permissions scan')"
proof -
  have pushed: "list_all declaration_ok (sc_permissions scan')"
    if "map_sum id (\<lambda>d. scan \<lparr> sc_permissions := sc_permissions scan @ [d] \<rparr>) (permission_declaration child kind) = Inr scan'" for kind
    using that assms(2) permission_declaration_ok [of child kind]
    by (cases "permission_declaration child kind") auto
  show ?thesis
  proof (cases "xe_type child = ''uses-sdk''")
    case True
    with assms(1) have "sc_sdk scan = None" by (cases "sc_sdk scan") (auto simp: scan_child_def)
    with True assms show ?thesis
      by (cases "integer_attribute child ''android:minSdkVersion'' True";
          cases "integer_attribute child ''android:targetSdkVersion'' True") (auto simp: scan_child_def)
  next
    case False
    with assms pushed show ?thesis by (auto simp: scan_child_def split: if_splits)
  qed
qed

lemma scan_children_ok:
  "scan_children children scan = Inr scan' \<Longrightarrow> list_all declaration_ok (sc_permissions scan) \<Longrightarrow>
   list_all declaration_ok (sc_permissions scan')"
proof (induction children arbitrary: scan)
  case (Cons child children)
  then show ?case by (cases "scan_child child scan") (auto dest: scan_child_ok)
qed simp

lemma sorted_dedup: "sorted_wrt (<) (remdups_adj (sort xs))" for xs :: "'a :: linorder list"
proof -
  have "sorted ys \<Longrightarrow> sorted_wrt (<) (remdups_adj ys)" for ys :: "'a list"
    by (induction ys rule: remdups_adj.induct) auto
  then show ?thesis by simp
qed

lemma extracted_permissions:
  assumes "extract_manifest_facts parsed = Inr facts"
  shows "list_all declaration_ok (amf_permissions facts)" and "sorted_wrt (<) (amf_permissions facts)"
    and "amf_package_name facts \<noteq> []"
proof -
  from assms obtain package_name where name: "trimmed_attribute (pm_root parsed) ''package'' = Some package_name"
    by (auto simp: extract_manifest_facts_def Let_def split: if_splits option.splits)
  with assms obtain version_code where "integer_attribute (pm_root parsed) ''android:versionCode'' False = Inr version_code"
    by (cases "integer_attribute (pm_root parsed) ''android:versionCode'' False") (auto simp: extract_manifest_facts_def Let_def split: if_splits)
  with assms name obtain scan where scan: "scan_children (pm_children parsed) \<lparr> sc_sdk = None, sc_permissions = [] \<rparr> = Inr scan"
    and facts: "amf_permissions facts = remdups_adj (sort (sc_permissions scan))" "amf_package_name facts = package_name"
    by (cases "scan_children (pm_children parsed) \<lparr> sc_sdk = None, sc_permissions = [] \<rparr>")
      (auto simp: extract_manifest_facts_def Let_def split: if_splits)
  from scan_children_ok [OF scan] facts(1) show "list_all declaration_ok (amf_permissions facts)"
    by (simp add: list_all_iff)
  from facts(1) sorted_dedup show "sorted_wrt (<) (amf_permissions facts)" by simp
  from facts(2) name show "amf_package_name facts \<noteq> []" by (simp add: trimmed_attribute_def opt_filter_eq_Some)
qed


section \<open>The accepted archive\<close>

lemma find_eocd_is: "find_eocd bs n = Some r \<Longrightarrow> is_eocd r"
  by (induction n) (auto split: if_splits)

lemma declared_count_bound:
  assumes "declared_zip_entry_count file = Inr n"
  shows "n < 65535"
proof -
  from assms obtain total :: u16 where "n = unat total" "total \<noteq> 0xFFFF"
    by (auto simp: declared_zip_entry_count_def Let_def split: option.splits if_splits)
  moreover have "unat total < 2 ^ LENGTH(16)" by (rule unsigned_less)
  moreover have "unat total \<noteq> 65535" using \<open>total \<noteq> 0xFFFF\<close>
  proof (rule contrapos_nn)
    assume "unat total = 65535"
    then have "word_of_nat (unat total) = (word_of_nat 65535 :: u16)" by simp
    then show "total = 0xFFFF" by simp
  qed
  ultimately show ?thesis by simp
qed

abbreviation is_manifest :: "apk_entry option \<Rightarrow> bool" where
  "is_manifest e \<equiv> is_some_and e (\<lambda>e. ze_name e = ''AndroidManifest.xml'')"

lemma unique_manifest_index_facts:
  assumes "unique_manifest_index entries i found = Inr k" and "is_none_or found (\<lambda>j. j < i)"
  shows "None \<notin> set entries
    \<and> (case found of
         None \<Rightarrow> i \<le> k \<and> k < i + length entries \<and> (\<forall>j < length entries. is_manifest (entries ! j) \<longleftrightarrow> i + j = k)
       | Some f \<Rightarrow> k = f \<and> (\<forall>j < length entries. \<not> is_manifest (entries ! j)))"
  using assms
proof (induction entries i found rule: unique_manifest_index.induct)
  case (3 e entries i found)
  show ?case
  proof (cases "ze_name e = ''AndroidManifest.xml''")
    case True
    with 3(3) have none: "found = None" and rest: "unique_manifest_index entries (Suc i) (Some i) = Inr k" by (auto split: if_splits)
    from 3(1) [OF True _ rest] none have "None \<notin> set entries" "k = i" "\<forall>j < length entries. \<not> is_manifest (entries ! j)" by auto
    with True none show ?thesis by (simp add: All_less_Suc2)
  next
    case False
    with 3(3) have rest: "unique_manifest_index entries (Suc i) found = Inr k" by simp
    from 3(4) have "is_none_or found (\<lambda>j. j < Suc i)" by (cases found) auto
    from 3(2) [OF False rest this] False show ?thesis by (cases found) (auto simp: All_less_Suc2)
  qed
qed (auto split: option.splits)

lemma read_manifest_facts:
  assumes "read_manifest_bounded e = Inr bytes"
  shows "bytes = ze_data e \<and> length bytes \<le> max_manifest_bytes \<and> ze_size e \<le> max_manifest_bytes"
  using assms by (auto simp: read_manifest_bounded_def Let_def split: if_splits)

lemma axml_container_facts:
  assumes "validate_axml_container bytes = Inr u"
  shows "8 \<le> length bytes \<and> le16 (bytes ! 0) (bytes ! 1) = 3
    \<and> unat (le32 (bytes ! 4) (bytes ! 5) (bytes ! 6) (bytes ! 7)) = length bytes"
  using assms by (auto simp: validate_axml_container_def split: if_splits)

text \<open> C25: An APK whose manifest is accepted is an archive with fewer than 65,535 entries, as many as its end
  record declares, exactly one of which is the manifest; that entry holds at most four megabytes,
  starts as binary XML and states its own length; and it is this entry, whole, from which the facts are taken.\<close>

theorem inspected_manifest_bounded:
  assumes "inspect_apk_manifest open_zip parse_axml file = Inr facts"
  shows "\<exists>bytes entries k entry parsed. file = Some bytes \<and> open_zip bytes = Some entries
    \<and> declared_zip_entry_count bytes = Inr (length entries) \<and> length entries < 65535
    \<and> {j. j < length entries \<and> is_manifest (entries ! j)} = {k} \<and> entries ! k = Some entry
    \<and> length (ze_data entry) \<le> max_manifest_bytes
    \<and> 8 \<le> length (ze_data entry) \<and> le16 (ze_data entry ! 0) (ze_data entry ! 1) = 3
    \<and> unat (le32 (ze_data entry ! 4) (ze_data entry ! 5) (ze_data entry ! 6) (ze_data entry ! 7)) = length (ze_data entry)
    \<and> parse_axml (ze_data entry) = Some parsed \<and> extract_manifest_facts parsed = Inr facts"
proof -
  from assms obtain bytes entries k where archive: "file = Some bytes" "open_zip bytes = Some entries"
    "declared_zip_entry_count bytes = Inr (length entries)" "unique_manifest_index entries 0 None = Inr k"
    by (auto simp: inspect_apk_manifest_def split: option.splits sum.splits if_splits)
  with assms obtain entry where entry: "entries ! k = Some entry"
    by (auto simp: inspect_apk_manifest_def split: option.splits)
  with assms archive obtain manifest where manifest: "read_manifest_bounded entry = Inr manifest"
    by (auto simp: inspect_apk_manifest_def split: sum.splits)
  with assms archive entry have container: "validate_axml_container manifest = Inr ()"
    by (cases "validate_axml_container manifest") (auto simp: inspect_apk_manifest_def)
  with assms archive entry manifest obtain parsed where parsed: "parse_axml manifest = Some parsed" "extract_manifest_facts parsed = Inr facts"
    by (auto simp: inspect_apk_manifest_def parse_manifest_contained_def split: option.splits)
  from unique_manifest_index_facts [OF archive(4)] have "k < length entries" "\<forall>j < length entries. is_manifest (entries ! j) \<longleftrightarrow> j = k"
    by auto
  then have "{j. j < length entries \<and> is_manifest (entries ! j)} = {k}" by auto
  with archive entry axml_container_facts [OF container] parsed read_manifest_facts [OF manifest] declared_count_bound [OF archive(3)]
  show ?thesis by blast
qed

section \<open>Permissions of an accepted manifest\<close>

definition in_api_bounds :: "android_api_bounds \<Rightarrow> u32 \<Rightarrow> bool" where
  "in_api_bounds bounds level \<longleftrightarrow> ab_minimum bounds \<le> level \<and> is_none_or (ab_maximum bounds) (\<lambda>m. level \<le> m)"

lemma minimum_option_le: "is_none_or (minimum_option a b) (\<lambda>m. l \<le> m) \<longleftrightarrow> is_none_or a (\<lambda>m. l \<le> m) \<and> is_none_or b (\<lambda>m. l \<le> m)"
  by (cases a; cases b) auto

lemma minimum_api_le:
  "minimum_api entry kind \<le> level \<longleftrightarrow> pce_introduction_api entry \<le> level
     \<and> (pce_runtime_permission_model entry \<or> kind = UsesPermissionSdk23 \<longrightarrow> runtime_permissions_api \<le> level)"
  by (auto simp: minimum_api_def Let_def)

lemma bounded_answer_bounds:
  assumes "bounded_answer entry kind manifest_maximum = (PermissionApplicable, Some bounds)"
  shows "bounds = \<lparr> ab_minimum = minimum_api entry kind, ab_maximum = minimum_option (pce_maximum_api entry) manifest_maximum \<rparr>
    \<and> in_api_bounds bounds (ab_minimum bounds)"
  using assms by (auto simp: bounded_answer_def in_api_bounds_def Let_def split: option.splits if_splits)

lemma classified_automation:
  assumes "cp_automation (classify_android_permission d target) = Some a"
  obtains entry bounds where "catalog_entry (apd_name d) = Some entry" and "pce_automation entry = Some a"
    and "cp_api_bounds (classify_android_permission d target) = Some bounds"
    and "bounded_answer entry (apd_kind d) (Option.bind (apd_max_sdk_version d) parse_u32) = (PermissionApplicable, Some bounds)"
    and "check_minimum_target entry target = None" "check_maximum_target entry target = None" "runtime_model_answer entry target = None"
    and "is_none_or (apd_max_sdk_version d) (\<lambda>s. parse_u32 s \<noteq> None)"
proof -
  obtain applicability bounds classification where
    answer: "declaration_applicability d target (catalog_entry (apd_name d)) = (applicability, bounds, classification)"
    by (cases "declaration_applicability d target (catalog_entry (apd_name d))") auto
  with assms obtain entry where entry: "catalog_entry (apd_name d) = Some entry" "pce_automation entry = Some a"
    and ok: "applicability = PermissionApplicable" "bounds \<noteq> None"
    by (auto simp: classify_android_permission_def Let_def bind_eq_Some_conv)
  from answer ok entry(1) have max: "is_none_or (apd_max_sdk_version d) (\<lambda>s. parse_u32 s \<noteq> None)"
    and step: "entry_applicability entry (apd_kind d) (Option.bind (apd_max_sdk_version d) parse_u32) target = (applicability, bounds, classification)"
    by (auto simp: declaration_applicability_def Let_def is_none_or_iff is_some_and_iff split: if_splits)
  from step ok(2) have "or_else (check_minimum_target entry target) (check_maximum_target entry target) = None"
    "runtime_model_answer entry target = None"
    by (auto simp: entry_applicability_def split: option.splits prod.splits)
  moreover from this step have "bounded_answer entry (apd_kind d) (Option.bind (apd_max_sdk_version d) parse_u32) = (applicability, bounds)"
    by (auto simp: entry_applicability_def split: prod.splits)
  ultimately show ?thesis
    using that [OF entry] max ok answer
    by (cases "check_minimum_target entry target") (auto simp: classify_android_permission_def Let_def)
qed

text \<open> C26: A permission is granted automatically only by the means that the catalog has for it, and its API
  bounds are never empty: they are exactly the levels at which the platform has the permission, the
  manifest requests it, and, for one that is asked for at run time, the platform asks.  The app
  targets an SDK for which the catalog allows it.\<close>

theorem automation_levels:
  assumes "cp_automation (classify_android_permission d target) = Some a"
  shows "\<exists>entry bounds. catalog_entry (apd_name d) = Some entry \<and> pce_automation entry = Some a
    \<and> cp_api_bounds (classify_android_permission d target) = Some bounds \<and> (\<exists>level. in_api_bounds bounds level)
    \<and> (\<forall>level. in_api_bounds bounds level \<longleftrightarrow>
         pce_introduction_api entry \<le> level \<and> is_none_or (pce_maximum_api entry) (\<lambda>m. level \<le> m)
         \<and> is_none_or (Option.bind (apd_max_sdk_version d) parse_u32) (\<lambda>m. level \<le> m)
         \<and> (pce_runtime_permission_model entry \<or> apd_kind d = UsesPermissionSdk23 \<longrightarrow> runtime_permissions_api \<le> level))
    \<and> is_none_or (pce_minimum_target_sdk entry) (\<lambda>m. \<exists>t. numeric_target_sdk target = Inr t \<and> m \<le> t)
    \<and> is_none_or (pce_maximum_target_sdk entry) (\<lambda>m. \<exists>t. numeric_target_sdk target = Inr t \<and> t \<le> m)
    \<and> (grants_at_runtime entry \<longrightarrow> (\<exists>t. numeric_target_sdk target = Inr t \<and> runtime_permissions_api \<le> t))"
proof -
  obtain entry bounds where entry: "catalog_entry (apd_name d) = Some entry" "pce_automation entry = Some a"
    "cp_api_bounds (classify_android_permission d target) = Some bounds"
    "bounded_answer entry (apd_kind d) (Option.bind (apd_max_sdk_version d) parse_u32) = (PermissionApplicable, Some bounds)"
    "check_minimum_target entry target = None" "check_maximum_target entry target = None" "runtime_model_answer entry target = None"
    "is_none_or (apd_max_sdk_version d) (\<lambda>s. parse_u32 s \<noteq> None)"
    by (rule classified_automation [OF assms])
  note bounds = bounded_answer_bounds [OF entry(4)]
  have "in_api_bounds bounds level \<longleftrightarrow>
      pce_introduction_api entry \<le> level \<and> is_none_or (pce_maximum_api entry) (\<lambda>m. level \<le> m)
      \<and> is_none_or (Option.bind (apd_max_sdk_version d) parse_u32) (\<lambda>m. level \<le> m)
      \<and> (pce_runtime_permission_model entry \<or> apd_kind d = UsesPermissionSdk23 \<longrightarrow> runtime_permissions_api \<le> level)" for level
    using bounds by (auto simp: in_api_bounds_def minimum_option_le minimum_api_le)
  moreover have "is_none_or (pce_minimum_target_sdk entry) (\<lambda>m. \<exists>t. numeric_target_sdk target = Inr t \<and> m \<le> t)"
    using entry(5) by (auto simp: check_minimum_target_def is_none_or_iff not_less split: option.splits sum.splits if_splits)
  moreover have "is_none_or (pce_maximum_target_sdk entry) (\<lambda>m. \<exists>t. numeric_target_sdk target = Inr t \<and> t \<le> m)"
    using entry(6) by (auto simp: check_maximum_target_def is_none_or_iff not_less split: option.splits sum.splits if_splits)
  moreover have "grants_at_runtime entry \<longrightarrow> (\<exists>t. numeric_target_sdk target = Inr t \<and> runtime_permissions_api \<le> t)"
    using entry(7) by (auto simp: runtime_model_answer_def not_less split: sum.splits if_splits)
  ultimately show ?thesis using entry(1-3) bounds by blast
qed

text \<open> C27: The permissions of an accepted manifest are sorted, none twice, each has a name, and the upper
  limit of each is a number: the classification that follows never finds a limit it cannot read.\<close>

theorem inspected_permissions_readable:
  assumes "extract_manifest_facts parsed = Inr facts"
  shows "sorted_wrt (<) (amf_permissions facts) \<and> amf_package_name facts \<noteq> []
    \<and> (\<forall>d \<in> set (amf_permissions facts). apd_name d \<noteq> []
         \<and> cp_applicability (classify_android_permission d target) \<noteq> PermissionIndeterminate InvalidMaxSdkVersion)"
proof -
  have "cp_applicability (classify_android_permission d target) \<noteq> PermissionIndeterminate InvalidMaxSdkVersion"
    if "d \<in> set (amf_permissions facts)" for d
  proof -
    from extracted_permissions(1) [OF assms] that have "is_none_or (apd_max_sdk_version d) (\<lambda>s. \<exists>w. s = show_u32 w)"
      by (auto simp: list_all_iff declaration_ok_def)
    then have readable: "\<not> is_some_and (apd_max_sdk_version d) (\<lambda>s. parse_u32 s = None)"
      by (auto simp: is_none_or_iff is_some_and_iff)
    have "fst (entry_applicability e k m t) \<noteq> PermissionIndeterminate InvalidMaxSdkVersion" for e k m t
      by (auto simp: entry_applicability_def check_minimum_target_def check_maximum_target_def runtime_model_answer_def
          bounded_answer_def Let_def or_else_def split: option.splits sum.splits if_splits prod.splits)
    then have never: "entry_applicability e k m t \<noteq> (PermissionIndeterminate InvalidMaxSdkVersion, b, c)" for e k m t b c
      by (metis fst_conv)
    from readable never show ?thesis
      by (cases "catalog_entry (apd_name d)")
        (auto simp: classify_android_permission_def declaration_applicability_def Let_def split: prod.splits)
  qed
  with extracted_permissions [OF assms] show ?thesis by (auto simp: list_all_iff declaration_ok_def)
qed

section \<open>A sample APK\<close>

text \<open>An archive of one entry, the header of a manifest without content, and what the parser makes of it.\<close>

definition sample_apk :: "u8 list" where
  "sample_apk = [0x50, 0x4b, 0x05, 0x06, 0, 0, 0, 0, 1, 0, 1, 0, 0, 0, 0, 0, 0, 0, 0, 0, 0, 0]"

definition sample_manifest_entry :: apk_entry where
  "sample_manifest_entry =
     \<lparr> ze_name = ''AndroidManifest.xml'', ze_size = 8, ze_data = [3, 0, 8, 0, 8, 0, 0, 0], ze_fails = False \<rparr>"

definition sample_parsed :: parsed_manifest where
  "sample_parsed =
     \<lparr> pm_root = \<lparr> xe_type = ''manifest'', xe_attributes = [(''package'', ''p'')] \<rparr>,
       pm_children = [\<lparr> xe_type = ''uses-permission'',
         xe_attributes = [(''android:name'', ''c''), (''android:maxSdkVersion'', ''8'')] \<rparr>] \<rparr>"

definition sample_facts :: apk_manifest_facts where
  "sample_facts =
     \<lparr> amf_package_name = ''p'', amf_version_code = None, amf_version_name = None, amf_min_sdk_version = None,
       amf_target_sdk_version = None, amf_permissions = [PermissionDeclaration ''c'' UsesPermission (Some ''8'')] \<rparr>"

lemma trim_leading_unchanged: "(\<And>w r. w \<in> set ws \<Longrightarrow> s \<noteq> w @ r) \<Longrightarrow> trim_leading ws s = s"
  by (subst trim_leading.simps) (use strip_first_Some [of ws s] in \<open>fastforce split: option.split\<close>)

lemma trim_letter:
  assumes "is_lower c"
  shows "trim [c] = [c]"
proof -
  have "[c] \<noteq> w @ r" "[c] \<noteq> rev w @ r" if "w \<in> set white_space_encodings" for w r
    using that assms by (auto simp: white_space_encodings_def is_lower_def Cons_eq_append_conv of_char_of)
  then have "trim_leading white_space_encodings [c] = [c]" "trim_leading (map rev white_space_encodings) [c] = [c]"
    by - (rule trim_leading_unchanged, fastforce)+
  then show ?thesis by (simp add: trim_def trim_start_def trim_end_def)
qed

lemma sample_extraction_facts: "extract_manifest_facts sample_parsed = Inr sample_facts"
proof -
  have "trim ''p'' = ''p''" "trim ''c'' = ''c''" by (rule trim_letter, simp add: is_lower_def)+
  moreover have "char_of (56 :: nat) = CHR ''8''" by code_simp
  ultimately show ?thesis
    by (simp add: extract_manifest_facts_def sample_parsed_def sample_facts_def trimmed_attribute_def get_attr_def
        integer_attribute_def scan_child_def permission_declaration_def normalize_integer_value_def typed_hexadecimal_def
        u32_from_str_radix_def digit_value_def show_nat.simps opt_filter_def or_else_def Let_def)
qed

theorem inspected_permissions_readable_witness:
  "sorted_wrt (<) (amf_permissions sample_facts) \<and> amf_package_name sample_facts \<noteq> []
    \<and> apd_name (PermissionDeclaration ''c'' UsesPermission (Some ''8'')) \<noteq> []
    \<and> cp_applicability (classify_android_permission (PermissionDeclaration ''c'' UsesPermission (Some ''8'')) None)
        \<noteq> PermissionIndeterminate InvalidMaxSdkVersion"
  using inspected_permissions_readable [OF sample_extraction_facts, of None] by (simp add: sample_facts_def)

theorem inspected_manifest_bounded_witness:
  "\<exists>bytes entries k entry parsed. Some sample_apk = Some bytes \<and> Some [Some sample_manifest_entry] = Some entries
    \<and> declared_zip_entry_count bytes = Inr (length entries) \<and> length entries < 65535
    \<and> {j. j < length entries \<and> is_manifest (entries ! j)} = {k} \<and> entries ! k = Some entry
    \<and> length (ze_data entry) \<le> max_manifest_bytes
    \<and> 8 \<le> length (ze_data entry) \<and> le16 (ze_data entry ! 0) (ze_data entry ! 1) = 3
    \<and> unat (le32 (ze_data entry ! 4) (ze_data entry ! 5) (ze_data entry ! 6) (ze_data entry ! 7)) = length (ze_data entry)
    \<and> Some sample_parsed = Some parsed \<and> extract_manifest_facts parsed = Inr sample_facts"
proof -
  have "declared_zip_entry_count sample_apk = Inr 1"
    by (simp add: declared_zip_entry_count_def sample_apk_def is_eocd_def zip_eocd_min_bytes_def
        zip_max_comment_bytes_def le16_def le32_def Let_def)
  moreover have "validate_axml_container [3, 0, 8, 0, 8, 0, 0, 0] = Inr ()"
    by (simp add: validate_axml_container_def le16_def le32_def Let_def)
  ultimately have "inspect_apk_manifest (\<lambda>_. Some [Some sample_manifest_entry]) (\<lambda>_. Some sample_parsed) (Some sample_apk)
      = Inr sample_facts"
    by (simp add: inspect_apk_manifest_def sample_manifest_entry_def read_manifest_bounded_def max_manifest_bytes_def
        parse_manifest_contained_def sample_extraction_facts Let_def)
  from inspected_manifest_bounded [OF this] show ?thesis .
qed

theorem automation_levels_witness:
  "\<exists>entry bounds. catalog_entry ''android.permission.CAMERA'' = Some entry \<and> pce_automation entry = Some (RuntimeGrant False)
    \<and> cp_api_bounds (classify_android_permission (PermissionDeclaration ''android.permission.CAMERA'' UsesPermission (Some ''28'')) (Some ''33''))
        = Some bounds \<and> (\<exists>level. in_api_bounds bounds level)"
proof -
  let ?d = "PermissionDeclaration ''android.permission.CAMERA'' UsesPermission (Some ''28'')"
  have entry: "catalog_entry ''android.permission.CAMERA'' = Some (runtime_permission ''android.permission.CAMERA'' 1 None)"
    by (simp add: catalog_entry_def permission_catalog_def runtime_permission_def)
  have numbers: "parse_u32 ''28'' = Some 28" "parse_u32 ''33'' = Some 33"
    by (simp_all add: u32_from_str_radix_def digit_value_def Let_def)
  have "cp_automation (classify_android_permission ?d (Some ''33'')) = Some (RuntimeGrant False)"
    by (simp add: classify_android_permission_def entry declaration_applicability_def entry_applicability_def
        check_minimum_target_def check_maximum_target_def runtime_model_answer_def grants_at_runtime_def bounded_answer_def
        minimum_api_def numeric_target_sdk_def numbers runtime_permission_def runtime_permissions_api_def Let_def opt_filter_def)
  from automation_levels [OF this] show ?thesis by auto
qed

end
