(* ===== verification/Spec2Isabelle.thy ===== *)
theory Spec2Isabelle
  imports Runtime_Refs App_Definition Step_Specs Plan_Types Recipe_Graph Step_Sort Step_Selection
    Step_Contracts Bindings Step_Refs App_Targets App_Permissions App_Authority Plan_Correct Exec_Root
    Session_Progress Session_Redaction Configuration_Samples Apk_Correct
begin

text \<open>
  A model of the planner, the executor, the execution session and the runtime configuration of EmuChef, \<open>crates/emuchef-rust-backend/src\<close>.

  The program.  Authored YAML files describe Recipes (inputs, artifacts, steps with
  dependencies) and App Definitions (packages, permission sets, named target directories).
  The planner takes loaded recipes and App Definitions, a selection of recipes, input bindings
  of several layers and the capabilities of a connected device, and emits an execution plan or
  a list of errors.  It expands recipe dependencies, resolves bindings, selects the steps the
  device can run, prunes steps that refer to unbound optional inputs, validates parameters and
  dependencies, and sorts the steps; the plan is reviewed and then executed over
  adb.  The executor admits the plan, runs its steps in order behind gates (abort, cancellation,
  dependencies, capabilities, permission plans, root, conflicts, skip conditions), verifies each step and
  reports progress.  The execution session starts one run at a time on a thread, records its progress in a
  report and an event log that clients poll, and serves cancellation and the launch of an app afterwards.
  A configuration (a request over a saved configuration over a device plan) is what the planner is run on;
  its recipes are probed with the planner to tell which the device can run and what the others lack.

  Theories, in the order of their dependencies:
  \<^item> Prelude: options, results, strings as UTF-8 byte lists with the \<open>str\<close> methods the code
    uses, ordered maps (\<open>IndexMap\<close>) and hash maps (\<open>HashMap\<close>, finite maps).
  \<^item> Json: \<open>serde_json::Value\<close> with its three number representations at 64 bits.
  \<^item> Recipe_Model (\<open>model.rs\<close>), Runtime_Refs (\<open>runtime_refs.rs\<close>): authored recipes and the
    reference syntax; the parser is characterised by its printer.
  \<^item> Externals: code outside the repository (regular expressions, URL parsing, Unicode tables)
    as a record of functions, and the host file system.
  \<^item> Authored_Syntax, Numeric_Compare, App_Definition (\<open>authored_models.rs\<close>): lexical checks
    against their regular expressions, exact comparison of JSON numbers, and every validation
    of an App Definition.
  \<^item> Step_Specs (\<open>step_specs.rs\<close>): the table of step types.
  \<^item> Plan_Types (\<open>planner.rs\<close>): messages, capabilities, the execution plan and its snapshots.
  \<^item> Samples: authored values at which properties are instantiated.
  \<^item> Dependency_Order: the interface \<open>dependency_order\<close> of an ordering that puts dependencies
    first, interpreted by the recipe expansion and the step sort.
  \<^item> Recipe_Graph: \<open>expand_recipe_dependencies\<close>.
  \<^item> Step_Graph: validation of step dependencies, cycle search, ancestors.
  \<^item> Step_Sort: \<open>topologically_sort_steps\<close>.
  \<^item> Artifact_Selection, Local_Selection, Step_Selection: the selection of steps, artifacts and
    inputs.
  \<^item> Step_Contracts: the parameters of the emitted step types against the table.
  \<^item> Host_Paths, Bindings: paths of the host, binding layers, validation of values, snapshots.
  \<^item> Step_Refs: step references, their validation and their form in the plan.
  \<^item> App_Samples: apps and recipes at which properties are instantiated.
  \<^item> App_Targets (\<open>planner/app_targets.rs\<close>): named targets, provenance of sources, overlaps.
  \<^item> App_Permissions (\<open>planner/app_permissions.rs\<close>): permission plans.
  \<^item> App_Authority (\<open>planner/app_authority.rs\<close>): facts of apps that a plan relies on.
  \<^item> Planner: the stages of planning in order and the emission of the plan.
  \<^item> Plan_Emission: the emission cannot fail once the stages have passed.
  \<^item> Plan_Guards: the checks of the executor and the review on a plan alone.
  \<^item> Plan_Correct: properties of every plan that is returned.

  The executor (\<open>executor.rs\<close>, \<open>executor/root_requirements.rs\<close>):
  \<^item> Exec_Types, Runtime_State: failures, events, records and the state of a run.
  \<^item> Copy_Admission, Root_Requirements: which copies and which root work a plan may contain.
  \<^item> Exec_Device: the device trait as a record of functions on a world, and the dry-run device.
  \<^item> Sandbox_Paths: containment of host paths, and the checks of an archive before extraction.
  \<^item> Exec_Steps, Executor: conditions, the handlers of the step types, the gates, the loop, the result.
  \<^item> Exec_Run, Exec_Samples, Exec_Safety, Exec_Root: the run as a list of attempts, sample runs, and
    what holds of every run: success, dependencies, cancellation, fail-stop, root.

  The execution session (\<open>execution_session.rs\<close>, \<open>plan_digest.rs\<close>, \<open>errors.rs\<close>):
  \<^item> Plan_Digest: the canonical JSON of a plan and its digest.
  \<^item> Session_Report, Session_Updates: reports, events, redaction, and every update of a record.
  \<^item> Execution_Session: the manager: start, get, events, cancel, launch, and the slot.
  \<^item> Session_Worker: threads and clients as a step relation.  A step is one section that holds the lock,
    or what a thread does between two of them; a thread may panic whenever the plan runs.
  \<^item> Session_Log, Session_Invariant: the log explains the report, and the invariant of the system.
  \<^item> Session_Safety, Session_Progress, Session_Redaction: the slot, the log, polling, final reports,
    success, progress (the interface \<open>draining\<close>, interpreted by the system), redaction, launching.

  The configuration and the inspection of packages (\<open>runtime_configuration.rs\<close>, \<open>apk_manifest.rs\<close>,
  \<open>android_permissions.rs\<close>):
  \<^item> Runtime_Configuration: the preparation of a configuration from its layers, and its diagnostics.
  \<^item> Recipe_Availability: the probe of a recipe, the minimal sets of missing capabilities, the plan with its digest.
  \<^item> Configuration_Correct, Configuration_Samples: availability and blockers are what the planner says, and
    a plan given with a digest passes the start of an execution, whose checks are made again there.
  \<^item> Apk_Manifest: the end record of the archive, the bounded read, the container and the facts of the manifest.
  \<^item> Android_Permissions: the reviewed catalog and the classification of a declared permission.
  \<^item> Apk_Correct: bounds of an accepted archive, canonical integers, and the API levels of automation.

  Representation.  A struct is a record with prefixed fields, an enum a datatype, a fallible
  function returns \<open>option\<close> or a sum, a vector that errors are pushed on is the list returned.
  Mutable state that a recursion restores before it returns is passed down.  Recursions that
  end only on acyclic graphs take fuel: one more than the number of steps is given to
  \<open>add_local_step_with_dependencies\<close>, and \<open>select_local_step_ids_total\<close> shows it is enough.

  Devices, host file systems, downloads, the clock, SHA-256, JSON text, URL parsing, the zip
  and AXML readers and the files of the catalog are parameters;
  counters of \<open>u64\<close> (executions, event sequences) are natural numbers, since they grow by one at a time.
  A poisoned lock is entered as the code does, so that a panic leaves the state usable.

  Not modelled.  The adb transport and the commit of copied trees, downloads and the resolver of
  artifacts, YAML parsing, the editor, the arrangement of a configuration for display
  (\<open>describe_configuration\<close>, the review projection), the preparation of a plan for review (it hashes files on the
  device) and the desktop applications are I/O or glue around this core.
\<close>

end
